(* ===== verification/Prelude.thy ===== *)
theory Prelude
  imports Main
begin

text \<open>
  What the components share: the exceptions of Python as values, the result of a statement
  that may raise, \<open>for\<close> loops whose body may raise, Python's shifts on unbounded integers
  with their bit-level laws, and the generic invariant rule for loops.
\<close>

unbundle bit_operations_syntax

section \<open>Exceptions as values\<close>

datatype py_error =
    KeyError
  | IndexError
  | AssertionError
  | AttributeError
  | TypeError
  | ValueError
  | ZeroDivisionError
  | OverflowError
  | UnboundLocalError
  | NameError
  | GenericException string  \<comment> \<open>\<open>Exception\<close> itself\<close>
  | RuntimeError
  | RecursionError
  | JsonError  \<comment> \<open>of \<open>util/vendor.py\<close>\<close>
  | ArgumentTypeError
  | CalledProcessError
  | NotImplementedError
  | FileNotFoundError
  | SystemExit int

type_synonym 'a result = "py_error + 'a"

abbreviation raise :: "py_error \<Rightarrow> 'a result" where
  "raise e \<equiv> Inl e"

abbreviation ret :: "'a \<Rightarrow> 'a result" where
  "ret x \<equiv> Inr x"

named_theorems frame \<open>which fields an operation leaves alone\<close>

fun rbind :: "'a result \<Rightarrow> ('a \<Rightarrow> 'b result) \<Rightarrow> 'b result" where
  "rbind (Inl e) f = Inl e"
| "rbind (Inr x) f = f x"

lemma rbind_cong [fundef_cong]:
  "m = m' \<Longrightarrow> (\<And>x. m' = Inr x \<Longrightarrow> f x = f' x) \<Longrightarrow> rbind m f = rbind m' f'"
  by (cases m') auto

lemma rbind_eq_Inr [simp]: "rbind m f = Inr y \<longleftrightarrow> (\<exists>x. m = Inr x \<and> f x = Inr y)"
  by (cases m) auto

lemma rbind_eq_Inl: "rbind m f = Inl e \<longleftrightarrow> m = Inl e \<or> (\<exists>x. m = Inr x \<and> f x = Inl e)"
  by (cases m) auto

lemma rbind_total: "\<exists>x. m = Inr x \<Longrightarrow> (\<And>x. \<exists>y. f x = Inr y) \<Longrightarrow> \<exists>y. rbind m f = Inr y"
  by fastforce

lemma if_total:
  "(c \<Longrightarrow> \<exists>x. m = Inr x) \<Longrightarrow> (\<not> c \<Longrightarrow> \<exists>x. n = Inr x) \<Longrightarrow> \<exists>x. (if c then m else n) = Inr x"
  by simp

lemma rbind_ret [simp]: "rbind m Inr = m"
  by (cases m) auto

lemma rbind_assoc: "rbind (rbind m f) g = rbind m (\<lambda>x. rbind (f x) g)"
  by (cases m) auto

text \<open>\<open>assert b\<close> and a lookup \<open>d[k]\<close> that raises when the key is missing.\<close>

definition assertR :: "bool \<Rightarrow> unit result" where
  "assertR b = (if b then ret () else raise AssertionError)"

lemma assertR_Inr [simp]: "assertR b = Inr u \<longleftrightarrow> b"
  by (simp add: assertR_def)

lemma assertR_True [simp]: "assertR True = Inr ()"
  by (simp add: assertR_def)

fun of_option :: "py_error \<Rightarrow> 'a option \<Rightarrow> 'a result" where
  "of_option e None = raise e"
| "of_option e (Some x) = ret x"

lemma of_option_Inr [simp]: "of_option e m = Inr x \<longleftrightarrow> m = Some x"
  by (cases m) auto

lemma of_option_Inl [simp]: "of_option e m = Inl e' \<longleftrightarrow> m = None \<and> e' = e"
  by (cases m) auto

section \<open>Loops whose body may raise\<close>

fun foldR :: "('s \<Rightarrow> 'a \<Rightarrow> 's result) \<Rightarrow> 's \<Rightarrow> 'a list \<Rightarrow> 's result" where
  "foldR f s [] = ret s"
| "foldR f s (x # xs) = rbind (f s x) (\<lambda>s'. foldR f s' xs)"

fun mapR :: "('a \<Rightarrow> 'b result) \<Rightarrow> 'a list \<Rightarrow> 'b list result" where
  "mapR f [] = ret []"
| "mapR f (x # xs) = rbind (f x) (\<lambda>y. rbind (mapR f xs) (\<lambda>ys. ret (y # ys)))"

text \<open>Statements that may raise, or not end.\<close>

definition obind :: "'a result option \<Rightarrow> ('a \<Rightarrow> 'b result option) \<Rightarrow> 'b result option" where
  "obind m f = (case m of
     None \<Rightarrow> None
   | Some (Inl e) \<Rightarrow> Some (Inl e)
   | Some (Inr x) \<Rightarrow> f x)"

fun ofold :: "('s \<Rightarrow> 'a \<Rightarrow> 's result option) \<Rightarrow> 's \<Rightarrow> 'a list \<Rightarrow> 's result option" where
  "ofold f s [] = Some (ret s)"
| "ofold f s (x # xs) = obind (f s x) (\<lambda>s. ofold f s xs)"

lemma foldR_cong [fundef_cong]:
  "s = s' \<Longrightarrow> xs = xs' \<Longrightarrow> (\<And>t x. x \<in> set xs' \<Longrightarrow> f t x = f' t x)
    \<Longrightarrow> foldR f s xs = foldR f' s' xs'"
  by (induction xs arbitrary: s s' xs') (auto intro: rbind_cong)

lemma mapR_cong [fundef_cong]:
  "xs = xs' \<Longrightarrow> (\<And>x. x \<in> set xs' \<Longrightarrow> f x = f' x) \<Longrightarrow> mapR f xs = mapR f' xs'"
  by (induction xs arbitrary: xs') (auto intro: rbind_cong)

lemma foldR_append: "foldR f s (xs @ ys) = rbind (foldR f s xs) (\<lambda>s'. foldR f s' ys)"
  by (induction xs arbitrary: s) (auto simp: rbind_assoc)

lemma mapR_Inr_length: "mapR f xs = Inr ys \<Longrightarrow> length ys = length xs"
  by (induction xs arbitrary: ys) auto

lemma mapR_Inr_iff:
  "mapR f xs = Inr ys \<longleftrightarrow> list_all2 (\<lambda>x y. f x = Inr y) xs ys"
  by (induction xs arbitrary: ys) (auto simp: list_all2_Cons1)

lemma mapR_total: "(\<And>x. x \<in> set xs \<Longrightarrow> f x = Inr (g x)) \<Longrightarrow> mapR f xs = Inr (map g xs)"
  by (induction xs) auto

lemma mapR_map_total:
  "(\<And>x. x \<in> set xs \<Longrightarrow> f (g x) = Inr (h x)) \<Longrightarrow> mapR f (map g xs) = Inr (map h xs)"
  by (induction xs) auto

text \<open>
  The contract of a loop body: an invariant that one iteration keeps. The locale gives
  the rule for the whole loop; every component interprets it on its own operations.
\<close>

locale loop_invariant =
  fixes I :: "'s \<Rightarrow> bool"
    and body :: "'s \<Rightarrow> 'a \<Rightarrow> 's result"
  assumes body_keeps: "I s \<Longrightarrow> body s x = Inr s' \<Longrightarrow> I s'"
begin

lemma loop_keeps: "I s \<Longrightarrow> foldR body s xs = Inr s' \<Longrightarrow> I s'"
  by (induction xs arbitrary: s) (auto intro: body_keeps)

end

text \<open>The same for a relation between the state before and the state after.\<close>

locale loop_relation =
  fixes R :: "'s \<Rightarrow> 's \<Rightarrow> bool"
    and body :: "'s \<Rightarrow> 'a \<Rightarrow> 's result"
  assumes rel_refl: "R s s"
    and rel_trans: "R s t \<Longrightarrow> R t u \<Longrightarrow> R s u"
    and body_rel: "body s x = Inr s' \<Longrightarrow> R s s'"
begin

lemma loop_rel: "foldR body s xs = Inr s' \<Longrightarrow> R s s'"
  by (induction xs arbitrary: s) (auto intro: rel_refl rel_trans body_rel)

end

text \<open>And for a counter that one iteration raises by one at most.\<close>

locale loop_count =
  fixes mu :: "'s \<Rightarrow> nat"
    and body :: "'s \<Rightarrow> 'a \<Rightarrow> 's result"
  assumes body_count: "body s x = Inr s' \<Longrightarrow> mu s' \<le> mu s + 1"
begin

lemma loop_counts: "foldR body s xs = Inr s' \<Longrightarrow> mu s' \<le> mu s + length xs"
proof (induction xs arbitrary: s)
  case (Cons x xs)
  then obtain t where t: "body s x = Inr t" "foldR body t xs = Inr s'" by auto
  from Cons.IH [OF t(2)] body_count [OF t(1)] show ?case by simp
qed simp

end

text \<open>And for a body that never raises where an invariant holds.\<close>

locale loop_total =
  fixes I :: "'s \<Rightarrow> bool"
    and body :: "'s \<Rightarrow> 'a \<Rightarrow> 's result"
  assumes body_total: "I s \<Longrightarrow> \<exists>s'. body s x = Inr s' \<and> I s'"
begin

lemma loop_returns: "I s \<Longrightarrow> \<exists>s'. foldR body s xs = Inr s' \<and> I s'"
proof (induction xs arbitrary: s)
  case (Cons x xs)
  from body_total [OF Cons.prems] obtain t where t: "body s x = Inr t" "I t" by blast
  from Cons.IH [OF t(2)] t(1) show ?case by simp
qed simp

end

section \<open>Distinct keys\<close>

lemma not_image_neq: "f i \<notin> f ` A \<Longrightarrow> j \<in> A \<Longrightarrow> f j \<noteq> f i"
  by (metis imageI)

lemma distinct_map_parts:
  assumes "distinct (map f (xs @ ys @ i # zs))" "j \<in> set xs \<union> set ys \<union> set zs"
  shows "f j \<noteq> f i"
proof -
  have "f i \<notin> f ` set xs" "f i \<notin> f ` set ys" "f i \<notin> f ` set zs" using assms(1) by auto
  with assms(2) not_image_neq show ?thesis by (metis UnE)
qed

section \<open>Python's integers\<close>

text \<open>
  Python's integers are unbounded: \<open>x >> n\<close> is \<open>drop_bit\<close>, \<open>x << n\<close> is
  \<open>push_bit\<close>, \<open>&\<close> and \<open>|\<close> are \<open>AND\<close> and \<open>OR\<close>. A negative shift count raises
  ValueError, which only matters where a count is computed.
\<close>

abbreviation shr :: "int \<Rightarrow> nat \<Rightarrow> int" where
  "shr x n \<equiv> drop_bit n x"

abbreviation shl :: "int \<Rightarrow> nat \<Rightarrow> int" where
  "shl x n \<equiv> push_bit n x"

lemma and_mask_bounds:
  fixes x :: int
  shows "0 \<le> x AND 1 \<and> x AND 1 < 2" "0 \<le> x AND 3 \<and> x AND 3 < 4"
    "0 \<le> x AND 7 \<and> x AND 7 < 8" "0 \<le> x AND 31 \<and> x AND 31 < 32"
proof -
  have "x AND mask n = take_bit n x" for n by (simp add: take_bit_eq_mask)
  note m = this [of 1, unfolded mask_eq_exp_minus_1, simplified]
    this [of 2, unfolded mask_eq_exp_minus_1, simplified]
    this [of 3, unfolded mask_eq_exp_minus_1, simplified]
    this [of 5, unfolded mask_eq_exp_minus_1, simplified]
  show "0 \<le> x AND 1 \<and> x AND 1 < 2" "0 \<le> x AND 3 \<and> x AND 3 < 4"
    "0 \<le> x AND 7 \<and> x AND 7 < 8" "0 \<le> x AND 31 \<and> x AND 31 < 32"
    using take_bit_int_less_exp [of 1 x] take_bit_int_less_exp [of 2 x]
      take_bit_int_less_exp [of 3 x] take_bit_int_less_exp [of 5 x]
    by (simp_all add: m)
qed

lemma bit_numeral_masks:
  "bit (1::int) n \<longleftrightarrow> n < 1" "bit (3::int) n \<longleftrightarrow> n < 2" "bit (7::int) n \<longleftrightarrow> n < 3"
  "bit (15::int) n \<longleftrightarrow> n < 4" "bit (31::int) n \<longleftrightarrow> n < 5" "bit (63::int) n \<longleftrightarrow> n < 6"
  "bit (255::int) n \<longleftrightarrow> n < 8" "bit (1023::int) n \<longleftrightarrow> n < 10" "bit (2047::int) n \<longleftrightarrow> n < 11"
  using bit_mask_iff [where 'a = int, of 1 n] bit_mask_iff [where 'a = int, of 2 n]
    bit_mask_iff [where 'a = int, of 3 n] bit_mask_iff [where 'a = int, of 4 n]
    bit_mask_iff [where 'a = int, of 5 n] bit_mask_iff [where 'a = int, of 6 n]
    bit_mask_iff [where 'a = int, of 8 n] bit_mask_iff [where 'a = int, of 10 n]
    bit_mask_iff [where 'a = int, of 11 n]
  by (simp_all add: mask_eq_exp_minus_1)

lemma bit_int_ge: "0 \<le> x \<Longrightarrow> x < 2 ^ n \<Longrightarrow> n \<le> m \<Longrightarrow> \<not> bit (x::int) m"
  by (metis bit_take_bit_iff not_less take_bit_int_eq_self)

lemma bit_shl: "bit (shl k n) m \<longleftrightarrow> n \<le> m \<and> bit k (m - n)"
  by (simp add: bit_push_bit_iff_int)

lemma bit_shr: "bit (shr k n) m \<longleftrightarrow> bit k (n + m)"
  by (simp add: bit_drop_bit_eq)

lemmas bit_field_simps = bit_or_iff bit_and_iff bit_shl bit_shr bit_numeral_masks

end
