(* ===== verification/Isa.thy ===== *)
theory Isa
  imports Prelude
begin

text \<open>
  The instruction set of the performance model, \<open>perf-model/isa.py\<close>: the decoding tables, one
  record per instruction format, the \<open>Instr\<close> queries. A Python object whose attributes
  depend on the instruction (\<open>hasattr\<close>) has \<open>option\<close> fields; an attribute that exists on
  the class as well (\<open>CItype.offset\<close>, \<open>CItype.imm\<close>) yields \<open>ClassAttr\<close> when the
  instance does not set it. Instruction words are Python integers, hence \<open>int\<close>.
\<close>

section \<open>Registers\<close>

definition Reg :: "(string \<times> int) list" where
  "Reg =
     [(''zero'', 0), (''ra'', 1), (''sp'', 2), (''gp'', 3), (''tp'', 4),
      (''t0'', 5), (''t1'', 6), (''t2'', 7), (''s0'', 8), (''fp'', 8),
      (''s1'', 9), (''a0'', 10), (''a1'', 11), (''a2'', 12), (''a3'', 13),
      (''a4'', 14), (''a5'', 15), (''a6'', 16), (''a7'', 17), (''s2'', 18),
      (''s3'', 19), (''s4'', 20), (''s5'', 21), (''s6'', 22), (''s7'', 23),
      (''s8'', 24), (''s9'', 25), (''s10'', 26), (''s11'', 27), (''t3'', 28),
      (''t4'', 29), (''t5'', 30), (''t6'', 31), (''x0'', 0), (''x1'', 1),
      (''x2'', 2), (''x3'', 3), (''x4'', 4), (''x5'', 5), (''x6'', 6),
      (''x7'', 7), (''x8'', 8), (''x9'', 9), (''x10'', 10), (''x11'', 11),
      (''x12'', 12), (''x13'', 13), (''x14'', 14), (''x15'', 15), (''x16'', 16),
      (''x17'', 17), (''x18'', 18), (''x19'', 19), (''x20'', 20), (''x21'', 21),
      (''x22'', 22), (''x23'', 23), (''x24'', 24), (''x25'', 25), (''x26'', 26),
      (''x27'', 27), (''x28'', 28), (''x29'', 29),
      (''x30'', 30), (''x31'', 31)]"

definition reg_zero :: int where "reg_zero = the (map_of Reg ''zero'')"
definition reg_ra :: int where "reg_ra = the (map_of Reg ''ra'')"
definition reg_sp :: int where "reg_sp = the (map_of Reg ''sp'')"
definition reg_t0 :: int where "reg_t0 = the (map_of Reg ''t0'')"

lemma reg_values [simp]: "reg_zero = 0" "reg_ra = 1" "reg_sp = 2" "reg_t0 = 5"
  by (simp_all add: reg_zero_def reg_ra_def reg_sp_def reg_t0_def Reg_def)

section \<open>Sign extension\<close>

definition sign_ext :: "int \<Rightarrow> nat \<Rightarrow> nat \<Rightarrow> int result" where
  "sign_ext imm index xlen =
     (let imm_bits = index + 1 in
      rbind (assertR (shr imm imm_bits = 0)) (\<lambda>_.
      let neg = shr imm index in
      if xlen < imm_bits then raise ValueError
      else
        let sext_bits = xlen - imm_bits;
            sext_ones = shl 1 sext_bits - 1;
            sext = shl (neg * sext_ones) imm_bits
        in ret (sext OR imm)))"

abbreviation sign_ext32 :: "int \<Rightarrow> nat \<Rightarrow> int result" where
  "sign_ext32 imm index \<equiv> sign_ext imm index 32"

text \<open>
  The value of an attribute: what the instance was given, or the function or dictionary of that
  name that the class holds.
\<close>

datatype attr = IntAttr int | ClassAttr string

record addr_fields =
  base_reg :: int
  af_offset :: attr

section \<open>The instruction and its base name\<close>

record instr =
  bin :: int

definition table_16_4_RV32 :: "string list list" where
  "table_16_4_RV32 =
    [[''C.ADDI4SPN'', ''C.FLD'', ''C.LW'', ''C.FLW'',
      ''Reserved'', ''C.FSD'', ''C.SW'', ''C.FSW''],
     [''C.ADDI'', ''C.JAL'', ''C.LI'', ''C.LUI/C.ADDI16SP'',
      ''MISC-ALU'', ''C.J'', ''C.BEQZ'', ''C.BNEZ''],
     [''C.SLLI'', ''C.FLDSP'', ''C.LWSP'', ''C.FLWSP'',
      ''C.J[AL]R/C.MV/C.ADD'', ''C.FSDSP'', ''C.SWSP'', ''C.FSWSP'']]"

definition table_24_1 :: "string list list" where
  "table_24_1 =
    [[''LOAD'', ''LOAD-FP'', ''custom-0'', ''MISC-MEM'', ''OP-IMM'', ''AUIPC'', ''OP-IMM-32'', ''48b''],
     [''STORE'', ''STORE-FP'', ''custom-1'', ''AMO'', ''OP'', ''LUI'', ''OP-32'', ''64b''],
     [''MADD'', ''MSUB'', ''NMSUB'', ''NMADD'', ''OP-FP'', ''reserved'', ''custom-2/rv128'', ''48b''],
     [''BRANCH'', ''JALR'', ''reserved'', ''JAL'', ''SYSTEM'', ''reserved'', ''custom-3/rv128'', ''80b'']]"

definition is_compressed :: "'a instr_scheme \<Rightarrow> bool" where
  "is_compressed i \<longleftrightarrow> bin i AND 3 < 3"

definition size_of :: "'a instr_scheme \<Rightarrow> int" where
  "size_of i = (if is_compressed i then 2 else 4)"

definition base :: "'a instr_scheme \<Rightarrow> string" where
  "base i =
     (if is_compressed i then
        let line = bin i AND 3; col = shr (bin i) 13 AND 7
        in table_16_4_RV32 ! nat line ! nat col
      else
        let line = shr (bin i) 5 AND 3; col = shr (bin i) 2 AND 7
        in table_24_1 ! nat line ! nat col)"

section \<open>Instruction formats\<close>

record rtype =
  r_funct7 :: int
  r_rs2 :: int
  r_rs1 :: int
  r_funct3 :: int
  r_rd :: int
  r_opcode :: int

definition mk_Rtype :: "'a instr_scheme \<Rightarrow> rtype" where
  "mk_Rtype i =
     \<lparr>r_funct7 = shr (bin i) 25, r_rs2 = shr (bin i) 20 AND 31, r_rs1 = shr (bin i) 15 AND 31,
      r_funct3 = shr (bin i) 12 AND 7, r_rd = shr (bin i) 7 AND 31, r_opcode = bin i AND 63\<rparr>"

record itype =
  i_rs1 :: int
  i_funct3 :: int
  i_rd :: int
  i_opcode :: int
  i_imm :: int

definition mk_Itype :: "'a instr_scheme \<Rightarrow> itype result" where
  "mk_Itype i = rbind (sign_ext32 (shr (bin i) 20) 11) (\<lambda>imm.
     ret \<lparr>i_rs1 = shr (bin i) 15 AND 31, i_funct3 = shr (bin i) 12 AND 7,
          i_rd = shr (bin i) 7 AND 31, i_opcode = bin i AND 63, i_imm = imm\<rparr>)"

record stype =
  s_rs2 :: int
  s_rs1 :: int
  s_funct3 :: int
  s_opcode :: int
  s_imm :: int

definition stype_imm_bits :: "int \<Rightarrow> int" where
  "stype_imm_bits b = shl (shr b 25) 5 OR (shr b 7 AND 31)"

definition mk_Stype :: "'a instr_scheme \<Rightarrow> stype result" where
  "mk_Stype i = rbind (sign_ext32 (stype_imm_bits (bin i)) 11) (\<lambda>imm.
     ret \<lparr>s_rs2 = shr (bin i) 20 AND 31, s_rs1 = shr (bin i) 15 AND 31,
          s_funct3 = shr (bin i) 12 AND 7, s_opcode = bin i AND 63, s_imm = imm\<rparr>)"

record btype =
  b_rs2 :: int
  b_rs1 :: int
  b_funct3 :: int
  b_opcode :: int
  b_imm :: int

definition btype_imm_bits :: "int \<Rightarrow> int" where
  "btype_imm_bits b =
     shl (shr b 31) 12 OR shl (shr b 7 AND 1) 11 OR shl (shr b 25 AND 63) 5
       OR shl (shr b 8 AND 15) 1"

definition mk_Btype :: "'a instr_scheme \<Rightarrow> btype result" where
  "mk_Btype i = rbind (sign_ext32 (btype_imm_bits (bin i)) 12) (\<lambda>imm.
     ret \<lparr>b_rs2 = shr (bin i) 20 AND 31, b_rs1 = shr (bin i) 15 AND 31,
          b_funct3 = shr (bin i) 12 AND 7, b_opcode = bin i AND 63, b_imm = imm\<rparr>)"

record utype =
  u_imm_31_12 :: int
  u_imm_4_0 :: int
  u_rd :: int
  u_opcode :: int
  u_imm :: int

definition mk_Utype :: "'a instr_scheme \<Rightarrow> utype" where
  "mk_Utype i =
     \<lparr>u_imm_31_12 = shr (bin i) 12, u_imm_4_0 = shr (bin i) 7 AND 31,
      u_rd = shr (bin i) 7 AND 31, u_opcode = bin i AND 63, u_imm = shl (shr (bin i) 12) 12\<rparr>"

record jtype =
  j_rd :: int
  j_opcode :: int
  j_imm :: int

definition jtype_imm_bits :: "int \<Rightarrow> int" where
  "jtype_imm_bits b =
     shl (shr b 31) 20 OR shl (shr b 12 AND 255) 12 OR shl (shr b 20 AND 1) 11
       OR shl (shr b 21 AND 1023) 1"

definition mk_Jtype :: "'a instr_scheme \<Rightarrow> jtype result" where
  "mk_Jtype i = rbind (sign_ext32 (jtype_imm_bits (bin i)) 20) (\<lambda>imm.
     ret \<lparr>j_rd = shr (bin i) 7 AND 31, j_opcode = bin i AND 63, j_imm = imm\<rparr>)"

record moitype =
  moi_fm :: int
  moi_PI :: int
  moi_PO :: int
  moi_PR :: int
  moi_PW :: int
  moi_SI :: int
  moi_SO :: int
  moi_SR :: int
  moi_SW :: int
  moi_rs1 :: int
  moi_funct3 :: int
  moi_rd :: int
  moi_opcode :: int

definition mk_MOItype :: "'a instr_scheme \<Rightarrow> moitype" where
  "mk_MOItype i =
     \<lparr>moi_fm = shr (bin i) 28,
      moi_PI = shr (bin i) 27 AND 1, moi_PO = shr (bin i) 26 AND 1,
      moi_PR = shr (bin i) 25 AND 1, moi_PW = shr (bin i) 24 AND 1,
      moi_SI = shr (bin i) 23 AND 1, moi_SO = shr (bin i) 22 AND 1,
      moi_SR = shr (bin i) 21 AND 1, moi_SW = shr (bin i) 20 AND 1,
      moi_rs1 = shr (bin i) 15 AND 31, moi_funct3 = shr (bin i) 12 AND 7,
      moi_rd = shr (bin i) 7 AND 31, moi_opcode = bin i AND 63\<rparr>"

record crtype =
  cr_funct4 :: int
  cr_rs2 :: int
  cr_op :: int
  cr_rs1 :: int
  cr_rd :: "int option"
  cr_name :: string

definition cr_control :: "string list" where
  "cr_control = [''C.JR'', ''C.JALR'']"

definition cr_regreg :: "string list" where
  "cr_regreg = [''C.MV'', ''C.ADD'']"

definition mk_CRtype :: "'a instr_scheme \<Rightarrow> crtype" where
  "mk_CRtype i =
     (let funct4 = shr (bin i) 12;
          r = shr (bin i) 7 AND 31;
          rs2 = shr (bin i) 2 AND 31;
          b = base i;
          b = (if b = ''C.J[AL]R/C.MV/C.ADD'' then
                 if funct4 AND 1 \<noteq> 0 then
                   if rs2 = 0 then (if r = 0 then ''C.EBREAK'' else ''C.JALR'') else ''C.ADD''
                 else if rs2 = 0 then ''C.JR'' else ''C.MV''
               else b)
      in \<lparr>cr_funct4 = funct4, cr_rs2 = rs2, cr_op = bin i AND 3, cr_rs1 = r,
          cr_rd = (if b \<in> set cr_regreg then Some r else None), cr_name = b\<rparr>)"

record citype =
  ci_funct3 :: int
  ci_op :: int
  ci_rd :: "int option"
  ci_rs1 :: "int option"
  ci_offset :: "int option"
  ci_imm :: "int option"
  ci_nzimm :: "int option"
  ci_shamt :: "int option"

definition SPload :: "string list" where
  "SPload = [''C.LWSP'', ''C.LDSP'', ''C.LQSP'', ''C.FLWSP'', ''C.FLDSP'']"

definition constgen :: "string list" where
  "constgen = [''C.LI'', ''C.LUI'']"

definition ci_regimm :: "string list" where
  "ci_regimm = [''C.ADDI'', ''C.ADDIW'', ''C.ADDI16SP'', ''C.SLLI'']"

definition CI_Woffset :: "int \<Rightarrow> int" where
  "CI_Woffset i = shl (shr i 12 AND 1) 5 OR shl (shr i 4 AND 7) 2 OR shl (shr i 2 AND 3) 6"

definition CI_Doffset :: "int \<Rightarrow> int" where
  "CI_Doffset i = shl (shr i 12 AND 1) 5 OR shl (shr i 5 AND 3) 3 OR shl (shr i 2 AND 7) 6"

definition CI_Qoffset :: "int \<Rightarrow> int" where
  "CI_Qoffset i = shl (shr i 12 AND 1) 5 OR shl (shr i 6 AND 1) 4 OR shl (shr i 2 AND 15) 6"

definition CI_imm :: "int \<Rightarrow> int" where
  "CI_imm i = shl (shr i 12 AND 1) 5 OR (shr i 2 AND 31)"

definition CI_immsp :: "int \<Rightarrow> int" where
  "CI_immsp i =
     shl (shr i 12 AND 1) 9 OR shl (shr i 6 AND 1) 4 OR shl (shr i 5 AND 1) 6
       OR shl (shr i 3 AND 3) 7 OR shl (shr i 2 AND 1) 5"

definition CI_offset :: "(string \<times> (int \<Rightarrow> int)) list" where
  "CI_offset =
     [(''C.LWSP'', CI_Woffset), (''C.LDSP'', CI_Doffset), (''C.LQSP'', CI_Qoffset),
      (''C.FLWSP'', CI_Woffset), (''C.FLDSP'', CI_Doffset)]"

text \<open>An attribute that is only set under a condition, from a value that may raise.\<close>

definition set_if :: "bool \<Rightarrow> 'a result \<Rightarrow> 'a option \<Rightarrow> 'a option result" where
  "set_if c v old = (if c then rbind v (\<lambda>x. ret (Some x)) else ret old)"

definition mk_CItype :: "'a instr_scheme \<Rightarrow> citype result" where
  "mk_CItype i =
     (let r = shr (bin i) 7 AND 31;
          b = base i;
          b = (if b = ''C.LUI/C.ADDI16SP'' then
                 if r = reg_sp then ''C.ADDI16SP'' else ''C.LUI''
               else b);
          rd = (if b \<in> set (SPload @ constgen) then Some r else None)
      in
      rbind (set_if (b \<in> set SPload)
               (rbind (of_option KeyError (map_of CI_offset b)) (\<lambda>f. ret (f (bin i)))) None)
        (\<lambda>offset.
      rbind (set_if (b = ''C.LI'') (sign_ext32 (CI_imm (bin i)) 5) None) (\<lambda>imm.
      rbind (set_if (b = ''C.LUI'') (sign_ext32 (shl (CI_imm (bin i)) 12) 17) None) (\<lambda>nzimm.
      let rd = (if b \<in> set ci_regimm then Some r else rd);
          rs1 = (if b \<in> set ci_regimm then Some r
                 else if b \<in> set SPload then Some reg_sp else None)
      in
      rbind (set_if (b = ''C.ADDI'') (sign_ext32 (CI_imm (bin i)) 5) nzimm) (\<lambda>nzimm.
      rbind (set_if (b = ''C.ADDIW'') (sign_ext32 (CI_imm (bin i)) 5) imm) (\<lambda>imm.
      rbind (set_if (b = ''C.ADDI16SP'') (sign_ext32 (CI_immsp (bin i)) 9) nzimm) (\<lambda>nzimm.
      ret \<lparr>ci_funct3 = shr (bin i) 13, ci_op = bin i AND 3, ci_rd = rd, ci_rs1 = rs1,
           ci_offset = offset, ci_imm = imm, ci_nzimm = nzimm,
           ci_shamt = (if b = ''C.SLLI'' then Some (CI_imm (bin i)) else None)\<rparr>)))))))"

record csstype =
  css_funct3 :: int
  css_rs1 :: int
  css_rs2 :: int
  css_op :: int
  css_offset :: int

definition CSS_Woffset :: "int \<Rightarrow> int" where
  "CSS_Woffset i = shl (shr i 9 AND 15) 2 OR shl (shr i 7 AND 3) 6"

definition CSS_Doffset :: "int \<Rightarrow> int" where
  "CSS_Doffset i = shl (shr i 10 AND 7) 3 OR shl (shr i 7 AND 7) 6"

definition CSS_Qoffset :: "int \<Rightarrow> int" where
  "CSS_Qoffset i = shl (shr i 11 AND 3) 4 OR shl (shr i 7 AND 15) 6"

definition CSS_offset :: "(string \<times> (int \<Rightarrow> int)) list" where
  "CSS_offset =
     [(''C.SWSP'', CSS_Woffset), (''C.SDSP'', CSS_Doffset), (''C.SQSP'', CSS_Qoffset),
      (''C.FSWSP'', CSS_Woffset), (''C.FSDSP'', CSS_Doffset)]"

definition mk_CSStype :: "'a instr_scheme \<Rightarrow> csstype result" where
  "mk_CSStype i = rbind (of_option KeyError (map_of CSS_offset (base i))) (\<lambda>f.
     ret \<lparr>css_funct3 = shr (bin i) 13, css_rs1 = reg_sp, css_rs2 = shr (bin i) 2 AND 31,
          css_op = bin i AND 3, css_offset = f (bin i)\<rparr>)"

record ciwtype =
  ciw_funct3 :: int
  ciw_rd :: int
  ciw_op :: int
  ciw_nzuimm :: int
  ciw_rs1 :: "int option"

definition CIW_nzuimm :: "int \<Rightarrow> int" where
  "CIW_nzuimm i =
     shl (shr i 11 AND 3) 4 OR shl (shr i 7 AND 15) 6 OR shl (shr i 6 AND 1) 2
       OR shl (shr i 5 AND 1) 3"

definition mk_CIWtype :: "'a instr_scheme \<Rightarrow> ciwtype" where
  "mk_CIWtype i =
     \<lparr>ciw_funct3 = shr (bin i) 13, ciw_rd = (shr (bin i) 2 AND 7) + 8, ciw_op = bin i AND 3,
      ciw_nzuimm = CIW_nzuimm (bin i),
      ciw_rs1 = (if base i = ''C.ADDI4SPN'' then Some reg_sp else None)\<rparr>"

definition CLS_Woffset :: "int \<Rightarrow> int" where
  "CLS_Woffset i = shl (shr i 10 AND 7) 3 OR shl (shr i 6 AND 1) 2 OR shl (shr i 5 AND 1) 6"

definition CLS_Doffset :: "int \<Rightarrow> int" where
  "CLS_Doffset i = shl (shr i 10 AND 7) 3 OR shl (shr i 5 AND 3) 6"

definition CLS_Qoffset :: "int \<Rightarrow> int" where
  "CLS_Qoffset i = shl (shr i 11 AND 3) 4 OR shl (shr i 10 AND 1) 8 OR shl (shr i 5 AND 3) 6"

record cltype =
  cl_funct3 :: int
  cl_rs1 :: int
  cl_rd :: int
  cl_op :: int
  cl_offset :: int

definition CL_offset :: "(string \<times> (int \<Rightarrow> int)) list" where
  "CL_offset =
     [(''C.LW'', CLS_Woffset), (''C.LD'', CLS_Doffset), (''C.LQ'', CLS_Qoffset),
      (''C.FLW'', CLS_Woffset), (''C.FLD'', CLS_Doffset)]"

definition mk_CLtype :: "'a instr_scheme \<Rightarrow> cltype result" where
  "mk_CLtype i = rbind (of_option KeyError (map_of CL_offset (base i))) (\<lambda>f.
     ret \<lparr>cl_funct3 = shr (bin i) 13, cl_rs1 = (shr (bin i) 7 AND 7) + 8,
          cl_rd = (shr (bin i) 2 AND 7) + 8, cl_op = bin i AND 3, cl_offset = f (bin i)\<rparr>)"

record cstype =
  cs_funct3 :: int
  cs_rs1 :: int
  cs_rs2 :: int
  cs_op :: int
  cs_offset :: int

definition CS_offset :: "(string \<times> (int \<Rightarrow> int)) list" where
  "CS_offset =
     [(''C.SW'', CLS_Woffset), (''C.SD'', CLS_Doffset), (''C.SQ'', CLS_Qoffset),
      (''C.FSW'', CLS_Woffset), (''C.FSD'', CLS_Doffset)]"

definition mk_CStype :: "'a instr_scheme \<Rightarrow> cstype result" where
  "mk_CStype i = rbind (of_option KeyError (map_of CS_offset (base i))) (\<lambda>f.
     ret \<lparr>cs_funct3 = shr (bin i) 13, cs_rs1 = (shr (bin i) 7 AND 7) + 8,
          cs_rs2 = (shr (bin i) 2 AND 7) + 8, cs_op = bin i AND 3, cs_offset = f (bin i)\<rparr>)"

record catype =
  ca_funct6 :: int
  ca_rd :: int
  ca_rs1 :: int
  ca_funct2 :: int
  ca_rs2 :: int
  ca_op :: int

definition mk_CAtype :: "'a instr_scheme \<Rightarrow> catype" where
  "mk_CAtype i =
     (let r = shr (bin i) 7 AND 7
      in \<lparr>ca_funct6 = shr (bin i) 10, ca_rd = r + 8, ca_rs1 = r + 8,
          ca_funct2 = shr (bin i) 5 AND 3, ca_rs2 = (shr (bin i) 2 AND 7) + 8,
          ca_op = bin i AND 3\<rparr>)"

record cbtype =
  cb_funct3 :: int
  cb_offset :: int
  cb_rs1 :: int
  cb_op :: int
  cb_shamt :: "int option"
  cb_rd :: "int option"

definition cb_branch :: "string list" where
  "cb_branch = [''C.BEQZ'', ''C.BNEZ'']"

definition cb_regimm :: "string list" where
  "cb_regimm = [''C.SRLI'', ''C.SRAI'', ''C.ANDI'']"

definition CB_offset_bits :: "int \<Rightarrow> int" where
  "CB_offset_bits i =
     shl (shr i 12 AND 1) 8 OR shl (shr i 10 AND 3) 3 OR shl (shr i 5 AND 3) 6
       OR shl (shr i 3 AND 3) 1 OR shl (shr i 2 AND 1) 5"

definition mk_CBtype :: "'a instr_scheme \<Rightarrow> cbtype result" where
  "mk_CBtype i =
     (let b = base i; rs1 = (shr (bin i) 7 AND 7) + 8 in
      rbind (if b \<in> set cb_branch then sign_ext32 (CB_offset_bits (bin i)) 8
             else ret (shr (bin i) 10 AND 7)) (\<lambda>offset.
      rbind (set_if (b \<in> set cb_regimm)
               (if b = ''C.ANDI'' then sign_ext32 (CI_imm (bin i)) 5
                else ret (CI_imm (bin i))) None) (\<lambda>shamt.
      ret \<lparr>cb_funct3 = shr (bin i) 13, cb_offset = offset, cb_rs1 = rs1, cb_op = bin i AND 3,
           cb_shamt = shamt, cb_rd = (if b \<in> set cb_regimm then Some rs1 else None)\<rparr>)))"

record cjtype =
  cj_funct3 :: int
  cj_offset :: int
  cj_jump_target :: int
  cj_op :: int

definition CJ_offset :: "int \<Rightarrow> int" where
  "CJ_offset i =
     shl (shr i 12 AND 1) 11 OR shl (shl i 11 AND 1) 4 OR shl (shr i 9 AND 3) 8
       OR shl (shr i 8 AND 1) 10 OR shl (shr i 7 AND 1) 6 OR shl (shr i 6 AND 1) 7
       OR shl (shr i 3 AND 1) 1 OR shl (shr i 2 AND 1) 5"

definition mk_CJtype :: "'a instr_scheme \<Rightarrow> cjtype result" where
  "mk_CJtype i = rbind (assertR (base i \<in> {''C.J'', ''C.JAL''})) (\<lambda>_.
     rbind (sign_ext32 (CJ_offset (bin i)) 11) (\<lambda>offset.
     ret \<lparr>cj_funct3 = shr (bin i) 13, cj_offset = offset,
          cj_jump_target = shr (bin i) 2 AND 2047, cj_op = bin i AND 3\<rparr>))"

section \<open>The fields object of an instruction\<close>

datatype fclass =
  K_Itype | K_Utype | K_Rtype | K_Jtype | K_Btype | K_Stype | K_CItype | K_CSStype | K_CLtype
  | K_CStype | K_CJtype | K_CRtype | K_CBtype | K_CIWtype | K_CAtype

definition type_of_base :: "(string \<times> fclass) list" where
  "type_of_base =
     [(''OP-IMM'', K_Itype), (''LUI'', K_Utype), (''AUIPC'', K_Utype), (''OP'', K_Rtype),
      (''OP-32'', K_Rtype), (''JAL'', K_Jtype), (''JALR'', K_Itype), (''BRANCH'', K_Btype),
      (''LOAD'', K_Itype), (''STORE'', K_Stype), (''SYSTEM'', K_Itype),
      (''C.LWSP'', K_CItype), (''C.LDSP'', K_CItype), (''C.LQSP'', K_CItype),
      (''C.FLWSP'', K_CItype), (''C.FLDSP'', K_CItype),
      (''C.SWSP'', K_CSStype), (''C.SDSP'', K_CSStype), (''C.SQSP'', K_CSStype),
      (''C.FSWSP'', K_CSStype), (''C.FSDSP'', K_CSStype),
      (''C.LW'', K_CLtype), (''C.LD'', K_CLtype), (''C.LQ'', K_CLtype),
      (''C.FLW'', K_CLtype), (''C.FLD'', K_CLtype),
      (''C.SW'', K_CStype), (''C.SD'', K_CStype), (''C.SQ'', K_CStype),
      (''C.FSW'', K_CStype), (''C.FSD'', K_CStype),
      (''C.J'', K_CJtype), (''C.JAL'', K_CJtype), (''C.J[AL]R/C.MV/C.ADD'', K_CRtype),
      (''C.BEQZ'', K_CBtype), (''C.BNEZ'', K_CBtype),
      (''C.LI'', K_CItype), (''C.LUI/C.ADDI16SP'', K_CItype), (''C.ADDI'', K_CItype),
      (''C.ADDIW'', K_CItype), (''C.ADDI4SPN'', K_CIWtype), (''C.SLLI'', K_CItype),
      (''MISC-ALU'', K_CAtype)]"

datatype fields =
    F_Rtype rtype | F_Itype itype | F_Stype stype | F_Btype btype | F_Utype utype
  | F_Jtype jtype | F_CRtype crtype | F_CItype citype | F_CSStype csstype | F_CIWtype ciwtype
  | F_CLtype cltype | F_CStype cstype | F_CAtype catype | F_CBtype cbtype | F_CJtype cjtype

fun construct :: "fclass \<Rightarrow> 'a instr_scheme \<Rightarrow> fields result" where
  "construct K_Rtype i = ret (F_Rtype (mk_Rtype i))"
| "construct K_Itype i = rbind (mk_Itype i) (\<lambda>f. ret (F_Itype f))"
| "construct K_Stype i = rbind (mk_Stype i) (\<lambda>f. ret (F_Stype f))"
| "construct K_Btype i = rbind (mk_Btype i) (\<lambda>f. ret (F_Btype f))"
| "construct K_Utype i = ret (F_Utype (mk_Utype i))"
| "construct K_Jtype i = rbind (mk_Jtype i) (\<lambda>f. ret (F_Jtype f))"
| "construct K_CRtype i = ret (F_CRtype (mk_CRtype i))"
| "construct K_CItype i = rbind (mk_CItype i) (\<lambda>f. ret (F_CItype f))"
| "construct K_CSStype i = rbind (mk_CSStype i) (\<lambda>f. ret (F_CSStype f))"
| "construct K_CIWtype i = ret (F_CIWtype (mk_CIWtype i))"
| "construct K_CLtype i = rbind (mk_CLtype i) (\<lambda>f. ret (F_CLtype f))"
| "construct K_CStype i = rbind (mk_CStype i) (\<lambda>f. ret (F_CStype f))"
| "construct K_CAtype i = ret (F_CAtype (mk_CAtype i))"
| "construct K_CBtype i = rbind (mk_CBtype i) (\<lambda>f. ret (F_CBtype f))"
| "construct K_CJtype i = rbind (mk_CJtype i) (\<lambda>f. ret (F_CJtype f))"

definition fields_of :: "'a instr_scheme \<Rightarrow> fields result" where
  "fields_of i = rbind (of_option KeyError (map_of type_of_base (base i))) (\<lambda>k. construct k i)"

text \<open>The attributes the queries read; \<open>None\<close> is \<open>hasattr\<close> returning false.\<close>

fun f_rd :: "fields \<Rightarrow> int option" where
  "f_rd (F_Rtype f) = Some (r_rd f)"
| "f_rd (F_Itype f) = Some (i_rd f)"
| "f_rd (F_Utype f) = Some (u_rd f)"
| "f_rd (F_Jtype f) = Some (j_rd f)"
| "f_rd (F_CRtype f) = cr_rd f"
| "f_rd (F_CItype f) = ci_rd f"
| "f_rd (F_CIWtype f) = Some (ciw_rd f)"
| "f_rd (F_CLtype f) = Some (cl_rd f)"
| "f_rd (F_CAtype f) = Some (ca_rd f)"
| "f_rd (F_CBtype f) = cb_rd f"
| "f_rd _ = None"

fun f_rs1 :: "fields \<Rightarrow> int option" where
  "f_rs1 (F_Rtype f) = Some (r_rs1 f)"
| "f_rs1 (F_Itype f) = Some (i_rs1 f)"
| "f_rs1 (F_Stype f) = Some (s_rs1 f)"
| "f_rs1 (F_Btype f) = Some (b_rs1 f)"
| "f_rs1 (F_CRtype f) = Some (cr_rs1 f)"
| "f_rs1 (F_CItype f) = ci_rs1 f"
| "f_rs1 (F_CSStype f) = Some (css_rs1 f)"
| "f_rs1 (F_CIWtype f) = ciw_rs1 f"
| "f_rs1 (F_CLtype f) = Some (cl_rs1 f)"
| "f_rs1 (F_CStype f) = Some (cs_rs1 f)"
| "f_rs1 (F_CAtype f) = Some (ca_rs1 f)"
| "f_rs1 (F_CBtype f) = Some (cb_rs1 f)"
| "f_rs1 _ = None"

fun f_rs2 :: "fields \<Rightarrow> int option" where
  "f_rs2 (F_Rtype f) = Some (r_rs2 f)"
| "f_rs2 (F_Stype f) = Some (s_rs2 f)"
| "f_rs2 (F_Btype f) = Some (b_rs2 f)"
| "f_rs2 (F_CRtype f) = Some (cr_rs2 f)"
| "f_rs2 (F_CSStype f) = Some (css_rs2 f)"
| "f_rs2 (F_CStype f) = Some (cs_rs2 f)"
| "f_rs2 (F_CAtype f) = Some (ca_rs2 f)"
| "f_rs2 _ = None"

fun f_funct7 :: "fields \<Rightarrow> int option" where
  "f_funct7 (F_Rtype f) = Some (r_funct7 f)"
| "f_funct7 _ = None"

fun f_name :: "fields \<Rightarrow> string option" where
  "f_name (F_CRtype f) = Some (cr_name f)"
| "f_name _ = None"

fun class_default :: "string \<Rightarrow> int option \<Rightarrow> attr" where
  "class_default c None = ClassAttr c"
| "class_default c (Some v) = IntAttr v"

fun f_offset :: "fields \<Rightarrow> attr option" where
  "f_offset (F_CItype f) = Some (class_default ''CItype.offset'' (ci_offset f))"
| "f_offset (F_CSStype f) = Some (IntAttr (css_offset f))"
| "f_offset (F_CLtype f) = Some (IntAttr (cl_offset f))"
| "f_offset (F_CStype f) = Some (IntAttr (cs_offset f))"
| "f_offset (F_CBtype f) = Some (IntAttr (cb_offset f))"
| "f_offset (F_CJtype f) = Some (IntAttr (cj_offset f))"
| "f_offset _ = None"

fun f_imm :: "fields \<Rightarrow> attr option" where
  "f_imm (F_Itype f) = Some (IntAttr (i_imm f))"
| "f_imm (F_Stype f) = Some (IntAttr (s_imm f))"
| "f_imm (F_Btype f) = Some (IntAttr (b_imm f))"
| "f_imm (F_Utype f) = Some (IntAttr (u_imm f))"
| "f_imm (F_Jtype f) = Some (IntAttr (j_imm f))"
| "f_imm (F_CItype f) = Some (class_default ''CItype.imm'' (ci_imm f))"
| "f_imm _ = None"

section \<open>The queries of \<open>Instr\<close>\<close>

definition iloads :: "string list" where
  "iloads = [''C.LW'', ''C.LWSP'', ''LOAD'']"

definition floads :: "string list" where
  "floads = [''C.FLD'', ''C.FLW'', ''C.FLDSP'', ''C.FLWSP'', ''LOAD-FP'']"

definition istores :: "string list" where
  "istores = [''C.SW'', ''C.SWSP'', ''STORE'']"

definition fstores :: "string list" where
  "fstores = [''C.FSD'', ''C.FSW'', ''C.FSDSP'', ''C.FSWSP'', ''STORE-FP'']"

definition loads :: "string list" where "loads = iloads @ floads"
definition stores :: "string list" where "stores = istores @ fstores"

definition is_load :: "'a instr_scheme \<Rightarrow> bool" where
  "is_load i \<longleftrightarrow> base i \<in> set loads"

definition is_store :: "'a instr_scheme \<Rightarrow> bool" where
  "is_store i \<longleftrightarrow> base i \<in> set stores"

definition is_branch :: "'a instr_scheme \<Rightarrow> bool" where
  "is_branch i \<longleftrightarrow> base i \<in> {''C.BEQZ'', ''C.BNEZ'', ''BRANCH''}"

definition is_regjump :: "'a instr_scheme \<Rightarrow> bool result" where
  "is_regjump i =
     (if base i \<in> {''JALR''} then ret True
      else if base i = ''C.J[AL]R/C.MV/C.ADD'' then
        rbind (fields_of i) (\<lambda>f.
        rbind (of_option AttributeError (f_name f)) (\<lambda>n.
        ret (n \<in> {''C.JALR'', ''C.JR''})))
      else ret False)"

definition is_jump :: "'a instr_scheme \<Rightarrow> bool" where
  "is_jump i \<longleftrightarrow> base i \<in> {''JAL'', ''C.JAL'', ''C.J''}"

definition is_muldiv :: "'a instr_scheme \<Rightarrow> bool result" where
  "is_muldiv i =
     (if base i \<in> {''OP'', ''OP-32''} then
        rbind (fields_of i) (\<lambda>f.
        rbind (of_option AttributeError (f_funct7 f)) (\<lambda>x. ret (x = 1)))
      else ret False)"

definition offset :: "'a instr_scheme \<Rightarrow> attr result" where
  "offset i = rbind (fields_of i) (\<lambda>f.
     case f_offset f of Some a \<Rightarrow> ret a | None \<Rightarrow> of_option AttributeError (f_imm f))"

definition addr_fields_of :: "'a instr_scheme \<Rightarrow> addr_fields result" where
  "addr_fields_of i = rbind (fields_of i) (\<lambda>f.
     rbind (of_option AttributeError (f_rs1 f)) (\<lambda>r.
     rbind (offset i) (\<lambda>off. ret \<lparr>base_reg = r, af_offset = off\<rparr>)))"

definition has_WAW_from :: "'a instr_scheme \<Rightarrow> 'b instr_scheme \<Rightarrow> bool result" where
  "has_WAW_from this other = rbind (fields_of other) (\<lambda>a. rbind (fields_of this) (\<lambda>b.
     case (f_rd a, f_rd b) of
       (Some ard, Some brd) \<Rightarrow> ret (ard = brd \<and> ard \<noteq> reg_zero)
     | _ \<Rightarrow> ret False))"

definition has_RAW_from :: "'a instr_scheme \<Rightarrow> 'b instr_scheme \<Rightarrow> bool result" where
  "has_RAW_from this other = rbind (fields_of other) (\<lambda>a. rbind (fields_of this) (\<lambda>b.
     case f_rd a of
       None \<Rightarrow> ret False
     | Some ard \<Rightarrow>
         if ard = reg_zero then ret False
         else if f_rs1 b = Some ard then ret True
         else ret (f_rs2 b = Some ard)))"

definition has_WAR_from :: "'a instr_scheme \<Rightarrow> 'b instr_scheme \<Rightarrow> bool result" where
  "has_WAR_from this other = rbind (fields_of other) (\<lambda>a. rbind (fields_of this) (\<lambda>b.
     case f_rd b of
       None \<Rightarrow> ret False
     | Some brd \<Rightarrow>
         if brd = reg_zero then ret False
         else if f_rs1 a = Some brd then ret True
         else ret (f_rs2 a = Some brd)))"

section \<open>Reading an offset as a signed number\<close>

text \<open>
  \<open>to_signed\<close> of \<open>perf-model/model.py\<close>. The shift count \<open>xlen - 1\<close> is negative for
  \<open>xlen = 0\<close>, which Python refuses; every caller uses 32.
\<close>

definition to_signed :: "int \<Rightarrow> nat \<Rightarrow> int result" where
  "to_signed value xlen =
     (if xlen = 0 then raise ValueError
      else ret (if shr value (xlen - 1) \<noteq> 0 then value - shl 1 xlen else value))"

text \<open>Arithmetic on an attribute: a class attribute in its place raises TypeError.\<close>

fun int_of_attr :: "attr \<Rightarrow> int result" where
  "int_of_attr (IntAttr v) = ret v"
| "int_of_attr (ClassAttr c) = raise TypeError"

end
