(* ===== verification/Isa_Facts.thy ===== *)
theory Isa_Facts
  imports Isa
begin

text \<open>
  Facts about the decoder of \<open>Isa\<close>: sign extension against \<open>signed_take_bit\<close>, which words
  decode, the ranges of the register numbers, the immediates of the branch, jump, store and
  load formats against the encodings of the RISC-V manual, the hazard queries.
\<close>

section \<open>Sign extension\<close>

lemma sign_ext_eq:
  assumes "0 \<le> imm" "imm < 2 ^ (index + 1)" "index < xlen"
  shows "sign_ext imm index xlen = Inr (take_bit xlen (signed_take_bit index imm))"
proof -
  have hi: "\<not> bit imm n" if "index < n" for n
    using assms bit_int_ge [of imm "index + 1" n] that by simp
  have z: "shr imm (index + 1) = 0"
    by (rule bit_eqI) (simp add: bit_shr hi)
  have neg: "shr imm index = (if bit imm index then 1 else 0)"
  proof (rule bit_eqI)
    fix n show "bit (shr imm index) n = bit (if bit imm index then 1 else 0 :: int) n"
      using hi [of "index + n"] by (cases "n = 0") (auto simp: bit_shr bit_1_iff)
  qed
  have "shl (shr imm index * (shl 1 (xlen - (index + 1)) - 1)) (index + 1)
      = (if bit imm index then shl (mask (xlen - (index + 1))) (index + 1) else 0)"
    by (simp add: neg mask_eq_exp_minus_1)
  moreover have "(if bit imm index then shl (mask (xlen - (index + 1))) (index + 1) else 0) OR imm
      = take_bit xlen (signed_take_bit index imm)"
  proof (rule bit_eqI)
    fix n
    show "bit ((if bit imm index then shl (mask (xlen - (index + 1))) (index + 1) else 0) OR imm) n
        = bit (take_bit xlen (signed_take_bit index imm)) n"
      using hi [of n] assms(3)
      by (cases n index rule: linorder_cases)
        (auto simp: bit_or_iff bit_shl bit_mask_iff bit_take_bit_iff bit_signed_take_bit_iff
          simp del: push_bit_Suc)
  qed
  ultimately have "shl (shr imm index * (shl 1 (xlen - (index + 1)) - 1)) (index + 1) OR imm
      = take_bit xlen (signed_take_bit index imm)" by simp
  with assms z show ?thesis by (simp add: sign_ext_def Let_def assertR_def)
qed

lemma sign_ext_raises:
  assumes "0 \<le> imm" "2 ^ (index + 1) \<le> imm"
  shows "sign_ext imm index xlen = Inl AssertionError"
proof -
  have "shr imm (index + 1) \<noteq> 0"
    using assms by (auto simp: drop_bit_eq_div zdiv_eq_0_iff simp del: power_Suc)
  then show ?thesis by (simp add: sign_ext_def assertR_def)
qed

lemma to_signed_eq:
  assumes "k < xlen"
  shows "to_signed (take_bit xlen (signed_take_bit k v)) xlen = Inr (signed_take_bit k v)"
proof -
  let ?s = "signed_take_bit k v" and ?t = "take_bit xlen (signed_take_bit k v)"
  have top: "shr ?t (xlen - 1) = (if bit v k then 1 else 0)"
    using assms by (intro bit_eqI)
      (auto simp: bit_shr bit_take_bit_iff bit_signed_take_bit_iff bit_1_iff min_def
        dest: le_antisym)
  have "?t = ?s + (if bit v k then 2 ^ xlen else 0)"
  proof (cases "bit v k")
    case True
    have "- (2 ^ k) \<le> ?s" "?s < 0"
      using True by (simp_all add: signed_take_bit_int_greater_eq_minus_exp signed_take_bit_negative_iff)
    moreover have "(2::int) ^ k \<le> 2 ^ xlen" using assms by simp
    ultimately have "(?s + 2 ^ xlen) mod 2 ^ xlen = ?s + 2 ^ xlen" by (intro mod_pos_pos_trivial) linarith+
    with True show ?thesis by (simp add: take_bit_eq_mod)
  next
    case False
    have "0 \<le> ?s" using False by (simp add: signed_take_bit_nonnegative_iff)
    moreover have "?s < 2 ^ k" by (rule signed_take_bit_int_less_exp)
    moreover have "(2::int) ^ k \<le> 2 ^ xlen" using assms by simp
    ultimately have "?s mod 2 ^ xlen = ?s" by (intro mod_pos_pos_trivial) linarith+
    with False show ?thesis by (simp add: take_bit_eq_mod)
  qed
  with top assms show ?thesis by (simp add: to_signed_def)
qed

lemma signed_take_bit_range:
  "- (2 ^ k) \<le> v \<Longrightarrow> v < 2 ^ k \<Longrightarrow> signed_take_bit k v = (v::int)"
  by (simp add: signed_take_bit_int_eq_self)

lemma signed_take_bit_take_bit: "k < n \<Longrightarrow> signed_take_bit k (take_bit n v) = signed_take_bit k (v::int)"
  by (rule bit_eqI) (auto simp: bit_signed_take_bit_iff bit_take_bit_iff min_def)

text \<open>What a decoder that sign extends the right bits returns, read back.\<close>

lemma sign_ext_to_signed:
  assumes "v' = take_bit (k + 1) v" "- (2 ^ k) \<le> v" "v < 2 ^ k" "k < 32"
  shows "rbind (sign_ext32 v' k) (\<lambda>x. to_signed x 32) = Inr v"
proof -
  have "0 \<le> v'" "v' < 2 ^ (k + 1)" by (simp_all add: assms(1) del: power_Suc add_2_eq_Suc')
  then have "sign_ext32 v' k = Inr (take_bit 32 (signed_take_bit k v'))"
    using assms(4) by (rule sign_ext_eq)
  also have "signed_take_bit k v' = v"
    unfolding assms(1) using assms(2,3) by (simp add: signed_take_bit_take_bit signed_take_bit_range)
  finally show ?thesis using to_signed_eq [of k 32 v] assms(2-4) by (simp add: signed_take_bit_range)
qed

section \<open>The base name\<close>

lemma base_compressed: "is_compressed i \<Longrightarrow> base i \<in> set (concat table_16_4_RV32)"
proof -
  assume c: "is_compressed i"
  have "nat (bin i AND 3) < length table_16_4_RV32"
    using c and_mask_bounds(2) [of "bin i"] by (simp add: is_compressed_def table_16_4_RV32_def)
  moreover have "nat (shr (bin i) 13 AND 7) < 8"
    using and_mask_bounds(3) [of "shr (bin i) 13"] by linarith
  moreover have "\<forall>l<3. length (table_16_4_RV32 ! l) = 8" "length table_16_4_RV32 = 3"
    by (simp_all add: table_16_4_RV32_def less_Suc_eq numeral_eq_Suc)
  ultimately show ?thesis using c by (auto simp: base_def Let_def) (metis nth_mem)
qed

lemma base_uncompressed: "\<not> is_compressed i \<Longrightarrow> base i \<in> set (concat table_24_1)"
proof -
  assume u: "\<not> is_compressed i"
  have "nat (shr (bin i) 5 AND 3) < 4" "nat (shr (bin i) 2 AND 7) < 8"
    using and_mask_bounds(2) [of "shr (bin i) 5"] and_mask_bounds(3) [of "shr (bin i) 2"]
    by linarith+
  moreover have "\<forall>l<4. length (table_24_1 ! l) = 8" "length table_24_1 = 4"
    by (simp_all add: table_24_1_def less_Suc_eq numeral_eq_Suc)
  ultimately show ?thesis using u by (auto simp: base_def Let_def) (metis nth_mem)
qed

lemma base_cases:
  "base i \<in> set (concat (table_16_4_RV32 @ table_24_1))"
  using base_compressed [of i] base_uncompressed [of i] by (cases "is_compressed i") auto

lemma take_bit_low:
  fixes a b :: int
  assumes "take_bit n a = take_bit n b" "m \<le> n"
  shows "take_bit m a = take_bit m b"
  using assms by (metis min.absorb1 take_bit_take_bit)

lemma shr_and_low:
  fixes a b :: int
  assumes "take_bit n a = take_bit n b" "k + m \<le> n"
  shows "shr a k AND mask m = shr b k AND mask m"
proof (rule bit_eqI)
  fix j
  have "bit a i = bit b i" if "i < n" for i
    using assms(1) that by (metis bit_take_bit_iff)
  then show "bit (shr a k AND mask m) j = bit (shr b k AND mask m) j"
    using assms(2) by (auto simp: bit_and_iff bit_shr bit_mask_iff)
qed

text \<open>The seven opcode bits decide the base name of a 32-bit instruction.\<close>

lemma base_opcode:
  assumes "take_bit 7 (bin i) = take_bit 7 (bin j)" "\<not> is_compressed j"
  shows "base i = base j" "\<not> is_compressed i"
proof -
  have m: "(3::int) = mask 2" "(7::int) = mask 3" by (simp_all add: mask_eq_exp_minus_1)
  have low: "bin i AND 3 = bin j AND 3"
    using shr_and_low [OF assms(1), of 0 2] by (simp add: m)
  moreover have "shr (bin i) 5 AND 3 = shr (bin j) 5 AND 3"
    using shr_and_low [OF assms(1), of 5 2] by (simp add: m)
  moreover have "shr (bin i) 2 AND 7 = shr (bin j) 2 AND 7"
    using shr_and_low [OF assms(1), of 2 3] by (simp add: m)
  ultimately show "base i = base j" "\<not> is_compressed i"
    using assms(2) by (simp_all add: base_def is_compressed_def)
qed

section \<open>Which words decode\<close>

lemma of_bits_lt:
  assumes "\<And>n. k \<le> n \<Longrightarrow> \<not> bit (v::int) n"
  shows "0 \<le> v \<and> v < 2 ^ k"
proof -
  have "take_bit k v = v"
    by (rule bit_eqI) (metis assms bit_take_bit_iff not_le)
  then show ?thesis by (metis take_bit_int_less_exp take_bit_nonnegative)
qed

lemma word_bits: "0 \<le> b \<Longrightarrow> b < 2 ^ 32 \<Longrightarrow> 32 \<le> n \<Longrightarrow> \<not> bit (b::int) n"
  by (rule bit_int_ge)

lemma imm_bits_range:
  assumes "0 \<le> b" "b < 2 ^ 32"
  shows "0 \<le> shr b 20 \<and> shr b 20 < 2 ^ 12"
    "0 \<le> stype_imm_bits b \<and> stype_imm_bits b < 2 ^ 12"
    "0 \<le> btype_imm_bits b \<and> btype_imm_bits b < 2 ^ 13"
    "0 \<le> jtype_imm_bits b \<and> jtype_imm_bits b < 2 ^ 21"
proof -
  have hi: "\<not> bit b n" if "32 \<le> n" for n using assms that by (rule word_bits)
  show "0 \<le> shr b 20 \<and> shr b 20 < 2 ^ 12"
    by (rule of_bits_lt) (simp add: bit_shr hi)
  show "0 \<le> stype_imm_bits b \<and> stype_imm_bits b < 2 ^ 12"
    by (rule of_bits_lt, unfold stype_imm_bits_def bit_field_simps) (simp add: hi)
  show "0 \<le> btype_imm_bits b \<and> btype_imm_bits b < 2 ^ 13"
    by (rule of_bits_lt, unfold btype_imm_bits_def bit_field_simps) (auto simp: hi)
  show "0 \<le> jtype_imm_bits b \<and> jtype_imm_bits b < 2 ^ 21"
    by (rule of_bits_lt, unfold jtype_imm_bits_def bit_field_simps) (auto simp: hi)
qed

lemma compressed_imm_range:
  "0 \<le> CI_imm b \<and> CI_imm b < 2 ^ 6"
  "0 \<le> shl (CI_imm b) 12 \<and> shl (CI_imm b) 12 < 2 ^ 18"
  "0 \<le> CI_immsp b \<and> CI_immsp b < 2 ^ 10"
  "0 \<le> CB_offset_bits b \<and> CB_offset_bits b < 2 ^ 9"
  "0 \<le> CJ_offset b \<and> CJ_offset b < 2 ^ 12"
  by (rule of_bits_lt, unfold CI_imm_def CI_immsp_def CB_offset_bits_def CJ_offset_def
      bit_field_simps, force)+

definition is_word :: "'a instr_scheme \<Rightarrow> bool" where
  "is_word i \<longleftrightarrow> 0 \<le> bin i \<and> bin i < 2 ^ 32"

lemma sign_ext32_total: "0 \<le> v \<and> v < 2 ^ (k + 1) \<Longrightarrow> k < 32 \<Longrightarrow> \<exists>x. sign_ext32 v k = Inr x"
  by (simp add: sign_ext_eq)

lemma mk_totals:
  assumes "is_word i"
  shows "\<exists>f. mk_Itype i = Inr f" "\<exists>f. mk_Stype i = Inr f" "\<exists>f. mk_Btype i = Inr f"
    "\<exists>f. mk_Jtype i = Inr f"
proof -
  note r = imm_bits_range [of "bin i"]
  have "0 \<le> bin i" "bin i < 2 ^ 32" using assms by (simp_all add: is_word_def)
  then have "\<exists>x. sign_ext32 (shr (bin i) 20) 11 = Inr x"
    "\<exists>x. sign_ext32 (stype_imm_bits (bin i)) 11 = Inr x"
    "\<exists>x. sign_ext32 (btype_imm_bits (bin i)) 12 = Inr x"
    "\<exists>x. sign_ext32 (jtype_imm_bits (bin i)) 20 = Inr x"
    using r by (auto intro!: sign_ext32_total)
  then show "\<exists>f. mk_Itype i = Inr f" "\<exists>f. mk_Stype i = Inr f" "\<exists>f. mk_Btype i = Inr f"
    "\<exists>f. mk_Jtype i = Inr f"
    by (auto simp: mk_Itype_def mk_Stype_def mk_Btype_def mk_Jtype_def)
qed

lemma compressed_sign_ext_total:
  "\<exists>x. sign_ext32 (CI_imm b) 5 = Inr x" "\<exists>x. sign_ext32 (shl (CI_imm b) 12) 17 = Inr x"
  "\<exists>x. sign_ext32 (CI_immsp b) 9 = Inr x" "\<exists>x. sign_ext32 (CB_offset_bits b) 8 = Inr x"
  "\<exists>x. sign_ext32 (CJ_offset b) 11 = Inr x"
  using compressed_imm_range [of b] by (auto intro!: sign_ext32_total simp del: push_bit_Suc)

lemma set_if_total: "(c \<Longrightarrow> \<exists>x. v = Inr x) \<Longrightarrow> \<exists>x. set_if c v old = Inr x"
  by (auto simp: set_if_def)

lemma mk_CItype_total: "\<exists>f. mk_CItype i = Inr f"
proof -
  have "\<exists>f. map_of CI_offset b = Some f" if "b \<in> set SPload" for b
    using that by (auto simp: SPload_def CI_offset_def)
  then have "\<exists>x. set_if (b \<in> set SPload)
      (rbind (of_option KeyError (map_of CI_offset b)) (\<lambda>f. ret (f (bin i)))) None = Inr x" for b
    by (intro set_if_total) fastforce
  moreover have "\<exists>x. set_if c (sign_ext32 (CI_imm (bin i)) 5) d = Inr x"
    "\<exists>x. set_if c (sign_ext32 (shl (CI_imm (bin i)) 12) 17) d = Inr x"
    "\<exists>x. set_if c (sign_ext32 (CI_immsp (bin i)) 9) d = Inr x" for c d
    by (rule set_if_total, rule compressed_sign_ext_total)+
  ultimately show ?thesis
    unfolding mk_CItype_def Let_def by (intro rbind_total) auto
qed

lemma mk_CBtype_total: "\<exists>f. mk_CBtype i = Inr f"
  using compressed_sign_ext_total(1,4) [of "bin i"]
  by (auto simp: mk_CBtype_def Let_def set_if_def simp del: push_bit_Suc)

lemma construct_total:
  assumes "(base i, k) \<in> set type_of_base" "is_compressed i \<or> is_word i"
  shows "\<exists>f. construct k i = Inr f"
proof (cases "is_word i")
  case True
  note w = mk_totals [OF this]
  show ?thesis
    using assms(1) w mk_CItype_total [of i] mk_CBtype_total [of i] compressed_sign_ext_total(5)
    by (cases k) (auto simp: type_of_base_def mk_CSStype_def CSS_offset_def mk_CLtype_def
        CL_offset_def mk_CStype_def CS_offset_def mk_CJtype_def)
next
  case False
  then have c: "is_compressed i" using assms(2) by simp
  have "(base i, k) \<notin> set type_of_base" if "k \<in> {K_Itype, K_Stype, K_Btype, K_Jtype}"
    using base_compressed [OF c] that by (auto simp: table_16_4_RV32_def type_of_base_def)
  then show ?thesis
    using assms(1) mk_CItype_total [of i] mk_CBtype_total [of i] compressed_sign_ext_total(5)
    by (cases k) (auto simp: type_of_base_def mk_CSStype_def CSS_offset_def mk_CLtype_def
        CL_offset_def mk_CStype_def CS_offset_def mk_CJtype_def)
qed

lemma fields_total_iff:
  assumes "is_compressed i \<or> is_word i"
  shows "(\<exists>f. fields_of i = Inr f) \<longleftrightarrow> base i \<in> fst ` set type_of_base"
proof
  assume "\<exists>f. fields_of i = Inr f"
  then show "base i \<in> fst ` set type_of_base"
    by (auto simp: fields_of_def dest!: map_of_SomeD intro: rev_image_eqI)
next
  assume "base i \<in> fst ` set type_of_base"
  then obtain k where k: "map_of type_of_base (base i) = Some k"
    by (metis map_of_eq_None_iff not_Some_eq)
  then have "\<exists>f. construct k i = Inr f"
    using assms by (intro construct_total map_of_SomeD)
  with k show "\<exists>f. fields_of i = Inr f" by (simp add: fields_of_def)
qed

lemma fields_KeyError:
  "base i \<notin> fst ` set type_of_base \<Longrightarrow> fields_of i = Inl KeyError"
  by (simp add: fields_of_def map_of_eq_None_iff [THEN iffD2])

section \<open>Encodings of the RISC-V manual\<close>

text \<open>
  The reference encoders place the bits of an immediate where the manual puts them; the
  theorems below say that the decoder of the code reads the same value back.
\<close>

definition enc_B :: "int \<Rightarrow> int \<Rightarrow> int \<Rightarrow> int \<Rightarrow> int" where
  "enc_B off rs1 rs2 f3 =
     shl (shr off 12 AND 1) 31 OR shl (shr off 5 AND 63) 25 OR shl rs2 20 OR shl rs1 15
       OR shl f3 12 OR shl (shr off 1 AND 15) 8 OR shl (shr off 11 AND 1) 7 OR 99"

definition enc_J :: "int \<Rightarrow> int \<Rightarrow> int" where
  "enc_J off rd =
     shl (shr off 20 AND 1) 31 OR shl (shr off 1 AND 1023) 21 OR shl (shr off 11 AND 1) 20
       OR shl (shr off 12 AND 255) 12 OR shl rd 7 OR 111"

definition enc_S :: "int \<Rightarrow> int \<Rightarrow> int \<Rightarrow> int \<Rightarrow> int" where
  "enc_S off rs1 rs2 f3 =
     shl (shr off 5 AND 127) 25 OR shl rs2 20 OR shl rs1 15 OR shl f3 12
       OR shl (off AND 31) 7 OR 35"

definition enc_CB :: "int \<Rightarrow> int \<Rightarrow> bool \<Rightarrow> int" where
  "enc_CB off rs1' bnez =
     shl (if bnez then 7 else 6) 13 OR shl (shr off 8 AND 1) 12 OR shl (shr off 3 AND 3) 10
       OR shl rs1' 7 OR shl (shr off 6 AND 3) 5 OR shl (shr off 1 AND 3) 3
       OR shl (shr off 5 AND 1) 2 OR 1"

lemma lt_cases9: "n < (9::nat) \<Longrightarrow> n \<in> {0, 1, 2, 3, 4, 5, 6, 7, 8}"
  by (simp only: insert_iff empty_iff) arith

lemma lt_cases12: "n < (12::nat) \<Longrightarrow> n \<in> {0, 1, 2, 3, 4, 5, 6, 7, 8, 9, 10, 11}"
  by (simp only: insert_iff empty_iff) arith

lemma lt_cases13: "n < (13::nat) \<Longrightarrow> n \<in> {0, 1, 2, 3, 4, 5, 6, 7, 8, 9, 10, 11, 12}"
  by (simp only: insert_iff empty_iff) arith

lemma lt_cases21: "n < (21::nat) \<Longrightarrow> n \<in> {0, 1, 2, 3, 4, 5, 6, 7, 8, 9, 10, 11, 12, 13, 14, 15, 16, 17, 18, 19, 20}"
  by (simp only: insert_iff empty_iff) arith

lemma small_bits:
  "0 \<le> x \<Longrightarrow> x < 32 \<Longrightarrow> 5 \<le> k \<Longrightarrow> \<not> bit (x::int) k"
  "0 \<le> x \<Longrightarrow> x < 8 \<Longrightarrow> 3 \<le> k \<Longrightarrow> \<not> bit (x::int) k"
  "7 \<le> k \<Longrightarrow> \<not> bit (99::int) k" "7 \<le> k \<Longrightarrow> \<not> bit (111::int) k" "7 \<le> k \<Longrightarrow> \<not> bit (35::int) k"
  "3 \<le> k \<Longrightarrow> \<not> bit (6::int) k" "bit (127::int) k \<longleftrightarrow> k < 7"
  using bit_int_ge [of x 5 k] bit_int_ge [of x 3 k] bit_int_ge [of 99 7 k] bit_int_ge [of 111 7 k]
    bit_int_ge [of 35 7 k] bit_int_ge [of 6 3 k] bit_mask_iff [where 'a = int, of 7 k]
  by (simp_all add: mask_eq_exp_minus_1)

lemma enc_B_imm:
  assumes "even off" "0 \<le> rs1" "rs1 < 32" "0 \<le> rs2" "rs2 < 32" "0 \<le> f3" "f3 < 8"
  shows "btype_imm_bits (enc_B off rs1 rs2 f3) = take_bit 13 off"
proof (rule bit_eqI)
  fix n
  note h = small_bits(1) [OF assms(2,3)] small_bits(1) [OF assms(4,5)] small_bits(2) [OF assms(6,7)]
    small_bits(3-)
  have o: "\<not> bit off 0" using assms by (simp add: bit_0)
  show "bit (btype_imm_bits (enc_B off rs1 rs2 f3)) n = bit (take_bit 13 off) n"
  proof (cases "n < 13")
    case True
    show ?thesis
      unfolding btype_imm_bits_def enc_B_def bit_field_simps bit_take_bit_iff
      using lt_cases13 [OF True] o by (elim insertE emptyE; simp add: h eval_nat_numeral)
  next
    case False
    then show ?thesis
      unfolding btype_imm_bits_def enc_B_def bit_field_simps bit_take_bit_iff
      by (auto simp: h)
  qed
qed

lemma enc_J_imm:
  assumes "even off" "0 \<le> rd" "rd < 32"
  shows "jtype_imm_bits (enc_J off rd) = take_bit 21 off"
proof (rule bit_eqI)
  fix n
  note h = small_bits(1) [OF assms(2,3)] small_bits(3-)
  have o: "\<not> bit off 0" using assms by (simp add: bit_0)
  show "bit (jtype_imm_bits (enc_J off rd)) n = bit (take_bit 21 off) n"
  proof (cases "n < 21")
    case True
    show ?thesis
      unfolding jtype_imm_bits_def enc_J_def bit_field_simps bit_take_bit_iff
      using lt_cases21 [OF True] o by (elim insertE emptyE; simp add: h eval_nat_numeral)
  next
    case False
    then show ?thesis
      unfolding jtype_imm_bits_def enc_J_def bit_field_simps bit_take_bit_iff
      by (auto simp: h)
  qed
qed

lemma enc_S_imm:
  assumes "0 \<le> rs1" "rs1 < 32" "0 \<le> rs2" "rs2 < 32" "0 \<le> f3" "f3 < 8"
  shows "stype_imm_bits (enc_S off rs1 rs2 f3) = take_bit 12 off"
proof (rule bit_eqI)
  fix n
  note h = small_bits(1) [OF assms(1,2)] small_bits(1) [OF assms(3,4)] small_bits(2) [OF assms(5,6)]
    small_bits(3-)
  show "bit (stype_imm_bits (enc_S off rs1 rs2 f3)) n = bit (take_bit 12 off) n"
  proof (cases "n < 12")
    case True
    show ?thesis
      unfolding stype_imm_bits_def enc_S_def bit_field_simps bit_take_bit_iff small_bits(7)
      using lt_cases12 [OF True] by (elim insertE emptyE; simp add: h eval_nat_numeral)
  next
    case False
    then show ?thesis
      unfolding stype_imm_bits_def enc_S_def bit_field_simps bit_take_bit_iff small_bits(7)
      by (auto simp: h)
  qed
qed

lemma enc_CB_imm:
  assumes "even off" "0 \<le> rs1" "rs1 < 8"
  shows "CB_offset_bits (enc_CB off rs1 z) = take_bit 9 off"
proof (rule bit_eqI)
  fix n
  note h = small_bits(2) [OF assms(2,3)] small_bits(3-)
  have o: "\<not> bit off 0" using assms by (simp add: bit_0)
  show "bit (CB_offset_bits (enc_CB off rs1 z)) n = bit (take_bit 9 off) n"
  proof (cases "n < 9")
    case True
    show ?thesis
      unfolding CB_offset_bits_def enc_CB_def bit_field_simps bit_take_bit_iff
      using lt_cases9 [OF True] o by (elim insertE emptyE;
          cases z; simp add: h bit_1_iff eval_nat_numeral)
  next
    case False
    then show ?thesis
      unfolding CB_offset_bits_def enc_CB_def bit_field_simps bit_take_bit_iff
      by (auto simp: h)
  qed
qed

section \<open>Reading the encoded offset back\<close>

definition signed_offset :: "'a instr_scheme \<Rightarrow> int result" where
  "signed_offset i = rbind (offset i) (\<lambda>a. rbind (int_of_attr a) (\<lambda>v. to_signed v 32))"

lemma enc_opcodes:
  "take_bit 7 (enc_B off rs1 rs2 f3) = take_bit 7 99"
  "take_bit 7 (enc_J off rd) = take_bit 7 111"
  "take_bit 7 (enc_S off rs1 rs2 f3) = take_bit 7 35"
  by (rule bit_eqI, unfold enc_B_def enc_J_def enc_S_def bit_field_simps bit_take_bit_iff, auto)+

lemma base_of_opcodes:
  "base \<lparr>bin = 99\<rparr> = ''BRANCH''" "base \<lparr>bin = 111\<rparr> = ''JAL''" "base \<lparr>bin = 35\<rparr> = ''STORE''"
  "\<not> is_compressed \<lparr>bin = 99\<rparr>" "\<not> is_compressed \<lparr>bin = 111\<rparr>" "\<not> is_compressed \<lparr>bin = 35\<rparr>"
  by (simp_all add: base_def is_compressed_def table_24_1_def)

lemma base_of_enc [simp]:
  "base \<lparr>bin = enc_B off rs1 rs2 f3\<rparr> = ''BRANCH''"
  "base \<lparr>bin = enc_J off rd\<rparr> = ''JAL''"
  "base \<lparr>bin = enc_S off rs1 rs2 f3\<rparr> = ''STORE''"
  using base_opcode(1) [of "\<lparr>bin = enc_B off rs1 rs2 f3\<rparr>" "\<lparr>bin = 99\<rparr>"]
    base_opcode(1) [of "\<lparr>bin = enc_J off rd\<rparr>" "\<lparr>bin = 111\<rparr>"]
    base_opcode(1) [of "\<lparr>bin = enc_S off rs1 rs2 f3\<rparr>" "\<lparr>bin = 35\<rparr>"]
  by (simp_all add: base_of_opcodes enc_opcodes)

lemma base_of_enc_CB [simp]:
  assumes "0 \<le> rs1" "rs1 < 8"
  shows "base \<lparr>bin = enc_CB off rs1 z\<rparr> = (if z then ''C.BNEZ'' else ''C.BEQZ'')"
proof -
  have m: "(3::int) = mask 2" "(7::int) = mask 3" by (simp_all add: mask_eq_exp_minus_1)
  note h = small_bits(2) [OF assms]
  have "enc_CB off rs1 z AND 3 = 1"
    by (rule bit_eqI, unfold enc_CB_def bit_field_simps) (auto simp: bit_1_iff)
  moreover have "shr (enc_CB off rs1 z) 13 AND 7 = (if z then 7 else 6)"
  proof (rule bit_eqI)
    fix n
    have "\<not> bit rs1 (6 + n)" by (rule h) simp
    then show "bit (shr (enc_CB off rs1 z) 13 AND 7) n = bit (if z then 7 else 6 :: int) n"
      unfolding enc_CB_def bit_field_simps
      using small_bits(6) [of n] by (cases "n < 3") (auto simp: bit_1_iff bit_numeral_masks)
  qed
  ultimately show ?thesis
    by (simp add: base_def is_compressed_def table_16_4_RV32_def)
qed

lemmas signed_offset_simps =
  signed_offset_def offset_def fields_of_def type_of_base_def rbind_assoc

lemma rbind_reassoc: "rbind m f = Inr v \<Longrightarrow> (\<And>x. f x = rbind (g x) h) \<Longrightarrow> rbind (rbind m g) h = Inr v"
  by (cases m) auto

lemma branch_signed_offset:
  assumes "even off" "- 4096 \<le> off" "off < 4096"
    and "0 \<le> rs1" "rs1 < 32" "0 \<le> rs2" "rs2 < 32" "0 \<le> f3" "f3 < 8"
  shows "signed_offset \<lparr>bin = enc_B off rs1 rs2 f3\<rparr> = Inr off"
  using sign_ext_to_signed [of "btype_imm_bits (enc_B off rs1 rs2 f3)" 12 off] assms enc_B_imm
  by (simp add: signed_offset_simps mk_Btype_def)

lemma jump_signed_offset:
  assumes "even off" "- (2 ^ 20) \<le> off" "off < 2 ^ 20" "0 \<le> rd" "rd < 32"
  shows "signed_offset \<lparr>bin = enc_J off rd\<rparr> = Inr off"
  using sign_ext_to_signed [of "jtype_imm_bits (enc_J off rd)" 20 off] assms enc_J_imm
  by (simp add: signed_offset_simps mk_Jtype_def)

lemma store_signed_offset:
  assumes "- 2048 \<le> off" "off < 2048"
    and "0 \<le> rs1" "rs1 < 32" "0 \<le> rs2" "rs2 < 32" "0 \<le> f3" "f3 < 8"
  shows "signed_offset \<lparr>bin = enc_S off rs1 rs2 f3\<rparr> = Inr off"
  using sign_ext_to_signed [of "stype_imm_bits (enc_S off rs1 rs2 f3)" 11 off] assms enc_S_imm
  by (simp add: signed_offset_simps mk_Stype_def)

text \<open>
  C10: a displacement encoded as the RISC-V manual says is decoded and read by \<open>to_signed\<close> as
  the same displacement: every even displacement of 13 signed bits of a conditional branch, every
  even one of 21 bits of a jump and every one of 12 bits of a store, whatever the registers.
\<close>

theorem offset_roundtrip:
  assumes "0 \<le> rs1" "rs1 < 32" "0 \<le> rs2" "rs2 < 32" "0 \<le> f3" "f3 < 8" "0 \<le> rd" "rd < 32"
  shows "(even b \<and> - 4096 \<le> b \<and> b < 4096 \<longrightarrow> signed_offset \<lparr>bin = enc_B b rs1 rs2 f3\<rparr> = Inr b)
    \<and> (even j \<and> - (2 ^ 20) \<le> j \<and> j < 2 ^ 20 \<longrightarrow> signed_offset \<lparr>bin = enc_J j rd\<rparr> = Inr j)
    \<and> (- 2048 \<le> s \<and> s < 2048 \<longrightarrow> signed_offset \<lparr>bin = enc_S s rs1 rs2 f3\<rparr> = Inr s)"
  by (insert assms, intro conjI impI; elim conjE;
      (rule branch_signed_offset jump_signed_offset store_signed_offset); assumption)

lemma offset_roundtrip_witness:
  "signed_offset \<lparr>bin = enc_B (- 4096) 31 1 7\<rparr> = Inr (- 4096)
    \<and> signed_offset \<lparr>bin = enc_J 1048574 1\<rparr> = Inr 1048574
    \<and> signed_offset \<lparr>bin = enc_S (- 1) 31 1 7\<rparr> = Inr (- 1)"
  using offset_roundtrip [of 31 1 7 1 "- 4096" 1048574 "- 1"] by simp

text \<open>
  The displacement of \<open>C.BEQZ\<close> and \<open>C.BNEZ\<close>, scattered over the halfword as the manual
  says, is read back exactly for every even displacement of 9 signed bits.
\<close>

lemma compressed_branch_offset_roundtrip:
  assumes "even off" "- 256 \<le> off" "off < 256" "0 \<le> rs1" "rs1 < 8"
  shows "signed_offset \<lparr>bin = enc_CB off rs1 z\<rparr> = Inr off"
  using sign_ext_to_signed [of "CB_offset_bits (enc_CB off rs1 z)" 8 off] assms enc_CB_imm
  by (cases z) (auto simp: signed_offset_simps mk_CBtype_def cb_branch_def cb_regimm_def set_if_def)

lemma compressed_branch_offset_roundtrip_witness:
  "signed_offset \<lparr>bin = enc_CB (- 254) 5 True\<rparr> = Inr (- 254)"
  using compressed_branch_offset_roundtrip [of "- 254" 5 True] by simp

section \<open>The offset of compressed jumps\<close>

definition enc_CJ :: "int \<Rightarrow> bool \<Rightarrow> int" where
  "enc_CJ off jal =
     shl (if jal then 1 else 5) 13 OR shl (shr off 11 AND 1) 12 OR shl (shr off 4 AND 1) 11
       OR shl (shr off 8 AND 3) 9 OR shl (shr off 10 AND 1) 8 OR shl (shr off 6 AND 1) 7
       OR shl (shr off 7 AND 1) 6 OR shl (shr off 1 AND 7) 3 OR shl (shr off 5 AND 1) 2 OR 1"

lemma bit_28: "bit (28::int) k \<longleftrightarrow> k = 2 \<or> k = 3 \<or> k = 4"
proof -
  have "bit (28::int) k = bit (shl 7 2 :: int) k" by simp
  then show ?thesis unfolding bit_shl bit_numeral_masks by arith
qed

lemma bit_not_28: "bit (- 29 :: int) k \<longleftrightarrow> k \<noteq> 2 \<and> k \<noteq> 3 \<and> k \<noteq> 4"
  using bit_not_int_iff [of 28 k] by (simp add: bit_28)

lemma enc_CJ_imm:
  assumes "even off"
  shows "CJ_offset (enc_CJ off jal) = take_bit 12 (off AND NOT 28)"
proof (rule bit_eqI)
  fix n
  have o: "\<not> bit off 0" using assms by (simp add: bit_0)
  have c: "\<not> bit (1::int) (Suc k)" "\<not> bit (5::int) (k + 3)" for k
    using bit_int_ge [of 5 3 "k + 3"] by (simp_all add: bit_1_iff)
  show "bit (CJ_offset (enc_CJ off jal)) n = bit (take_bit 12 (off AND NOT 28)) n"
  proof (cases "n < 12")
    case True
    show ?thesis
      unfolding CJ_offset_def enc_CJ_def bit_field_simps bit_take_bit_iff bit_not_int_iff bit_28
      using lt_cases12 [OF True] o by (elim insertE emptyE;
          cases jal; simp add: bit_1_iff eval_nat_numeral)
  next
    case False
    then show ?thesis
      unfolding CJ_offset_def enc_CJ_def bit_field_simps bit_take_bit_iff by auto
  qed
qed

lemma base_of_enc_CJ [simp]:
  "base \<lparr>bin = enc_CJ off jal\<rparr> = (if jal then ''C.JAL'' else ''C.J'')"
proof -
  have m: "(3::int) = mask 2" "(7::int) = mask 3" by (simp_all add: mask_eq_exp_minus_1)
  have five: "bit (5::int) k \<Longrightarrow> k < 3" for k using bit_int_ge [of 5 3 k] by (cases "k < 3") auto
  have "enc_CJ off jal AND 3 = 1"
    by (rule bit_eqI, unfold enc_CJ_def bit_field_simps) (auto simp: bit_1_iff)
  moreover have "shr (enc_CJ off jal) 13 AND 7 = (if jal then 1 else 5)"
    by (rule bit_eqI, unfold enc_CJ_def bit_field_simps)
      (auto simp: bit_1_iff bit_numeral_masks dest: five)
  ultimately show ?thesis
    by (simp add: base_def is_compressed_def table_16_4_RV32_def)
qed

lemma and_not_28_range:
  assumes "- 2048 \<le> off" "off < 2048"
  shows "- 2048 \<le> off AND NOT 28" "off AND NOT 28 < (2048::int)"
proof -
  have "signed_take_bit 11 off = off" using assms by (simp add: signed_take_bit_int_eq_self)
  moreover have "signed_take_bit 11 (off AND NOT 28) = signed_take_bit 11 off AND NOT 28"
    by (rule bit_eqI)
      (auto simp: bit_signed_take_bit_iff bit_and_iff bit_not_28 min_def)
  ultimately have "signed_take_bit 11 (off AND NOT 28) = off AND NOT 28" by simp
  then show "- 2048 \<le> off AND NOT 28" "off AND NOT 28 < (2048::int)"
    using signed_take_bit_int_less_exp [of 11 "off AND NOT 28"]
      signed_take_bit_int_greater_eq_minus_exp [of 11 "off AND NOT 28"] by simp_all
qed

text \<open>
  C11: The displacement of a compressed jump loses its bits 2, 3 and 4: \<open>CJtype.offset\<close>
  shifts left instead of right for bit 4 and masks one bit instead of three for bits 3 to 1.
\<close>

theorem compressed_jump_offset:
  assumes "even off" "- 2048 \<le> off" "off < 2048"
  shows "signed_offset \<lparr>bin = enc_CJ off jal\<rparr> = Inr (off AND NOT 28)"
  using sign_ext_to_signed [of "CJ_offset (enc_CJ off jal)" 11 "off AND NOT 28"] assms
    enc_CJ_imm and_not_28_range [of off]
  by (cases jal) (auto simp: signed_offset_simps mk_CJtype_def)

lemma compressed_jump_offset_witness:
  "signed_offset \<lparr>bin = enc_CJ 30 True\<rparr> = Inr 2"
  using compressed_jump_offset [of 30 True] by simp

section \<open>Register numbers and hazards\<close>

lemma register_ranges:
  fixes x :: int
  shows "0 \<le> x AND 31" "x AND 31 < 32" "0 \<le> x AND 7" "x AND 7 < 8"
  using and_mask_bounds [of x] by auto

lemma set_if_cases: "set_if c v old = Inr x \<Longrightarrow> x = old \<or> (\<exists>y. v = Inr y \<and> x = Some y)"
  by (auto simp: set_if_def split: if_splits)

lemma if_in: "(c \<Longrightarrow> x \<in> A) \<Longrightarrow> (\<not> c \<Longrightarrow> y \<in> A) \<Longrightarrow> (if c then x else y) \<in> A"
  by simp

lemma mk_CItype_regs:
  assumes "mk_CItype i = Inr f"
  shows "ci_rd f \<in> {None, Some (shr (bin i) 7 AND 31)} \<and>
    ci_rs1 f \<in> {None, Some (shr (bin i) 7 AND 31), Some 2}"
  using assms unfolding mk_CItype_def Let_def rbind_eq_Inr
  by (elim exE conjE, drule_tac Inr_inject, hypsubst, simp only: citype.simps,
      intro conjI if_in, simp_all only: insert_iff reg_values simp_thms)

definition register :: "int \<Rightarrow> bool" where
  "register r \<longleftrightarrow> 0 \<le> r \<and> r < 32"

lemma register_simps [simp]:
  "register (x AND 31)" "register ((x AND 7) + 8)" "register 0" "register 2"
  using register_ranges [of x] by (simp_all add: register_def)

lemma mk_CBtype_regs:
  assumes "mk_CBtype i = Inr f"
  shows "cb_rd f \<in> {None, Some (cb_rs1 f)} \<and> register (cb_rs1 f)"
  using assms by (auto simp: mk_CBtype_def Let_def)

lemma construct_registers:
  assumes "construct k i = Inr f"
  shows "\<forall>r. f_rd f = Some r \<or> f_rs1 f = Some r \<or> f_rs2 f = Some r \<longrightarrow> register r"
  using assms
  by (cases k)
    (auto simp: mk_Rtype_def mk_Itype_def mk_Stype_def mk_Btype_def mk_Utype_def mk_Jtype_def
      mk_CRtype_def Let_def mk_CSStype_def mk_CIWtype_def mk_CLtype_def mk_CStype_def
      mk_CAtype_def mk_CJtype_def split: if_splits
      dest!: mk_CItype_regs mk_CBtype_regs)

text \<open>
  Every register number a decoded instruction shows is one of the 32 registers.
\<close>

lemma decoded_registers:
  assumes "fields_of i = Inr f" "f_rd f = Some r \<or> f_rs1 f = Some r \<or> f_rs2 f = Some r"
  shows "0 \<le> r \<and> r < 32"
  using assms construct_registers by (fastforce simp: fields_of_def register_def)

lemma decoded_registers_witness:
  "\<exists>f r. fields_of \<lparr>bin = 0x00b50533\<rparr> = Inr f \<and> f_rd f = Some r \<and> 0 \<le> r \<and> r < 32"
proof -
  have "(case fields_of \<lparr>bin = 0x00b50533\<rparr> of Inr f \<Rightarrow> f_rd f = Some 10 | Inl _ \<Rightarrow> False)" by code_simp
  then obtain f where "fields_of \<lparr>bin = 0x00b50533\<rparr> = Inr f" "f_rd f = Some 10"
    by (auto split: sum.splits)
  with decoded_registers [of "\<lparr>bin = 0x00b50533\<rparr>" f 10] show ?thesis by blast
qed

lemma hazard_eqs:
  assumes "fields_of a = Inr fa" "fields_of b = Inr fb"
  shows "has_RAW_from b a
      = Inr (\<exists>r. r \<noteq> 0 \<and> f_rd fa = Some r \<and> (f_rs1 fb = Some r \<or> f_rs2 fb = Some r))"
    and "has_WAR_from a b
      = Inr (\<exists>r. r \<noteq> 0 \<and> f_rd fa = Some r \<and> (f_rs1 fb = Some r \<or> f_rs2 fb = Some r))"
    and "has_WAW_from b a = Inr (\<exists>r. r \<noteq> 0 \<and> f_rd fa = Some r \<and> f_rd fb = Some r)"
  using assms
  by (auto simp: has_RAW_from_def has_WAR_from_def has_WAW_from_def split: option.splits)

text \<open>
  What the queries are for: a hazard is a reason not to exchange two instructions. The file of
  registers is a function whose \<open>x0\<close> reads as zero and ignores writes; an instruction with
  known fields reads its operands and writes what some function \<open>c\<close> computes from them.
\<close>

type_synonym regfile = "int \<Rightarrow> int"

definition reg_read :: "regfile \<Rightarrow> int \<Rightarrow> int" where
  "reg_read rf r = (if r = 0 then 0 else rf r)"

definition reg_write :: "regfile \<Rightarrow> int \<Rightarrow> int \<Rightarrow> regfile" where
  "reg_write rf r v = (if r = 0 then rf else rf(r := v))"

type_synonym operands = "int option \<times> int option"

definition operands :: "fields \<Rightarrow> regfile \<Rightarrow> operands" where
  "operands f rf = (map_option (reg_read rf) (f_rs1 f), map_option (reg_read rf) (f_rs2 f))"

definition execute_on :: "fields \<Rightarrow> (operands \<Rightarrow> int) \<Rightarrow> regfile \<Rightarrow> regfile" where
  "execute_on f c rf =
     (case f_rd f of None \<Rightarrow> rf | Some rd \<Rightarrow> reg_write rf rd (c (operands f rf)))"

definition exchangeable :: "fields \<Rightarrow> fields \<Rightarrow> bool" where
  "exchangeable fa fb \<longleftrightarrow> (\<forall>ca cb rf.
     operands fa (execute_on fb cb rf) = operands fa rf \<and>
     operands fb (execute_on fa ca rf) = operands fb rf \<and>
     execute_on fb cb (execute_on fa ca rf) = execute_on fa ca (execute_on fb cb rf))"

definition reads_what :: "fields \<Rightarrow> fields \<Rightarrow> bool" where
  "reads_what fa fb \<longleftrightarrow> (\<exists>r. r \<noteq> 0 \<and> f_rd fa = Some r \<and> (f_rs1 fb = Some r \<or> f_rs2 fb = Some r))"

definition writes_what :: "fields \<Rightarrow> fields \<Rightarrow> bool" where
  "writes_what fa fb \<longleftrightarrow> (\<exists>r. r \<noteq> 0 \<and> f_rd fa = Some r \<and> f_rd fb = Some r)"

lemma reg_read_execute:
  "f_rd f \<noteq> Some r \<or> r = 0 \<Longrightarrow> reg_read (execute_on f c rf) r = reg_read rf r"
  by (auto simp: execute_on_def reg_read_def reg_write_def split: option.split)

lemma operands_kept:
  assumes "\<not> reads_what fa fb"
  shows "operands fb (execute_on fa c rf) = operands fb rf"
proof -
  have "f_rs1 fb = Some r \<or> f_rs2 fb = Some r \<Longrightarrow> reg_read (execute_on fa c rf) r = reg_read rf r" for r
    using assms by (intro reg_read_execute) (auto simp: reads_what_def)
  then show ?thesis by (cases "f_rs1 fb"; cases "f_rs2 fb") (simp_all add: operands_def)
qed

lemma operands_changed:
  assumes "reads_what fa fb"
  shows "operands fb (execute_on fa (\<lambda>_. 1) (\<lambda>_. 0)) \<noteq> operands fb (\<lambda>_. 0)"
  using assms by (auto simp: reads_what_def operands_def execute_on_def reg_read_def reg_write_def)

lemma reads_what_iff:
  "reads_what fa fb \<longleftrightarrow> (\<exists>c rf. operands fb (execute_on fa c rf) \<noteq> operands fb rf)"
  using operands_kept operands_changed by metis

lemma writes_collide:
  assumes "writes_what fa fb"
  shows "execute_on fb (\<lambda>_. 1) (execute_on fa (\<lambda>_. 2) rf)
    \<noteq> execute_on fa (\<lambda>_. 2) (execute_on fb (\<lambda>_. 1) rf)"
proof
  obtain r where r: "r \<noteq> 0" "f_rd fa = Some r" "f_rd fb = Some r"
    using assms by (auto simp: writes_what_def)
  assume "execute_on fb (\<lambda>_. 1) (execute_on fa (\<lambda>_. 2) rf)
    = execute_on fa (\<lambda>_. 2) (execute_on fb (\<lambda>_. 1) rf)"
  from fun_cong [OF this, of r] r show False by (simp add: execute_on_def reg_write_def)
qed

lemma writes_apart:
  "\<not> writes_what fa fb \<Longrightarrow> execute_on fb (\<lambda>_. y) (execute_on fa (\<lambda>_. x) rf)
    = execute_on fa (\<lambda>_. x) (execute_on fb (\<lambda>_. y) rf)"
  by (auto simp: writes_what_def execute_on_def reg_write_def fun_upd_twist split: option.splits)

lemma writes_what_iff:
  "writes_what fa fb \<longleftrightarrow> (\<exists>x y rf. execute_on fb (\<lambda>_. y) (execute_on fa (\<lambda>_. x) rf)
    \<noteq> execute_on fa (\<lambda>_. x) (execute_on fb (\<lambda>_. y) rf))"
  using writes_collide writes_apart by metis

lemma execute_const: "execute_on f c rf = execute_on f (\<lambda>_. c (operands f rf)) rf"
  by (simp add: execute_on_def split: option.split)

lemma exchangeable_iff:
  "exchangeable fa fb \<longleftrightarrow> \<not> reads_what fa fb \<and> \<not> reads_what fb fa \<and> \<not> writes_what fa fb"
proof
  assume "exchangeable fa fb"
  then show "\<not> reads_what fa fb \<and> \<not> reads_what fb fa \<and> \<not> writes_what fa fb"
    unfolding exchangeable_def reads_what_iff writes_what_iff by blast
next
  assume no: "\<not> reads_what fa fb \<and> \<not> reads_what fb fa \<and> \<not> writes_what fa fb"
  have "execute_on fb cb (execute_on fa ca rf) = execute_on fa ca (execute_on fb cb rf)" for ca cb rf
  proof -
    let ?x = "ca (operands fa rf)" and ?y = "cb (operands fb rf)"
    have "execute_on fb cb (execute_on fa ca rf)
        = execute_on fb (\<lambda>_. ?y) (execute_on fa (\<lambda>_. ?x) rf)"
      using no operands_kept execute_const by metis
    also have "\<dots> = execute_on fa (\<lambda>_. ?x) (execute_on fb (\<lambda>_. ?y) rf)"
      using no by (simp add: writes_apart)
    also have "\<dots> = execute_on fa ca (execute_on fb cb rf)"
      using no operands_kept execute_const by metis
    finally show ?thesis .
  qed
  with no show "exchangeable fa fb" by (simp add: exchangeable_def operands_kept)
qed

text \<open>
  C12: each hazard query answers exactly whether its hazard can be seen, over a file of registers
  whose \<open>x0\<close> stays zero and for instructions that write any function of their operands: there is
  a read after a write when some result of \<open>a\<close> changes what \<open>b\<close> reads, a write after a read when
  some result of \<open>b\<close> would change what \<open>a\<close> reads, and a write after a write when the order of two
  results is seen in the file. None of the three answers yes exactly when the two instructions
  can be exchanged: the same operands and the same file, in both orders, whatever they compute.
  The operands are those the decoder names; the exception for \<open>x0\<close>, which the comments of the
  queries do not mention, is needed.
\<close>

theorem hazard_queries:
  assumes "fields_of a = Inr fa" "fields_of b = Inr fb"
  shows "has_RAW_from b a
      = Inr (\<exists>ca rf. operands fb (execute_on fa ca rf) \<noteq> operands fb rf)
    \<and> has_WAR_from b a
      = Inr (\<exists>cb rf. operands fa (execute_on fb cb rf) \<noteq> operands fa rf)
    \<and> has_WAW_from b a
      = Inr (\<exists>x y rf. execute_on fb (\<lambda>_. y) (execute_on fa (\<lambda>_. x) rf)
          \<noteq> execute_on fa (\<lambda>_. x) (execute_on fb (\<lambda>_. y) rf))
    \<and> (exchangeable fa fb \<longleftrightarrow> has_RAW_from b a = Inr False
        \<and> has_WAR_from b a = Inr False \<and> has_WAW_from b a = Inr False)"
proof -
  have "has_RAW_from b a = Inr (reads_what fa fb)" "has_WAR_from b a = Inr (reads_what fb fa)"
    "has_WAW_from b a = Inr (writes_what fa fb)"
    using hazard_eqs [OF assms] hazard_eqs [OF assms(2,1)]
    by (simp_all add: reads_what_def writes_what_def)
  then show ?thesis
    by (simp add: exchangeable_iff flip: reads_what_iff writes_what_iff)
qed

text \<open>
  \<open>add x0, x10, x11\<close> after \<open>add x10, x10, x11\<close> reads its result and cannot be exchanged with it;
  \<open>add x0, x12, x13\<close> and \<open>sub x0, x0, x12\<close>, which name \<open>x0\<close> as result and operand, can.
\<close>

lemma hazard_queries_witness:
  "(\<exists>fa fb. fields_of \<lparr>bin = 0x00b50533\<rparr> = Inr fa \<and> fields_of \<lparr>bin = 0x00b50033\<rparr> = Inr fb
      \<and> has_RAW_from \<lparr>bin = 0x00b50033\<rparr> \<lparr>bin = 0x00b50533\<rparr> = Inr True \<and> \<not> exchangeable fa fb) \<and>
   (\<exists>fa fb. fields_of \<lparr>bin = 0x00d60033\<rparr> = Inr fa \<and> fields_of \<lparr>bin = 0x40c00033\<rparr> = Inr fb
      \<and> exchangeable fa fb)"
proof -
  let ?r = "\<lambda>w. F_Rtype (mk_Rtype \<lparr>bin = w\<rparr>)"
  have f: "fields_of \<lparr>bin = 0x00b50533\<rparr> = Inr (?r 0x00b50533)"
    "fields_of \<lparr>bin = 0x00b50033\<rparr> = Inr (?r 0x00b50033)"
    "fields_of \<lparr>bin = 0x00d60033\<rparr> = Inr (?r 0x00d60033)"
    "fields_of \<lparr>bin = 0x40c00033\<rparr> = Inr (?r 0x40c00033)" by code_simp+
  have q: "has_RAW_from \<lparr>bin = 0x00b50033\<rparr> \<lparr>bin = 0x00b50533\<rparr> = Inr True"
    "has_RAW_from \<lparr>bin = 0x40c00033\<rparr> \<lparr>bin = 0x00d60033\<rparr> = Inr False"
    "has_WAR_from \<lparr>bin = 0x40c00033\<rparr> \<lparr>bin = 0x00d60033\<rparr> = Inr False"
    "has_WAW_from \<lparr>bin = 0x40c00033\<rparr> \<lparr>bin = 0x00d60033\<rparr> = Inr False" by code_simp+
  have "\<not> exchangeable (?r 0x00b50533) (?r 0x00b50033)" "exchangeable (?r 0x00d60033) (?r 0x40c00033)"
    using hazard_queries [OF f(1,2)] hazard_queries [OF f(3,4)] q by simp_all
  with f q show ?thesis by blast
qed

text \<open>
  The decoder names no destination for \<open>C.JAL\<close> and \<open>C.JALR\<close>, which write \<open>ra\<close>: the return that
  follows \<open>c.jalr t0\<close> has no hazard from it.
\<close>

lemma link_not_named:
  "has_RAW_from \<lparr>bin = 0x8082\<rparr> \<lparr>bin = 0x9282\<rparr> = Inr False" by code_simp

end
