(* ===== verification/Instruction.thy ===== *)
theory Instruction
  imports Isa_Facts
begin

text \<open>
  Events and annotated instructions of \<open>perf-model/model.py\<close>. \<open>Instruction\<close> inherits from
  \<open>Instr\<close>, so its record extends \<open>instr\<close>. The Python object is mutable (its list of events)
  and shared by the queue, the scoreboard and the log: \<open>iid\<close> is its identity, and the
  model keeps the lists of events in a store indexed by it.
\<close>

datatype event_kind =
    EK_WAW | EK_WAR | EK_RAW | EK_BMISS | EK_BHIT | EK_STRUCT | EK_issue | EK_done | EK_commit

record event =
  kind :: event_kind
  cycle :: int

record instruction = instr +
  iid :: nat
  line :: string
  address :: int
  hex_code :: string
  mnemo :: string

definition next_addr :: "instruction \<Rightarrow> int" where
  "next_addr i = address i + size_of i"

definition ret_regs :: "int list" where
  "ret_regs = [reg_ra, reg_t0]"

definition is_ret :: "instruction \<Rightarrow> bool result" where
  "is_ret i = rbind (fields_of i) (\<lambda>f. rbind (is_regjump i) (\<lambda>j.
     if \<not> j then ret False
     else rbind (of_option AttributeError (f_rs1 f)) (\<lambda>rs1.
       if rs1 \<notin> set ret_regs then ret False
       else if is_compressed i then ret True
       else rbind (of_option AttributeError (f_rd f)) (\<lambda>rd. ret (rs1 \<noteq> rd)))))"

definition is_call :: "instruction \<Rightarrow> bool result" where
  "is_call i = rbind (fields_of i) (\<lambda>f.
     let b = base i in
     if b = ''C.JAL'' then ret True
     else if b = ''C.J[AL]R/C.MV/C.ADD'' then
       rbind (of_option AttributeError (f_name f)) (\<lambda>n. ret (n = ''C.JALR''))
     else if b \<in> {''JAL'', ''JALR''} then
       rbind (of_option AttributeError (f_rd f)) (\<lambda>rd. ret (rd \<in> set ret_regs))
     else ret False)"

text \<open>
  \<open>b == X and p or b in ys and q\<close> evaluates the third alternative when the second is
  false; the base names of the alternatives differ, so the chain above gives the same value.
\<close>

section \<open>No query raises on an instruction whose format is known\<close>

definition decodable :: "'a instr_scheme \<Rightarrow> bool" where
  "decodable i \<longleftrightarrow> (is_compressed i \<or> is_word i) \<and> base i \<in> fst ` set type_of_base"

lemma decodable_fields: "decodable i \<Longrightarrow> \<exists>f. fields_of i = Inr f"
  unfolding decodable_def using fields_total_iff by blast

lemma size_of_cases: "size_of i = 2 \<or> size_of i = 4"
  by (simp add: size_of_def)

lemma size_of_pos: "2 \<le> size_of i" "size_of i \<le> 4"
  using size_of_cases [of i] by auto

lemma CR_name:
  "base i = ''C.J[AL]R/C.MV/C.ADD'' \<Longrightarrow>
    fields_of i = Inr (F_CRtype (mk_CRtype i))"
  by (simp add: fields_of_def type_of_base_def)

lemma R_fields: "base i \<in> {''OP'', ''OP-32''} \<Longrightarrow> fields_of i = Inr (F_Rtype (mk_Rtype i))"
  by (auto simp: fields_of_def type_of_base_def)

lemma is_regjump_total: "\<exists>b. is_regjump i = Inr b"
  by (auto simp: is_regjump_def CR_name)

lemma is_muldiv_total: "\<exists>b. is_muldiv i = Inr b"
  by (auto simp: is_muldiv_def R_fields)

lemma JAL_fields:
  "base i = ''JAL'' \<Longrightarrow> fields_of i = Inr f \<Longrightarrow> \<exists>g. f = F_Jtype g"
  "base i = ''JALR'' \<Longrightarrow> fields_of i = Inr f \<Longrightarrow> \<exists>g. f = F_Itype g"
  by (auto simp: fields_of_def type_of_base_def)

lemma is_regjump_fields:
  "is_regjump i = Inr True \<Longrightarrow> fields_of i = Inr f \<Longrightarrow>
    (\<exists>g. f = F_Itype g) \<or> (\<exists>g. f = F_CRtype g \<and> is_compressed i)"
proof -
  assume r: "is_regjump i = Inr True" and f: "fields_of i = Inr f"
  have "is_compressed i" if "base i = ''C.J[AL]R/C.MV/C.ADD''"
    using base_uncompressed [of i] that by (auto simp: table_24_1_def)
  with r f show ?thesis
    by (auto simp: is_regjump_def CR_name dest: JAL_fields(2) split: if_splits)
qed

lemma is_ret_total: "fields_of i = Inr f \<Longrightarrow> \<exists>b. is_ret i = Inr b"
proof -
  assume f: "fields_of i = Inr f"
  obtain b where b: "is_regjump i = Inr b" using is_regjump_total by blast
  show ?thesis
  proof (cases b)
    case True
    with b f have "(\<exists>g. f = F_Itype g) \<or> (\<exists>g. f = F_CRtype g \<and> is_compressed i)"
      by (intro is_regjump_fields) auto
    then have "\<exists>r d. f_rs1 f = Some r \<and> (is_compressed i \<or> f_rd f = Some d)" by auto
    then obtain r d where "f_rs1 f = Some r" "is_compressed i \<or> f_rd f = Some d" by blast
    with True b f show ?thesis
      by (auto simp: is_ret_def intro!: if_total)
  next
    case False
    with b f show ?thesis by (auto simp: is_ret_def)
  qed
qed

lemma is_call_total: "fields_of i = Inr f \<Longrightarrow> \<exists>b. is_call i = Inr b"
  by (auto simp: is_call_def Let_def CR_name dest: JAL_fields)

lemma hazard_totals:
  assumes "fields_of a = Inr fa" "fields_of b = Inr fb"
  shows "\<exists>x. has_RAW_from b a = Inr x" "\<exists>x. has_WAW_from b a = Inr x"
  using hazard_eqs [OF assms] by auto

lemma branch_offset_int:
  assumes "is_branch i" "fields_of i = Inr f"
  shows "\<exists>v. offset i = Inr (IntAttr v)"
  using assms
  by (auto simp: is_branch_def offset_def) (auto simp: fields_of_def type_of_base_def)

end
