(* ===== verification/Iq.thy ===== *)
theory Iq
  imports Instruction
begin

text \<open>
  The instruction queue of \<open>perf-model/model.py\<close> (\<open>IqLen\<close>): only a byte counter, kept
  aligned to the fetch blocks. The debug prints are left out. The interface the model
  relies on is the locale \<open>fetch_queue\<close>, interpreted at the end.
\<close>

record iq =
  iq_fetch_size :: int
  iq_len :: int
  new_fetch :: bool

text \<open>
  The loop of \<open>__init__\<close> doubles from 4. The guard on \<open>0 < sz\<close> only serves termination:
  the loop starts at 4.
\<close>

function grow_fetch_size :: "int \<Rightarrow> int \<Rightarrow> int" where
  "grow_fetch_size sz target =
     (if 0 < sz \<and> sz < target then grow_fetch_size (shl sz 1) target else sz)"
  by pat_completeness auto
termination
  by (relation "measure (\<lambda>(sz, target). nat (target - sz))") (auto simp: push_bit_eq_mult)

declare grow_fetch_size.simps [simp del]

definition iq_init :: "int \<Rightarrow> iq" where
  "iq_init fetch_size =
     (let fs = grow_fetch_size 4 fetch_size
      in \<lparr>iq_fetch_size = fs, iq_len = fs, new_fetch = True\<rparr>)"

definition iq_fetch :: "iq \<Rightarrow> iq" where
  "iq_fetch q = q\<lparr>iq_len := iq_len q + iq_fetch_size q, new_fetch := True\<rparr>"

definition iq_flush :: "iq \<Rightarrow> iq" where
  "iq_flush q = q\<lparr>iq_len := 0, new_fetch := False\<rparr>"

definition addr_index :: "iq \<Rightarrow> int \<Rightarrow> int" where
  "addr_index q addr = addr AND (iq_fetch_size q - 1)"

definition is_crossword :: "iq \<Rightarrow> instruction \<Rightarrow> bool" where
  "is_crossword q i \<longleftrightarrow>
     addr_index q (address i) = iq_fetch_size q - 2 \<and> \<not> is_compressed i"

definition truncate :: "iq \<Rightarrow> int \<Rightarrow> iq" where
  "truncate q index =
     (let occupancy = iq_fetch_size q - addr_index q (iq_len q);
          to_remove = index - occupancy;
          to_remove = (if to_remove < 0 then to_remove + iq_fetch_size q else to_remove)
      in q\<lparr>iq_len := iq_len q - to_remove\<rparr>)"

definition iq_jump :: "iq \<Rightarrow> iq" where
  "iq_jump q =
     truncate
       (if new_fetch q then q\<lparr>iq_len := iq_len q - iq_fetch_size q, new_fetch := False\<rparr> else q) 0"

definition iq_has :: "iq \<Rightarrow> instruction \<Rightarrow> bool" where
  "iq_has q i =
     (let length = (if is_crossword q i then iq_len q - (iq_fetch_size q - 2) else iq_len q)
      in length \<ge> size_of i)"

definition iq_remove :: "iq \<Rightarrow> instruction \<Rightarrow> iq" where
  "iq_remove q i =
     (let q = q\<lparr>iq_len := iq_len q - size_of i\<rparr>;
          q = truncate q (addr_index q (next_addr i))
      in if is_jump i then iq_jump q else q)"

section \<open>Fetch blocks are powers of two\<close>

definition iq_wf :: "iq \<Rightarrow> bool" where
  "iq_wf q \<longleftrightarrow> (\<exists>k\<ge>2. iq_fetch_size q = 2 ^ k)"

lemma grow_fetch_size_pow2: "\<exists>k\<ge>2. sz = 2 ^ k \<Longrightarrow> \<exists>k\<ge>2. grow_fetch_size sz target = 2 ^ k"
proof (induction sz target rule: grow_fetch_size.induct)
  case (1 sz target)
  then obtain k where k: "2 \<le> k" "sz = 2 ^ k" by blast
  then have "shl sz 1 = 2 ^ Suc k" by (simp add: push_bit_eq_mult)
  with k 1 show ?case
    by (subst grow_fetch_size.simps) (metis le_SucI)
qed

lemma grow_fetch_size_ge: "0 < sz \<Longrightarrow> target \<le> grow_fetch_size sz target"
proof (induction sz target rule: grow_fetch_size.induct)
  case (1 sz target)
  then show ?case by (subst grow_fetch_size.simps) (auto simp: push_bit_eq_mult)
qed

lemma iq_wf_init: "iq_wf (iq_init n)"
  using grow_fetch_size_pow2 [of 4 n] unfolding iq_wf_def iq_init_def Let_def
  by (simp add: exI [of _ 2])

lemma iq_fetch_size_const [frame]:
  "iq_fetch_size (iq_fetch q) = iq_fetch_size q" "iq_fetch_size (iq_flush q) = iq_fetch_size q"
  "iq_fetch_size (truncate q n) = iq_fetch_size q" "iq_fetch_size (iq_jump q) = iq_fetch_size q"
  "iq_fetch_size (iq_remove q i) = iq_fetch_size q"
  by (simp_all add: iq_fetch_def iq_flush_def truncate_def iq_jump_def iq_remove_def Let_def)

lemma iq_wf_keeps [simp]:
  "iq_wf q \<Longrightarrow> iq_wf (iq_fetch q)" "iq_wf q \<Longrightarrow> iq_wf (iq_flush q)"
  "iq_wf q \<Longrightarrow> iq_wf (iq_jump q)" "iq_wf q \<Longrightarrow> iq_wf (iq_remove q i)"
  "iq_wf q \<Longrightarrow> iq_wf (q\<lparr>iq_len := n\<rparr>)"
  by (simp_all add: iq_wf_def frame)

lemma iq_wf_pos: "iq_wf q \<Longrightarrow> 4 \<le> iq_fetch_size q"
proof -
  assume "iq_wf q"
  then obtain k where k: "2 \<le> k" "iq_fetch_size q = 2 ^ k" by (auto simp: iq_wf_def)
  have "(2::int) ^ 2 \<le> 2 ^ k" using k by (intro power_increasing) simp_all
  with k show ?thesis by simp
qed

lemma addr_index_mod: "iq_wf q \<Longrightarrow> addr_index q a = a mod iq_fetch_size q"
  by (auto simp: iq_wf_def addr_index_def take_bit_eq_mask [symmetric] take_bit_eq_mod
      mask_eq_exp_minus_1 [symmetric])

lemma addr_index_range: "iq_wf q \<Longrightarrow> 0 \<le> addr_index q a \<and> addr_index q a < iq_fetch_size q"
  using iq_wf_pos [of q] by (simp add: addr_index_mod)

text \<open>Truncating drops the bytes up to the last block boundary before the index.\<close>

lemma truncate_len:
  assumes "iq_wf q" "0 \<le> index" "index < iq_fetch_size q"
  shows "iq_len (truncate q index) = iq_len q - (index + iq_len q) mod iq_fetch_size q"
proof -
  let ?f = "iq_fetch_size q" and ?m = "iq_len q mod iq_fetch_size q"
  have m: "0 \<le> ?m" "?m < ?f" using iq_wf_pos [OF assms(1)] by simp_all
  have "(index + iq_len q) mod ?f = (index + ?m) mod ?f" by (simp add: mod_add_right_eq)
  also have "\<dots> = (if index + ?m < ?f then index + ?m else index + ?m - ?f)"
  proof (cases "index + ?m < ?f")
    case True
    with m assms(2) show ?thesis by simp
  next
    case False
    have "(index + ?m) mod ?f = (index + ?m - ?f) mod ?f" by simp
    also have "\<dots> = index + ?m - ?f"
      using False m assms(3) by (intro mod_pos_pos_trivial) linarith+
    finally show ?thesis using False by simp
  qed
  finally show ?thesis using assms(1) by (simp add: truncate_def Let_def addr_index_mod)
qed


section \<open>Alignment of the counter\<close>

text \<open>
  The counter is aligned for an address when the bytes it counts from that address on end at
  a block boundary.
\<close>

definition iq_aligned :: "iq \<Rightarrow> int \<Rightarrow> bool" where
  "iq_aligned q a \<longleftrightarrow> iq_fetch_size q dvd iq_len q + a"

lemma iq_fields [simp]:
  "iq_len (iq_fetch q) = iq_len q + iq_fetch_size q" "iq_len (iq_flush q) = 0"
  "new_fetch (iq_fetch q)" "\<not> new_fetch (iq_flush q)" "\<not> new_fetch (iq_jump q)"
  by (simp_all add: iq_fetch_def iq_flush_def iq_jump_def truncate_def Let_def)

lemma dvd_minus_mod_add: "(b::int) dvd a - (c + a) mod b + c"
  by (metis (no_types, opaque_lifting) add.commute add_diff_eq diff_add_eq dvd_minus_mod)

lemma truncate_aligned:
  assumes "iq_wf q" "0 \<le> index" "index < iq_fetch_size q"
  shows "iq_aligned (truncate q index) index"
  using truncate_len [OF assms] dvd_minus_mod_add by (simp add: iq_aligned_def frame)

lemma truncate_bounds:
  assumes "iq_wf q" "0 \<le> index" "index < iq_fetch_size q"
  shows "iq_len q - iq_fetch_size q < iq_len (truncate q index) \<and> iq_len (truncate q index) \<le> iq_len q"
proof -
  have "0 \<le> (index + iq_len q) mod iq_fetch_size q" "(index + iq_len q) mod iq_fetch_size q < iq_fetch_size q"
    using iq_wf_pos [OF assms(1)] by simp_all
  then show ?thesis using truncate_len [OF assms] by linarith
qed

lemma iq_aligned_addr_index:
  "iq_wf q \<Longrightarrow> iq_fetch_size q' = iq_fetch_size q \<Longrightarrow>
    iq_aligned q' (addr_index q a) \<longleftrightarrow> iq_aligned q' a"
  by (simp add: iq_aligned_def addr_index_mod dvd_eq_mod_eq_0 mod_add_right_eq)

lemma iq_jump_aligned: "iq_wf q \<Longrightarrow> iq_aligned (iq_jump q) 0"
  unfolding iq_jump_def using iq_wf_pos [of q]
  by (intro truncate_aligned) (auto simp: iq_wf_def)

lemma iq_jump_bounds:
  assumes "iq_wf q"
  shows "iq_len q - 2 * iq_fetch_size q < iq_len (iq_jump q) \<and> iq_len (iq_jump q) \<le> iq_len q"
proof -
  let ?q = "if new_fetch q then q\<lparr>iq_len := iq_len q - iq_fetch_size q, new_fetch := False\<rparr> else q"
  have w: "iq_wf ?q" using assms by (simp add: iq_wf_def)
  have "iq_fetch_size ?q = iq_fetch_size q" by simp
  with truncate_bounds [OF w, of 0] iq_wf_pos [OF assms]
  have "iq_len ?q - iq_fetch_size q < iq_len (iq_jump q) \<and> iq_len (iq_jump q) \<le> iq_len ?q"
    by (simp add: iq_jump_def)
  then show ?thesis using iq_wf_pos [OF assms] by (auto split: if_splits)
qed

lemma iq_remove_straight:
  "\<not> is_jump i \<Longrightarrow> iq_remove q i =
    truncate (q\<lparr>iq_len := iq_len q - size_of i\<rparr>) (addr_index q (next_addr i))"
  by (simp add: iq_remove_def Let_def addr_index_def)

lemma remove_realigns:
  assumes "iq_wf q" "\<not> is_jump i"
  shows "iq_aligned (iq_remove q i) (next_addr i)"
proof -
  let ?q = "q\<lparr>iq_len := iq_len q - size_of i\<rparr>"
  have "iq_aligned (truncate ?q (addr_index q (next_addr i))) (addr_index q (next_addr i))"
    using addr_index_range [OF assms(1)] iq_wf_keeps(5) [OF assms(1)]
    by (intro truncate_aligned) simp_all
  then show ?thesis
    using iq_aligned_addr_index [OF assms(1)] by (simp add: iq_remove_straight [OF assms(2)] frame)
qed

lemma remove_exact:
  assumes "iq_wf q" "\<not> is_jump i" "iq_aligned q (address i)"
  shows "iq_len (iq_remove q i) = iq_len q - size_of i"
proof -
  let ?q = "q\<lparr>iq_len := iq_len q - size_of i\<rparr>" and ?n = "addr_index q (next_addr i)"
  have "(?n + iq_len ?q) mod iq_fetch_size q = (next_addr i + iq_len ?q) mod iq_fetch_size q"
    using assms(1) by (simp add: addr_index_mod mod_add_left_eq)
  also have "\<dots> = (iq_len q + address i) mod iq_fetch_size q" by (simp add: next_addr_def algebra_simps)
  also have "\<dots> = 0" using assms(3) by (simp add: iq_aligned_def)
  finally have "(?n + iq_len ?q) mod iq_fetch_size q = 0" .
  then show ?thesis
    using truncate_len [OF iq_wf_keeps(5) [OF assms(1)], of ?n] addr_index_range [OF assms(1)]
    by (simp add: iq_remove_straight [OF assms(2)])
qed

section \<open>The contract the pipeline relies on\<close>

text \<open>
  The pipeline only needs that an instruction is available once a level is reached, that
  the level it needs does not move, and that a fetch raises the level.
\<close>

locale fetch_queue =
  fixes good :: "'q \<Rightarrow> bool"
    and level :: "'q \<Rightarrow> int"
    and need :: "'q \<Rightarrow> 'i \<Rightarrow> int"
    and available :: "'q \<Rightarrow> 'i \<Rightarrow> bool"
    and refill :: "'q \<Rightarrow> 'q"
  assumes available_iff: "available q i \<longleftrightarrow> need q i \<le> level q"
    and refill_raises: "good q \<Longrightarrow> level q < level (refill q)"
    and refill_need: "need (refill q) i = need q i"
    and refill_good: "good q \<Longrightarrow> good (refill q)"
begin

definition deficit :: "'q \<Rightarrow> 'i \<Rightarrow> nat" where
  "deficit q i = nat (need q i - level q)"

lemma deficit_refill: "good q \<Longrightarrow> \<not> available q i \<Longrightarrow> deficit (refill q) i < deficit q i"
  using refill_raises [of q] refill_need [of q i]
  by (simp add: deficit_def available_iff)

lemma available_deficit: "available q i \<longleftrightarrow> deficit q i = 0"
  by (simp add: deficit_def available_iff)

lemma eventually_available: "good q \<Longrightarrow> \<exists>n. available ((refill ^^ n) q) i"
proof (induction "deficit q i" arbitrary: q rule: less_induct)
  case less
  show ?case
  proof (cases "available q i")
    case True
    then show ?thesis by (intro exI [of _ 0]) simp
  next
    case False
    from less.hyps [OF deficit_refill [OF less.prems False] refill_good [OF less.prems]]
    obtain n where "available ((refill ^^ n) (refill q)) i" by blast
    then show ?thesis by (intro exI [of _ "Suc n"]) (simp only: funpow_Suc_right o_apply)
  qed
qed

lemma refill_keeps_available: "good q \<Longrightarrow> available q i \<Longrightarrow> available (refill q) i"
  using refill_raises [of q] refill_need [of q i] by (simp add: available_iff)

end

definition iq_need :: "iq \<Rightarrow> instruction \<Rightarrow> int" where
  "iq_need q i = size_of i + (if is_crossword q i then iq_fetch_size q - 2 else 0)"

lemma iq_need_frame: "iq_fetch_size q' = iq_fetch_size q \<Longrightarrow> iq_need q' i = iq_need q i"
  by (simp add: iq_need_def is_crossword_def addr_index_def)

interpretation fq: fetch_queue iq_wf iq_len iq_need iq_has iq_fetch
proof
  fix q i
  show "iq_has q i \<longleftrightarrow> iq_need q i \<le> iq_len q" by (auto simp: iq_has_def iq_need_def)
  show "iq_len q < iq_len (iq_fetch q)" if "iq_wf q" using iq_wf_pos [OF that] by simp
  show "iq_need (iq_fetch q) i = iq_need q i" by (rule iq_need_frame) (rule frame)
  show "iq_wf (iq_fetch q)" if "iq_wf q" using that by simp
qed

text \<open>A misaligned crossing instruction never needs more than a block and the word.\<close>

lemma iq_need_bounds: "iq_wf q \<Longrightarrow> 2 \<le> iq_need q i \<and> iq_need q i \<le> iq_fetch_size q + 2"
  using iq_wf_pos [of q] size_of_cases [of i]
  by (auto simp: iq_need_def is_crossword_def size_of_def)

section \<open>Properties\<close>

text \<open>
  In straight-line code the byte counter is exact. If the counter is aligned for the
  instruction's address, removing an instruction that is no jump takes off its size and
  nothing else, and the counter is aligned for the next address.
\<close>

lemma straight_line_exact:
  assumes "iq_wf q" "\<not> is_jump i" "iq_aligned q (address i)"
  shows "iq_len (iq_remove q i) = iq_len q - size_of i \<and> iq_aligned (iq_remove q i) (next_addr i)"
  using remove_exact [OF assms] remove_realigns [OF assms(1,2)] by blast


lemma straight_line_exact_witness:
  "iq_len (iq_remove (iq_init 4) \<lparr>bin = 0x13, iid = 0, line = [], address = 64, hex_code = ''13'',
     mnemo = ''nop''\<rparr>) = 0"
proof -
  let ?i = "\<lparr>bin = 0x13, iid = 0, line = [], address = 64, hex_code = ''13'', mnemo = ''nop''\<rparr> :: instruction"
  have "\<not> is_jump ?i" by code_simp
  moreover have "size_of ?i = 4" by code_simp
  moreover have "iq_fetch_size (iq_init 4) = 4" "iq_len (iq_init 4) = 4"
    by (simp_all add: iq_init_def grow_fetch_size.simps)
  ultimately show ?thesis
    using straight_line_exact [OF iq_wf_init [of 4], of ?i] by (simp add: iq_aligned_def)
qed

text \<open>
  C13: fetching supplies every instruction. From a queue whose fetch block is a power of two,
  some number of fetches makes \<open>has\<close> true for any instruction, a fetch never makes it false
  again, and the number is bounded: two blocks above an empty queue always suffice.
\<close>

theorem fetches_supply:
  assumes "iq_wf q"
  shows "(\<exists>n. iq_has ((iq_fetch ^^ n) q) i) \<and> (iq_has q i \<longrightarrow> iq_has (iq_fetch q) i)
    \<and> (0 \<le> iq_len q \<longrightarrow> iq_has (iq_fetch (iq_fetch q)) i)"
proof -
  have "iq_need (iq_fetch (iq_fetch q)) i = iq_need q i" by (simp add: fq.refill_need)
  moreover have "iq_need q i \<le> iq_fetch_size q + 2" "4 \<le> iq_fetch_size q"
    using iq_need_bounds [OF assms, of i] iq_wf_pos [OF assms] by simp_all
  ultimately have "iq_has (iq_fetch (iq_fetch q)) i" if "0 \<le> iq_len q"
    using that fq.available_iff [of "iq_fetch (iq_fetch q)" i] by (simp add: frame)
  then show ?thesis using fq.eventually_available [OF assms] fq.refill_keeps_available [OF assms] by blast
qed

lemma fetches_supply_witness:
  "iq_has (iq_fetch (iq_fetch (iq_flush (iq_init 8)))) \<lparr>bin = 0x13, iid = 0, line = [],
     address = 6, hex_code = ''13'', mnemo = ''nop''\<rparr>"
  using fetches_supply [OF iq_wf_keeps(2) [OF iq_wf_init [of 8]]] by simp

end
