(* ===== verification/Predictors.thy ===== *)
theory Predictors
  imports Instruction
begin

text \<open>
  The branch predictors of \<open>perf-model/model.py\<close>: the return address stack \<open>Ras\<close> and the
  branch history table \<open>Bht\<close>, with the histories they abstract.
\<close>

section \<open>Return address stack\<close>

record ras =
  ras_depth :: int
  ras_stack :: "int list"
  last_dropped :: "int option"

definition ras_init :: "int \<Rightarrow> ras" where
  "ras_init depth = \<lparr>ras_depth = depth - 1, ras_stack = [], last_dropped = None\<rparr>"

definition ras_push :: "ras \<Rightarrow> int \<Rightarrow> ras" where
  "ras_push r addr =
     (let st = ras_stack r @ [addr]
      in r\<lparr>ras_stack := if int (length st) > ras_depth r then tl st else st\<rparr>)"

definition ras_drop :: "ras \<Rightarrow> ras" where
  "ras_drop r =
     (if ras_stack r \<noteq> []
      then r\<lparr>last_dropped := Some (last (ras_stack r)), ras_stack := butlast (ras_stack r)\<rparr>
      else r\<lparr>last_dropped := None\<rparr>)"

definition ras_read :: "ras \<Rightarrow> int option" where
  "ras_read r = last_dropped r"

definition ras_resolve :: "ras \<Rightarrow> instruction \<Rightarrow> ras result" where
  "ras_resolve r i =
     rbind (is_ret i) (\<lambda>rt. let r = (if rt then ras_drop r else r) in
     rbind (is_call i) (\<lambda>c. ret (if c then ras_push r (next_addr i) else r)))"

lemma ras_depth_const [frame, simp]:
  "ras_depth (ras_push r a) = ras_depth r" "ras_depth (ras_drop r) = ras_depth r"
  by (simp_all add: ras_push_def ras_drop_def Let_def)

definition ras_wf :: "ras \<Rightarrow> bool" where
  "ras_wf r \<longleftrightarrow> 0 \<le> ras_depth r \<and> int (length (ras_stack r)) \<le> ras_depth r"

lemma ras_wf_init: "1 \<le> d \<Longrightarrow> ras_wf (ras_init d)"
  by (simp add: ras_wf_def ras_init_def)

lemma ras_wf_keeps:
  "ras_wf r \<Longrightarrow> ras_wf (ras_push r a)" "ras_wf r \<Longrightarrow> ras_wf (ras_drop r)"
  by (auto simp: ras_wf_def ras_push_def ras_drop_def Let_def)

lemma ras_resolve_wf: "ras_wf r \<Longrightarrow> ras_resolve r i = Inr r' \<Longrightarrow> ras_wf r'"
  by (auto simp: ras_resolve_def Let_def ras_wf_keeps split: if_splits)

lemma ras_resolve_total:
  assumes "fields_of i = Inr f"
  shows "\<exists>r'. ras_resolve r i = Inr r'"
proof -
  obtain a b where "is_ret i = Inr a" "is_call i = Inr b"
    using is_ret_total [OF assms] is_call_total [OF assms] by blast
  then show ?thesis by (simp add: ras_resolve_def Let_def)
qed

text \<open>
  What a return should read is the address left by the call it matches, as brackets match. The
  calls and returns of a run are its events in order; \<open>nesting\<close> counts how many calls of a
  stretch are still open at its end, and a stretch \<open>stays_within\<close> a bound when, after each of
  its prefixes, no return has taken more than was opened and fewer than the bound are open.
\<close>

datatype jump = Called int | Returned

definition jumps_of :: "instruction \<Rightarrow> jump list" where
  "jumps_of i = (if is_ret i = Inr True then [Returned] else []) @
     (if is_call i = Inr True then [Called (address i + size_of i)] else [])"

fun nesting :: "jump list \<Rightarrow> int" where
  "nesting [] = 0"
| "nesting (Called _ # js) = nesting js + 1"
| "nesting (Returned # js) = nesting js - 1"

definition stays_within :: "int \<Rightarrow> jump list \<Rightarrow> bool" where
  "stays_within n js \<longleftrightarrow> (\<forall>k \<in> {..length js}. 0 \<le> nesting (take k js) \<and> nesting (take k js) < n)"

lemma nesting_append: "nesting (xs @ ys) = nesting xs + nesting ys"
  by (induction xs rule: nesting.induct) simp_all

lemma stays_within_Nil: "stays_within n [] \<longleftrightarrow> 0 < n"
  by (simp add: stays_within_def)

lemma stays_within_snoc:
  "stays_within n (js @ [j]) \<longleftrightarrow>
    stays_within n js \<and> 0 \<le> nesting (js @ [j]) \<and> nesting (js @ [j]) < n"
  by (auto simp: stays_within_def atMost_Suc nesting_append)

text \<open>The stack after some events, and the address that lies below \<open>k\<close> others.\<close>

fun ras_jump :: "ras \<Rightarrow> jump \<Rightarrow> ras" where
  "ras_jump r (Called a) = ras_push r a"
| "ras_jump r Returned = ras_drop r"

definition below :: "nat \<Rightarrow> ras \<Rightarrow> int \<Rightarrow> bool" where
  "below k r a \<longleftrightarrow> k < length (ras_stack r) \<and> rev (ras_stack r) ! k = a"

definition open_below :: "int \<Rightarrow> nat \<Rightarrow> jump list \<Rightarrow> int \<Rightarrow> bool" where
  "open_below n k js a \<longleftrightarrow>
     (\<exists>older inner. js = older @ Called a # inner \<and> nesting inner = int k \<and> stays_within n inner)"

lemma open_below_Nil: "\<not> open_below n k [] a"
  by (simp add: open_below_def)

lemma open_below_snoc:
  "open_below n k (js @ [j]) a \<longleftrightarrow>
    (j = Called a \<and> k = 0 \<and> 0 < n) \<or>
    (\<exists>older inner. js = older @ Called a # inner \<and> nesting (inner @ [j]) = int k
      \<and> stays_within n (inner @ [j]))"
  (is "?l \<longleftrightarrow> ?now \<or> ?old")
proof
  assume ?l
  then obtain older inner where 1: "js @ [j] = older @ Called a # inner" "nesting inner = int k"
    "stays_within n inner" by (auto simp: open_below_def)
  then show "?now \<or> ?old"
  proof (cases inner rule: rev_cases)
    case Nil
    with 1 show ?thesis by (auto simp: stays_within_Nil)
  next
    case (snoc ys y)
    with 1 have "js = older @ Called a # ys" "y = j" by simp_all
    with 1 snoc show ?thesis by blast
  qed
next
  assume "?now \<or> ?old"
  then show ?l
  proof
    assume ?now
    then have "js @ [j] = js @ Called a # []" "nesting [] = int k" "stays_within n []"
      by (simp_all add: stays_within_Nil)
    then show ?l unfolding open_below_def by blast
  next
    assume ?old
    then obtain older inner where "js @ [j] = older @ Called a # (inner @ [j])"
      "nesting (inner @ [j]) = int k" "stays_within n (inner @ [j])" by auto
    then show ?l unfolding open_below_def by blast
  qed
qed

lemma stays_within_bounds:
  assumes "stays_within n js"
  shows "0 \<le> nesting js \<and> nesting js < n"
  using assms [unfolded stays_within_def, rule_format, of "length js"] by simp

lemma open_below_called:
  "open_below n k (js @ [Called b]) a \<longleftrightarrow>
    int k < n \<and> (case k of 0 \<Rightarrow> b = a | Suc l \<Rightarrow> open_below n l js a)"
proof (cases k)
  case 0
  have "\<not> (nesting (inner @ [Called b]) = 0 \<and> stays_within n (inner @ [Called b]))" for inner
    using stays_within_bounds [of n inner] by (auto simp: stays_within_snoc nesting_append)
  with 0 show ?thesis unfolding open_below_snoc by auto
next
  case (Suc l)
  have e: "nesting (inner @ [Called b]) = int k \<and> stays_within n (inner @ [Called b]) \<longleftrightarrow>
    int k < n \<and> nesting inner = int l \<and> stays_within n inner" for inner
    using Suc by (auto simp: stays_within_snoc nesting_append)
  show ?thesis using Suc unfolding open_below_snoc e unfolding open_below_def by auto
qed

lemma open_below_returned:
  "open_below n k (js @ [Returned]) a \<longleftrightarrow> open_below n (Suc k) js a"
proof -
  have e: "nesting (inner @ [Returned]) = int k \<and> stays_within n (inner @ [Returned]) \<longleftrightarrow>
    nesting inner = int (Suc k) \<and> stays_within n inner" for inner
    using stays_within_bounds [of n inner] by (auto simp: stays_within_snoc nesting_append)
  show ?thesis unfolding open_below_snoc e unfolding open_below_def by simp
qed

lemma below_push:
  assumes "ras_wf r"
  shows "below k (ras_push r b) a \<longleftrightarrow>
    int k < ras_depth r \<and> (case k of 0 \<Rightarrow> b = a | Suc l \<Rightarrow> below l r a)"
proof -
  have t: "rev (tl (xs @ [b])) = butlast (b # rev xs)" for xs :: "int list"
    by (cases xs) simp_all
  have "rev (ras_stack (ras_push r b)) = take (nat (ras_depth r)) (b # rev (ras_stack r))"
    using assms
    by (cases "ras_depth r = int (length (ras_stack r))")
      (auto simp: ras_wf_def ras_push_def Let_def t butlast_conv_take)
  then show ?thesis
    using assms unfolding below_def length_rev [symmetric, of "ras_stack _"]
    by (auto simp: ras_wf_def zless_nat_eq_int_zless split: nat.splits)
qed

lemma below_drop: "below k (ras_drop r) a \<longleftrightarrow> below (Suc k) r a"
  by (cases "ras_stack r" rule: rev_cases) (auto simp: below_def ras_drop_def)

lemma ras_read_drop: "ras_read (ras_drop r) = Some a \<longleftrightarrow> below 0 r a"
  by (cases "ras_stack r" rule: rev_cases) (auto simp: below_def ras_drop_def ras_read_def)

lemma ras_jumps_wf: "ras_wf r \<Longrightarrow> ras_wf (foldl ras_jump r js)"
proof (induction js arbitrary: r)
  case (Cons j js)
  then show ?case by (cases j) (simp_all add: ras_wf_keeps)
qed simp

lemma ras_jumps_depth: "ras_depth (foldl ras_jump r js) = ras_depth r"
proof (induction js arbitrary: r)
  case (Cons j js)
  then show ?case by (cases j) simp_all
qed simp

lemma ras_stack_open:
  assumes "1 \<le> d"
  shows "below k (foldl ras_jump (ras_init d) js) a \<longleftrightarrow> open_below (d - 1) k js a"
proof (induction js arbitrary: k rule: rev_induct)
  case Nil
  show ?case by (simp add: open_below_Nil below_def ras_init_def)
next
  case (snoc j js)
  have wf: "ras_wf (foldl ras_jump (ras_init d) js)" using assms by (simp add: ras_jumps_wf ras_wf_init)
  have dp: "ras_depth (foldl ras_jump (ras_init d) js) = d - 1"
    by (simp add: ras_jumps_depth) (simp add: ras_init_def)
  show ?case
  proof (cases j)
    case (Called b)
    then show ?thesis
      by (simp add: below_push [OF wf] dp open_below_called snoc.IH split: nat.split)
  next
    case Returned
    then show ?thesis by (simp add: below_drop open_below_returned snoc.IH)
  qed
qed

lemma ras_resolve_jumps:
  assumes "ras_resolve r i = Inr r'"
  shows "r' = foldl ras_jump r (jumps_of i)"
  using assms by (auto simp: ras_resolve_def jumps_of_def Let_def next_addr_def)

lemma ras_resolves_jumps:
  "foldR ras_resolve r is = Inr r' \<Longrightarrow> r' = foldl ras_jump r (concat (map jumps_of is))"
proof (induction "is" arbitrary: r)
  case (Cons i "is")
  then obtain r1 where "ras_resolve r i = Inr r1" "foldR ras_resolve r1 is = Inr r'" by auto
  with Cons.IH ras_resolve_jumps show ?case by simp
qed simp

section \<open>Branch history table\<close>

record bht_entry =
  valid :: bool
  sat_counter :: int

type_synonym bht = "bht_entry list"

definition bht_init :: "nat \<Rightarrow> bht" where
  "bht_init entries = replicate entries \<lparr>valid = False, sat_counter = 0\<rparr>"

definition bht_index :: "bht \<Rightarrow> int \<Rightarrow> nat result" where
  "bht_index b addr =
     (if b = [] then raise ZeroDivisionError else ret (nat (shr addr 1 mod int (length b))))"

definition bht_predict :: "bht \<Rightarrow> int \<Rightarrow> bool option result" where
  "bht_predict b addr = rbind (bht_index b addr) (\<lambda>n.
     let entry = b ! n in
     ret (if valid entry then Some (sat_counter entry \<ge> 2) else None))"

definition train :: "bool \<Rightarrow> bht_entry \<Rightarrow> bht_entry" where
  "train taken entry =
     (let entry = entry\<lparr>valid := True\<rparr> in
      if taken then
        if sat_counter entry < 3 then entry\<lparr>sat_counter := sat_counter entry + 1\<rparr> else entry
      else
        if sat_counter entry > 0 then entry\<lparr>sat_counter := sat_counter entry - 1\<rparr> else entry)"

definition bht_resolve :: "bht \<Rightarrow> int \<Rightarrow> bool \<Rightarrow> bht result" where
  "bht_resolve b addr taken = rbind (bht_index b addr) (\<lambda>n. ret (b[n := train taken (b ! n)]))"

lemma bht_index_eq: "b \<noteq> [] \<Longrightarrow> bht_index b a = Inr (nat (shr a 1 mod int (length b)))"
  by (simp add: bht_index_def)

lemma bht_index_less: "bht_index b a = Inr n \<Longrightarrow> n < length b"
  by (auto simp: bht_index_def nat_less_iff split: if_splits)

lemma bht_index_cong: "length b = length b' \<Longrightarrow> bht_index b a = bht_index b' a"
  by (auto simp: bht_index_def)

lemma bht_total:
  assumes "b \<noteq> []"
  shows "\<exists>p. bht_predict b a = Inr p" "\<exists>b'. bht_resolve b a t = Inr b'"
  using assms by (simp_all add: bht_predict_def bht_resolve_def bht_index_eq Let_def)

lemma bht_length: "bht_resolve b a t = Inr b' \<Longrightarrow> length b' = length b"
  by (auto simp: bht_resolve_def)

definition entry_ok :: "bht_entry \<Rightarrow> bool" where
  "entry_ok e \<longleftrightarrow> 0 \<le> sat_counter e \<and> sat_counter e \<le> 3"

lemma train_ok: "entry_ok e \<Longrightarrow> entry_ok (train t e)"
  by (auto simp: entry_ok_def train_def Let_def)

definition bht_resolve_all :: "bht \<Rightarrow> (int \<times> bool) list \<Rightarrow> bht result" where
  "bht_resolve_all = foldR (\<lambda>b (a, t). bht_resolve b a t)"

interpretation bht_inv: loop_invariant "\<lambda>b. \<forall>e \<in> set b. entry_ok e" "\<lambda>b (a, t). bht_resolve b a t"
proof
  fix b :: bht and x b'
  assume ok: "\<forall>e \<in> set b. entry_ok e"
    and st: "(case x of (a, t) \<Rightarrow> bht_resolve b a t) = Inr b'"
  then obtain a t n where "bht_index b a = Inr n" "b' = b[n := train t (b ! n)]"
    by (cases x) (auto simp: bht_resolve_def)
  with ok bht_index_less [of b a n] show "\<forall>e \<in> set b'. entry_ok e"
    using set_update_subset_insert [of b n] train_ok [of "b ! n" t] by (auto dest!: subsetD)
qed

text \<open>
  What the table remembers of a history: each entry is its initial value trained with the
  outcomes of the branches that share its index, in order.
\<close>

lemma bht_history:
  "bht_resolve_all b h = Inr b' \<Longrightarrow> n < length b \<Longrightarrow>
    b' ! n = foldl (\<lambda>e t. train t e) (b ! n) (map snd (filter (\<lambda>(a, t). bht_index b a = Inr n) h))"
proof (induction h arbitrary: b)
  case (Cons x h)
  obtain a t where x: "x = (a, t)" by (cases x)
  with Cons.prems(1) obtain b1 where b1: "bht_resolve b a t = Inr b1" "bht_resolve_all b1 h = Inr b'"
    by (auto simp: bht_resolve_all_def)
  then obtain m where m: "bht_index b a = Inr m" "b1 = b[m := train t (b ! m)]"
    by (auto simp: bht_resolve_def)
  have l: "length b1 = length b" using b1 bht_length by blast
  then have "bht_index b1 a' = bht_index b a'" for a' by (rule bht_index_cong)
  with Cons.IH [OF b1(2)] Cons.prems(2) m x l show ?case by auto
qed (simp add: bht_resolve_all_def)

lemma bht_resolve_all_total: "b \<noteq> [] \<Longrightarrow> \<exists>b'. bht_resolve_all b h = Inr b'"
proof (induction h arbitrary: b)
  case (Cons x h)
  obtain a t where x: "x = (a, t)" by (cases x)
  with bht_total(2) [OF Cons.prems] obtain b1 where b1: "bht_resolve b a t = Inr b1" by blast
  with bht_length Cons.prems have "b1 \<noteq> []" by fastforce
  from Cons.IH [OF this] b1 x show ?case by (simp add: bht_resolve_all_def)
qed (simp add: bht_resolve_all_def)

lemma train_twice:
  assumes "entry_ok e"
  shows "sat_counter (train t (train t e)) \<ge> 2 \<longleftrightarrow> t" "valid (train t (train t e))"
  using assms by (auto simp: entry_ok_def train_def Let_def)

lemma bht_init_ne: "0 < n \<Longrightarrow> bht_init n \<noteq> []"
  by (simp add: bht_init_def)

lemma bht_init_ok: "\<forall>e \<in> set (bht_init n). entry_ok e"
  by (simp add: bht_init_def entry_ok_def)

lemma bht_resolve_all_append:
  "bht_resolve_all b (xs @ ys) = rbind (bht_resolve_all b xs) (\<lambda>b'. bht_resolve_all b' ys)"
  by (simp add: bht_resolve_all_def foldR_append)

lemma bht_resolve_all_length: "bht_resolve_all b h = Inr b' \<Longrightarrow> length b' = length b"
  by (induction h arbitrary: b) (auto simp: bht_resolve_all_def dest!: bht_length)

lemma predict_twice:
  assumes ok: "\<forall>e \<in> set b. entry_ok e" and h: "bht_resolve_all b [(a, t), (a, t)] = Inr b'"
  shows "bht_predict b' a = Inr (Some t)"
proof -
  from h have ne: "b \<noteq> []" by (auto simp: bht_resolve_all_def bht_resolve_def bht_index_def)
  then obtain n where n: "bht_index b a = Inr n" by (simp add: bht_index_eq)
  have l: "n < length b" using n by (rule bht_index_less)
  have "length b' = length b" using bht_resolve_all_length [OF h] .
  then have n': "bht_index b' a = Inr n" using n bht_index_cong by metis
  from bht_history [OF h l] n have e: "b' ! n = train t (train t (b ! n))" by simp
  from ok l have "entry_ok (b ! n)" by simp
  from train_twice [OF this, of t] n' e show ?thesis by (simp add: bht_predict_def)
qed

text \<open>
  The counter of an entry without the counter: \<open>tally\<close> is the lead of the taken outcomes, and
  \<open>reached v\<close> says that the counter is at least \<open>v\<close>, since some point it has gained \<open>v\<close>, and
  it has never lost more than its size \<open>3\<close> leaves.
\<close>

definition tally :: "bool list \<Rightarrow> int" where
  "tally ts = (\<Sum>t \<leftarrow> ts. if t then 1 else - 1)"

definition latest :: "nat \<Rightarrow> 'a list \<Rightarrow> 'a list" where
  "latest k xs = drop (length xs - k) xs"

definition leans_taken :: "bool list \<Rightarrow> bool" where
  "leans_taken ts \<longleftrightarrow> (\<exists>k \<in> {..length ts}. 2 \<le> tally (latest k ts)
     \<and> (\<forall>j \<in> {..k}. - 1 \<le> tally (latest j ts)))"

definition reached :: "int \<Rightarrow> bool list \<Rightarrow> bool" where
  "reached v ts \<longleftrightarrow> (\<exists>k \<le> length ts. v \<le> tally (latest k ts)
     \<and> (\<forall>j \<le> k. v - 3 \<le> tally (latest j ts)))"

lemma latest_simps: "latest 0 xs = []" "latest (Suc k) (xs @ [x]) = latest k xs @ [x]"
  by (simp_all add: latest_def)

lemma tally_simps: "tally [] = 0" "tally (ts @ [t]) = tally ts + (if t then 1 else - 1)"
  by (simp_all add: tally_def)

lemma reached_low: "v \<le> 0 \<Longrightarrow> reached v ts"
  by (auto simp: reached_def latest_simps tally_simps intro!: exI [of _ 0])

lemma all_le_Suc: "(\<forall>j \<le> Suc k. P j) \<longleftrightarrow> P 0 \<and> (\<forall>j \<le> k. P (Suc j))"
  by (simp add: All_less_Suc2 flip: less_Suc_eq_le)

lemma reached_snoc:
  assumes "1 \<le> v"
  shows "reached v (ts @ [t]) \<longleftrightarrow> v \<le> 3 \<and> reached (v - (if t then 1 else - 1)) ts"
proof -
  have "(\<exists>k \<le> length (ts @ [t]). P k) \<longleftrightarrow> P 0 \<or> (\<exists>k \<le> length ts. P (Suc k))" for P
    by (simp add: Ex_less_Suc2 flip: less_Suc_eq_le)
  then have "reached v (ts @ [t]) \<longleftrightarrow> (\<exists>k \<le> length ts. v \<le> tally (latest (Suc k) (ts @ [t]))
     \<and> (\<forall>j \<le> Suc k. v - 3 \<le> tally (latest j (ts @ [t]))))"
    using assms unfolding reached_def by (simp add: latest_simps tally_simps)
  then show ?thesis
    unfolding all_le_Suc reached_def by (auto simp: latest_simps tally_simps algebra_simps)
qed

definition trained :: "bool list \<Rightarrow> bht_entry" where
  "trained ts = foldl (\<lambda>e t. train t e) \<lparr>valid = False, sat_counter = 0\<rparr> ts"

lemma trained_snoc: "trained (ts @ [t]) = train t (trained ts)"
  by (simp add: trained_def)

lemma trained_ok: "entry_ok (trained ts)"
  by (induction ts rule: rev_induct) (simp_all add: trained_snoc train_ok, simp add: trained_def entry_ok_def)

lemma trained_valid: "valid (trained ts) \<longleftrightarrow> ts \<noteq> []"
  by (induction ts rule: rev_induct) (auto simp: trained_def train_def Let_def)

lemma trained_reached: "1 \<le> v \<Longrightarrow> v \<le> sat_counter (trained ts) \<longleftrightarrow> reached v ts"
proof (induction ts arbitrary: v rule: rev_induct)
  case Nil
  then show ?case by (simp add: trained_def reached_def latest_def tally_def)
next
  case (snoc t ts)
  from trained_ok [of ts] have ok: "0 \<le> sat_counter (trained ts)" "sat_counter (trained ts) \<le> 3"
    by (simp_all add: entry_ok_def)
  show ?case
  proof (cases t)
    case True
    then have "sat_counter (trained (ts @ [t])) = min 3 (sat_counter (trained ts) + 1)"
      using ok by (simp add: trained_snoc train_def Let_def)
    moreover have "v - 1 \<le> sat_counter (trained ts) \<longleftrightarrow> reached (v - 1) ts"
      using snoc reached_low [of 0 ts] ok by (cases "v = 1") simp_all
    ultimately show ?thesis using True snoc.prems by (auto simp: reached_snoc)
  next
    case False
    then have "sat_counter (trained (ts @ [t])) = max 0 (sat_counter (trained ts) - 1)"
      using ok by (simp add: trained_snoc train_def Let_def)
    moreover have "v + 1 \<le> sat_counter (trained ts) \<longleftrightarrow> reached (v + 1) ts"
      using snoc by simp
    ultimately show ?thesis using False snoc.prems ok by (auto simp: reached_snoc)
  qed
qed

lemma trained_leans: "2 \<le> sat_counter (trained ts) \<longleftrightarrow> leans_taken ts"
  by (auto simp: trained_reached reached_def leans_taken_def)

text \<open>The slot of an address, as the predictor of an initial table sees it.\<close>

lemma bht_index_slot:
  "0 < entries \<Longrightarrow> bht_index (bht_init entries) a = Inr (nat (a div 2 mod int entries))"
  by (simp add: bht_index_def bht_init_def drop_bit_eq_div)

lemma bht_slot_less: "0 < entries \<Longrightarrow> nat (a div 2 mod int entries) < length (bht_init entries)"
  by (simp add: bht_init_def nat_less_iff)

lemma nat_mod_eq_iff:
  "0 < n \<Longrightarrow> nat (x mod int n) = nat (y mod int n) \<longleftrightarrow> x mod int n = y mod int n"
  by (auto simp: nat_eq_iff2)

lemma bht_init_slot: "n < length (bht_init entries) \<Longrightarrow> bht_init entries ! n = trained []"
  by (simp add: bht_init_def trained_def)

lemma bht_predict_slot:
  assumes "0 < entries" "bht_resolve_all (bht_init entries) h = Inr b"
  shows "bht_predict b a = (let entry = b ! nat (a div 2 mod int entries)
     in Inr (if valid entry then Some (2 \<le> sat_counter entry) else None))"
  using bht_index_cong [OF bht_resolve_all_length [OF assms(2)], of a] bht_index_slot [OF assms(1)]
  by (simp add: bht_predict_def)

lemma bht_slot_trained:
  assumes "0 < entries" "bht_resolve_all (bht_init entries) h = Inr b"
  shows "b ! nat (a div 2 mod int entries) =
    trained (map snd (filter (\<lambda>(a', t). (a' div 2) mod int entries = (a div 2) mod int entries) h))"
  using bht_history [OF assms(2) bht_slot_less [OF assms(1), of a]] bht_slot_less [OF assms(1), of a]
  by (simp add: bht_init_slot bht_index_slot [OF assms(1)] nat_mod_eq_iff [OF assms(1)] trained_def)

section \<open>Properties\<close>

text \<open>
  C14: the return address stack answers as the matching of calls and returns does, as far as
  its size reaches. After any run of instructions, calls and returns in any order, the address
  read for a return is the one after the call it matches, exactly when since that call never
  more than \<open>depth - 2\<close> calls were open at once; otherwise, or when no call matches, nothing is
  read. So an overflow costs the outermost calls only, and never gives a wrong address.
\<close>

theorem ras_lifo:
  assumes "1 \<le> d" "foldR ras_resolve (ras_init d) (is @ [i]) = Inr r" "is_ret i = Inr True"
  shows "ras_read r = Some a \<longleftrightarrow>
    (\<exists>older inner. concat (map jumps_of is) = older @ Called a # inner
      \<and> nesting inner = 0 \<and> stays_within (d - 1) inner)"
proof -
  obtain r0 where r0: "foldR ras_resolve (ras_init d) is = Inr r0" "ras_resolve r0 i = Inr r"
    using assms(2) by (auto simp: foldR_append)
  have "ras_read r = ras_read (ras_drop r0)"
    using r0(2) assms(3)
    by (auto simp: ras_resolve_def ras_read_def ras_push_def Let_def)
  moreover have "below 0 r0 a \<longleftrightarrow> open_below (d - 1) 0 (concat (map jumps_of is)) a"
    using ras_stack_open [OF assms(1)] ras_resolves_jumps [OF r0(1)] by simp
  ultimately show ?thesis by (simp add: ras_read_drop open_below_def)
qed

definition call_at :: "int \<Rightarrow> instruction" where
  "call_at a = \<lparr>bin = 0xef, iid = 0, line = [], address = a, hex_code = [], mnemo = ''jal''\<rparr>"

definition ret_at :: "int \<Rightarrow> instruction" where
  "ret_at a = \<lparr>bin = 0x8067, iid = 0, line = [], address = a, hex_code = [], mnemo = ''ret''\<rparr>"

lemma jumps_of_examples:
  "is_ret (ret_at a) = Inr True" "is_call (ret_at a) = Inr False"
  "is_ret (call_at a) = Inr False" "is_call (call_at a) = Inr True"
  "size_of (call_at a) = 4" "address (call_at a) = a"
  by code_simp+

text \<open>
  Two nested calls in a stack of one address: the inner return reads its address, the outer one
  nothing, though one call is open.
\<close>

lemma ras_lifo_witness:
  "(\<exists>r. foldR ras_resolve (ras_init 2) ([call_at 0, call_at 8] @ [ret_at 16]) = Inr r
      \<and> ras_read r = Some 12) \<and>
   (\<exists>r. foldR ras_resolve (ras_init 2) ([call_at 0, call_at 8, ret_at 16] @ [ret_at 20]) = Inr r
      \<and> ras_read r = None)"
proof -
  obtain r where r: "foldR ras_resolve (ras_init 2) ([call_at 0, call_at 8] @ [ret_at 16]) = Inr r"
    by (simp add: ras_resolve_def jumps_of_examples)
  obtain q where q: "foldR ras_resolve (ras_init 2) ([call_at 0, call_at 8, ret_at 16] @ [ret_at 20]) = Inr q"
    by (simp add: ras_resolve_def jumps_of_examples)
  have js: "concat (map jumps_of [call_at 0, call_at 8]) = [Called 4] @ Called 12 # []"
    "concat (map jumps_of [call_at 0, call_at 8, ret_at 16]) = [Called 4, Called 12, Returned]"
    by (simp_all add: jumps_of_def jumps_of_examples)
  have w: "nesting [] = 0 \<and> stays_within (2 - 1) []" "\<not> stays_within (2 - 1) [Called 12, Returned]"
    "nesting [Returned] \<noteq> 0" by (simp_all add: stays_within_def atMost_Suc)
  from w(1) js(1) ras_lifo [OF _ r jumps_of_examples(1), of 12] have "ras_read r = Some 12" by force
  moreover have "ras_read q \<noteq> Some a" for a
    using w(2,3) ras_lifo [OF _ q jumps_of_examples(1), of a] unfolding js(2)
    by (auto simp: Cons_eq_append_conv)
  ultimately show ?thesis using r q by auto
qed

text \<open>
  C15: the branch history table predicts by a majority with hysteresis. After any sequence of
  resolved branches, the prediction for an address depends on the outcomes of the branches with
  the same half-word address modulo the number of entries, and on nothing else: there is none
  before the first of them; then a branch is predicted taken exactly when over some latest
  stretch of these outcomes the taken ones lead by two or more, and over no part of the stretch
  that is later still do the others lead by two.
\<close>

theorem bht_refines_history:
  assumes "0 < entries"
  shows "\<exists>b. bht_resolve_all (bht_init entries) h = Inr b \<and>
    (\<forall>a. bht_predict b a = Inr
      (let ts = map snd (filter (\<lambda>(a', t). (a' div 2) mod int entries = (a div 2) mod int entries) h)
       in if ts = [] then None else Some (leans_taken ts)))"
proof -
  obtain b where b: "bht_resolve_all (bht_init entries) h = Inr b"
    using bht_resolve_all_total [OF bht_init_ne [OF assms]] by blast
  have "bht_predict b a = Inr
      (let ts = map snd (filter (\<lambda>(a', t). (a' div 2) mod int entries = (a div 2) mod int entries) h)
       in if ts = [] then None else Some (leans_taken ts))" for a
    by (simp add: bht_predict_slot [OF assms b] bht_slot_trained [OF assms b] trained_valid
      trained_leans Let_def)
  with b show ?thesis by blast
qed

lemma bht_refines_history_witness:
  "\<exists>b. bht_resolve_all (bht_init 4)
      [(8, True), (16, True), (8, True), (10, False), (24, False)] = Inr b
    \<and> bht_predict b 8 = Inr (Some True) \<and> bht_predict b 10 = Inr (Some False)
    \<and> bht_predict b 12 = Inr None"
proof -
  obtain b where b: "bht_resolve_all (bht_init 4)
      [(8, True), (16, True), (8, True), (10, False), (24, False)] = Inr b"
    and p: "\<And>a. bht_predict b a = Inr
      (let ts = map snd (filter (\<lambda>(a', t). (a' div 2) mod int 4 = (a div 2) mod int 4)
        [(8, True), (16, True), (8, True), (10, False), (24, False)])
       in if ts = [] then None else Some (leans_taken ts))"
    using bht_refines_history [of 4 "[(8, True), (16, True), (8, True), (10, False), (24, False)]"]
    by auto
  have "leans_taken [True, True, True, False]" "\<not> leans_taken [False]"
    by (simp_all add: leans_taken_def tally_def latest_def atMost_Suc eval_nat_numeral)
  then have "bht_predict b 8 = Inr (Some True)" "bht_predict b 10 = Inr (Some False)"
    "bht_predict b 12 = Inr None" unfolding p by simp_all
  with b show ?thesis by blast
qed

text \<open>
  Two outcomes in a row settle a prediction: whatever history an entry has, after the same
  branch has been resolved twice with one outcome, that outcome is predicted for its address.
\<close>

lemma bht_learns:
  assumes "0 < entries" "bht_resolve_all (bht_init entries) (h @ [(a, t), (a, t)]) = Inr b"
  shows "bht_predict b a = Inr (Some t)"
proof -
  from assms(2) obtain b1 where b1: "bht_resolve_all (bht_init entries) h = Inr b1"
    "bht_resolve_all b1 [(a, t), (a, t)] = Inr b" by (auto simp: bht_resolve_all_append)
  have "\<forall>e \<in> set b1. entry_ok e"
    using bht_inv.loop_keeps [OF bht_init_ok] b1(1) unfolding bht_resolve_all_def by blast
  then show ?thesis using b1(2) by (rule predict_twice)
qed

lemma bht_learns_witness:
  "\<exists>b. bht_resolve_all (bht_init 2) ([(4, False)] @ [(8, True), (8, True)]) = Inr b
    \<and> bht_predict b 8 = Inr (Some True)"
proof -
  obtain b where b: "bht_resolve_all (bht_init 2) ([(4, False)] @ [(8, True), (8, True)]) = Inr b"
    using bht_resolve_all_total [OF bht_init_ne, of 2] by (meson zero_less_numeral)
  from bht_learns [OF zero_less_numeral b] b show ?thesis by blast
qed

end
