(* ===== verification/Fus.thy ===== *)
theory Fus
  imports Instruction
begin

text \<open>
  The functional units of \<open>perf-model/model.py\<close>: \<open>Fu\<close>, \<open>to_fu\<close> and \<open>FusBusy\<close>.
\<close>

datatype fu = ALU | MUL | BRANCH | LDU | STU

definition to_fu :: "'a instr_scheme \<Rightarrow> fu result" where
  "to_fu i = rbind (if is_branch i then ret True else is_regjump i) (\<lambda>b.
     if b then ret BRANCH
     else rbind (is_muldiv i) (\<lambda>m.
       ret (if m then MUL else if is_load i then LDU else if is_store i then STU else ALU)))"

record fus_busy =
  has_alu2 :: bool
  alu :: bool
  mul :: bool
  branch :: bool
  ldu :: bool
  stu :: bool
  alu2 :: bool
  issued_mul :: bool

definition fus_init :: "bool \<Rightarrow> fus_busy" where
  "fus_init h = \<lparr>has_alu2 = h, alu = False, mul = False, branch = False, ldu = False,
     stu = False, alu2 = False, issued_mul = False\<rparr>"

definition alu2_ready :: "fus_busy \<Rightarrow> bool" where
  "alu2_ready b \<longleftrightarrow> has_alu2 b \<and> \<not> alu2 b"

fun is_ready :: "fus_busy \<Rightarrow> fu \<Rightarrow> bool" where
  "is_ready b ALU = (alu2_ready b \<or> \<not> alu b)"
| "is_ready b MUL = (\<not> mul b)"
| "is_ready b BRANCH = (\<not> branch b)"
| "is_ready b LDU = (\<not> ldu b)"
| "is_ready b STU = (\<not> stu b)"

definition is_ready_for :: "fus_busy \<Rightarrow> 'a instr_scheme \<Rightarrow> bool result" where
  "is_ready_for b i = rbind (to_fu i) (\<lambda>f. ret (is_ready b f))"

definition issue_mul :: "fus_busy \<Rightarrow> fus_busy" where
  "issue_mul b = b\<lparr>mul := True, issued_mul := True\<rparr>"

definition issue_alu :: "fus_busy \<Rightarrow> fus_busy result" where
  "issue_alu b =
     (if \<not> alu2_ready b
      then rbind (assertR (\<not> alu b)) (\<lambda>_. ret (b\<lparr>alu := True, branch := True\<rparr>))
      else ret (b\<lparr>alu2 := True\<rparr>))"

definition issue_branch :: "fus_busy \<Rightarrow> fus_busy" where
  "issue_branch b = b\<lparr>alu := True, branch := True, stu := True\<rparr>"

definition issue_ldu :: "fus_busy \<Rightarrow> fus_busy" where
  "issue_ldu b = b\<lparr>ldu := True, stu := True\<rparr>"

definition issue_stu :: "fus_busy \<Rightarrow> fus_busy" where
  "issue_stu b = b\<lparr>stu := True, ldu := True\<rparr>"

fun issue_fu :: "fus_busy \<Rightarrow> fu \<Rightarrow> fus_busy result" where
  "issue_fu b ALU = issue_alu b"
| "issue_fu b MUL = ret (issue_mul b)"
| "issue_fu b BRANCH = ret (issue_branch b)"
| "issue_fu b LDU = ret (issue_ldu b)"
| "issue_fu b STU = ret (issue_stu b)"

definition fus_issue :: "fus_busy \<Rightarrow> 'a instr_scheme \<Rightarrow> fus_busy result" where
  "fus_issue b i = rbind (to_fu i) (issue_fu b)"

definition fus_cycle :: "fus_busy \<Rightarrow> fus_busy" where
  "fus_cycle b = b\<lparr>alu := issued_mul b, mul := False, branch := issued_mul b, ldu := False,
     stu := False, alu2 := False, issued_mul := False\<rparr>"

section \<open>Facts\<close>

lemmas fus_defs = alu2_ready_def issue_mul_def issue_alu_def issue_branch_def issue_ldu_def
  issue_stu_def assertR_def

lemma to_fu_total: "\<exists>f. to_fu i = Inr f"
proof -
  obtain r m where "is_regjump i = Inr r" "is_muldiv i = Inr m"
    using is_regjump_total [of i] is_muldiv_total [of i] by blast
  then show ?thesis by (cases "is_branch i") (simp_all add: to_fu_def)
qed

lemma is_ready_for_total: "\<exists>r. is_ready_for b i = Inr r"
proof -
  obtain f where "to_fu i = Inr f" using to_fu_total [of i] by blast
  then show ?thesis by (simp add: is_ready_for_def)
qed

lemma issue_fu_ready: "is_ready b f \<Longrightarrow> \<exists>b'. issue_fu b f = Inr b'"
  by (cases f) (auto simp: fus_defs)

lemma fus_issue_ready: "is_ready_for b i = Inr True \<Longrightarrow> \<exists>b'. fus_issue b i = Inr b'"
  by (auto simp: is_ready_for_def fus_issue_def dest: issue_fu_ready)

lemma has_alu2_const [frame]:
  "issue_fu b f = Inr b' \<Longrightarrow> has_alu2 b' = has_alu2 b" "has_alu2 (fus_cycle b) = has_alu2 b"
  by (cases f) (auto simp: fus_defs fus_cycle_def split: if_splits)

text \<open>A unit that is taken for the rest of the cycle stays taken.\<close>

lemma issue_fu_occupies:
  "issue_fu b f = Inr b' \<Longrightarrow> f \<noteq> ALU \<Longrightarrow> \<not> is_ready b' f"
  by (cases f) (auto simp: fus_defs)

lemma issue_fu_mono:
  "issue_fu b f = Inr b' \<Longrightarrow> is_ready b' g \<Longrightarrow> is_ready b g"
  by (cases f; cases g) (auto simp: fus_defs split: if_splits)

text \<open>What one cycle may issue: the sequence of units taken between two \<open>cycle\<close> calls.\<close>

fun issues :: "fus_busy \<Rightarrow> fu list \<Rightarrow> fus_busy option" where
  "issues b [] = Some b"
| "issues b (f # fs) =
     (if is_ready b f then (case issue_fu b f of Inr b' \<Rightarrow> issues b' fs | Inl _ \<Rightarrow> None) else None)"

lemma issues_count:
  "issues b fs = Some b' \<Longrightarrow> f \<noteq> ALU \<Longrightarrow> count_list fs f \<le> (if is_ready b f then 1 else 0)"
proof (induction fs arbitrary: b)
  case (Cons g fs)
  then obtain b1 where b1: "is_ready b g" "issue_fu b g = Inr b1" "issues b1 fs = Some b'"
    by (auto split: if_splits sum.splits)
  from Cons.IH [OF b1(3) Cons.prems(2)] b1 issue_fu_occupies [OF b1(2)] issue_fu_mono [OF b1(2), of f]
  show ?case using Cons.prems(2) by (auto split: if_splits)
qed simp

definition alu_slots :: "fus_busy \<Rightarrow> nat" where
  "alu_slots b = (if alu b then 0 else 1) + (if alu2_ready b then 1 else 0)"

lemma issues_alu_count: "issues b fs = Some b' \<Longrightarrow> count_list fs ALU \<le> alu_slots b"
proof (induction fs arbitrary: b)
  case (Cons g fs)
  then obtain b1 where b1: "is_ready b g" "issue_fu b g = Inr b1" "issues b1 fs = Some b'"
    by (auto split: if_splits sum.splits)
  have "alu_slots b1 + (if g = ALU then 1 else 0) \<le> alu_slots b"
    using b1(1,2) by (cases g) (auto simp: alu_slots_def fus_defs split: if_splits)
  with Cons.IH [OF b1(3)] show ?case by auto
qed simp

lemma issues_stu_block:
  "issues b fs = Some b' \<Longrightarrow> (\<not> is_ready b STU \<longrightarrow> STU \<notin> set fs)"
proof -
  assume "issues b fs = Some b'"
  from issues_count [OF this, of STU] show ?thesis
    by (auto simp: count_list_0_iff [symmetric])
qed

lemma issues_append:
  "issues b (xs @ ys) = (case issues b xs of None \<Rightarrow> None | Some b' \<Rightarrow> issues b' ys)"
  by (induction xs arbitrary: b) (auto split: sum.split)

section \<open>Properties\<close>

text \<open>
  The assertion of \<open>issue_alu\<close> never fails where the pipeline calls it: whenever
  \<open>is_ready_for\<close> answers True, \<open>issue\<close> of the same instruction succeeds, and it keeps every
  unit that was busy busy.
\<close>

lemma issue_when_ready:
  assumes "is_ready_for b i = Inr True"
  shows "\<exists>b' f. fus_issue b i = Inr b' \<and> to_fu i = Inr f \<and> (f \<noteq> ALU \<longrightarrow> \<not> is_ready b' f)
    \<and> (\<forall>g. is_ready b' g \<longrightarrow> is_ready b g)"
proof -
  from assms obtain f where f: "to_fu i = Inr f" "is_ready b f" by (auto simp: is_ready_for_def)
  from issue_fu_ready [OF f(2)] obtain b' where "issue_fu b f = Inr b'" by blast
  with f issue_fu_occupies issue_fu_mono show ?thesis by (fastforce simp: fus_issue_def)
qed

lemma issue_when_ready_witness:
  "is_ready_for (fus_init False) \<lparr>bin = 0x00000013\<rparr> = Inr True \<and>
   (\<exists>b'. fus_issue (fus_init False) \<lparr>bin = 0x00000013\<rparr> = Inr b')"
proof -
  have r: "is_ready_for (fus_init False) \<lparr>bin = 0x00000013\<rparr> = Inr True" by code_simp
  from issue_when_ready [OF r] r show ?thesis by blast
qed

text \<open>
  Structural hazards within one cycle. From the state after \<open>cycle\<close>, the units issued in
  one cycle contain at most one instruction for each of MUL, BRANCH, LDU and STU, and as many
  for the ALU as there are ALUs (one less in the cycle after a multiplication, whose result
  takes the write-back port).
\<close>

lemma one_issue_per_unit:
  assumes "issues (fus_cycle b) fs = Some b'"
  shows "(\<forall>f. f \<noteq> ALU \<longrightarrow> count_list fs f \<le> 1)
    \<and> count_list fs ALU \<le> (if issued_mul b then 0 else 1) + (if has_alu2 b then 1 else 0)
    \<and> (issued_mul b \<longrightarrow> BRANCH \<notin> set fs)"
proof -
  have "count_list fs f \<le> 1" if "f \<noteq> ALU" for f
    using issues_count [OF assms that] by (auto split: if_splits)
  moreover have "alu_slots (fus_cycle b) = (if issued_mul b then 0 else 1) + (if has_alu2 b then 1 else 0)"
    by (simp add: alu_slots_def fus_cycle_def alu2_ready_def)
  moreover have "BRANCH \<notin> set fs" if "issued_mul b"
    using issues_count [OF assms, of BRANCH] that
    by (simp add: fus_cycle_def count_list_0_iff)
  ultimately show ?thesis using issues_alu_count [OF assms] by simp
qed

lemma one_issue_per_unit_witness:
  "issues (fus_cycle (fus_init True)) [MUL, ALU, ALU] \<noteq> None \<and>
   count_list [MUL, ALU, ALU] ALU \<le> 2"
proof -
  have "issues (fus_cycle (fus_init True)) [MUL, ALU, ALU] \<noteq> None" by code_simp
  moreover from this obtain b' where
    "issues (fus_cycle (fus_init True)) [MUL, ALU, ALU] = Some b'" by blast
  from one_issue_per_unit [OF this] have "count_list [MUL, ALU, ALU] ALU \<le> 2"
    by (simp add: fus_init_def)
  ultimately show ?thesis by blast
qed

text \<open>
  No store or load follows a branch in its cycle in a way CVA6 forbids: once a branch is
  issued, no store is issued before the next \<open>cycle\<close>; and a load and a store never share a
  cycle.
\<close>

lemma no_store_after_branch:
  assumes "issues b (xs @ f # ys) = Some b'"
  shows "(f = BRANCH \<longrightarrow> STU \<notin> set ys) \<and> (f = LDU \<longrightarrow> STU \<notin> set ys) \<and> (f = STU \<longrightarrow> LDU \<notin> set ys)"
proof -
  from assms obtain b1 b2 where b: "issues b xs = Some b1" "issue_fu b1 f = Inr b2" "issues b2 ys = Some b'"
    by (auto simp: issues_append split: option.splits if_splits sum.splits)
  have s: "\<not> is_ready b2 STU" if "f \<in> {BRANCH, LDU}" using that b(2) by (auto simp: fus_defs)
  have l: "\<not> is_ready b2 LDU" if "f = STU" using that b(2) by (auto simp: fus_defs)
  have "STU \<notin> set ys" if "f \<in> {BRANCH, LDU}"
    using issues_count [OF b(3), of STU] s [OF that] by (simp add: count_list_0_iff)
  moreover have "LDU \<notin> set ys" if "f = STU"
    using issues_count [OF b(3), of LDU] l [OF that] by (simp add: count_list_0_iff)
  ultimately show ?thesis by blast
qed

lemma no_store_after_branch_witness:
  "issues (fus_init True) ([MUL] @ BRANCH # [LDU, ALU]) \<noteq> None \<and> STU \<notin> set [LDU, ALU]"
proof -
  have d: "issues (fus_init True) ([MUL] @ BRANCH # [LDU, ALU]) \<noteq> None" by code_simp
  then obtain b' where "issues (fus_init True) ([MUL] @ BRANCH # [LDU, ALU]) = Some b'" by blast
  from no_store_after_branch [OF this] d show ?thesis by blast
qed

end
