(* ===== verification/Perf_Model.thy ===== *)
theory Perf_Model
  imports Iq Predictors Fus
begin

text \<open>
  The class \<open>Model\<close> of \<open>perf-model/model.py\<close>: its state, and one operation per method. The
  mutable attributes \<open>events\<close> of the instructions live in the store \<open>events\<close> of the state,
  indexed by the identity of the instruction. Debug prints are left out. Every operation
  returns a result: the exceptions are those of the queries on undecodable instructions.
\<close>

record entry =
  e_instr :: instruction
  cycles_since_issue :: int
  e_done :: bool

record last_issue =
  li_instr :: instruction
  issue_cycle :: int

record model =
  m_ras :: ras
  m_bht :: bht
  instr_queue :: "instruction list"
  scoreboard :: "entry list"
  fus :: fus_busy
  last_issued :: "last_issue option"
  last_committed :: "instruction option"
  retired :: "instruction list"
  sb_len :: int
  iqlen :: iq
  issue_width :: int
  commit_width :: int
  has_forwarding :: bool
  has_renaming :: bool
  log :: "(event \<times> instruction) list"
  events :: "nat \<Rightarrow> event list"

definition new_entry :: "instruction \<Rightarrow> entry" where
  "new_entry i = \<lparr>e_instr = i, cycles_since_issue = 0, e_done = False\<rparr>"

text \<open>\<open>fetch_size or 4 * issue\<close> takes the second for None and for 0.\<close>

definition model_init ::
  "int \<Rightarrow> int \<Rightarrow> int \<Rightarrow> int option \<Rightarrow> bool \<Rightarrow> bool \<Rightarrow> model" where
  "model_init issue commit sblen fetch_size forwarding renaming =
     \<lparr>m_ras = ras_init 2, m_bht = bht_init 128, instr_queue = [], scoreboard = [],
      fus = fus_init (issue > 1), last_issued = None, last_committed = None, retired = [],
      sb_len = sblen,
      iqlen = iq_init (case fetch_size of None \<Rightarrow> 4 * issue
                       | Some n \<Rightarrow> if n = 0 then 4 * issue else n),
      issue_width = issue, commit_width = commit, has_forwarding = forwarding,
      has_renaming = renaming, log = [], events = (\<lambda>_. [])\<rparr>"

definition log_event_on :: "model \<Rightarrow> instruction \<Rightarrow> event_kind \<Rightarrow> int \<Rightarrow> model" where
  "log_event_on m i k c =
     (let e = \<lparr>kind = k, cycle = c\<rparr>
      in m\<lparr>events := (events m)(iid i := events m (iid i) @ [e]), log := log m @ [(e, i)]\<rparr>)"

section \<open>Branch prediction\<close>

definition predict_branch :: "model \<Rightarrow> instruction \<Rightarrow> bool result" where
  "predict_branch m i = rbind (bht_predict (m_bht m) (address i)) (\<lambda>pred.
     case pred of
       Some p \<Rightarrow> ret p
     | None \<Rightarrow> rbind (offset i) (\<lambda>a. rbind (int_of_attr a) (\<lambda>off. ret (shr off 31 \<noteq> 0))))"

definition predict_regjump :: "model \<Rightarrow> instruction \<Rightarrow> int result" where
  "predict_regjump m i = rbind (is_ret i) (\<lambda>r.
     ret (if r then (case ras_read (m_ras m) of None \<Rightarrow> 0 | Some a \<Rightarrow> a) else 0))"

definition predict_pc :: "model \<Rightarrow> instruction \<Rightarrow> int option result" where
  "predict_pc m i =
     (if is_branch i then
        rbind (predict_branch m i) (\<lambda>taken.
        rbind (if taken then rbind (offset i) (\<lambda>a. rbind (int_of_attr a) (\<lambda>off. to_signed off 32))
               else ret (size_of i)) (\<lambda>off.
        ret (Some (address i + off))))
      else rbind (is_regjump i) (\<lambda>j.
        if j then rbind (predict_regjump m i) (\<lambda>a. ret (Some a)) else ret None))"

definition issue_manage_last_branch :: "model \<Rightarrow> instruction \<Rightarrow> int \<Rightarrow> model result" where
  "issue_manage_last_branch m i c =
     (case last_issued m of
        None \<Rightarrow> ret m
      | Some li \<Rightarrow> rbind (predict_pc m (li_instr li)) (\<lambda>pred.
          case pred of
            None \<Rightarrow> ret m
          | Some pc \<Rightarrow>
              let bmiss = (pc \<noteq> address i);
                  resolved = (c \<ge> issue_cycle li + 6);
                  m = (if bmiss \<and> \<not> resolved then m\<lparr>iqlen := iq_flush (iqlen m)\<rparr> else m);
                  br = (if bmiss then EK_BMISS else EK_BHIT)
              in if br \<notin> kind ` set (events m (iid i)) then
                   let m = log_event_on m i br c;
                       taken = (address i \<noteq> next_addr (li_instr li))
                   in ret (if taken \<and> \<not> bmiss then m\<lparr>iqlen := iq_jump (iqlen m)\<rparr> else m)
                 else ret m))"

definition commit_manage_last_branch :: "model \<Rightarrow> instruction \<Rightarrow> int \<Rightarrow> model result" where
  "commit_manage_last_branch m i c =
     rbind (case last_committed m of
              None \<Rightarrow> ret m
            | Some lst \<Rightarrow>
                if is_branch lst then
                  let taken = (address i \<noteq> next_addr lst)
                  in rbind (bht_resolve (m_bht m) (address lst) taken) (\<lambda>b. ret (m\<lparr>m_bht := b\<rparr>))
                else ret m)
       (\<lambda>m. ret (m\<lparr>last_committed := Some i\<rparr>))"

section \<open>Hazards\<close>

definition hazard_step ::
  "instruction \<Rightarrow> int \<Rightarrow> model \<times> bool \<Rightarrow> entry \<Rightarrow> (model \<times> bool) result" where
  "hazard_step i c = (\<lambda>(m, found) en.
     rbind (has_WAW_from i (e_instr en)) (\<lambda>waw.
     let (m, found) =
       (if waw \<and> \<not> has_renaming m then (log_event_on m i EK_WAW c, True) else (m, found));
         can_forward = (has_forwarding m \<and> e_done en)
     in rbind (has_RAW_from i (e_instr en)) (\<lambda>raw.
     ret (if raw \<and> \<not> can_forward then (log_event_on m i EK_RAW c, True) else (m, found)))))"

definition find_data_hazards :: "model \<Rightarrow> instruction \<Rightarrow> int \<Rightarrow> (model \<times> bool) result" where
  "find_data_hazards m i c = foldR (hazard_step i c) (m, False) (scoreboard m)"

definition find_structural_hazard :: "model \<Rightarrow> instruction \<Rightarrow> int \<Rightarrow> (model \<times> bool) result" where
  "find_structural_hazard m i c = rbind (is_ready_for (fus m) i) (\<lambda>r.
     ret (if \<not> r then (log_event_on m i EK_STRUCT c, True) else (m, False)))"

section \<open>Issue, execute, commit\<close>

definition try_issue :: "model \<Rightarrow> int \<Rightarrow> model result" where
  "try_issue m c =
     (case instr_queue m of
        [] \<Rightarrow> ret m
      | i # _ \<Rightarrow>
          if int (length (scoreboard m)) \<ge> sb_len m then ret m
          else
            rbind (find_data_hazards m i c) (\<lambda>(m, data).
            rbind (find_structural_hazard m i c) (\<lambda>(m, struct).
            rbind (issue_manage_last_branch m i c) (\<lambda>m.
            let can_issue = (\<not> data \<and> \<not> struct \<and> iq_has (iqlen m) i)
            in if can_issue then
                 let m = m\<lparr>iqlen := iq_remove (iqlen m) i\<rparr>;
                     m = m\<lparr>instr_queue := tl (instr_queue m)\<rparr>;
                     m = log_event_on m i EK_issue c;
                     m = m\<lparr>scoreboard := scoreboard m @ [new_entry i]\<rparr>
                 in rbind (fus_issue (fus m) i) (\<lambda>b.
                    let m = m\<lparr>fus := b, last_issued := Some \<lparr>li_instr = i, issue_cycle = c\<rparr>\<rparr>
                    in rbind (ras_resolve (m_ras m) i) (\<lambda>r. ret (m\<lparr>m_ras := r\<rparr>)))
               else ret m))))"

definition duration :: "instruction \<Rightarrow> int result" where
  "duration i =
     (let d = (if is_load i \<or> is_store i then 2 else 1)
      in rbind (is_muldiv i) (\<lambda>md. ret (if md then 2 else d)))"

definition execute_step ::
  "int \<Rightarrow> model \<times> entry list \<Rightarrow> entry \<Rightarrow> (model \<times> entry list) result" where
  "execute_step c = (\<lambda>(m, es) en.
     let en = en\<lparr>cycles_since_issue := cycles_since_issue en + 1\<rparr>
     in rbind (duration (e_instr en)) (\<lambda>d.
        ret (if cycles_since_issue en = d
             then (log_event_on m (e_instr en) EK_done c, es @ [en\<lparr>e_done := True\<rparr>])
             else (m, es @ [en]))))"

definition try_execute :: "model \<Rightarrow> int \<Rightarrow> model result" where
  "try_execute m c =
     rbind (foldR (execute_step c) (m, []) (scoreboard m)) (\<lambda>(m, es). ret (m\<lparr>scoreboard := es\<rparr>))"

definition try_commit :: "model \<Rightarrow> int \<Rightarrow> int \<Rightarrow> model result" where
  "try_commit m c port =
     (case scoreboard m of
        [] \<Rightarrow> ret m
      | en # es \<Rightarrow>
          let can_commit = True;
              can_commit = (if port > 0 \<and> is_store (e_instr en) then False else can_commit);
              can_commit = (if \<not> e_done en then False else can_commit)
          in if can_commit then
               let m = m\<lparr>scoreboard := es\<rparr>;
                   i = e_instr en;
                   m = log_event_on m i EK_commit c;
                   m = m\<lparr>retired := retired m @ [i]\<rparr>
               in commit_manage_last_branch m i c
             else ret m)"

definition commit_ports :: "model \<Rightarrow> int \<Rightarrow> model result" where
  "commit_ports m c = foldR (\<lambda>m port. try_commit m c port) m [0..commit_width m - 1]"

definition issue_slots :: "model \<Rightarrow> int \<Rightarrow> model result" where
  "issue_slots m c = foldR (\<lambda>m _. try_issue m c) m [0..issue_width m - 1]"

definition run_cycle :: "model \<Rightarrow> int \<Rightarrow> model result" where
  "run_cycle m c =
     (let m = m\<lparr>fus := fus_cycle (fus m)\<rparr>
      in rbind (commit_ports m c) (\<lambda>m.
         rbind (try_execute m c) (\<lambda>m.
         rbind (issue_slots m c) (\<lambda>m.
         ret (m\<lparr>iqlen := iq_fetch (iqlen m)\<rparr>)))))"

text \<open>
  The \<open>while\<close> loop of \<open>run\<close>: None is a run that never ends. The result holds the final
  state and the returned cycle count.
\<close>

partial_function (option) run_loop ::
  "int option \<Rightarrow> int \<Rightarrow> model \<Rightarrow> (model \<times> int) result option" where
  "run_loop cycles c m =
     (if instr_queue m = [] \<and> scoreboard m = [] then Some (ret (m, c))
      else (case run_cycle m c of
              Inl e \<Rightarrow> Some (raise e)
            | Inr m' \<Rightarrow>
                if (case cycles of None \<Rightarrow> False | Some n \<Rightarrow> c + 1 > n) then Some (ret (m', c + 1))
                else run_loop cycles (c + 1) m'))"

definition run :: "int option \<Rightarrow> model \<Rightarrow> (model \<times> int) result option" where
  "run cycles m = run_loop cycles 0 m"

section \<open>Frames\<close>

lemma log_event_frame [simp]:
  "m_ras (log_event_on m i k c) = m_ras m" "m_bht (log_event_on m i k c) = m_bht m"
  "instr_queue (log_event_on m i k c) = instr_queue m"
  "scoreboard (log_event_on m i k c) = scoreboard m" "fus (log_event_on m i k c) = fus m"
  "last_issued (log_event_on m i k c) = last_issued m"
  "last_committed (log_event_on m i k c) = last_committed m"
  "retired (log_event_on m i k c) = retired m" "sb_len (log_event_on m i k c) = sb_len m"
  "iqlen (log_event_on m i k c) = iqlen m" "issue_width (log_event_on m i k c) = issue_width m"
  "commit_width (log_event_on m i k c) = commit_width m"
  "has_forwarding (log_event_on m i k c) = has_forwarding m"
  "has_renaming (log_event_on m i k c) = has_renaming m"
  "log (log_event_on m i k c) = log m @ [(\<lparr>kind = k, cycle = c\<rparr>, i)]"
  "events (log_event_on m i k c) =
    (events m)(iid i := events m (iid i) @ [\<lparr>kind = k, cycle = c\<rparr>])"
  by (simp_all add: log_event_on_def Let_def)

lemma log_event_iqlen:
  "log_event_on (m\<lparr>iqlen := q\<rparr>) i k c = (log_event_on m i k c)\<lparr>iqlen := q\<rparr>"
  by (simp add: log_event_on_def Let_def)

fun log_all :: "model \<Rightarrow> instruction \<Rightarrow> event_kind list \<Rightarrow> int \<Rightarrow> model" where
  "log_all m i [] c = m"
| "log_all m i (k # ks) c = log_all (log_event_on m i k c) i ks c"

lemma log_all_append: "log_all m i (ks @ ls) c = log_all (log_all m i ks c) i ls c"
  by (induction ks arbitrary: m) simp_all

lemma log_all_frame [simp]:
  "m_ras (log_all m i ks c) = m_ras m" "m_bht (log_all m i ks c) = m_bht m"
  "instr_queue (log_all m i ks c) = instr_queue m"
  "scoreboard (log_all m i ks c) = scoreboard m" "fus (log_all m i ks c) = fus m"
  "last_issued (log_all m i ks c) = last_issued m"
  "last_committed (log_all m i ks c) = last_committed m"
  "retired (log_all m i ks c) = retired m" "sb_len (log_all m i ks c) = sb_len m"
  "iqlen (log_all m i ks c) = iqlen m" "issue_width (log_all m i ks c) = issue_width m"
  "commit_width (log_all m i ks c) = commit_width m"
  "has_forwarding (log_all m i ks c) = has_forwarding m"
  "has_renaming (log_all m i ks c) = has_renaming m"
  by (induction ks arbitrary: m) simp_all

lemma log_all_log:
  "log (log_all m i ks c) = log m @ map (\<lambda>k. (\<lparr>kind = k, cycle = c\<rparr>, i)) ks"
  by (induction ks arbitrary: m) simp_all

lemma log_all_events:
  "events (log_all m i ks c) =
    (events m)(iid i := events m (iid i) @ map (\<lambda>k. \<lparr>kind = k, cycle = c\<rparr>) ks)"
  by (induction ks arbitrary: m) simp_all

section \<open>What each operation may do\<close>

text \<open>The flags say that something was logged; the log says what.\<close>

definition raw_blocks :: "model \<Rightarrow> instruction \<Rightarrow> entry \<Rightarrow> bool" where
  "raw_blocks m i en \<longleftrightarrow> has_RAW_from i (e_instr en) = Inr True \<and> \<not> (has_forwarding m \<and> e_done en)"

definition waw_blocks :: "model \<Rightarrow> instruction \<Rightarrow> entry \<Rightarrow> bool" where
  "waw_blocks m i en \<longleftrightarrow> has_WAW_from i (e_instr en) = Inr True \<and> \<not> has_renaming m"

lemma hazard_loop:
  "foldR (hazard_step i c) (m, found) es = Inr (m', found') \<Longrightarrow>
    \<exists>ks. set ks \<subseteq> {EK_WAW, EK_RAW} \<and> m' = log_all m i ks c \<and> (found' \<longleftrightarrow> found \<or> ks \<noteq> [])
      \<and> (ks = [] \<longleftrightarrow> (\<forall>en \<in> set es. \<not> raw_blocks m i en \<and> \<not> waw_blocks m i en))"
proof (induction es arbitrary: m found)
  case (Cons en es)
  obtain waw raw where wr: "has_WAW_from i (e_instr en) = Inr waw"
    "has_RAW_from i (e_instr en) = Inr raw"
    using Cons.prems
    by (cases "has_WAW_from i (e_instr en)"; cases "has_RAW_from i (e_instr en)")
      (simp_all add: hazard_step_def Let_def split: prod.splits)
  define ks1 where "ks1 = (if waw \<and> \<not> has_renaming m then [EK_WAW] else [])
    @ (if raw \<and> \<not> (has_forwarding m \<and> e_done en) then [EK_RAW] else [])"
  have s: "hazard_step i c (m, found) en = Inr (log_all m i ks1 c, found \<or> ks1 \<noteq> [])"
    using wr by (cases waw; cases "has_renaming m"; cases raw; cases "has_forwarding m \<and> e_done en")
      (simp_all add: hazard_step_def ks1_def)
  have b: "ks1 = [] \<longleftrightarrow> \<not> raw_blocks m i en \<and> \<not> waw_blocks m i en"
    using wr by (auto simp: ks1_def raw_blocks_def waw_blocks_def)
  from Cons.prems s obtain m1 f1 where
    r: "foldR (hazard_step i c) (log_all m i ks1 c, found \<or> ks1 \<noteq> []) es = Inr (m', found')"
    by simp
  from Cons.IH [OF r] obtain ks where ks: "set ks \<subseteq> {EK_WAW, EK_RAW}"
    "m' = log_all (log_all m i ks1 c) i ks c" "found' \<longleftrightarrow> (found \<or> ks1 \<noteq> []) \<or> ks \<noteq> []"
    "ks = [] \<longleftrightarrow> (\<forall>en \<in> set es. \<not> raw_blocks (log_all m i ks1 c) i en \<and> \<not> waw_blocks (log_all m i ks1 c) i en)"
    by blast
  have u: "raw_blocks (log_all m i ks1 c) i = raw_blocks m i"
    "waw_blocks (log_all m i ks1 c) i = waw_blocks m i"
    by (simp_all add: raw_blocks_def waw_blocks_def fun_eq_iff)
  have "set ks1 \<subseteq> {EK_WAW, EK_RAW}" by (auto simp: ks1_def)
  with ks b u show ?case
    by (intro exI [of _ "ks1 @ ks"]) (simp add: log_all_append)
qed simp

lemma find_data_hazards_spec:
  assumes "find_data_hazards m i c = Inr (m', data)"
  obtains ks where "set ks \<subseteq> {EK_WAW, EK_RAW}" "m' = log_all m i ks c" "data \<longleftrightarrow> ks \<noteq> []"
    "data \<longleftrightarrow> (\<exists>en \<in> set (scoreboard m). raw_blocks m i en \<or> waw_blocks m i en)"
  using hazard_loop [of i c m False "scoreboard m" m' data] assms that
  by (auto simp: find_data_hazards_def)

lemma find_structural_hazard_spec:
  assumes "find_structural_hazard m i c = Inr (m', struct)"
  obtains "\<not> struct" "m' = m" "is_ready_for (fus m) i = Inr True"
  | "struct" "m' = log_all m i [EK_STRUCT] c" "is_ready_for (fus m) i = Inr False"
  using assms by (auto simp: find_structural_hazard_def split: if_splits)

text \<open>
  The queue after the branch check: flushed while a miss is unresolved, then possibly
  shortened by a jump, once, when the hit is logged.
\<close>

definition branch_iq :: "model \<Rightarrow> instruction \<Rightarrow> int \<Rightarrow> event_kind list \<Rightarrow> iq \<Rightarrow> bool" where
  "branch_iq m i c ks q \<longleftrightarrow>
     (\<exists>q0. (q0 = iqlen m \<or> q0 = iq_flush (iqlen m)
          \<and> (\<exists>li. last_issued m = Some li \<and> c < issue_cycle li + 6))
        \<and> (q = q0 \<or> ks = [EK_BHIT] \<and> q = iq_jump q0))"

lemma issue_manage_pc:
  fixes m i c li pc
  defines "miss \<equiv> pc \<noteq> address i"
  defines "q0 \<equiv> (if miss \<and> \<not> c \<ge> issue_cycle li + 6 then iq_flush (iqlen m) else iqlen m)"
  defines "k \<equiv> (if miss then EK_BMISS else EK_BHIT)"
  defines "new \<equiv> k \<notin> kind ` set (events m (iid i))"
  assumes "last_issued m = Some li" "predict_pc m (li_instr li) = Inr (Some pc)"
  shows "issue_manage_last_branch m i c = Inr ((log_all m i (if new then [k] else []) c)
    \<lparr>iqlen := if new \<and> address i \<noteq> next_addr (li_instr li) \<and> \<not> miss then iq_jump q0 else q0\<rparr>)"
proof -
  have "issue_manage_last_branch m i c =
    (let m = m\<lparr>iqlen := q0\<rparr>
     in if new then
          let m = log_event_on m i k c
          in ret (if address i \<noteq> next_addr (li_instr li) \<and> \<not> miss
                  then m\<lparr>iqlen := iq_jump (iqlen m)\<rparr> else m)
        else ret m)"
    using assms(5,6) unfolding issue_manage_last_branch_def q0_def new_def k_def miss_def
    by (simp cong: if_cong)
  then show ?thesis by (simp add: Let_def log_event_iqlen)
qed

lemma issue_manage_spec:
  assumes "issue_manage_last_branch m i c = Inr m'"
  obtains ks q where "ks \<in> {[], [EK_BMISS], [EK_BHIT]}" "m' = (log_all m i ks c)\<lparr>iqlen := q\<rparr>"
    "set ks \<inter> kind ` set (events m (iid i)) = {}" "branch_iq m i c ks q"
proof (cases "\<exists>li pc. last_issued m = Some li \<and> predict_pc m (li_instr li) = Inr (Some pc)")
  case False
  then have "m' = m"
    using assms by (auto simp: issue_manage_last_branch_def split: option.splits)
  with that [of "[]" "iqlen m"] show ?thesis by (simp add: branch_iq_def)
next
  case True
  then obtain li pc where li: "last_issued m = Some li" "predict_pc m (li_instr li) = Inr (Some pc)"
    by blast
  let ?miss = "pc \<noteq> address i"
  let ?flushed = "if ?miss \<and> \<not> c \<ge> issue_cycle li + 6 then iq_flush (iqlen m) else iqlen m"
  let ?k = "if ?miss then EK_BMISS else EK_BHIT"
  let ?new = "?k \<notin> kind ` set (events m (iid i))"
  let ?ks = "if ?new then [?k] else []"
  let ?q = "if ?new \<and> address i \<noteq> next_addr (li_instr li) \<and> \<not> ?miss then iq_jump ?flushed else ?flushed"
  have "?flushed = iqlen m \<or> ?flushed = iq_flush (iqlen m)
      \<and> (\<exists>li. last_issued m = Some li \<and> c < issue_cycle li + 6)"
    using li by simp
  moreover have "?q = ?flushed \<or> ?ks = [EK_BHIT] \<and> ?q = iq_jump ?flushed" by simp
  ultimately have "branch_iq m i c ?ks ?q" unfolding branch_iq_def by blast
  moreover have "m' = (log_all m i ?ks c)\<lparr>iqlen := ?q\<rparr>"
    using issue_manage_pc [OF li, of i c] assms by simp
  moreover have "set ?ks \<inter> kind ` set (events m (iid i)) = {}" by (cases ?new) simp_all
  moreover have "?ks \<in> {[], [EK_BMISS], [EK_BHIT]}" by simp
  ultimately show ?thesis by (intro that)
qed

lemma commit_manage_spec:
  assumes "commit_manage_last_branch m i c = Inr m'"
  obtains b where "m' = m\<lparr>m_bht := b, last_committed := Some i\<rparr>" "length b = length (m_bht m)"
proof (cases "last_committed m")
  case None
  with assms that [of "m_bht m"] show ?thesis by (simp add: commit_manage_last_branch_def)
next
  case (Some lst)
  with assms that [of "m_bht m"] that show ?thesis
    by (auto simp: commit_manage_last_branch_def Let_def dest: bht_length split: if_splits)
qed


text \<open>Issue: nothing, a stall, or the head of the queue enters the scoreboard.\<close>

inductive issue_step :: "int \<Rightarrow> model \<Rightarrow> model \<Rightarrow> bool" for c m where
  idle: "instr_queue m = [] \<or> sb_len m \<le> int (length (scoreboard m)) \<Longrightarrow> issue_step c m m"
| stall: "instr_queue m = i # q \<Longrightarrow> int (length (scoreboard m)) < sb_len m \<Longrightarrow>
    bs \<in> {[], [EK_BMISS], [EK_BHIT]} \<Longrightarrow>
    set bs \<inter> kind ` set (events m (iid i)) = {} \<Longrightarrow> branch_iq m i c bs iq \<Longrightarrow>
    \<not> iq_has iq i \<Longrightarrow>
    issue_step c m ((log_all m i bs c)\<lparr>iqlen := iq\<rparr>)"
| hazard: "instr_queue m = i # q \<Longrightarrow> int (length (scoreboard m)) < sb_len m \<Longrightarrow>
    set hs \<subseteq> {EK_WAW, EK_RAW, EK_STRUCT} \<Longrightarrow> bs \<in> {[], [EK_BMISS], [EK_BHIT]} \<Longrightarrow>
    set bs \<inter> kind ` set (events m (iid i)) = {} \<Longrightarrow> branch_iq m i c bs iq \<Longrightarrow>
    hs \<noteq> [] \<Longrightarrow> scoreboard m \<noteq> [] \<or> is_ready_for (fus m) i = Inr False \<Longrightarrow>
    issue_step c m ((log_all m i (hs @ bs) c)\<lparr>iqlen := iq\<rparr>)"
| issued: "instr_queue m = i # q \<Longrightarrow> int (length (scoreboard m)) < sb_len m \<Longrightarrow>
    bs \<in> {[], [EK_BMISS], [EK_BHIT]} \<Longrightarrow>
    set bs \<inter> kind ` set (events m (iid i)) = {} \<Longrightarrow> branch_iq m i c bs iq \<Longrightarrow> iq_has iq i \<Longrightarrow>
    \<forall>en \<in> set (scoreboard m). \<not> raw_blocks m i en \<and> \<not> waw_blocks m i en \<Longrightarrow>
    is_ready_for (fus m) i = Inr True \<Longrightarrow> fus_issue (fus m) i = Inr b \<Longrightarrow>
    ras_resolve (m_ras m) i = Inr r \<Longrightarrow>
    issue_step c m ((log_all m i (bs @ [EK_issue]) c)\<lparr>iqlen := iq_remove iq i, instr_queue := q,
      scoreboard := scoreboard m @ [new_entry i], fus := b,
      last_issued := Some \<lparr>li_instr = i, issue_cycle = c\<rparr>, m_ras := r\<rparr>)"


lemma branch_iq_log [simp]: "branch_iq (log_all m i hs c) j = branch_iq m j"
  by (simp add: branch_iq_def fun_eq_iff)

lemma log_all_record:
  "(log_all (log_all m i hs c) i bs c) = log_all m i (hs @ bs) c"
  "log_event_on (log_all m i hs c) i k c = log_all m i (hs @ [k]) c"
  by (simp_all add: log_all_append)

lemma log_event_commute:
  "log_event_on (m\<lparr>iqlen := iq\<rparr>) i k c = (log_event_on m i k c)\<lparr>iqlen := iq\<rparr>"
  "log_event_on (m\<lparr>instr_queue := q\<rparr>) i k c = (log_event_on m i k c)\<lparr>instr_queue := q\<rparr>"
  "log_event_on (m\<lparr>scoreboard := es\<rparr>) i k c = (log_event_on m i k c)\<lparr>scoreboard := es\<rparr>"
  by (simp_all add: log_event_on_def Let_def)

lemma try_issue_spec:
  assumes "try_issue m c = Inr m'"
  shows "issue_step c m m'"
proof (cases "instr_queue m = [] \<or> sb_len m \<le> int (length (scoreboard m))")
  case True
  with assms have "m' = m" by (auto simp: try_issue_def split: list.splits)
  with True show ?thesis by (auto intro: idle)
next
  case False
  then obtain i q where q: "instr_queue m = i # q" and room: "int (length (scoreboard m)) < sb_len m"
    by (cases "instr_queue m") auto
  with assms obtain m1 data m2 struct m3 where st:
    "find_data_hazards m i c = Inr (m1, data)" "find_structural_hazard m1 i c = Inr (m2, struct)"
    "issue_manage_last_branch m2 i c = Inr m3"
    by (auto simp: try_issue_def)
  obtain hs where hs: "set hs \<subseteq> {EK_WAW, EK_RAW}" "m1 = log_all m i hs c" "data \<longleftrightarrow> hs \<noteq> []"
    "data \<longleftrightarrow> (\<exists>en \<in> set (scoreboard m). raw_blocks m i en \<or> waw_blocks m i en)"
    using st(1) by (rule find_data_hazards_spec)
  obtain ss where ss: "set ss \<subseteq> {EK_STRUCT}" "m2 = log_all m i (hs @ ss) c" "struct \<longleftrightarrow> ss \<noteq> []"
    "is_ready_for (fus m) i = Inr (\<not> struct)"
    using st(2)
  proof (rule find_structural_hazard_spec)
    assume "\<not> struct" "m2 = m1" "is_ready_for (fus m1) i = Inr True"
    with hs that [of "[]"] show thesis by simp
  next
    assume "struct" "m2 = log_all m1 i [EK_STRUCT] c" "is_ready_for (fus m1) i = Inr False"
    with hs that [of "[EK_STRUCT]"] show thesis by (simp add: log_all_append)
  qed
  obtain bs iq where bs: "bs \<in> {[], [EK_BMISS], [EK_BHIT]}"
    "m3 = (log_all m2 i bs c)\<lparr>iqlen := iq\<rparr>" "set bs \<inter> kind ` set (events m2 (iid i)) = {}"
    "branch_iq m2 i c bs iq"
    using st(3) by (rule issue_manage_spec)
  have ev: "set bs \<inter> kind ` set (events m (iid i)) = {}"
    using bs(3) by (auto simp: ss(2) log_all_events)
  have m3: "m3 = (log_all m i ((hs @ ss) @ bs) c)\<lparr>iqlen := iq\<rparr>"
    using bs(2) ss(2) log_all_append [of m i "hs @ ss" bs c] by simp
  have biq: "branch_iq m i c bs iq" using bs(4) by (simp add: ss(2))
  show ?thesis
  proof (cases "\<not> data \<and> \<not> struct \<and> iq_has iq i")
    case True
    with hs(3) ss(3) m3 have m3': "m3 = (log_all m i bs c)\<lparr>iqlen := iq\<rparr>" by simp
    from True assms q room st obtain b r where b: "fus_issue (fus m) i = Inr b"
      "ras_resolve (m_ras m) i = Inr r"
      by (auto simp: try_issue_def Let_def m3')
    have "m' = (log_all m i (bs @ [EK_issue]) c)\<lparr>iqlen := iq_remove iq i, instr_queue := q,
        scoreboard := scoreboard m @ [new_entry i], fus := b,
        last_issued := Some \<lparr>li_instr = i, issue_cycle = c\<rparr>, m_ras := r\<rparr>"
      using True assms q room st b
      by (simp add: try_issue_def Let_def m3' log_event_commute log_all_append)
    moreover have "is_ready_for (fus m) i = Inr True"
      "\<forall>en \<in> set (scoreboard m). \<not> raw_blocks m i en \<and> \<not> waw_blocks m i en"
      using True ss(4) hs(4) by auto
    ultimately show ?thesis using q room bs(1) ev biq True b by (simp add: issued)
  next
    case False
    with assms q room st m3 have m': "m' = m3" by (auto simp: try_issue_def Let_def)
    show ?thesis
    proof (cases "data \<or> struct")
      case True
      with hs ss have "hs @ ss \<noteq> []" "scoreboard m \<noteq> [] \<or> is_ready_for (fus m) i = Inr False" by auto
      moreover have "set (hs @ ss) \<subseteq> {EK_WAW, EK_RAW, EK_STRUCT}" using hs(1) ss(1) by auto
      ultimately show ?thesis
        unfolding m' m3 by (intro hazard [OF q room _ bs(1) ev biq])
    next
      case nohz: False
      with False hs(3) ss(3) m3 have "\<not> iq_has iq i" "m3 = (log_all m i bs c)\<lparr>iqlen := iq\<rparr>" by auto
      with m' show ?thesis using stall [OF q room bs(1) ev biq] by simp
    qed
  qed
qed

text \<open>Commit: nothing, or the head of the scoreboard leaves it when it is done.\<close>

inductive commit_step :: "int \<Rightarrow> int \<Rightarrow> model \<Rightarrow> model \<Rightarrow> bool" for c port m where
  wait: "scoreboard m = [] \<or> \<not> e_done (hd (scoreboard m))
      \<or> 0 < port \<and> is_store (e_instr (hd (scoreboard m))) \<Longrightarrow> commit_step c port m m"
| commit: "scoreboard m = en # es \<Longrightarrow> e_done en \<Longrightarrow> (0 < port \<Longrightarrow> \<not> is_store (e_instr en)) \<Longrightarrow>
    length b = length (m_bht m) \<Longrightarrow>
    commit_step c port m ((log_event_on m (e_instr en) EK_commit c)\<lparr>scoreboard := es,
      retired := retired m @ [e_instr en], m_bht := b, last_committed := Some (e_instr en)\<rparr>)"

lemma try_commit_spec:
  assumes "try_commit m c port = Inr m'"
  shows "commit_step c port m m'"
proof (cases "scoreboard m = [] \<or> \<not> e_done (hd (scoreboard m))
      \<or> 0 < port \<and> is_store (e_instr (hd (scoreboard m)))")
  case True
  with assms have "m' = m" by (auto simp: try_commit_def Let_def split: list.splits if_splits)
  with True show ?thesis by (auto intro: wait)
next
  case False
  then obtain en es where s: "scoreboard m = en # es" "e_done en" "0 < port \<longrightarrow> \<not> is_store (e_instr en)"
    by (cases "scoreboard m") auto
  let ?m = "(log_event_on m (e_instr en) EK_commit c)\<lparr>scoreboard := es,
      retired := retired m @ [e_instr en]\<rparr>"
  have "commit_manage_last_branch ?m (e_instr en) c = Inr m'"
    using assms s by (cases "0 < port") (simp_all add: try_commit_def Let_def log_event_commute)
  then obtain b where "m' = ?m\<lparr>m_bht := b, last_committed := Some (e_instr en)\<rparr>"
    "length b = length (m_bht ?m)"
    by (rule commit_manage_spec)
  then show ?thesis using commit [OF s(1,2), of port b c] s(3) by simp
qed

text \<open>Execute: every entry grows older; those that reach their duration are logged.\<close>

definition exec_duration :: "instruction \<Rightarrow> int" where
  "exec_duration i = (if is_load i \<or> is_store i \<or> is_muldiv i = Inr True then 2 else 1)"

lemma duration_eq: "duration i = Inr (exec_duration i)"
proof -
  obtain b where "is_muldiv i = Inr b" using is_muldiv_total [of i] by blast
  then show ?thesis by (simp add: duration_def exec_duration_def Let_def)
qed

definition finishes :: "entry \<Rightarrow> bool" where
  "finishes en \<longleftrightarrow> cycles_since_issue en + 1 = exec_duration (e_instr en)"

definition tick :: "entry \<Rightarrow> entry" where
  "tick en = en\<lparr>cycles_since_issue := cycles_since_issue en + 1, e_done := e_done en \<or> finishes en\<rparr>"

definition log_done :: "int \<Rightarrow> model \<Rightarrow> instruction list \<Rightarrow> model" where
  "log_done c m is = foldl (\<lambda>m i. log_event_on m i EK_done c) m is"

lemma tick_simps [simp]:
  "e_instr (tick en) = e_instr en" "cycles_since_issue (tick en) = cycles_since_issue en + 1"
  "e_done (tick en) \<longleftrightarrow> e_done en \<or> finishes en"
  by (simp_all add: tick_def)

lemma execute_loop:
  "foldR (execute_step c) (m, es) xs =
    Inr (log_done c m (map e_instr (filter finishes xs)), es @ map tick xs)"
proof (induction xs arbitrary: m es)
  case (Cons en xs)
  have "execute_step c (m, es) en = Inr
    (if finishes en then log_event_on m (e_instr en) EK_done c else m, es @ [tick en])"
    by (cases "finishes en") (simp_all add: execute_step_def duration_eq finishes_def tick_def)
  then show ?case by (simp add: Cons.IH log_done_def)
qed (simp add: log_done_def)

lemma try_execute_eq:
  "try_execute m c = Inr ((log_done c m (map e_instr (filter finishes (scoreboard m))))
    \<lparr>scoreboard := map tick (scoreboard m)\<rparr>)"
  by (simp add: try_execute_def execute_loop)

lemma log_done_frame [simp]:
  "m_ras (log_done c m is) = m_ras m" "m_bht (log_done c m is) = m_bht m"
  "instr_queue (log_done c m is) = instr_queue m"
  "scoreboard (log_done c m is) = scoreboard m" "fus (log_done c m is) = fus m"
  "last_issued (log_done c m is) = last_issued m"
  "last_committed (log_done c m is) = last_committed m"
  "retired (log_done c m is) = retired m" "sb_len (log_done c m is) = sb_len m"
  "iqlen (log_done c m is) = iqlen m" "issue_width (log_done c m is) = issue_width m"
  "commit_width (log_done c m is) = commit_width m"
  "has_forwarding (log_done c m is) = has_forwarding m"
  "has_renaming (log_done c m is) = has_renaming m"
  unfolding log_done_def by (induction "is" arbitrary: m) simp_all

lemma log_done_log:
  "log (log_done c m is) = log m @ map (\<lambda>i. (\<lparr>kind = EK_done, cycle = c\<rparr>, i)) is"
  unfolding log_done_def by (induction "is" arbitrary: m) simp_all

lemma log_done_other: "n \<notin> iid ` set is \<Longrightarrow> events (log_done c m is) n = events m n"
  unfolding log_done_def by (induction "is" arbitrary: m) simp_all

lemma log_done_this:
  "distinct (map iid is) \<Longrightarrow> i \<in> set is \<Longrightarrow>
    events (log_done c m is) (iid i) = events m (iid i) @ [\<lparr>kind = EK_done, cycle = c\<rparr>]"
proof (induction "is" arbitrary: m)
  case (Cons j js)
  have step: "log_done c m (j # js) = log_done c (log_event_on m j EK_done c) js"
    by (simp add: log_done_def)
  show ?case
  proof (cases "i = j")
    case True
    with Cons.prems show ?thesis unfolding step by (simp add: log_done_other)
  next
    case False
    with Cons.prems have "iid i \<noteq> iid j" by (metis distinct.simps(2) imageI list.set_map list.simps(9) set_ConsD)
    with False Cons show ?thesis unfolding step by simp
  qed
qed simp

text \<open>A cycle is commits, then an execution step, then issues, then a fetch.\<close>

lemma run_cycle_eq:
  "run_cycle m c = rbind (commit_ports (m\<lparr>fus := fus_cycle (fus m)\<rparr>) c) (\<lambda>m.
     rbind (issue_slots ((log_done c m (map e_instr (filter finishes (scoreboard m))))
       \<lparr>scoreboard := map tick (scoreboard m)\<rparr>) c) (\<lambda>m. ret (m\<lparr>iqlen := iq_fetch (iqlen m)\<rparr>)))"
  by (simp add: run_cycle_def try_execute_eq)

end
