(* ===== verification/Perf_Order.thy ===== *)
theory Perf_Order
  imports Perf_Model
begin

text \<open>
  Order and width: the model of \<open>perf-model/model.py\<close> refines an abstract in-order pipeline
  with a bounded scoreboard, its log is in chronological order, and no cycle issues or commits
  more than its width.
\<close>

section \<open>The abstract pipeline\<close>

type_synonym pipeline = "instruction list \<times> instruction list \<times> instruction list"

inductive pipe :: "int \<Rightarrow> pipeline \<Rightarrow> pipeline \<Rightarrow> bool" for n where
  pipe_issue: "int (length f) < n \<Longrightarrow> pipe n (i # q, f, r) (q, f @ [i], r)"
| pipe_commit: "pipe n (q, i # f, r) (q, f, r @ [i])"

inductive_cases pipeE: "pipe n s t"

inductive_simps pipe_empty: "pipe n ([], [], r) t"

fun whole :: "pipeline \<Rightarrow> instruction list" where
  "whole (q, f, r) = r @ f @ q"

definition abs_model :: "model \<Rightarrow> pipeline" where
  "abs_model m = (instr_queue m, map e_instr (scoreboard m), retired m)"

lemma pipe_whole: "(pipe n)\<^sup>*\<^sup>* s t \<Longrightarrow> whole t = whole s"
  by (induction rule: rtranclp_induct) (auto elim: pipeE)

lemma pipe_bound:
  "(pipe n)\<^sup>*\<^sup>* s t \<Longrightarrow> int (length (fst (snd s))) \<le> n \<Longrightarrow> int (length (fst (snd t))) \<le> n"
  by (induction rule: rtranclp_induct) (auto elim: pipeE)

lemma pipe_retired: "(pipe n)\<^sup>*\<^sup>* s t \<Longrightarrow> \<exists>cs. snd (snd t) = snd (snd s) @ cs"
  by (induction rule: rtranclp_induct) (auto elim: pipeE)

section \<open>What one step adds to the log\<close>

definition issues_of :: "(event \<times> instruction) list \<Rightarrow> instruction list" where
  "issues_of l = map snd (filter (\<lambda>(e, i). kind e = EK_issue) l)"

definition commits_of :: "(event \<times> instruction) list \<Rightarrow> instruction list" where
  "commits_of l = map snd (filter (\<lambda>(e, i). kind e = EK_commit) l)"

lemma issues_of_append [simp]: "issues_of (l @ l') = issues_of l @ issues_of l'"
  by (simp add: issues_of_def)

lemma commits_of_append [simp]: "commits_of (l @ l') = commits_of l @ commits_of l'"
  by (simp add: commits_of_def)

definition log_of :: "instruction \<Rightarrow> event_kind list \<Rightarrow> int \<Rightarrow> (event \<times> instruction) list" where
  "log_of i ks c = map (\<lambda>k. (\<lparr>kind = k, cycle = c\<rparr>, i)) ks"

lemma issues_of_log: "EK_issue \<notin> set ks \<Longrightarrow> issues_of (log_of i ks c) = []"
  by (induction ks) (auto simp: issues_of_def log_of_def)

lemma commits_of_log: "EK_commit \<notin> set ks \<Longrightarrow> commits_of (log_of i ks c) = []"
  by (induction ks) (auto simp: commits_of_def log_of_def)

lemma log_done_of:
  "issues_of (map (\<lambda>i. (\<lparr>kind = EK_done, cycle = c\<rparr>, i)) is) = []"
  "commits_of (map (\<lambda>i. (\<lparr>kind = EK_done, cycle = c\<rparr>, i)) is) = []"
  by (induction "is") (simp_all add: issues_of_def commits_of_def)

text \<open>The settings that no operation changes.\<close>

definition config :: "model \<Rightarrow> int \<times> int \<times> int \<times> bool \<times> bool" where
  "config m = (sb_len m, issue_width m, commit_width m, has_forwarding m, has_renaming m)"

definition advance :: "int \<Rightarrow> model \<Rightarrow> model \<Rightarrow> bool" where
  "advance c m m' \<longleftrightarrow>
     config m' = config m \<and> (pipe (sb_len m))\<^sup>*\<^sup>* (abs_model m) (abs_model m')
     \<and> (\<exists>new. log m' = log m @ new \<and> (\<forall>(e, i) \<in> set new. cycle e = c)
          \<and> instr_queue m = issues_of new @ instr_queue m'
          \<and> retired m' = retired m @ commits_of new)"

lemma advanceI:
  assumes "config m' = config m" "(pipe (sb_len m))\<^sup>*\<^sup>* (abs_model m) (abs_model m')"
    "log m' = log m @ new" "\<forall>(e, i) \<in> set new. cycle e = c"
    "instr_queue m = issues_of new @ instr_queue m'" "retired m' = retired m @ commits_of new"
  shows "advance c m m'"
  using assms unfolding advance_def by blast

lemma advance_refl: "advance c m m"
  by (rule advanceI [of _ _ "[]"]) (simp_all add: issues_of_def commits_of_def)

lemma advance_trans:
  assumes "advance c m1 m2" "advance c m2 m3"
  shows "advance c m1 m3"
proof -
  obtain n1 where n1: "log m2 = log m1 @ n1" "\<forall>(e, i) \<in> set n1. cycle e = c"
    "instr_queue m1 = issues_of n1 @ instr_queue m2" "retired m2 = retired m1 @ commits_of n1"
    using assms(1) unfolding advance_def by blast
  obtain n2 where n2: "log m3 = log m2 @ n2" "\<forall>(e, i) \<in> set n2. cycle e = c"
    "instr_queue m2 = issues_of n2 @ instr_queue m3" "retired m3 = retired m2 @ commits_of n2"
    using assms(2) unfolding advance_def by blast
  have s: "sb_len m2 = sb_len m1" using assms(1) by (simp add: advance_def config_def)
  have "config m3 = config m1" using assms by (simp add: advance_def)
  moreover have "(pipe (sb_len m1))\<^sup>*\<^sup>* (abs_model m1) (abs_model m3)"
    using assms s unfolding advance_def by (metis rtranclp_trans)
  moreover have "\<forall>(e, i) \<in> set (n1 @ n2). cycle e = c" using n1(2) n2(2) by auto
  ultimately show ?thesis using n1 n2 by (intro advanceI [of _ _ "n1 @ n2"]) simp_all
qed

lemma issue_advances: "try_issue m c = Inr m' \<Longrightarrow> advance c m m'"
proof (drule try_issue_spec, erule issue_step.cases)
  assume "m' = m" then show ?thesis by (simp add: advance_refl)
next
  fix i q bs iq
  assume m': "m' = (log_all m i bs c)\<lparr>iqlen := iq\<rparr>" and bs: "bs \<in> {[], [EK_BMISS], [EK_BHIT]}"
  then have "EK_issue \<notin> set bs" "EK_commit \<notin> set bs" by auto
  then have "issues_of (log_of i bs c) = []" "commits_of (log_of i bs c) = []"
    by (simp_all add: issues_of_log commits_of_log)
  then show ?thesis unfolding m'
    by (intro advanceI [of _ _ "log_of i bs c"])
      (auto simp: config_def abs_model_def log_all_log log_of_def)
next
  fix i q hs bs iq
  assume m': "m' = (log_all m i (hs @ bs) c)\<lparr>iqlen := iq\<rparr>"
    and ks: "bs \<in> {[], [EK_BMISS], [EK_BHIT]}" "set hs \<subseteq> {EK_WAW, EK_RAW, EK_STRUCT}"
  then have "EK_issue \<notin> set (hs @ bs)" "EK_commit \<notin> set (hs @ bs)" by auto
  then have "issues_of (log_of i (hs @ bs) c) = []" "commits_of (log_of i (hs @ bs) c) = []"
    by (simp_all add: issues_of_log commits_of_log)
  then show ?thesis unfolding m'
    by (intro advanceI [of _ _ "log_of i (hs @ bs) c"])
      (auto simp: config_def abs_model_def log_all_log log_of_def)
next
  fix i q bs iq b r
  assume m': "m' = (log_all m i (bs @ [EK_issue]) c)\<lparr>iqlen := iq_remove iq i, instr_queue := q,
      scoreboard := scoreboard m @ [new_entry i], fus := b,
      last_issued := Some \<lparr>li_instr = i, issue_cycle = c\<rparr>, m_ras := r\<rparr>"
    and q: "instr_queue m = i # q" and room: "int (length (scoreboard m)) < sb_len m"
    and bs: "bs \<in> {[], [EK_BMISS], [EK_BHIT]}"
  have p: "pipe (sb_len m) (abs_model m) (abs_model m')"
    using room by (simp add: abs_model_def m' q new_entry_def pipe_issue)
  have "issues_of (log_of i (bs @ [EK_issue]) c) = [i]" "commits_of (log_of i (bs @ [EK_issue]) c) = []"
    using bs by (auto simp: issues_of_def commits_of_def log_of_def)
  then show ?thesis using p
    by (intro advanceI [of _ _ "log_of i (bs @ [EK_issue]) c"])
      (auto simp: config_def m' q log_all_log log_of_def)
qed

lemma commit_advances: "try_commit m c port = Inr m' \<Longrightarrow> advance c m m'"
proof (drule try_commit_spec, erule commit_step.cases)
  assume "m' = m" then show ?thesis by (simp add: advance_refl)
next
  fix en es b
  assume m': "m' = (log_event_on m (e_instr en) EK_commit c)\<lparr>scoreboard := es,
      retired := retired m @ [e_instr en], m_bht := b, last_committed := Some (e_instr en)\<rparr>"
    and sb: "scoreboard m = en # es"
  have "pipe (sb_len m) (abs_model m) (abs_model m')"
    by (simp add: abs_model_def m' sb pipe_commit)
  then show ?thesis
    by (intro advanceI [of _ _ "log_of (e_instr en) [EK_commit] c"])
      (auto simp: config_def m' log_of_def issues_of_def commits_of_def)
qed

lemma execute_advances:
  "advance c m ((log_done c m is)\<lparr>scoreboard := map tick (scoreboard m)\<rparr>)"
  by (rule advanceI [of _ _ "map (\<lambda>i. (\<lparr>kind = EK_done, cycle = c\<rparr>, i)) is"])
    (auto simp: config_def abs_model_def log_done_log log_done_of o_def)

lemma fus_advances: "advance c m (m\<lparr>fus := f\<rparr>)" "advance c m (m\<lparr>iqlen := q\<rparr>)"
  by (rule advanceI [of _ _ "[]"]; simp add: config_def abs_model_def issues_of_def commits_of_def)+

interpretation issue_loop: loop_relation "advance c" "\<lambda>m (_::int). try_issue m c" for c
  by unfold_locales (auto intro: advance_refl advance_trans issue_advances)

interpretation commit_loop: loop_relation "advance c" "\<lambda>m. try_commit m c" for c
  by unfold_locales (auto intro: advance_refl advance_trans commit_advances)

lemma run_cycle_phases:
  assumes "run_cycle m c = Inr m'"
  obtains m1 m2 m3 where "commit_ports (m\<lparr>fus := fus_cycle (fus m)\<rparr>) c = Inr m1"
    "m2 = (log_done c m1 (map e_instr (filter finishes (scoreboard m1))))
       \<lparr>scoreboard := map tick (scoreboard m1)\<rparr>"
    "issue_slots m2 c = Inr m3" "m' = m3\<lparr>iqlen := iq_fetch (iqlen m3)\<rparr>"
  using assms by (auto simp: run_cycle_eq)

lemma issue_slots_advance: "issue_slots m c = Inr m' \<Longrightarrow> advance c m m'"
  unfolding issue_slots_def by (rule issue_loop.loop_rel)

lemma commit_ports_advance: "commit_ports m c = Inr m' \<Longrightarrow> advance c m m'"
  unfolding commit_ports_def by (rule commit_loop.loop_rel)

lemma run_cycle_advances:
  assumes "run_cycle m c = Inr m'"
  shows "advance c m m'"
  using assms
proof (rule run_cycle_phases)
  fix m1 m2 m3
  assume "commit_ports (m\<lparr>fus := fus_cycle (fus m)\<rparr>) c = Inr m1"
    "m2 = (log_done c m1 (map e_instr (filter finishes (scoreboard m1))))
       \<lparr>scoreboard := map tick (scoreboard m1)\<rparr>"
    "issue_slots m2 c = Inr m3" "m' = m3\<lparr>iqlen := iq_fetch (iqlen m3)\<rparr>"
  then show "advance c m m'"
    using fus_advances execute_advances commit_ports_advance issue_slots_advance advance_trans
    by metis
qed

section \<open>Widths\<close>

interpretation commit_count: loop_count "\<lambda>m. length (retired m)" "\<lambda>m. try_commit m c" for c
  by unfold_locales (auto dest!: try_commit_spec elim!: commit_step.cases)

interpretation issue_count: loop_count "\<lambda>m. length (issues_of (log m))" "\<lambda>m (_::int). try_issue m c" for c
proof
  fix m m' :: model and x :: int
  assume "try_issue m c = Inr m'"
  then have "issue_step c m m'" by (rule try_issue_spec)
  then show "length (issues_of (log m')) \<le> length (issues_of (log m)) + 1"
  proof cases
    case (stall i q bs iq)
    then have "EK_issue \<notin> set bs" by auto
    with stall issues_of_log [of bs i c] show ?thesis by (simp add: log_all_log log_of_def)
  next
    case (hazard i q hs bs iq)
    then have "EK_issue \<notin> set (hs @ bs)" by auto
    with hazard(1) issues_of_log [of "hs @ bs" i c] show ?thesis by (simp add: log_all_log log_of_def)
  next
    case (issued i q bs iq b r)
    then have "issues_of (log_of i bs c) = []" by (intro issues_of_log) auto
    with issued(1) show ?thesis by (simp add: log_all_log log_of_def issues_of_def)
  qed simp
qed

lemma commit_ports_width:
  "commit_ports m c = Inr m' \<Longrightarrow> length (retired m') \<le> length (retired m) + nat (commit_width m)"
  unfolding commit_ports_def by (drule commit_count.loop_counts) simp

lemma issue_slots_width:
  "issue_slots m c = Inr m' \<Longrightarrow>
    length (issues_of (log m')) \<le> length (issues_of (log m)) + nat (issue_width m)"
  unfolding issue_slots_def by (drule issue_count.loop_counts) simp

lemma issue_retired: "issue_slots m c = Inr m' \<Longrightarrow> retired m' = retired m"
proof -
  assume a: "issue_slots m c = Inr m'"
  have "loop_relation (\<lambda>m m'. retired m' = retired m) (\<lambda>m (_::int). try_issue m c)"
    by unfold_locales (auto dest!: try_issue_spec elim!: issue_step.cases)
  from loop_relation.loop_rel [OF this] a show ?thesis unfolding issue_slots_def by blast
qed

lemma commit_issues: "commit_ports m c = Inr m' \<Longrightarrow> issues_of (log m') = issues_of (log m)"
proof -
  assume a: "commit_ports m c = Inr m'"
  have "loop_relation (\<lambda>m m'. issues_of (log m') = issues_of (log m)) (\<lambda>m. try_commit m c)"
    by unfold_locales (auto dest!: try_commit_spec elim!: commit_step.cases simp: issues_of_def)
  from loop_relation.loop_rel [OF this] a show ?thesis unfolding commit_ports_def by blast
qed

lemma run_cycle_widths:
  assumes "run_cycle m c = Inr m'"
  shows "length (retired m') \<le> length (retired m) + nat (commit_width m)"
    and "length (issues_of (log m')) \<le> length (issues_of (log m)) + nat (issue_width m)"
proof -
  obtain m1 m2 m3 where p: "commit_ports (m\<lparr>fus := fus_cycle (fus m)\<rparr>) c = Inr m1"
    "m2 = (log_done c m1 (map e_instr (filter finishes (scoreboard m1))))
       \<lparr>scoreboard := map tick (scoreboard m1)\<rparr>"
    "issue_slots m2 c = Inr m3" "m' = m3\<lparr>iqlen := iq_fetch (iqlen m3)\<rparr>"
    using assms by (rule run_cycle_phases)
  have w: "issue_width m1 = issue_width m"
    using commit_ports_advance [OF p(1)] by (simp add: advance_def config_def)
  show "length (retired m') \<le> length (retired m) + nat (commit_width m)"
    using commit_ports_width [OF p(1)] issue_retired [OF p(3)] p(2,4) by simp
  show "length (issues_of (log m')) \<le> length (issues_of (log m)) + nat (issue_width m)"
    using issue_slots_width [OF p(3)] commit_issues [OF p(1)] w p(2,4)
    by (simp add: log_done_log log_done_of del: map_map)
qed

section \<open>Invariants of a run\<close>

lemma run_loop_induct [consumes 1, case_names finished fail stop step]:
  assumes run: "run_loop cycles c m = Some y"
    and finished: "\<And>c m. instr_queue m = [] \<Longrightarrow> scoreboard m = [] \<Longrightarrow> P c m (Inr (m, c))"
    and fail: "\<And>c m e. \<not> (instr_queue m = [] \<and> scoreboard m = []) \<Longrightarrow> run_cycle m c = Inl e \<Longrightarrow>
      P c m (Inl e)"
    and stop: "\<And>c m m' n. \<not> (instr_queue m = [] \<and> scoreboard m = []) \<Longrightarrow> run_cycle m c = Inr m' \<Longrightarrow>
      cycles = Some n \<Longrightarrow> n < c + 1 \<Longrightarrow> P c m (Inr (m', c + 1))"
    and step: "\<And>c m m' y. run_loop cycles (c + 1) m' = Some y \<Longrightarrow>
      \<not> (instr_queue m = [] \<and> scoreboard m = []) \<Longrightarrow> run_cycle m c = Inr m' \<Longrightarrow>
      P (c + 1) m' y \<Longrightarrow> P c m y"
  shows "P c m y"
proof -
  let ?Q = "\<lambda>cyc c m y. cyc = cycles \<longrightarrow> run_loop cycles c m = Some y \<and> P c m y"
  have "?Q cycles c m y"
    using run
  proof (rule run_loop.raw_induct [where P = ?Q, rotated])
    fix rl cyc c m y
    assume IH: "\<And>cyc c m y. rl cyc c m = Some y \<Longrightarrow> ?Q cyc c m y"
      and body: "(if instr_queue m = [] \<and> scoreboard m = [] then Some (ret (m, c))
      else case run_cycle m c of Inl e \<Rightarrow> Some (raise e)
         | Inr m' \<Rightarrow> if case cyc of None \<Rightarrow> False | Some n \<Rightarrow> c + 1 > n then Some (ret (m', c + 1))
             else rl cyc (c + 1) m') = Some y"
    show "?Q cyc c m y"
    proof (intro impI)
      assume cyc: "cyc = cycles"
      show "run_loop cycles c m = Some y \<and> P c m y"
      proof (cases "instr_queue m = [] \<and> scoreboard m = []")
        case True
        with body finished show ?thesis by (auto simp: run_loop.simps)
      next
        case busy: False
        show ?thesis
        proof (cases "run_cycle m c")
          case (Inl e)
          with body busy fail [OF busy Inl] show ?thesis by (auto simp: run_loop.simps)
        next
          case (Inr m')
          show ?thesis
          proof (cases "case cycles of None \<Rightarrow> False | Some n \<Rightarrow> c + 1 > n")
            case True
            then obtain n where "cycles = Some n" "n < c + 1" by (auto split: option.splits)
            with body busy Inr cyc stop [OF busy Inr this] show ?thesis by (auto simp: run_loop.simps)
          next
            case False
            with body busy Inr cyc have "rl cycles (c + 1) m' = Some y" by (auto split: if_splits)
            with IH [of cycles "c + 1" m' y] have I: "run_loop cycles (c + 1) m' = Some y" "P (c + 1) m' y"
              by blast+
            have "run_loop cycles c m = run_loop cycles (c + 1) m'"
              using busy Inr False by (subst run_loop.simps) auto
            with I step [OF I(1) busy Inr I(2)] show ?thesis by simp
          qed
        qed
      qed
    qed
  qed
  then show ?thesis by blast
qed

text \<open>An invariant of the cycles holds at the end of the run.\<close>

locale run_invariant =
  fixes I :: "int \<Rightarrow> model \<Rightarrow> bool"
  assumes cycle_keeps: "I c m \<Longrightarrow> run_cycle m c = Inr m' \<Longrightarrow> I (c + 1) m'"
begin

lemma run_keeps:
  "run_loop cycles c m = Some res \<Longrightarrow> I c m \<Longrightarrow> res = Inr (m', n) \<Longrightarrow> I n m' \<and> c \<le> n"
proof (induction rule: run_loop_induct)
  case (step c m m1 res)
  from step.IH [OF cycle_keeps [OF step.prems(1) step.hyps(3)] step.prems(2)] show ?case by simp
qed (auto intro: cycle_keeps)

end

lemma run_loop_complete:
  "run_loop cycles c m = Some res \<Longrightarrow> cycles = None \<Longrightarrow> res = Inr (m', n) \<Longrightarrow>
    instr_queue m' = [] \<and> scoreboard m' = []"
  by (induction rule: run_loop_induct) auto

definition load :: "model \<Rightarrow> instruction list \<Rightarrow> model" where
  "load m is = m\<lparr>instr_queue := instr_queue m @ is\<rparr>"

text \<open>The invariant of the log, for a model loaded with a trace at cycle 0.\<close>

definition log_inv :: "instruction list \<Rightarrow> int \<times> int \<times> int \<times> bool \<times> bool \<Rightarrow> int \<Rightarrow> model \<Rightarrow> bool" where
  "log_inv trace cfg c m \<longleftrightarrow> 0 \<le> c \<and> config m = cfg
     \<and> whole (abs_model m) = trace
     \<and> issues_of (log m) @ instr_queue m = trace
     \<and> commits_of (log m) = retired m
     \<and> sorted (map (cycle \<circ> fst) (log m))
     \<and> (\<forall>(e, i) \<in> set (log m). 0 \<le> cycle e \<and> cycle e < c)
     \<and> int (length (retired m)) \<le> c * max 0 (commit_width m)
     \<and> int (length (issues_of (log m))) \<le> c * max 0 (issue_width m)
     \<and> int (length (scoreboard m)) \<le> max 0 (sb_len m)"

lemma sorted_const: "\<forall>x \<in> set xs. x = (c::int) \<Longrightarrow> sorted xs"
  by (induction xs) auto

lemma log_inv_cycle:
  assumes I: "log_inv trace cfg c m" and r: "run_cycle m c = Inr m'"
  shows "log_inv trace cfg (c + 1) m'"
proof -
  note a = run_cycle_advances [OF r] and w = run_cycle_widths [OF r]
  obtain new where new: "log m' = log m @ new" "\<forall>(e, i) \<in> set new. cycle e = c"
    "instr_queue m = issues_of new @ instr_queue m'" "retired m' = retired m @ commits_of new"
    using a unfolding advance_def by blast
  have cfg: "config m' = config m" and p: "(pipe (sb_len m))\<^sup>*\<^sup>* (abs_model m) (abs_model m')"
    using a by (simp_all add: advance_def)
  have s: "sorted (map (cycle \<circ> fst) (log m'))"
  proof -
    have "sorted (map (cycle \<circ> fst) new)"
      by (rule sorted_const [of _ c]) (use new(2) in auto)
    with I new(1,2) show ?thesis by (fastforce simp: log_inv_def sorted_append)
  qed
  have pm: "(pipe (max 0 (sb_len m)))\<^sup>*\<^sup>* (abs_model m) (abs_model m')"
    using p by (rule rtranclp_mono [THEN predicate2D, rotated]) (auto elim!: pipeE intro: pipe.intros)
  then have b: "int (length (scoreboard m')) \<le> max 0 (sb_len m)"
    using pipe_bound [OF pm] I by (simp add: abs_model_def log_inv_def)
  have e: "commit_width m' = commit_width m" "issue_width m' = issue_width m" "sb_len m' = sb_len m"
    using cfg by (simp_all add: config_def)
  have "int (length (retired m')) \<le> (c + 1) * max 0 (commit_width m)"
    "int (length (issues_of (log m'))) \<le> (c + 1) * max 0 (issue_width m)"
    using w I by (auto simp: log_inv_def algebra_simps)
  then show ?thesis
    using I s b new e cfg pipe_whole [OF p] unfolding log_inv_def by fastforce
qed

interpretation log_run: run_invariant "log_inv trace cfg" for trace cfg
  by unfold_locales (rule log_inv_cycle)

lemma log_inv_load:
  "log_inv trace (config (model_init a b d e f g)) 0 (load (model_init a b d e f g) trace)"
  by (simp add: log_inv_def load_def model_init_def config_def abs_model_def issues_of_def commits_of_def)

end
