(* ===== verification/Perf_Events.thy ===== *)
theory Perf_Events
  imports Perf_Order
begin

text \<open>
  The events of an instruction. The store of events is the log read per instruction, and the
  events that mark the progress of an instruction are exactly one issue, one done and one
  commit, at cycles the execution durations of \<open>try_execute\<close> determine.
\<close>

abbreviation ev :: "event_kind \<Rightarrow> int \<Rightarrow> event" where
  "ev k c \<equiv> \<lparr>kind = k, cycle = c\<rparr>"

section \<open>The store is the log\<close>

definition events_of :: "(event \<times> instruction) list \<Rightarrow> nat \<Rightarrow> event list" where
  "events_of l n = map fst (filter (\<lambda>(e, i). iid i = n) l)"

definition projected :: "model \<Rightarrow> bool" where
  "projected m \<longleftrightarrow> events m = events_of (log m)"

lemma projected_event: "projected m \<Longrightarrow> projected (log_event_on m i k c)"
  by (auto simp: projected_def events_of_def fun_eq_iff)

lemma projected_all: "projected m \<Longrightarrow> projected (log_all m i ks c)"
  by (induction ks arbitrary: m) (simp_all add: projected_event)

lemma projected_done: "projected m \<Longrightarrow> projected (log_done c m is)"
  unfolding log_done_def by (induction "is" arbitrary: m) (simp_all add: projected_event)

lemma projected_frame:
  "events m' = events m \<Longrightarrow> log m' = log m \<Longrightarrow> projected m' \<longleftrightarrow> projected m"
  by (simp add: projected_def)

lemma projected_cong:
  "projected m \<Longrightarrow> events m' = events m \<Longrightarrow> log m' = log m \<Longrightarrow> projected m'"
  by (simp add: projected_def)

lemma issue_projected:
  assumes "projected m" "try_issue m c = Inr m'"
  shows "projected m'"
  using try_issue_spec [OF assms(2)]
proof cases
  case (stall i q bs iq)
  show ?thesis by (rule projected_cong [OF projected_all [OF assms(1)]]) (simp_all add: stall(1))
next
  case (hazard i q hs bs iq)
  show ?thesis by (rule projected_cong [OF projected_all [OF assms(1)]]) (simp_all add: hazard(1))
next
  case (issued i q bs iq b r)
  show ?thesis by (rule projected_cong [OF projected_all [OF assms(1)]]) (simp_all add: issued(1))
qed (use assms in simp)

lemma commit_projected:
  assumes "projected m" "try_commit m c port = Inr m'"
  shows "projected m'"
  using try_commit_spec [OF assms(2)]
proof cases
  case (commit en es b)
  show ?thesis by (rule projected_cong [OF projected_event [OF assms(1)]]) (simp_all add: commit(1))
qed (use assms in simp)

interpretation issue_proj: loop_invariant projected "\<lambda>m (_::int). try_issue m c" for c
  by unfold_locales (rule issue_projected)

interpretation commit_proj: loop_invariant projected "\<lambda>m. try_commit m c" for c
  by unfold_locales (rule commit_projected)

lemma run_cycle_projected:
  assumes "projected m" "run_cycle m c = Inr m'"
  shows "projected m'"
  using assms(2)
proof (rule run_cycle_phases)
  fix m1 m2 m3
  assume p: "commit_ports (m\<lparr>fus := fus_cycle (fus m)\<rparr>) c = Inr m1"
    "m2 = (log_done c m1 (map e_instr (filter finishes (scoreboard m1))))
       \<lparr>scoreboard := map tick (scoreboard m1)\<rparr>"
    "issue_slots m2 c = Inr m3" "m' = m3\<lparr>iqlen := iq_fetch (iqlen m3)\<rparr>"
  have "projected (m\<lparr>fus := fus_cycle (fus m)\<rparr>)" using assms(1) by (simp add: projected_def)
  then have "projected m1" using commit_proj.loop_keeps p(1) unfolding commit_ports_def by blast
  from projected_done [OF this] have "projected m2" by (rule projected_cong) (simp_all add: p(2))
  then have "projected m3" using issue_proj.loop_keeps p(3) unfolding issue_slots_def by blast
  then show ?thesis by (simp add: p(4) projected_def)
qed

interpretation proj_run: run_invariant "\<lambda>_. projected"
  by unfold_locales (rule run_cycle_projected)

section \<open>Issue, done, commit\<close>

definition life :: "event list \<Rightarrow> event list" where
  "life es = filter (\<lambda>e. kind e \<in> {EK_issue, EK_done, EK_commit}) es"

lemma life_Nil [simp]: "life [] = []"
  by (simp add: life_def)

lemma life_append [simp]: "life (xs @ ys) = life xs @ life ys"
  by (simp add: life_def)

lemma life_single [simp]:
  "life [ev k c] = (if k \<in> {EK_issue, EK_done, EK_commit} then [ev k c] else [])"
  by (simp add: life_def)

lemma life_other:
  "set ks \<inter> {EK_issue, EK_done, EK_commit} = {} \<Longrightarrow> life (map (\<lambda>k. ev k c) ks) = []"
  by (induction ks) (auto simp: life_def)

definition entry_life :: "int \<Rightarrow> model \<Rightarrow> entry \<Rightarrow> bool" where
  "entry_life ce m en \<longleftrightarrow> (\<exists>ic. 0 \<le> ic \<and> ic \<le> ce \<and> cycles_since_issue en = ce - ic
     \<and> (e_done en \<longleftrightarrow> exec_duration (e_instr en) \<le> ce - ic)
     \<and> life (events m (iid (e_instr en))) = ev EK_issue ic #
         (if e_done en then [ev EK_done (ic + exec_duration (e_instr en))] else []))"

definition retired_life :: "int \<Rightarrow> model \<Rightarrow> instruction \<Rightarrow> bool" where
  "retired_life cc m i \<longleftrightarrow> (\<exists>ic k. 0 \<le> ic \<and> ic + exec_duration i < k \<and> k \<le> cc
     \<and> life (events m (iid i)) = [ev EK_issue ic, ev EK_done (ic + exec_duration i), ev EK_commit k]
     \<and> events m (iid i) \<noteq> [] \<and> last (events m (iid i)) = ev EK_commit k)"

definition life_inv :: "int \<Rightarrow> int \<Rightarrow> model \<Rightarrow> bool" where
  "life_inv ce cc m \<longleftrightarrow> distinct (map iid (whole (abs_model m)))
     \<and> (\<forall>i \<in> set (instr_queue m). life (events m (iid i)) = [])
     \<and> (\<forall>en \<in> set (scoreboard m). entry_life ce m en)
     \<and> (\<forall>i \<in> set (retired m). retired_life cc m i)"

lemma entry_life_cong:
  "events m' (iid (e_instr en)) = events m (iid (e_instr en)) \<Longrightarrow> entry_life ce m' en \<longleftrightarrow> entry_life ce m en"
  by (simp add: entry_life_def)

lemma retired_life_cong:
  "events m' (iid i) = events m (iid i) \<Longrightarrow> retired_life ce m' i \<longleftrightarrow> retired_life ce m i"
  by (simp add: retired_life_def)

lemma exec_duration_pos: "1 \<le> exec_duration i" "exec_duration i \<le> 2"
  by (simp_all add: exec_duration_def)

text \<open>Logging a hazard on the head of the queue touches no other instruction.\<close>

lemma life_inv_log:
  assumes I: "life_inv ce cc m" and q: "instr_queue m = i # q"
    and ks: "set ks \<inter> {EK_issue, EK_done, EK_commit} = {}"
  shows "life_inv ce cc (log_all m i ks c)"
proof -
  from I q have d: "distinct (map iid (retired m @ map e_instr (scoreboard m) @ i # q))"
    by (simp add: life_inv_def abs_model_def)
  then have n: "events (log_all m i ks c) (iid j) = events m (iid j)"
    if "j \<in> set (retired m) \<union> e_instr ` set (scoreboard m) \<union> set q" for j
    using distinct_map_parts [OF d, of j] that by (simp add: log_all_events)
  have l: "life (events (log_all m i ks c) (iid i)) = life (events m (iid i))"
    by (simp add: log_all_events life_other [OF ks])
  show ?thesis
    unfolding life_inv_def
  proof (intro conjI ballI)
    show "distinct (map iid (whole (abs_model (log_all m i ks c))))"
      using I by (simp add: life_inv_def abs_model_def)
  next
    fix j assume "j \<in> set (instr_queue (log_all m i ks c))"
    then have j: "j = i \<or> j \<in> set q" "j \<in> set (instr_queue m)" using q by auto
    have "life (events m (iid j)) = []" using I j(2) unfolding life_inv_def by blast
    then show "life (events (log_all m i ks c) (iid j)) = []" using j(1) n l by auto
  next
    fix en assume "en \<in> set (scoreboard (log_all m i ks c))"
    then have en: "en \<in> set (scoreboard m)" by simp
    then show "entry_life ce (log_all m i ks c) en"
      using I entry_life_cong [OF n [of "e_instr en"]] by (auto simp: life_inv_def)
  next
    fix j assume "j \<in> set (retired (log_all m i ks c))"
    then have "j \<in> set (retired m)" by simp
    then show "retired_life cc (log_all m i ks c) j"
      using I retired_life_cong [OF n [of j]] by (auto simp: life_inv_def)
  qed
qed

lemma life_inv_frame:
  "life_inv ce cc m \<Longrightarrow> instr_queue m' = instr_queue m \<Longrightarrow> scoreboard m' = scoreboard m \<Longrightarrow>
    retired m' = retired m \<Longrightarrow> events m' = events m \<Longrightarrow> life_inv ce cc m'"
  by (simp add: life_inv_def abs_model_def entry_life_def retired_life_def)

lemma issue_life:
  assumes I: "life_inv c cc m" and r: "try_issue m c = Inr m'" and c: "0 \<le> c"
  shows "life_inv c cc m'"
  using try_issue_spec [OF r]
proof cases
  case idle
  with I show ?thesis by simp
next
  case (stall i q bs iq)
  then have "set bs \<inter> {EK_issue, EK_done, EK_commit} = {}" by auto
  from life_inv_log [OF I stall(2) this] show ?thesis
    by (rule life_inv_frame) (simp_all add: stall(1))
next
  case (hazard i q hs bs iq)
  then have "set (hs @ bs) \<inter> {EK_issue, EK_done, EK_commit} = {}" by auto
  from life_inv_log [OF I hazard(2) this] show ?thesis
    by (rule life_inv_frame) (simp_all add: hazard(1))
next
  case (issued i q bs iq b r)
  let ?m = "log_all m i bs c"
  have "set bs \<inter> {EK_issue, EK_done, EK_commit} = {}" using issued(4) by auto
  from life_inv_log [OF I issued(2) this] have I1: "life_inv c cc ?m" .
  have q1: "instr_queue ?m = i # q" using issued(2) by simp
  have e: "events m' = (events ?m)(iid i := events ?m (iid i) @ [ev EK_issue c])"
    by (simp add: issued(1) log_all_append)
  from I1 q1 have d: "distinct (map iid (retired ?m @ map e_instr (scoreboard ?m) @ i # q))"
    by (simp add: life_inv_def abs_model_def)
  have n: "events m' (iid j) = events ?m (iid j)"
    if "j \<in> set (retired m) \<union> e_instr ` set (scoreboard m) \<union> set q" for j
    using that distinct_map_parts [OF d, of j] unfolding e by simp
  have w: "instr_queue m' = q" "scoreboard m' = scoreboard m @ [new_entry i]" "retired m' = retired m"
    by (simp_all add: issued(1))
  show ?thesis
    unfolding life_inv_def w
  proof (intro conjI ballI)
    show "distinct (map iid (whole (abs_model m')))"
      using d by (simp add: abs_model_def w new_entry_def)
  next
    fix j assume j: "j \<in> set q"
    then have "life (events ?m (iid j)) = []" using I1 q1 by (auto simp: life_inv_def)
    then show "life (events m' (iid j)) = []" using n j by simp
  next
    fix en assume "en \<in> set (scoreboard m @ [new_entry i])"
    then consider "en \<in> set (scoreboard m)" | "en = new_entry i" by auto
    then show "entry_life c m' en"
    proof cases
      case 1
      then show ?thesis using I1 entry_life_cong [OF n [of "e_instr en"]] by (auto simp: life_inv_def)
    next
      case 2
      have "life (events ?m (iid i)) = []" using I1 q1 by (auto simp: life_inv_def)
      then have "life (events m' (iid i)) = [ev EK_issue c]" by (simp add: e)
      then show ?thesis using c exec_duration_pos(1) [of i] 2
        unfolding entry_life_def by (intro exI [of _ c]) (simp add: new_entry_def)
    qed
  next
    fix j assume "j \<in> set (retired m)"
    then show "retired_life cc m' j" using I1 retired_life_cong [OF n [of j]] by (auto simp: life_inv_def)
  qed
qed

lemma commit_life:
  assumes I: "life_inv (c - 1) c m" and r: "try_commit m c port = Inr m'"
  shows "life_inv (c - 1) c m'"
  using try_commit_spec [OF r]
proof cases
  case wait
  with I show ?thesis by simp
next
  case (commit en es b)
  let ?i = "e_instr en"
  have e: "events m' = (events m)(iid ?i := events m (iid ?i) @ [ev EK_commit c])"
    by (simp add: commit(1))
  from I commit(2) have d: "distinct (map iid (retired m @ [] @ ?i # map e_instr es @ instr_queue m))"
    by (simp add: life_inv_def abs_model_def)
  have n: "events m' (iid j) = events m (iid j)"
    if "j \<in> set (retired m) \<union> e_instr ` set es \<union> set (instr_queue m)" for j
    using that distinct_map_parts [OF d, of j] unfolding e by auto
  have w: "instr_queue m' = instr_queue m" "scoreboard m' = es" "retired m' = retired m @ [?i]"
    by (simp_all add: commit(1))
  show ?thesis
    unfolding life_inv_def w
  proof (intro conjI ballI)
    show "distinct (map iid (whole (abs_model m')))"
      using d by (simp add: abs_model_def w)
  next
    fix j assume j: "j \<in> set (instr_queue m)"
    then show "life (events m' (iid j)) = []" using n I by (simp add: life_inv_def)
  next
    fix x assume "x \<in> set es"
    then show "entry_life (c - 1) m' x"
      using I commit(2) entry_life_cong [OF n [of "e_instr x"]] by (auto simp: life_inv_def)
  next
    fix j assume "j \<in> set (retired m @ [?i])"
    then consider "j \<in> set (retired m)" | "j = ?i" by auto
    then show "retired_life c m' j"
    proof cases
      case 1
      then show ?thesis using I retired_life_cong [OF n [of j]] by (auto simp: life_inv_def)
    next
      case 2
      have "entry_life (c - 1) m en" using I commit(2) by (simp add: life_inv_def)
      then obtain ic where ic: "0 \<le> ic" "exec_duration ?i \<le> c - 1 - ic"
        "life (events m (iid ?i)) = [ev EK_issue ic, ev EK_done (ic + exec_duration ?i)]"
        using commit(3) by (auto simp: entry_life_def)
      then show ?thesis unfolding retired_life_def 2
        by (intro exI [of _ ic] exI [of _ c]) (simp add: e)
    qed
  qed
qed

lemma execute_life:
  assumes I: "life_inv (c - 1) c m"
  shows "life_inv c c ((log_done c m (map e_instr (filter finishes (scoreboard m))))
    \<lparr>scoreboard := map tick (scoreboard m)\<rparr>)"
proof -
  let ?is = "map e_instr (filter finishes (scoreboard m))" and ?l = "\<lambda>m'. m'\<lparr>scoreboard := map tick (scoreboard m)\<rparr>"
  let ?m = "?l (log_done c m ?is)"
  from I have d: "distinct (map iid (retired m @ map e_instr (scoreboard m) @ instr_queue m))"
    by (simp add: life_inv_def abs_model_def)
  then have ds: "distinct (map (iid \<circ> e_instr) (scoreboard m))" by simp
  have di: "distinct (map iid ?is)" using distinct_map_filter [OF ds] by simp
  have n: "events ?m (iid j) = events m (iid j)" if "j \<in> set (retired m) \<union> set (instr_queue m)" for j
  proof -
    have "iid j \<notin> iid ` e_instr ` set (scoreboard m)" using that d by (auto simp: image_image)
    then have "iid j \<notin> iid ` set ?is" by auto
    then show ?thesis by (simp add: log_done_other)
  qed
  show ?thesis
    unfolding life_inv_def
  proof (intro conjI ballI)
    show "distinct (map iid (whole (abs_model ?m)))" using d by (simp add: abs_model_def o_def)
  next
    fix j assume "j \<in> set (instr_queue ?m)"
    then show "life (events ?m (iid j)) = []" using n [of j] I by (simp add: life_inv_def)
  next
    fix x assume "x \<in> set (scoreboard ?m)"
    then obtain en where en: "en \<in> set (scoreboard m)" "x = tick en" by auto
    let ?i = "e_instr en"
    from I en(1) obtain ic where ic: "0 \<le> ic" "ic \<le> c - 1" "cycles_since_issue en = c - 1 - ic"
      "e_done en \<longleftrightarrow> exec_duration ?i \<le> c - 1 - ic"
      "life (events m (iid ?i)) = ev EK_issue ic # (if e_done en then [ev EK_done (ic + exec_duration ?i)] else [])"
      by (auto simp: life_inv_def entry_life_def)
    have f: "finishes en \<longleftrightarrow> exec_duration ?i = c - ic" using ic(3) by (auto simp: finishes_def)
    have "events ?m (iid ?i) = events m (iid ?i) @ (if finishes en then [ev EK_done c] else [])"
    proof (cases "finishes en")
      case True
      with en have "?i \<in> set ?is" by auto
      from log_done_this [OF di this, of c m] True show ?thesis by simp
    next
      case False
      have "iid ?i \<notin> iid ` set ?is"
      proof
        assume "iid ?i \<in> iid ` set ?is"
        then obtain en' where "en' \<in> set (scoreboard m)" "finishes en'" "iid (e_instr en') = iid ?i" by auto
        with ds en(1) False show False by (metis comp_apply distinct_map inj_onD)
      qed
      with False show ?thesis by (simp add: log_done_other)
    qed
    with ic f show "entry_life c ?m x"
      unfolding entry_life_def en(2) by (intro exI [of _ ic]) auto
  next
    fix j assume "j \<in> set (retired ?m)"
    then have j: "j \<in> set (retired m)" by simp
    with n have "events ?m (iid j) = events m (iid j)" by blast
    from retired_life_cong [OF this] j I show "retired_life c ?m j" by (simp add: life_inv_def)
  qed
qed

interpretation issue_lives: loop_invariant "\<lambda>m. 0 \<le> c \<and> life_inv c cc m" "\<lambda>m (_::int). try_issue m c"
  for c cc by unfold_locales (auto intro: issue_life)

interpretation commit_lives: loop_invariant "life_inv (c - 1) c" "\<lambda>m. try_commit m c" for c
  by unfold_locales (rule commit_life)

lemma retired_life_mono: "retired_life cc m i \<Longrightarrow> cc \<le> cc' \<Longrightarrow> retired_life cc' m i"
  by (force simp: retired_life_def)

lemma life_inv_mono: "life_inv ce cc m \<Longrightarrow> cc \<le> cc' \<Longrightarrow> life_inv ce cc' m"
  using retired_life_mono by (auto simp: life_inv_def)

definition life_run_inv :: "int \<Rightarrow> model \<Rightarrow> bool" where
  "life_run_inv c m \<longleftrightarrow> 0 \<le> c \<and> life_inv (c - 1) (c - 1) m"

lemma run_cycle_life:
  assumes "life_run_inv c m" "run_cycle m c = Inr m'"
  shows "life_run_inv (c + 1) m'"
  using assms(2)
proof (rule run_cycle_phases)
  fix m1 m2 m3
  assume p: "commit_ports (m\<lparr>fus := fus_cycle (fus m)\<rparr>) c = Inr m1"
    "m2 = (log_done c m1 (map e_instr (filter finishes (scoreboard m1))))
       \<lparr>scoreboard := map tick (scoreboard m1)\<rparr>"
    "issue_slots m2 c = Inr m3" "m' = m3\<lparr>iqlen := iq_fetch (iqlen m3)\<rparr>"
  have c: "0 \<le> c" and I: "life_inv (c - 1) c m"
    using assms(1) life_inv_mono [of "c - 1" "c - 1" m c] by (auto simp: life_run_inv_def)
  have "life_inv (c - 1) c (m\<lparr>fus := fus_cycle (fus m)\<rparr>)" using I by (rule life_inv_frame) simp_all
  then have "life_inv (c - 1) c m1"
    using commit_lives.loop_keeps p(1) unfolding commit_ports_def by blast
  then have "life_inv c c m2" unfolding p(2) by (rule execute_life)
  then have "life_inv c c m3"
    using issue_lives.loop_keeps p(3) c unfolding issue_slots_def by blast
  then have "life_inv c c m'" by (rule life_inv_frame) (simp_all add: p(4))
  with c show ?thesis by (simp add: life_run_inv_def)
qed

interpretation life_run: run_invariant life_run_inv
  by unfold_locales (rule run_cycle_life)

lemma life_inv_load:
  "distinct (map iid trace) \<Longrightarrow> life_run_inv 0 (load (model_init a b d e f g) trace)"
  by (simp add: life_run_inv_def life_inv_def load_def model_init_def abs_model_def life_def)

lemma projected_load: "projected (load (model_init a b d e f g) trace)"
  by (simp add: projected_def load_def model_init_def events_of_def fun_eq_iff)

end
