(* ===== verification/Perf_Progress.thy ===== *)
theory Perf_Progress
  imports Perf_Events
begin

text \<open>
  Progress of the model of \<open>perf-model/model.py\<close>: a run always ends, and it ends without an
  exception exactly when every instruction of the trace has a known format.
\<close>

section \<open>Exceptions\<close>

definition known :: "instruction \<Rightarrow> bool" where
  "known i \<longleftrightarrow> \<not> isl (fields_of i)"

lemma knownE:
  assumes "known i"
  obtains f where "fields_of i = Inr f"
  using assms by (cases "fields_of i") (auto simp: known_def)

lemma known_iff: "known i \<longleftrightarrow> (\<exists>f. fields_of i = Inr f)"
  by (cases "fields_of i") (auto simp: known_def)

definition all_known :: "model \<Rightarrow> bool" where
  "all_known m \<longleftrightarrow> m_bht m \<noteq> []
     \<and> (\<forall>i \<in> set (instr_queue m) \<union> e_instr ` set (scoreboard m). known i)
     \<and> (case last_issued m of None \<Rightarrow> True | Some li \<Rightarrow> known (li_instr li))"

lemma predict_branch_total:
  assumes "m_bht m \<noteq> []" "known i" "is_branch i"
  shows "\<exists>t. predict_branch m i = Inr t"
proof -
  obtain f where f: "fields_of i = Inr f" using assms(2) by (rule knownE)
  obtain p where p: "bht_predict (m_bht m) (address i) = Inr p" using bht_total(1) [OF assms(1)] by blast
  obtain v where v: "offset i = Inr (IntAttr v)" using branch_offset_int [OF assms(3) f] by blast
  show ?thesis using p v by (cases p) (simp_all add: predict_branch_def)
qed

lemma predict_pc_total:
  assumes "m_bht m \<noteq> []" "known i"
  shows "\<exists>p. predict_pc m i = Inr p"
proof (cases "is_branch i")
  case True
  obtain f where f: "fields_of i = Inr f" using assms(2) by (rule knownE)
  obtain v where v: "offset i = Inr (IntAttr v)" using branch_offset_int [OF True f] by blast
  obtain t where t: "predict_branch m i = Inr t" using predict_branch_total [OF assms True] by blast
  show ?thesis using True v t by (cases t) (simp_all add: predict_pc_def to_signed_def)
next
  case False
  obtain f where f: "fields_of i = Inr f" using assms(2) by (rule knownE)
  obtain j where j: "is_regjump i = Inr j" using is_regjump_total by blast
  obtain r where r: "is_ret i = Inr r" using is_ret_total [OF f] by blast
  show ?thesis using False j r by (cases j) (simp_all add: predict_pc_def predict_regjump_def)
qed

lemma find_data_hazards_total:
  assumes "known i" "\<forall>en \<in> set es. known (e_instr en)"
  shows "\<exists>r. foldR (hazard_step i c) (m, found) es = Inr r"
  using assms(2)
proof (induction es arbitrary: m found)
  case (Cons en es)
  obtain f where f: "fields_of i = Inr f" using assms(1) by (rule knownE)
  obtain g where g: "fields_of (e_instr en) = Inr g" using Cons.prems by (auto elim: knownE)
  obtain w x where "has_WAW_from i (e_instr en) = Inr w" "has_RAW_from i (e_instr en) = Inr x"
    using hazard_totals [OF g f] by blast
  then have "\<exists>p. hazard_step i c (m, found) en = Inr p"
    by (cases "w \<and> \<not> has_renaming m") (simp_all add: hazard_step_def)
  then obtain m1 f1 where h: "hazard_step i c (m, found) en = Inr (m1, f1)" by fastforce
  from Cons.IH [of m1 f1] Cons.prems obtain r where "foldR (hazard_step i c) (m1, f1) es = Inr r"
    by auto
  with h show ?case by simp
qed simp

lemma issue_manage_total:
  assumes "m_bht m \<noteq> []" "case last_issued m of None \<Rightarrow> True | Some li \<Rightarrow> known (li_instr li)"
  shows "\<exists>m'. issue_manage_last_branch m i c = Inr m'"
proof (cases "last_issued m")
  case None
  then show ?thesis by (simp add: issue_manage_last_branch_def)
next
  case (Some li)
  with assms obtain p where p: "predict_pc m (li_instr li) = Inr p" using predict_pc_total by fastforce
  show ?thesis
  proof (cases p)
    case None
    with Some p show ?thesis by (simp add: issue_manage_last_branch_def)
  next
    case pc: (Some pc)
    with issue_manage_pc [OF Some] p show ?thesis by blast
  qed
qed

lemma try_issue_total:
  assumes I: "all_known m"
  shows "\<exists>m'. try_issue m c = Inr m'"
proof (cases "instr_queue m = [] \<or> sb_len m \<le> int (length (scoreboard m))")
  case True
  then show ?thesis by (cases "instr_queue m") (auto simp: try_issue_def)
next
  case False
  then obtain i q where q: "instr_queue m = i # q" and room: "\<not> sb_len m \<le> int (length (scoreboard m))"
    by (cases "instr_queue m") auto
  have k: "known i" "\<forall>en \<in> set (scoreboard m). known (e_instr en)" using I q by (auto simp: all_known_def)
  obtain f where f: "fields_of i = Inr f" using k(1) by (rule knownE)
  obtain m1 data where m1: "find_data_hazards m i c = Inr (m1, data)"
    using find_data_hazards_total [OF k] unfolding find_data_hazards_def by fastforce
  obtain hs where hs: "m1 = log_all m i hs c" using m1 by (rule find_data_hazards_spec)
  obtain rd where rd: "is_ready_for (fus m) i = Inr rd" using is_ready_for_total by blast
  define m2 where "m2 = (if rd then m1 else log_event_on m1 i EK_STRUCT c)"
  have m2: "find_structural_hazard m1 i c = Inr (m2, \<not> rd)"
    using rd by (simp add: find_structural_hazard_def hs m2_def)
  have fr: "m_bht m2 = m_bht m" "last_issued m2 = last_issued m" "fus m2 = fus m" "m_ras m2 = m_ras m"
    by (simp_all add: m2_def hs)
  obtain m3 where m3: "issue_manage_last_branch m2 i c = Inr m3"
    using issue_manage_total [of m2 i c] I by (auto simp: all_known_def fr)
  obtain bs iq where "m3 = (log_all m2 i bs c)\<lparr>iqlen := iq\<rparr>" using m3 by (rule issue_manage_spec)
  with fr have fr3: "fus m3 = fus m" "m_ras m3 = m_ras m" by simp_all
  show ?thesis
  proof (cases "\<not> data \<and> rd \<and> iq_has (iqlen m3) i")
    case True
    with rd obtain b where b: "fus_issue (fus m) i = Inr b" using fus_issue_ready [of "fus m" i] by auto
    obtain r where r: "ras_resolve (m_ras m) i = Inr r" using ras_resolve_total [OF f] by blast
    show ?thesis using q room m1 m2 m3 True b r by (simp add: try_issue_def Let_def fr3)
  next
    case False
    then show ?thesis using q room m1 m2 m3 by (auto simp: try_issue_def Let_def)
  qed
qed

lemma issue_known:
  assumes "all_known m" "try_issue m c = Inr m'"
  shows "all_known m'"
  using try_issue_spec [OF assms(2)]
proof cases
  case (issued i q bs iq b r)
  then show ?thesis using assms(1) by (auto simp: all_known_def new_entry_def)
qed (use assms(1) in \<open>auto simp: all_known_def\<close>)

lemma try_commit_total:
  assumes "all_known m"
  shows "\<exists>m'. try_commit m c port = Inr m'"
proof -
  have t: "\<exists>m'. commit_manage_last_branch m i c = Inr m'" if "m_bht m \<noteq> []" for m i
    using bht_total(2) [OF that] by (auto simp: commit_manage_last_branch_def Let_def split: option.splits)
  show ?thesis
    using assms by (auto simp: try_commit_def all_known_def Let_def split: list.splits intro!: t)
qed

lemma commit_known:
  assumes "all_known m" "try_commit m c port = Inr m'"
  shows "all_known m'"
  using try_commit_spec [OF assms(2)]
proof cases
  case (commit en es b)
  then show ?thesis using assms(1) by (auto simp: all_known_def split: option.splits)
qed (use assms(1) in simp)

interpretation issue_total: loop_total all_known "\<lambda>m (_::int). try_issue m c" for c
proof
  fix m and x :: int
  assume "all_known m"
  with try_issue_total issue_known show "\<exists>m'. try_issue m c = Inr m' \<and> all_known m'" by blast
qed

interpretation commit_total: loop_total all_known "\<lambda>m. try_commit m c" for c
proof
  fix m and x :: int
  assume "all_known m"
  with try_commit_total commit_known show "\<exists>m'. try_commit m c x = Inr m' \<and> all_known m'" by blast
qed

lemma run_cycle_total:
  assumes "all_known m"
  shows "\<exists>m'. run_cycle m c = Inr m' \<and> all_known m'"
proof -
  have "all_known (m\<lparr>fus := fus_cycle (fus m)\<rparr>)" using assms by (simp add: all_known_def)
  then obtain m1 where m1: "commit_ports (m\<lparr>fus := fus_cycle (fus m)\<rparr>) c = Inr m1" "all_known m1"
    using commit_total.loop_returns unfolding commit_ports_def by blast
  let ?m2 = "(log_done c m1 (map e_instr (filter finishes (scoreboard m1))))
       \<lparr>scoreboard := map tick (scoreboard m1)\<rparr>"
  have "all_known ?m2" using m1(2) by (auto simp: all_known_def)
  then obtain m3 where m3: "issue_slots ?m2 c = Inr m3" "all_known m3"
    using issue_total.loop_returns unfolding issue_slots_def by blast
  show ?thesis using m1(1) m3 by (auto simp: run_cycle_eq all_known_def)
qed

lemma run_known_returns:
  "run_loop cycles c m = Some res \<Longrightarrow> all_known m \<Longrightarrow> \<not> isl res"
proof (induction rule: run_loop_induct)
  case (fail c m e)
  then show ?case using run_cycle_total [of m c] by auto
next
  case (step c m m' y)
  then show ?case using run_cycle_total [of m c] by auto
qed auto

text \<open>An issued instruction has been decoded.\<close>

definition in_flight_known :: "model \<Rightarrow> bool" where
  "in_flight_known m \<longleftrightarrow> (\<forall>i \<in> set (retired m) \<union> e_instr ` set (scoreboard m). known i)"

lemma ras_resolve_known: "ras_resolve r i = Inr r' \<Longrightarrow> known i"
  by (auto simp: ras_resolve_def is_ret_def known_iff)

lemma issue_in_flight:
  assumes "in_flight_known m" "try_issue m c = Inr m'"
  shows "in_flight_known m'"
  using try_issue_spec [OF assms(2)]
proof cases
  case (issued i q bs iq b r)
  then show ?thesis using assms(1) ras_resolve_known by (auto simp: in_flight_known_def new_entry_def)
qed (use assms(1) in \<open>auto simp: in_flight_known_def\<close>)

lemma commit_in_flight:
  assumes "in_flight_known m" "try_commit m c port = Inr m'"
  shows "in_flight_known m'"
  using try_commit_spec [OF assms(2)]
proof cases
  case (commit en es b)
  then show ?thesis using assms(1) by (auto simp: in_flight_known_def)
qed (use assms(1) in simp)

interpretation issue_flight: loop_invariant in_flight_known "\<lambda>m (_::int). try_issue m c" for c
  by unfold_locales (rule issue_in_flight)

interpretation commit_flight: loop_invariant in_flight_known "\<lambda>m. try_commit m c" for c
  by unfold_locales (rule commit_in_flight)

lemma run_cycle_in_flight:
  assumes "in_flight_known m" "run_cycle m c = Inr m'"
  shows "in_flight_known m'"
  using assms(2)
proof (rule run_cycle_phases)
  fix m1 m2 m3
  assume p: "commit_ports (m\<lparr>fus := fus_cycle (fus m)\<rparr>) c = Inr m1"
    "m2 = (log_done c m1 (map e_instr (filter finishes (scoreboard m1))))
       \<lparr>scoreboard := map tick (scoreboard m1)\<rparr>"
    "issue_slots m2 c = Inr m3" "m' = m3\<lparr>iqlen := iq_fetch (iqlen m3)\<rparr>"
  have "in_flight_known (m\<lparr>fus := fus_cycle (fus m)\<rparr>)" using assms(1) by (simp add: in_flight_known_def)
  then have "in_flight_known m1" using commit_flight.loop_keeps p(1) unfolding commit_ports_def by blast
  then have "in_flight_known m2" by (auto simp: p(2) in_flight_known_def)
  then have "in_flight_known m3" using issue_flight.loop_keeps p(3) unfolding issue_slots_def by blast
  then show ?thesis by (simp add: p(4) in_flight_known_def)
qed

interpretation flight_run: run_invariant "\<lambda>_. in_flight_known"
  by unfold_locales (rule run_cycle_in_flight)


section \<open>Termination\<close>

definition work :: "model \<Rightarrow> nat" where
  "work m = 2 * length (instr_queue m) + length (scoreboard m)"

definition head_rest :: "model \<Rightarrow> nat" where
  "head_rest m = (case scoreboard m of [] \<Rightarrow> 0
     | en # _ \<Rightarrow> if e_done en then 0 else nat (exec_duration (e_instr en) - cycles_since_issue en))"

definition unresolved :: "int \<Rightarrow> model \<Rightarrow> nat" where
  "unresolved c m = (case last_issued m of None \<Rightarrow> 0 | Some li \<Rightarrow> nat (issue_cycle li + 6 - c))"

definition hit_logged :: "model \<Rightarrow> bool" where
  "hit_logged m \<longleftrightarrow> (case instr_queue m of [] \<Rightarrow> True
     | i # _ \<Rightarrow> EK_BHIT \<in> kind ` set (events m (iid i)))"

definition missing :: "model \<Rightarrow> nat" where
  "missing m = (case instr_queue m of [] \<Rightarrow> 0 | i # _ \<Rightarrow> fq.deficit (iqlen m) i)"

text \<open>
  The measure of the loop of \<open>run\<close>: work left, time until the oldest instruction is done, the
  write-back port taken by a multiplication, time until the last branch is resolved, the
  jump a predicted branch makes once, and the bytes missing in the queue.
\<close>

definition progress :: "((model \<times> int) \<times> (model \<times> int)) set" where
  "progress = measures
     [\<lambda>(m, c). work m, \<lambda>(m, c). head_rest m, \<lambda>(m, c). if issued_mul (fus m) then 1 else 0,
      \<lambda>(m, c). unresolved c m, \<lambda>(m, c). if hit_logged m then 0 else 1, \<lambda>(m, c). missing m]"

lemma wf_progress: "wf progress"
  by (simp add: progress_def)

definition live_inv :: "model \<Rightarrow> bool" where
  "live_inv m \<longleftrightarrow> iq_wf (iqlen m) \<and> 1 \<le> sb_len m \<and> 1 \<le> issue_width m \<and> 1 \<le> commit_width m
     \<and> (\<forall>en \<in> set (scoreboard m). e_done en \<or> cycles_since_issue en < exec_duration (e_instr en))"

lemma branch_iq_wf: "branch_iq m i c ks q \<Longrightarrow> iq_wf (iqlen m) \<Longrightarrow> iq_wf q"
  by (auto simp: branch_iq_def)

lemma issue_live:
  assumes "live_inv m" "try_issue m c = Inr m'"
  shows "live_inv m'"
  using try_issue_spec [OF assms(2)]
proof cases
  case (issued i q bs iq b r)
  then show ?thesis using assms(1) exec_duration_pos(1) [of i]
    by (auto simp: live_inv_def new_entry_def dest: branch_iq_wf)
qed (use assms(1) in \<open>auto simp: live_inv_def dest: branch_iq_wf\<close>)

lemma commit_live:
  assumes "live_inv m" "try_commit m c port = Inr m'"
  shows "live_inv m'"
  using try_commit_spec [OF assms(2)]
proof cases
  case (commit en es b)
  then show ?thesis using assms(1) by (auto simp: live_inv_def)
qed (use assms(1) in simp)

lemma execute_live:
  "live_inv m \<Longrightarrow> live_inv ((log_done c m is)\<lparr>scoreboard := map tick (scoreboard m)\<rparr>)"
  by (force simp: live_inv_def finishes_def)

interpretation issue_lively: loop_invariant live_inv "\<lambda>m (_::int). try_issue m c" for c
  by unfold_locales (rule issue_live)

interpretation commit_lively: loop_invariant live_inv "\<lambda>m. try_commit m c" for c
  by unfold_locales (rule commit_live)

text \<open>What a series of slots does when nothing is issued.\<close>

definition quiet :: "int \<Rightarrow> model \<Rightarrow> model \<Rightarrow> bool" where
  "quiet c m m' \<longleftrightarrow> instr_queue m' = instr_queue m \<and> scoreboard m' = scoreboard m \<and> fus m' = fus m
     \<and> last_issued m' = last_issued m \<and> (hit_logged m \<longrightarrow> hit_logged m')
     \<and> (unresolved c m = 0 \<longrightarrow> iqlen m' = iqlen m \<or> \<not> hit_logged m \<and> hit_logged m')"

lemma quiet_trans: "quiet c m1 m2 \<Longrightarrow> quiet c m2 m3 \<Longrightarrow> quiet c m1 m3"
  by (auto simp: quiet_def unresolved_def)

definition settles :: "int \<Rightarrow> model \<Rightarrow> model \<Rightarrow> bool" where
  "settles c m m' \<longleftrightarrow> work m' < work m \<or> quiet c m m'"

lemma quiet_work: "quiet c m m' \<Longrightarrow> work m' = work m"
  by (simp add: quiet_def work_def)

lemma settles_trans: "settles c m1 m2 \<Longrightarrow> settles c m2 m3 \<Longrightarrow> settles c m1 m3"
  unfolding settles_def using quiet_trans quiet_work by (metis order_less_trans)

lemma quiet_log:
  assumes q: "instr_queue m = i # q" and bs: "bs \<in> {[], [EK_BMISS], [EK_BHIT]}"
    "set bs \<inter> kind ` set (events m (iid i)) = {}" and iq: "branch_iq m i c bs iq"
    and m': "m' = (log_all m i (hs @ bs) c)\<lparr>iqlen := iq\<rparr>"
  shows "quiet c m m'"
proof -
  have h: "hit_logged m \<longrightarrow> hit_logged m'"
    using q by (auto simp: hit_logged_def m' log_all_events)
  have "iqlen m' = iqlen m \<or> \<not> hit_logged m \<and> hit_logged m'" if "unresolved c m = 0"
  proof -
    have "\<nexists>li. last_issued m = Some li \<and> c < issue_cycle li + 6"
      using that by (auto simp: unresolved_def)
    with iq have "iq = iqlen m \<or> bs = [EK_BHIT]" unfolding branch_iq_def by blast
    then show ?thesis
    proof
      assume "bs = [EK_BHIT]"
      with bs(2) q show ?thesis by (auto simp: hit_logged_def m' log_all_events)
    qed (simp add: m')
  qed
  with h show ?thesis by (simp add: quiet_def m')
qed

lemma issue_settles: "try_issue m c = Inr m' \<Longrightarrow> settles c m m'"
proof (drule try_issue_spec, erule issue_step.cases)
  assume "m' = m" then show ?thesis by (simp add: settles_def quiet_def)
next
  fix i q bs iq
  assume "m' = (log_all m i bs c)\<lparr>iqlen := iq\<rparr>" "instr_queue m = i # q"
    "bs \<in> {[], [EK_BMISS], [EK_BHIT]}" "set bs \<inter> kind ` set (events m (iid i)) = {}"
    "branch_iq m i c bs iq"
  then show ?thesis using quiet_log [of m i q bs c iq m' "[]"] by (simp add: settles_def)
next
  fix i q hs bs iq
  assume "m' = (log_all m i (hs @ bs) c)\<lparr>iqlen := iq\<rparr>" "instr_queue m = i # q"
    "bs \<in> {[], [EK_BMISS], [EK_BHIT]}" "set bs \<inter> kind ` set (events m (iid i)) = {}"
    "branch_iq m i c bs iq"
  then show ?thesis using quiet_log by (simp add: settles_def)
next
  fix i q bs iq b r
  assume "m' = (log_all m i (bs @ [EK_issue]) c)\<lparr>iqlen := iq_remove iq i, instr_queue := q,
      scoreboard := scoreboard m @ [new_entry i], fus := b,
      last_issued := Some \<lparr>li_instr = i, issue_cycle = c\<rparr>, m_ras := r\<rparr>" "instr_queue m = i # q"
  then show ?thesis by (simp add: settles_def work_def)
qed

interpretation issue_settling: loop_relation "settles c" "\<lambda>m (_::int). try_issue m c" for c
proof
  show "settles c m m" for m by (simp add: settles_def quiet_def)
qed (auto intro: settles_trans issue_settles)

text \<open>The commits of a cycle shrink the work unless the head of the scoreboard is not done.\<close>

definition commits_work :: "model \<Rightarrow> model \<Rightarrow> bool" where
  "commits_work m m' \<longleftrightarrow> m' = m \<or> work m' < work m"

lemma commit_works: "try_commit m c port = Inr m' \<Longrightarrow> commits_work m m'"
  by (auto simp: commits_work_def work_def dest!: try_commit_spec elim!: commit_step.cases)

interpretation commit_working: loop_relation commits_work "\<lambda>m. try_commit m c" for c
proof
  show "commits_work m m" for m by (simp add: commits_work_def)
  show "commits_work m1 m2 \<Longrightarrow> commits_work m2 m3 \<Longrightarrow> commits_work m1 m3" for m1 m2 m3
    by (auto simp: commits_work_def)
qed (rule commit_works)

lemma upto_first: "1 \<le> w \<Longrightarrow> [0..w - 1] = 0 # [1..w - (1::int)]"
  by (simp add: upto_rec1)

lemma commit_ports_progress:
  assumes "commit_ports m c = Inr m'" "1 \<le> commit_width m"
  shows "work m' < work m \<or> m' = m \<and> (scoreboard m = [] \<or> \<not> e_done (hd (scoreboard m)))"
proof -
  obtain m1 where m1: "try_commit m c 0 = Inr m1" "foldR (\<lambda>m. try_commit m c) m1 [1..commit_width m - 1] = Inr m'"
    using assms by (auto simp: commit_ports_def upto_first)
  have r: "commits_work m1 m'" using commit_working.loop_rel m1(2) .
  from try_commit_spec [OF m1(1)] show ?thesis
  proof cases
    case wait
    with r show ?thesis by (auto simp: commits_work_def)
  next
    case (commit en es b)
    then have "work m1 < work m" by (simp add: work_def)
    with r show ?thesis by (auto simp: commits_work_def)
  qed
qed

lemma ready_after_cycle:
  assumes "\<not> issued_mul b"
  shows "is_ready_for (fus_cycle b) i = Inr True"
proof -
  obtain f where "to_fu i = Inr f" using to_fu_total [of i] by blast
  with assms show ?thesis by (cases f) (simp_all add: is_ready_for_def fus_cycle_def alu2_ready_def)
qed

lemma slots_progress:
  assumes "issue_slots m c = Inr m'" "1 \<le> issue_width m" "1 \<le> sb_len m" "scoreboard m = []"
    "instr_queue m = i # q" "is_ready_for (fus m) i = Inr True" "unresolved c m = 0"
  shows "work m' < work m \<or> quiet c m m' \<and>
    (\<not> hit_logged m \<and> hit_logged m' \<or> iqlen m' = iqlen m \<and> \<not> iq_has (iqlen m) i)"
proof -
  obtain m1 where m1: "try_issue m c = Inr m1"
    "foldR (\<lambda>m _. try_issue m c) m1 [1..issue_width m - 1] = Inr m'"
    using assms(1,2) by (auto simp: issue_slots_def upto_first)
  have r: "settles c m1 m'" using issue_settling.loop_rel m1(2) .
  have s: "settles c m m1" using issue_settles m1(1) .
  from try_issue_spec [OF m1(1)] show ?thesis
  proof cases
    case idle
    with assms show ?thesis by simp
  next
    case (stall j q' bs iq)
    then have i: "j = i" using assms(5) by simp
    have "\<nexists>li. last_issued m = Some li \<and> c < issue_cycle li + 6"
      using assms(7) by (auto simp: unresolved_def)
    with stall(6) have "iq = iqlen m \<or> bs = [EK_BHIT]" unfolding branch_iq_def by blast
    then have "iqlen m1 = iqlen m \<and> \<not> iq_has (iqlen m) i \<or> \<not> hit_logged m \<and> hit_logged m1"
    proof
      assume "bs = [EK_BHIT]"
      with stall(1,2,5) show ?thesis by (auto simp: hit_logged_def log_all_events)
    qed (use stall(1,7) i in simp)
    moreover have "quiet c m m1" using s stall(1,2) by (simp add: settles_def work_def)
    moreover have "unresolved c m1 = 0" using assms(7) stall(1) by (simp add: unresolved_def)
    ultimately show ?thesis
      using r quiet_trans [of c m m1 m'] quiet_work [of c m m1]
      by (auto simp: settles_def) (auto simp: quiet_def)
  next
    case (hazard j q' hs bs iq)
    with assms show ?thesis by simp
  next
    case (issued j q' bs iq b r')
    then have "work m1 < work m" by (simp add: work_def)
    with r quiet_work show ?thesis by (auto simp: settles_def)
  qed
qed

lemma run_cycle_progress:
  assumes I: "live_inv m" and busy: "\<not> (instr_queue m = [] \<and> scoreboard m = [])"
    and r: "run_cycle m c = Inr m'"
  shows "((m', c + 1), (m, c)) \<in> progress \<and> live_inv m'"
proof -
  let ?m0 = "m\<lparr>fus := fus_cycle (fus m)\<rparr>"
  obtain m1 m2 m3 where p: "commit_ports ?m0 c = Inr m1"
    "m2 = (log_done c m1 (map e_instr (filter finishes (scoreboard m1))))
       \<lparr>scoreboard := map tick (scoreboard m1)\<rparr>"
    "issue_slots m2 c = Inr m3" "m' = m3\<lparr>iqlen := iq_fetch (iqlen m3)\<rparr>"
    using r by (rule run_cycle_phases)
  have I0: "live_inv ?m0" using I by (simp add: live_inv_def)
  have I1: "live_inv m1" using commit_lively.loop_keeps I0 p(1) unfolding commit_ports_def by blast
  have I2: "live_inv m2" using execute_live [OF I1] by (simp add: p(2))
  have I3: "live_inv m3" using issue_lively.loop_keeps I2 p(3) unfolding issue_slots_def by blast
  have I': "live_inv m'" using I3 by (simp add: p(4) live_inv_def)
  have w2: "work m2 = work m1" by (simp add: p(2) work_def)
  have w0: "work ?m0 = work m" by (simp add: work_def)
  have w': "work m' = work m3" by (simp add: p(4) work_def)
  have s3: "settles c m2 m3" using issue_settling.loop_rel p(3) unfolding issue_slots_def .
  have w3: "work m3 \<le> work m2" using s3 quiet_work by (auto simp: settles_def)
  have "commits_work ?m0 m1" using commit_working.loop_rel p(1) unfolding commit_ports_def .
  then have w1: "work m1 \<le> work ?m0" by (auto simp: commits_work_def)
  have "((m', c + 1), (m, c)) \<in> progress"
  proof (cases "work m' < work m")
    case True
    then show ?thesis by (simp add: progress_def)
  next
    case False
    with w0 w1 w2 w3 w' have eq: "work m1 = work ?m0" "work m3 = work m2" "work m' = work m" by auto
    have cp: "m1 = ?m0" "scoreboard m = [] \<or> \<not> e_done (hd (scoreboard m))"
      using commit_ports_progress [OF p(1)] I0 eq(1) by (auto simp: live_inv_def)
    have qt: "quiet c m2 m3" using s3 eq(2) by (simp add: settles_def)
    then have fr: "instr_queue m3 = instr_queue m" "scoreboard m3 = map tick (scoreboard m)"
      "fus m3 = fus_cycle (fus m)" "last_issued m3 = last_issued m"
      by (simp_all add: quiet_def p(2) cp(1))
    show ?thesis
    proof (cases "scoreboard m")
      case (Cons en es)
      with cp(2) I have "\<not> e_done en" "cycles_since_issue en < exec_duration (e_instr en)"
        by (auto simp: live_inv_def)
      then have "head_rest m' < head_rest m"
        using Cons fr(2) by (simp add: head_rest_def p(4))
      with eq(3) show ?thesis by (simp add: progress_def)
    next
      case Nil
      with busy obtain i q where q: "instr_queue m = i # q" by (cases "instr_queue m") auto
      have h: "head_rest m' = head_rest m" using Nil fr(2) by (simp add: head_rest_def p(4))
      have im: "\<not> issued_mul (fus m')" by (simp add: p(4) fr(3) fus_cycle_def)
      have ur: "unresolved (c + 1) m' = unresolved c m - 1"
        using fr(4) by (auto simp: unresolved_def p(4) split: option.split)
      show ?thesis
      proof (cases "issued_mul (fus m) \<or> unresolved c m \<noteq> 0")
        case True
        with eq(3) h im ur show ?thesis by (auto simp: progress_def)
      next
        case False
        have m2: "m2 = ?m0\<lparr>scoreboard := []\<rparr>" using Nil by (simp add: p(2) cp(1) log_done_def)
        have h2: "hit_logged m2 = hit_logged m" by (simp add: m2 hit_logged_def split: list.split)
        have u2: "unresolved c m2 = 0" using False by (simp add: m2 unresolved_def)
        have "is_ready_for (fus m2) i = Inr True" using False ready_after_cycle [of "fus m" i] by (simp add: m2)
        with slots_progress [OF p(3) _ _ _ _ this u2] I2 q eq(2)
        have "\<not> hit_logged m2 \<and> hit_logged m3 \<or> iqlen m3 = iqlen m2 \<and> \<not> iq_has (iqlen m2) i"
          by (simp add: live_inv_def m2)
        moreover have "hit_logged m' = hit_logged m3" by (simp add: p(4) hit_logged_def split: list.split)
        moreover have "hit_logged m2 \<longrightarrow> hit_logged m3" using qt by (simp add: quiet_def)
        moreover have "missing m' < missing m" if "iqlen m3 = iqlen m2" "\<not> iq_has (iqlen m2) i"
          using that fq.deficit_refill [of "iqlen m" i] I q fr(1)
          by (simp add: missing_def p(4) m2 live_inv_def)
        ultimately show ?thesis using eq(3) h im ur False h2 by (auto simp: progress_def)
      qed
    qed
  qed
  with I' show ?thesis by blast
qed

lemma run_terminates: "live_inv m \<Longrightarrow> \<exists>res. run_loop cycles c m = Some res"
proof (induction "(m, c)" arbitrary: m c rule: wf_induct_rule [OF wf_progress])
  case (1 m c)
  show ?case
  proof (cases "instr_queue m = [] \<and> scoreboard m = []")
    case True
    then show ?thesis by (simp add: run_loop.simps)
  next
    case busy: False
    show ?thesis
    proof (cases "run_cycle m c")
      case (Inl e)
      with busy show ?thesis by (simp add: run_loop.simps)
    next
      case (Inr m')
      from run_cycle_progress [OF 1(2) busy Inr] 1(1) obtain res where
        "run_loop cycles (c + 1) m' = Some res" by blast
      with busy Inr show ?thesis by (subst run_loop.simps) simp
    qed
  qed
qed

lemma live_load:
  "1 \<le> issue \<Longrightarrow> 1 \<le> cm \<Longrightarrow> 1 \<le> sb \<Longrightarrow> live_inv (load (model_init issue cm sb fs fw rn) trace)"
  by (simp add: live_inv_def load_def model_init_def iq_wf_init)

lemma known_load:
  "\<forall>i \<in> set trace. known i \<Longrightarrow> all_known (load (model_init issue cm sb fs fw rn) trace)"
  by (simp add: all_known_def load_def model_init_def bht_init_def)

lemma in_flight_load: "in_flight_known (load (model_init issue cm sb fs fw rn) trace)"
  by (simp add: in_flight_known_def load_def model_init_def)

end
