(* ===== verification/Perf_Claims.thy ===== *)
theory Perf_Claims
  imports Perf_Progress
begin

text \<open>
  What the model of \<open>perf-model/model.py\<close> guarantees, cycle by cycle and over a whole run, and
  how it predicts branches.
\<close>

section \<open>A sample instruction for the instances\<close>

definition nop :: "nat \<Rightarrow> int \<Rightarrow> instruction" where
  "nop n a = \<lparr>bin = 0x00000013, iid = n, line = '''', address = a, hex_code = ''00000013'',
     mnemo = ''nop''\<rparr>"

lemma known_nop: "known (nop n a)"
proof -
  have "fields_of (nop n a) = fields_of \<lparr>bin = 0x00000013\<rparr>"
    by (simp add: nop_def fields_of_def base_def is_compressed_def table_24_1_def type_of_base_def
        mk_Itype_def)
  moreover have "\<not> isl (fields_of \<lparr>bin = 0x00000013\<rparr>)" by code_simp
  ultimately show ?thesis by (simp add: known_def)
qed

section \<open>One cycle\<close>


lemma sample_cycle: "\<exists>m'. run_cycle (load (model_init 1 2 8 None True True) [nop 0 64]) 0 = Inr m'"
  using run_cycle_total [OF known_load [of "[nop 0 64]"]] known_nop by fastforce


lemma commit_order:
  assumes "foldR (\<lambda>m. try_commit m c) m ports = Inr m'" "\<forall>p \<in> set ports. 0 < p"
  shows "\<exists>cs. retired m' = retired m @ cs \<and> (\<forall>i \<in> set cs. \<not> is_store i)"
  using assms
proof (induction ports arbitrary: m)
  case (Cons p ports)
  then obtain m1 where m1: "try_commit m c p = Inr m1" "foldR (\<lambda>m. try_commit m c) m1 ports = Inr m'"
    by auto
  from Cons.IH [OF m1(2)] Cons.prems(2)
  obtain cs where cs: "retired m' = retired m1 @ cs" "\<forall>i \<in> set cs. \<not> is_store i" by auto
  from try_commit_spec [OF m1(1)] show ?case
  proof cases
    case wait
    with cs show ?thesis by auto
  next
    case (commit en es b)
    with cs Cons.prems(2) show ?thesis by (intro exI [of _ "e_instr en # cs"]) auto
  qed
qed simp

lemma commit_ports_stores:
  assumes "commit_ports m c = Inr m'"
  shows "\<exists>cs. retired m' = retired m @ cs \<and> (\<forall>i \<in> set (tl cs). \<not> is_store i)"
proof (cases "1 \<le> commit_width m")
  case True
  with assms obtain m1 where m1: "try_commit m c 0 = Inr m1"
    "foldR (\<lambda>m. try_commit m c) m1 [1..commit_width m - 1] = Inr m'"
    by (auto simp: commit_ports_def upto_first)
  obtain cs where cs: "retired m' = retired m1 @ cs" "\<forall>i \<in> set cs. \<not> is_store i"
    using commit_order [OF m1(2)] by auto
  from try_commit_spec [OF m1(1)] show ?thesis
  proof cases
    case wait
    with cs show ?thesis by (intro exI [of _ cs]) (cases cs; auto)
  next
    case (commit en es b)
    with cs show ?thesis by (intro exI [of _ "e_instr en # cs"]) auto
  qed
next
  case False
  with assms show ?thesis by (simp add: commit_ports_def)
qed

text \<open>
  What one cycle moves. The issued instructions are a prefix of the queue no longer than
  the issue width, the committed ones are the oldest of the scoreboard and no more than the
  commit width, only the first of them may be a store, and the scoreboard keeps the others in
  order.
\<close>

lemma cycle_effect:
  assumes "run_cycle m c = Inr m'"
  shows "\<exists>is cs. instr_queue m = is @ instr_queue m' \<and> retired m' = retired m @ cs
    \<and> map e_instr (scoreboard m) @ is = cs @ map e_instr (scoreboard m')
    \<and> length is \<le> nat (issue_width m) \<and> length cs \<le> nat (commit_width m)
    \<and> (\<forall>i \<in> set (tl cs). \<not> is_store i)"
proof -
  obtain new where new: "log m' = log m @ new" "instr_queue m = issues_of new @ instr_queue m'"
    "retired m' = retired m @ commits_of new"
    using run_cycle_advances [OF assms] unfolding advance_def by blast
  have "whole (abs_model m') = whole (abs_model m)"
    using run_cycle_advances [OF assms] pipe_whole unfolding advance_def by blast
  then have "commits_of new @ map e_instr (scoreboard m') @ instr_queue m'
      = map e_instr (scoreboard m) @ issues_of new @ instr_queue m'"
    using new(2,3) by (simp add: abs_model_def)
  then have w: "map e_instr (scoreboard m) @ issues_of new = commits_of new @ map e_instr (scoreboard m')"
    by (metis append_assoc append_same_eq)
  have l: "length (commits_of new) \<le> nat (commit_width m)" "length (issues_of new) \<le> nat (issue_width m)"
    using run_cycle_widths [OF assms] new by simp_all
  obtain m1 m2 m3 where p: "commit_ports (m\<lparr>fus := fus_cycle (fus m)\<rparr>) c = Inr m1"
    "m2 = (log_done c m1 (map e_instr (filter finishes (scoreboard m1))))
       \<lparr>scoreboard := map tick (scoreboard m1)\<rparr>"
    "issue_slots m2 c = Inr m3" "m' = m3\<lparr>iqlen := iq_fetch (iqlen m3)\<rparr>"
    using assms by (rule run_cycle_phases)
  have "retired m' = retired m1" using issue_retired [OF p(3)] by (simp add: p(2,4))
  with commit_ports_stores [OF p(1)] new(3) have "\<forall>i \<in> set (tl (commits_of new)). \<not> is_store i" by auto
  with new w l show ?thesis by blast
qed

lemma cycle_effect_witness:
  "\<exists>m' is. run_cycle (load (model_init 1 2 8 None True True) [nop 0 64]) 0 = Inr m'
    \<and> [nop 0 64] = is @ instr_queue m' \<and> length is \<le> 1"
proof -
  obtain m' where m': "run_cycle (load (model_init 1 2 8 None True True) [nop 0 64]) 0 = Inr m'"
    using sample_cycle by blast
  from cycle_effect [OF m'] m' show ?thesis by (fastforce simp: load_def model_init_def)
qed

text \<open>
  C5: no instruction is issued over a hazard. If \<open>try_issue\<close> moves the head of the queue, the
  scoreboard had room, the functional unit was free, no instruction in flight writes a register
  it reads unless its result is forwarded, and, without renaming, none writes the register it
  writes. Otherwise queue and scoreboard are untouched.
\<close>

theorem issue_guards:
  assumes "try_issue m c = Inr m'"
  shows "(instr_queue m' = instr_queue m \<and> scoreboard m' = scoreboard m) \<or>
    (\<exists>i. instr_queue m = i # instr_queue m' \<and> scoreboard m' = scoreboard m @ [new_entry i]
      \<and> int (length (scoreboard m)) < sb_len m \<and> is_ready_for (fus m) i = Inr True
      \<and> (\<forall>en \<in> set (scoreboard m). has_RAW_from i (e_instr en) = Inr True \<longrightarrow>
            has_forwarding m \<and> e_done en)
      \<and> (\<forall>en \<in> set (scoreboard m). has_WAW_from i (e_instr en) = Inr True \<longrightarrow> has_renaming m))"
  using try_issue_spec [OF assms]
proof cases
  case (issued i q bs iq b r)
  then show ?thesis by (intro disjI2 exI [of _ i]) (auto simp: raw_blocks_def waw_blocks_def)
qed auto

lemma issue_guards_witness:
  "\<exists>m'. try_issue (load (model_init 1 2 8 None True True) [nop 0 64]) 0 = Inr m'
    \<and> (\<forall>i. scoreboard m' = [new_entry i] \<longrightarrow> i = nop 0 64)"
proof -
  have "all_known (load (model_init 1 2 8 None True True) [nop 0 64])"
    using known_load [of "[nop 0 64]"] known_nop by simp
  then obtain m' where m': "try_issue (load (model_init 1 2 8 None True True) [nop 0 64]) 0 = Inr m'"
    using try_issue_total by blast
  from issue_guards [OF m'] have "\<forall>i. scoreboard m' = [new_entry i] \<longrightarrow> i = nop 0 64"
    by (auto simp: load_def model_init_def new_entry_def)
  with m' show ?thesis by blast
qed

section \<open>A whole run\<close>

text \<open>What the invariants say at the end of a completed run.\<close>

lemma completed_run:
  assumes "run None (load (model_init issue commit sblen fetch fwd ren) trace) = Some (Inr (m', n))"
  shows "log_inv trace (config (model_init issue commit sblen fetch fwd ren)) n m'"
    and "retired m' = trace" "instr_queue m' = []" "scoreboard m' = []" "projected m'"
    and "distinct (map iid trace) \<Longrightarrow> i \<in> set trace \<Longrightarrow> retired_life (n - 1) m' i"
proof -
  note r = assms [unfolded run_def]
  show l: "log_inv trace (config (model_init issue commit sblen fetch fwd ren)) n m'"
    using log_run.run_keeps [OF r log_inv_load refl] by blast
  show e: "instr_queue m' = []" "scoreboard m' = []" using run_loop_complete [OF r refl refl] by simp_all
  with l show t: "retired m' = trace" by (simp add: log_inv_def abs_model_def)
  show "projected m'" using proj_run.run_keeps [OF r projected_load refl] by blast
  show "retired_life (n - 1) m' i" if "distinct (map iid trace)" "i \<in> set trace"
    using life_run.run_keeps [OF r life_inv_load [OF that(1)] refl] that(2) t
    by (simp add: life_run_inv_def life_inv_def)
qed

text \<open>
  C1: \<open>run\<close> always ends. With at least one issue slot, one commit port and one scoreboard
  entry, a loaded model finishes on every trace, and it ends with an exception exactly when
  the trace contains an instruction whose format the decoder does not know.
\<close>

theorem run_ends:
  assumes "1 \<le> issue" "1 \<le> commit" "1 \<le> sblen"
  shows "\<exists>res. run None (load (model_init issue commit sblen fetch fwd ren) trace) = Some res
    \<and> (isl res \<longleftrightarrow> (\<exists>i \<in> set trace. isl (fields_of i)))"
proof -
  let ?m = "load (model_init issue commit sblen fetch fwd ren) trace"
  obtain res where res: "run_loop None 0 ?m = Some res"
    using run_terminates [OF live_load [OF assms]] by blast
  have "\<not> isl res" if "\<forall>i \<in> set trace. known i"
    using run_known_returns [OF res known_load [OF that]] .
  moreover have "\<forall>i \<in> set trace. known i" if "\<not> isl res"
  proof -
    obtain m' n where r: "res = Inr (m', n)" using \<open>\<not> isl res\<close> by (cases res) auto
    have "in_flight_known m'" using flight_run.run_keeps [OF res in_flight_load r] by blast
    moreover have "retired m' = trace"
      using log_run.run_keeps [OF res log_inv_load r] run_loop_complete [OF res refl r]
      by (simp add: log_inv_def abs_model_def)
    ultimately show ?thesis by (simp add: in_flight_known_def)
  qed
  ultimately show ?thesis using res by (auto simp: run_def known_def)
qed

lemma run_ends_witness:
  "\<exists>m' n. run None (load (model_init 1 1 1 None False False) [nop 0 64]) = Some (Inr (m', n))"
proof -
  obtain res where "run None (load (model_init 1 1 1 None False False) [nop 0 64]) = Some res"
    "isl res \<longleftrightarrow> (\<exists>i \<in> set [nop 0 64]. isl (fields_of i))"
    using run_ends [of 1 1 1 None False False "[nop 0 64]"] by auto
  then show ?thesis using known_nop [of 0 64] by (cases res) (auto simp: known_def)
qed

lemma sample_run:
  "\<exists>m' n. run None (load (model_init 1 2 8 None True True) [nop 0 64, nop 1 68]) = Some (Inr (m', n))"
proof -
  obtain res where res: "run_loop None 0 (load (model_init 1 2 8 None True True) [nop 0 64, nop 1 68]) = Some res"
    using run_terminates [OF live_load] by (metis order_refl one_le_numeral)
  have "\<not> isl res" using run_known_returns [OF res known_load] known_nop by simp
  with res show ?thesis by (cases res) (auto simp: run_def)
qed

text \<open>
  C2: a completed run is in order. The retired instructions are the trace; the issue events of
  the log name the trace in order, and so do its commit events; and the log is in
  chronological order, within the cycles of the run.
\<close>

theorem run_in_order:
  assumes "run None (load (model_init issue commit sblen fetch fwd ren) trace) = Some (Inr (m', n))"
  shows "retired m' = trace \<and> issues_of (log m') = trace \<and> commits_of (log m') = trace
    \<and> sorted (map (cycle \<circ> fst) (log m')) \<and> (\<forall>(e, i) \<in> set (log m'). 0 \<le> cycle e \<and> cycle e < n)"
  using completed_run(1-4) [OF assms] by (simp add: log_inv_def)

lemma run_in_order_witness:
  "\<exists>m' n. run None (load (model_init 1 2 8 None True True) [nop 0 64, nop 1 68]) = Some (Inr (m', n))
    \<and> retired m' = [nop 0 64, nop 1 68]"
  using sample_run run_in_order by blast

text \<open>
  C6: the bound on the throughput. A completed run of \<open>n\<close> cycles retires at most
  \<open>n * commit_width\<close> instructions and issues at most \<open>n * issue_width\<close>.
\<close>

theorem run_throughput:
  assumes "run None (load (model_init issue commit sblen fetch fwd ren) trace) = Some (Inr (m', n))"
  shows "int (length trace) \<le> n * max 0 commit \<and> int (length trace) \<le> n * max 0 issue"
proof -
  have "commit_width m' = commit" "issue_width m' = issue"
    using completed_run(1) [OF assms] by (simp_all add: log_inv_def config_def model_init_def)
  then show ?thesis using completed_run(1-4) [OF assms] by (auto simp: log_inv_def)
qed

lemma run_throughput_witness:
  "\<exists>m' n. run None (load (model_init 1 2 8 None True True) [nop 0 64, nop 1 68]) = Some (Inr (m', n))
    \<and> 2 \<le> n"
  using sample_run run_throughput [of 1 2 8 None True True "[nop 0 64, nop 1 68]"] by fastforce

text \<open>
  C3: the life of every instruction. In a completed run of a trace of distinct instructions,
  the progress events of each are one issue, one done exactly its execution duration later (two
  cycles for loads, stores, multiplications and divisions, one otherwise) and one commit in a
  later cycle, in that order; and the commit is the last event of the instruction.
\<close>

theorem instruction_life:
  assumes "run None (load (model_init issue commit sblen fetch fwd ren) trace) = Some (Inr (m', n))"
    and "distinct (map iid trace)" "i \<in> set trace"
  shows "\<exists>a b. 0 \<le> a \<and> a + exec_duration i < b \<and> b < n
    \<and> filter (\<lambda>e. kind e \<in> {EK_issue, EK_done, EK_commit}) (events m' (iid i)) =
        [\<lparr>kind = EK_issue, cycle = a\<rparr>, \<lparr>kind = EK_done, cycle = a + exec_duration i\<rparr>,
         \<lparr>kind = EK_commit, cycle = b\<rparr>]
    \<and> events m' (iid i) \<noteq> [] \<and> last (events m' (iid i)) = \<lparr>kind = EK_commit, cycle = b\<rparr>"
  using completed_run(6) [OF assms] unfolding retired_life_def life_def by force

lemma instruction_life_witness:
  "\<exists>m' n a b. run None (load (model_init 1 2 8 None True True) [nop 0 64, nop 1 68]) = Some (Inr (m', n))
    \<and> b < n \<and> last (events m' 0) = \<lparr>kind = EK_commit, cycle = b\<rparr>"
proof -
  obtain m' n where r: "run None (load (model_init 1 2 8 None True True) [nop 0 64, nop 1 68]) = Some (Inr (m', n))"
    using sample_run by blast
  have "distinct (map iid [nop 0 64, nop 1 68])" by (simp add: nop_def)
  from instruction_life [OF r this, of "nop 0 64"] r show ?thesis by (auto simp: nop_def)
qed

text \<open>
  C7: the events an instruction carries are exactly the entries of the log that name it, in the
  order of the log.
\<close>

theorem events_are_the_log:
  assumes "run cycles (load (model_init issue commit sblen fetch fwd ren) trace) = Some (Inr (m', n))"
  shows "events m' k = map fst (filter (\<lambda>(e, i). iid i = k) (log m'))"
  using proj_run.run_keeps [OF assms [unfolded run_def] projected_load refl]
  by (simp add: projected_def events_of_def)

lemma events_are_the_log_witness:
  "\<exists>m' n. run None (load (model_init 1 2 8 None True True) [nop 0 64, nop 1 68]) = Some (Inr (m', n))
    \<and> events m' 7 = map fst (filter (\<lambda>(e, i). iid i = 7) (log m'))"
  using sample_run events_are_the_log by blast

section \<open>Static branch prediction\<close>

lemma base_bin: "base i = base \<lparr>bin = bin i\<rparr>"
  by (simp add: base_def is_compressed_def cong: if_cong)

lemma offset_bin: "offset i = offset \<lparr>bin = bin i\<rparr>"
proof -
  note b = base_bin [of i]
  have "construct k i = construct k \<lparr>bin = bin i\<rparr>" for k
    by (cases k) (simp_all add: mk_Rtype_def mk_Itype_def mk_Stype_def mk_Btype_def mk_Utype_def
        mk_Jtype_def mk_CRtype_def mk_CItype_def mk_CSStype_def mk_CIWtype_def mk_CLtype_def
        mk_CStype_def mk_CAtype_def mk_CBtype_def mk_CJtype_def mk_MOItype_def b cong: if_cong)
  then show ?thesis by (simp add: offset_def fields_of_def b)
qed

lemma shr31: "- (2 ^ 31) \<le> off \<Longrightarrow> off < 2 ^ 31 \<Longrightarrow> shr (take_bit 32 off) 31 \<noteq> 0 \<longleftrightarrow> off < (0::int)"
proof -
  assume r: "- (2 ^ 31) \<le> off" "off < 2 ^ 31"
  have "take_bit 32 off = (if off < 0 then off + 2 ^ 32 else off)"
  proof (cases "off < 0")
    case True
    have "take_bit 32 off = take_bit 32 (off + 2 ^ 32)" by (simp add: take_bit_eq_mod)
    also have "\<dots> = off + 2 ^ 32" using True r by (intro take_bit_int_eq_self) simp_all
    finally show ?thesis using True by simp
  next
    case False
    with r show ?thesis by (simp add: take_bit_int_eq_self)
  qed
  moreover have "v div 2 ^ 31 \<noteq> 0 \<longleftrightarrow> 2 ^ 31 \<le> v" if "0 \<le> v" for v :: int
    using that pos_imp_zdiv_nonneg_iff [of "2 ^ 31" "v - 2 ^ 31"] by auto
  ultimately show ?thesis using r by (simp add: drop_bit_eq_div)
qed

lemma enc_B_offset:
  assumes "even off" "- 4096 \<le> off" "off < 4096"
    and "0 \<le> rs1" "rs1 < 32" "0 \<le> rs2" "rs2 < 32" "0 \<le> f3" "f3 < 8"
    and "bin i = enc_B off rs1 rs2 f3"
  shows "offset i = Inr (IntAttr (take_bit 32 off))" "is_branch i" "size_of i = 4"
proof -
  have imm: "btype_imm_bits (enc_B off rs1 rs2 f3) = take_bit 13 off"
    using assms by (intro enc_B_imm)
  have "sign_ext32 (take_bit 13 off) 12 = Inr (take_bit 32 (signed_take_bit 12 (take_bit 13 off)))"
    using take_bit_int_less_exp [of 13 off] by (intro sign_ext_eq) simp_all
  also have "signed_take_bit 12 (take_bit 13 off) = off"
    using assms(2,3) by (simp add: signed_take_bit_take_bit signed_take_bit_range)
  finally show "offset i = Inr (IntAttr (take_bit 32 off))"
    unfolding offset_bin [of i] assms(10)
    by (simp add: offset_def fields_of_def type_of_base_def mk_Btype_def imm)
  have b: "base i = ''BRANCH''" using base_of_enc(1) [of off rs1 rs2 f3] assms(10)
    by (metis base_bin)
  then show "is_branch i" by (simp add: is_branch_def)
  show "size_of i = 4"
    using b base_compressed [of i] by (auto simp: size_of_def table_16_4_RV32_def)
qed

text \<open>
  Static prediction. While the branch history table knows nothing of a conditional branch
  encoded as the RISC-V manual says, \<open>predict_pc\<close> predicts it taken exactly when its
  displacement is negative: the prediction is its target then, and the next address otherwise.
\<close>

lemma static_prediction:
  assumes "even off" "- 4096 \<le> off" "off < 4096"
    and "0 \<le> rs1" "rs1 < 32" "0 \<le> rs2" "rs2 < 32" "0 \<le> f3" "f3 < 8"
    and "bin i = enc_B off rs1 rs2 f3" "bht_predict (m_bht m) (address i) = Inr None"
  shows "predict_pc m i = Inr (Some (if off < 0 then address i + off else next_addr i))"
proof -
  note e = enc_B_offset [OF assms(1-10)]
  have s: "shr (take_bit 32 off) 31 \<noteq> 0 \<longleftrightarrow> off < 0" using assms(2,3) by (intro shr31) simp_all
  have "to_signed (take_bit 32 off) 32 = Inr off"
    using to_signed_eq [of 12 32 off] assms(2,3) by (simp add: signed_take_bit_range)
  with e s assms(11) show ?thesis
    by (cases "off < 0") (simp_all add: predict_pc_def predict_branch_def next_addr_def)
qed

lemma static_prediction_witness:
  "predict_pc (model_init 1 2 8 None True True) ((nop 0 64)\<lparr>bin := enc_B (- 8) 1 2 0\<rparr>) = Inr (Some 56)"
proof -
  have "bht_predict (bht_init 128) 64 = Inr None" by code_simp
  then show ?thesis
    using static_prediction [of "- 8" 1 2 0 "(nop 0 64)\<lparr>bin := enc_B (- 8) 1 2 0\<rparr>"
        "model_init 1 2 8 None True True"]
    by (simp add: nop_def model_init_def)
qed

end
