(* ===== verification/Py_Str.thy ===== *)
theory Py_Str
  imports Prelude
begin

text \<open>
  The part of Python's string library the scripts use. A \<open>str\<close> is a list of characters;
  the characters are code points below 256, which covers every log, trace and configuration
  format the scripts read. \<open>int(s, base)\<close>, \<open>hex\<close> and \<open>str\<close> of an integer are here too.
\<close>

section \<open>Character classes\<close>

abbreviation code :: "char \<Rightarrow> nat" where
  "code c \<equiv> of_char c"

definition is_space :: "char \<Rightarrow> bool" where
  "is_space c \<longleftrightarrow> code c = 32 \<or> (9 \<le> code c \<and> code c \<le> 13) \<or> (28 \<le> code c \<and> code c \<le> 31)
     \<or> code c = 133 \<or> code c = 160"

definition is_digit :: "char \<Rightarrow> bool" where
  "is_digit c \<longleftrightarrow> 48 \<le> code c \<and> code c \<le> 57"

definition is_octal :: "char \<Rightarrow> bool" where
  "is_octal c \<longleftrightarrow> 48 \<le> code c \<and> code c \<le> 55"

definition is_lower :: "char \<Rightarrow> bool" where
  "is_lower c \<longleftrightarrow> 97 \<le> code c \<and> code c \<le> 122"

definition is_upper :: "char \<Rightarrow> bool" where
  "is_upper c \<longleftrightarrow> 65 \<le> code c \<and> code c \<le> 90"

text \<open>The class \<open>\\w\<close> of regular expressions, for ASCII letters.\<close>

definition is_word_char :: "char \<Rightarrow> bool" where
  "is_word_char c \<longleftrightarrow> is_digit c \<or> is_lower c \<or> is_upper c \<or> code c = 95"

definition to_lower :: "char \<Rightarrow> char" where
  "to_lower c = (if is_upper c then char_of (code c + 32) else c)"

definition to_upper :: "char \<Rightarrow> char" where
  "to_upper c = (if is_lower c then char_of (code c - 32) else c)"

definition lower :: "string \<Rightarrow> string" where "lower s = map to_lower s"
definition upper :: "string \<Rightarrow> string" where "upper s = map to_upper s"

definition newline :: char where "newline = char_of (10::nat)"
definition tab :: char where "tab = char_of (9::nat)"

section \<open>Searching and cutting\<close>

fun starts_with :: "string \<Rightarrow> string \<Rightarrow> bool" where
  "starts_with [] s = True"
| "starts_with (p # ps) [] = False"
| "starts_with (p # ps) (c # cs) = (p = c \<and> starts_with ps cs)"

definition ends_with :: "string \<Rightarrow> string \<Rightarrow> bool" where
  "ends_with p s = starts_with (rev p) (rev s)"

lemma starts_with_iff: "starts_with p s \<longleftrightarrow> (\<exists>t. s = p @ t)"
  by (induction p s rule: starts_with.induct) auto

lemma ends_with_iff: "ends_with p s \<longleftrightarrow> (\<exists>t. s = t @ p)"
proof -
  have "(\<exists>t. rev s = rev p @ t) \<longleftrightarrow> (\<exists>t. s = t @ p)"
    by (metis rev_append rev_rev_ident)
  then show ?thesis by (simp add: ends_with_def starts_with_iff)
qed

text \<open>\<open>p in s\<close>\<close>

fun contains :: "string \<Rightarrow> string \<Rightarrow> bool" where
  "contains p [] = (p = [])"
| "contains p (c # cs) = (starts_with p (c # cs) \<or> contains p cs)"

lemma contains_iff: "contains p s \<longleftrightarrow> (\<exists>a b. s = a @ p @ b)"
proof (induction s)
  case (Cons c cs)
  note IH = Cons
  show ?case
  proof
    assume "contains p (c # cs)"
    then show "\<exists>a b. c # cs = a @ p @ b"
      using Cons by (auto simp: starts_with_iff) (metis append_Cons append_Nil)+
  next
    assume "\<exists>a b. c # cs = a @ p @ b"
    then obtain a b where eq: "c # cs = a @ p @ b" by blast
    show "contains p (c # cs)"
    proof (cases a)
      case Nil
      with eq have "starts_with p (c # cs)" by (simp add: starts_with_iff)
      then show ?thesis by simp
    next
      case (Cons x a')
      with eq have "cs = a' @ p @ b" by simp
      then have "contains p cs" using IH by blast
      then show ?thesis by simp
    qed
  qed
qed auto

text \<open>\<open>s.find(p)\<close> from an index on, \<open>-1\<close> when absent; \<open>s.rfind(c)\<close> for one character.\<close>

fun find_from :: "int \<Rightarrow> string \<Rightarrow> string \<Rightarrow> int" where
  "find_from i p [] = (if p = [] then i else -1)"
| "find_from i p (c # cs) = (if starts_with p (c # cs) then i else find_from (i + 1) p cs)"

definition find_str :: "string \<Rightarrow> string \<Rightarrow> int" where
  "find_str p s = find_from 0 p s"

fun rfind_from :: "int \<Rightarrow> char \<Rightarrow> string \<Rightarrow> int \<Rightarrow> int" where
  "rfind_from i p [] best = best"
| "rfind_from i p (c # cs) best = rfind_from (i + 1) p cs (if c = p then i else best)"

definition rfind_char :: "char \<Rightarrow> string \<Rightarrow> int" where
  "rfind_char p s = rfind_from 0 p s (-1)"

definition lstrip :: "string \<Rightarrow> string" where
  "lstrip s = dropWhile is_space s"

definition rstrip :: "string \<Rightarrow> string" where
  "rstrip s = rev (dropWhile is_space (rev s))"

definition strip :: "string \<Rightarrow> string" where
  "strip s = rstrip (lstrip s)"

text \<open>\<open>s.strip(chars)\<close> and its one-sided forms.\<close>

definition lstrip_chars :: "string \<Rightarrow> string \<Rightarrow> string" where
  "lstrip_chars cs s = dropWhile (\<lambda>c. c \<in> set cs) s"

definition rstrip_chars :: "string \<Rightarrow> string \<Rightarrow> string" where
  "rstrip_chars cs s = rev (dropWhile (\<lambda>c. c \<in> set cs) (rev s))"

definition strip_chars :: "string \<Rightarrow> string \<Rightarrow> string" where
  "strip_chars cs s = rstrip_chars cs (lstrip_chars cs s)"

text \<open>\<open>s.split(c)\<close> for one character, \<open>s.split()\<close> on runs of white space.\<close>

fun split_char :: "char \<Rightarrow> string \<Rightarrow> string list" where
  "split_char c [] = [[]]"
| "split_char c (x # xs) =
     (if x = c then [] # split_char c xs
      else case split_char c xs of [] \<Rightarrow> [[x]] | w # ws \<Rightarrow> (x # w) # ws)"

fun split_ws_acc :: "string \<Rightarrow> string \<Rightarrow> string list" where
  "split_ws_acc acc [] = (if acc = [] then [] else [rev acc])"
| "split_ws_acc acc (x # xs) =
     (if is_space x then (if acc = [] then split_ws_acc [] xs else rev acc # split_ws_acc [] xs)
      else split_ws_acc (x # acc) xs)"

definition split_ws :: "string \<Rightarrow> string list" where
  "split_ws s = split_ws_acc [] s"

fun join :: "string \<Rightarrow> string list \<Rightarrow> string" where
  "join sep [] = []"
| "join sep [x] = x"
| "join sep (x # y # ys) = x @ sep @ join sep (y # ys)"

lemma split_char_nonempty [simp]: "split_char c s \<noteq> []"
  by (induction s) (auto split: list.split)

lemma join_Cons: "ys \<noteq> [] \<Longrightarrow> join sep (x # ys) = x @ sep @ join sep ys"
  by (cases ys) auto

lemma join_split_char: "join [c] (split_char c s) = s"
proof (induction s)
  case (Cons x xs)
  obtain w ws where w: "split_char c xs = w # ws" by (cases "split_char c xs") auto
  with Cons show ?case by (cases ws) auto
qed simp

lemma split_char_free: "w \<in> set (split_char c s) \<Longrightarrow> c \<notin> set w"
proof (induction s arbitrary: w)
  case (Cons x xs)
  obtain v vs where "split_char c xs = v # vs" by (cases "split_char c xs") auto
  with Cons show ?case by (auto split: if_splits)
qed simp

lemma split_char_no: "c \<notin> set s \<Longrightarrow> split_char c s = [s]"
  by (induction s) auto

lemma split_char_append:
  "c \<notin> set w \<Longrightarrow> split_char c (w @ c # rest) = w # split_char c rest"
  by (induction w) auto

lemma split_char_join:
  "ws \<noteq> [] \<Longrightarrow> \<forall>w\<in>set ws. c \<notin> set w \<Longrightarrow> split_char c (join [c] ws) = ws"
  by (induction "[c]" ws rule: join.induct) (auto simp: split_char_no split_char_append)

text \<open>
  \<open>s.replace(p, r)\<close> for a nonempty \<open>p\<close>, scanning from the left. The counter is the rest of
  an occurrence that was replaced and still has to be skipped.
\<close>

fun replace_skip :: "nat \<Rightarrow> string \<Rightarrow> string \<Rightarrow> string \<Rightarrow> string" where
  "replace_skip k p r [] = []"
| "replace_skip (Suc k) p r (c # cs) = replace_skip k p r cs"
| "replace_skip 0 p r (c # cs) =
     (if starts_with p (c # cs) then r @ replace_skip (length p - 1) p r cs
      else c # replace_skip 0 p r cs)"

definition replace_str :: "string \<Rightarrow> string \<Rightarrow> string \<Rightarrow> string" where
  "replace_str p r s = replace_skip 0 p r s"

definition remove_char :: "char \<Rightarrow> string \<Rightarrow> string" where
  "remove_char c s = filter (\<lambda>x. x \<noteq> c) s"

lemma replace_remove_char: "replace_str [c] [] s = remove_char c s"
  unfolding replace_str_def remove_char_def by (induction s) auto

fun count_char :: "char \<Rightarrow> string \<Rightarrow> nat" where
  "count_char c [] = 0"
| "count_char c (x # xs) = (if x = c then 1 else 0) + count_char c xs"

text \<open>Lines: \<open>f.readlines()\<close> keeps the newline.\<close>

fun read_lines_acc :: "string \<Rightarrow> string \<Rightarrow> string list" where
  "read_lines_acc acc [] = (if acc = [] then [] else [rev acc])"
| "read_lines_acc acc (x # xs) =
     (if x = newline then rev (x # acc) # read_lines_acc [] xs else read_lines_acc (x # acc) xs)"

definition read_lines :: "string \<Rightarrow> string list" where
  "read_lines s = read_lines_acc [] s"

lemma concat_read_lines_acc: "concat (read_lines_acc acc s) = rev acc @ s"
  by (induction acc s rule: read_lines_acc.induct) auto

lemma concat_read_lines: "concat (read_lines s) = s"
  by (simp add: read_lines_def concat_read_lines_acc)

text \<open>\<open>s.splitlines()\<close> drops the break; a carriage return and a newline are one break.\<close>

definition line_break :: "char \<Rightarrow> bool" where
  "line_break c \<longleftrightarrow> code c \<in> {10, 11, 12, 13, 28, 29, 30, 133}"

fun splitlines_acc :: "string \<Rightarrow> string \<Rightarrow> string list" where
  "splitlines_acc acc [] = (if acc = [] then [] else [rev acc])"
| "splitlines_acc acc (c # cs) =
     (if line_break c then
        rev acc # (case cs of
            d # ds \<Rightarrow> if code c = 13 \<and> d = newline then splitlines_acc [] ds else splitlines_acc [] cs
          | [] \<Rightarrow> [])
      else splitlines_acc (c # acc) cs)"

definition splitlines :: "string \<Rightarrow> string list" where
  "splitlines s = splitlines_acc [] s"

section \<open>Padding\<close>

definition zfill :: "nat \<Rightarrow> string \<Rightarrow> string" where
  "zfill n s =
     (let pad = replicate (n - length s) (CHR ''0'')
      in if s \<noteq> [] \<and> (hd s = CHR ''+'' \<or> hd s = CHR ''-'') then hd s # pad @ tl s else pad @ s)"

definition ljust :: "nat \<Rightarrow> string \<Rightarrow> string" where
  "ljust n s = s @ replicate (n - length s) (CHR '' '')"

lemma length_zfill: "length (zfill n s) = max n (length s)"
  by (cases s) (auto simp: zfill_def Let_def)

text \<open>\<open>s > t\<close> on strings: code points from the left.\<close>

fun str_greater :: "string \<Rightarrow> string \<Rightarrow> bool" where
  "str_greater [] t = False"
| "str_greater (c # s) [] = True"
| "str_greater (c # s) (d # t) = (code c > code d \<or> c = d \<and> str_greater s t)"

section \<open>Integers and strings\<close>

definition digit_val :: "char \<Rightarrow> int option" where
  "digit_val c =
     (if is_digit c then Some (int (code c) - 48)
      else if is_lower c then Some (int (code c) - 87)
      else if is_upper c then Some (int (code c) - 55)
      else None)"

text \<open>Digits with single underscores between them; \<open>need\<close> says that a digit must follow.\<close>

fun parse_digits :: "int \<Rightarrow> int \<Rightarrow> bool \<Rightarrow> string \<Rightarrow> int option" where
  "parse_digits b acc need [] = (if need then None else Some acc)"
| "parse_digits b acc need (c # cs) =
     (if c = CHR ''_'' then (if need then None else parse_digits b acc True cs)
      else case digit_val c of
        None \<Rightarrow> None
      | Some d \<Rightarrow> if d < b then parse_digits b (acc * b + d) False cs else None)"

fun strip_prefix :: "char list \<Rightarrow> string \<Rightarrow> string option" where
  "strip_prefix ps (z # p # cs) = (if z = CHR ''0'' \<and> p \<in> set ps then Some cs else None)"
| "strip_prefix ps _ = None"

definition prefix_chars :: "int \<Rightarrow> char list" where
  "prefix_chars b = (if b = 16 then ''xX'' else if b = 8 then ''oO'' else if b = 2 then ''bB'' else [])"

definition parse_magnitude :: "int \<Rightarrow> string \<Rightarrow> int option" where
  "parse_magnitude b s =
     (case strip_prefix (prefix_chars b) s of
        Some (c # cs) \<Rightarrow> parse_digits b 0 True (if c = CHR ''_'' then cs else c # cs)
      | Some [] \<Rightarrow> None
      | None \<Rightarrow> parse_digits b 0 True s)"

definition parse_auto :: "string \<Rightarrow> int option" where
  "parse_auto s =
     (if strip_prefix ''xX'' s \<noteq> None then parse_magnitude 16 s
      else if strip_prefix ''oO'' s \<noteq> None then parse_magnitude 8 s
      else if strip_prefix ''bB'' s \<noteq> None then parse_magnitude 2 s
      else case parse_magnitude 10 s of
        None \<Rightarrow> None
      | Some v \<Rightarrow> if v \<noteq> 0 \<and> starts_with ''0'' s then None else Some v)"

text \<open>\<open>int(s, b)\<close>; base 0 reads the prefix.\<close>

definition py_int :: "int \<Rightarrow> string \<Rightarrow> int result" where
  "py_int b s =
     (let t = strip s;
          (sg, u) = (case t of
             c # cs \<Rightarrow> if c = CHR ''-'' then (-1, cs) else if c = CHR ''+'' then (1, cs) else (1, t)
           | [] \<Rightarrow> (1, t))
      in rbind (of_option ValueError (if b = 0 then parse_auto u else parse_magnitude b u))
           (\<lambda>v. ret (sg * v)))"

definition digit_char :: "nat \<Rightarrow> char" where
  "digit_char d = char_of (if d < 10 then 48 + d else 87 + d)"

fun nat_digits :: "nat \<Rightarrow> nat \<Rightarrow> string" where
  "nat_digits b n =
     (if n < b \<or> b < 2 then [digit_char n] else nat_digits b (n div b) @ [digit_char (n mod b)])"

declare nat_digits.simps [simp del]

definition signed_digits :: "nat \<Rightarrow> string \<Rightarrow> int \<Rightarrow> string" where
  "signed_digits b prefix v =
     (if v < 0 then ''-'' else []) @ prefix @ nat_digits b (nat (abs v))"

definition py_hex :: "int \<Rightarrow> string" where
  "py_hex v = signed_digits 16 ''0x'' v"

definition py_str :: "int \<Rightarrow> string" where
  "py_str v = signed_digits 10 [] v"

section \<open>Printing and reading a number\<close>

lemma code_digit_char: "d < 16 \<Longrightarrow> code (digit_char d) = (if d < 10 then 48 + d else 87 + d)"
  by (simp add: digit_char_def)

lemma digit_val_digit_char: "d < 16 \<Longrightarrow> digit_val (digit_char d) = Some (int d)"
  by (auto simp: digit_val_def is_digit_def is_lower_def code_digit_char)

lemma digit_char_plain:
  assumes "d < 16"
  shows "digit_char d \<noteq> CHR ''_''" "digit_char d \<noteq> CHR ''-''" "digit_char d \<noteq> CHR ''+''"
    "digit_char d \<noteq> CHR ''x''" "digit_char d \<noteq> CHR ''X''" "\<not> is_space (digit_char d)"
proof -
  have "code (digit_char d) \<in> {48..57} \<union> {97..102}"
    using assms by (auto simp: code_digit_char)
  moreover have "code (CHR ''_'') = (95::nat)" "code (CHR ''-'') = (45::nat)" "code (CHR ''+'') = (43::nat)"
    "code (CHR ''x'') = (120::nat)" "code (CHR ''X'') = (88::nat)" by simp_all
  ultimately show "digit_char d \<noteq> CHR ''_''" "digit_char d \<noteq> CHR ''-''" "digit_char d \<noteq> CHR ''+''"
    "digit_char d \<noteq> CHR ''x''" "digit_char d \<noteq> CHR ''X''" "\<not> is_space (digit_char d)"
    by (auto simp: is_space_def simp del: of_char_Char)
qed

lemma nat_digits_nonempty [simp]: "nat_digits b n \<noteq> []"
  by (subst nat_digits.simps) simp

lemma nat_digits_chars:
  "2 \<le> b \<Longrightarrow> b \<le> 16 \<Longrightarrow> c \<in> set (nat_digits b n) \<Longrightarrow> \<exists>d<16. c = digit_char d"
proof (induction b n rule: nat_digits.induct)
  case (1 b n)
  show ?case
  proof (cases "n < b")
    case True
    with 1 have "c = digit_char n" "n < 16" by (simp_all add: nat_digits.simps [of b n])
    then show ?thesis by blast
  next
    case False
    have "n mod b < b" using 1(2) by simp
    then have "n mod b < 16" using 1(3) by simp
    moreover from False 1(2,4) have "c \<in> set (nat_digits b (n div b)) \<or> c = digit_char (n mod b)"
      by (subst (asm) nat_digits.simps) auto
    ultimately show ?thesis using 1 False by auto
  qed
qed

lemma parse_nat_digits:
  assumes "2 \<le> b" "b \<le> 16"
  shows "parse_digits (int b) acc need (nat_digits b n @ rest)
    = parse_digits (int b) (acc * int b ^ length (nat_digits b n) + int n) False rest"
  using assms
proof (induction b n arbitrary: acc need rest rule: nat_digits.induct)
  case (1 b n)
  show ?case
  proof (cases "n < b")
    case True
    then have "n < 16" "nat_digits b n = [digit_char n]"
      using 1(3) by (simp_all add: nat_digits.simps [of b n])
    with True show ?thesis by (simp add: digit_val_digit_char digit_char_plain)
  next
    case False
    have m: "n mod b < b" using 1(2) by simp
    then have "n mod b < 16" using 1(3) by simp
    note m = m this
    have "nat_digits b n = nat_digits b (n div b) @ [digit_char (n mod b)]"
      using False 1(2) by (simp add: nat_digits.simps [of b n])
    moreover have "int n = int (n div b) * int b + int (n mod b)"
      by (metis div_mult_mod_eq of_nat_add of_nat_mult)
    ultimately show ?thesis
      using 1(1) [of acc need "digit_char (n mod b) # rest"] False 1(2,3) m
      by (simp add: digit_val_digit_char digit_char_plain algebra_simps)
  qed
qed

lemma nat_digits_ends:
  assumes "2 \<le> b" "b \<le> 16"
  shows "\<exists>d<16. hd (nat_digits b n) = digit_char d" "\<exists>d<16. last (nat_digits b n) = digit_char d"
  using nat_digits_chars [OF assms, of "hd (nat_digits b n)" n]
    nat_digits_chars [OF assms, of "last (nat_digits b n)" n] by simp_all

lemma strip_id:
  assumes "s \<noteq> []" "\<not> is_space (hd s)" "\<not> is_space (last s)"
  shows "strip s = s"
proof -
  have "lstrip s = s" using assms(1,2) by (cases s) (simp_all add: lstrip_def)
  moreover have "rstrip s = s"
    using assms(1,3) by (cases s rule: rev_cases) (simp_all add: rstrip_def)
  ultimately show ?thesis by (simp add: strip_def)
qed

lemma strip_digits:
  assumes "2 \<le> b" "b \<le> 16" "p \<noteq> [] \<Longrightarrow> \<not> is_space (hd p)"
  shows "strip (p @ nat_digits b n) = p @ nat_digits b n"
  using assms(3) nat_digits_ends [OF assms(1,2), of n]
  by (intro strip_id) (auto simp: digit_char_plain hd_append)

lemma not_space_lits [simp]: "\<not> is_space (CHR ''-'')" "\<not> is_space (CHR ''0'')"
  by (simp_all add: is_space_def)

lemma parse_hex_digits: "parse_magnitude 16 (CHR ''0'' # CHR ''x'' # nat_digits 16 n) = Some (int n)"
proof -
  obtain d ds where d: "nat_digits 16 n = d # ds" by (cases "nat_digits 16 n") auto
  then have "d \<noteq> CHR ''_''" using nat_digits_ends(1) [of 16 n] by (auto simp: digit_char_plain)
  moreover have "parse_digits 16 0 True (nat_digits 16 n) = Some (int n)"
    using parse_nat_digits [of 16 0 True n "[]"] by simp
  ultimately show ?thesis by (simp add: parse_magnitude_def prefix_chars_def d)
qed

lemma strip_prefix_Nil: "strip_prefix [] s = None"
  by (induction "[] :: char list" s rule: strip_prefix.induct) auto

lemma parse_dec_digits: "parse_magnitude 10 (nat_digits 10 n) = Some (int n)"
  using parse_nat_digits [of 10 0 True n "[]"]
  by (simp add: parse_magnitude_def prefix_chars_def strip_prefix_Nil)

lemma signed_digits_simps:
  "signed_digits b p (int n) = p @ nat_digits b n"
  "signed_digits b p (- int (Suc n)) = CHR ''-'' # p @ nat_digits b (Suc n)"
  by (simp_all add: signed_digits_def nat_add_distrib del: of_nat_Suc)

lemma py_int_py_hex: "py_int 16 (py_hex v) = Inr v"
proof (cases v rule: int_cases)
  case (nonneg n)
  have "strip (''0x'' @ nat_digits 16 n) = ''0x'' @ nat_digits 16 n" by (rule strip_digits) simp_all
  then show ?thesis
    by (simp add: nonneg py_hex_def signed_digits_simps py_int_def parse_hex_digits)
next
  case (neg n)
  have "strip (''-0x'' @ nat_digits 16 (Suc n)) = ''-0x'' @ nat_digits 16 (Suc n)"
    by (rule strip_digits) simp_all
  then show ?thesis
    by (simp add: neg py_hex_def signed_digits_simps py_int_def parse_hex_digits del: of_nat_Suc)
qed

lemma py_int_py_str: "py_int 10 (py_str v) = Inr v"
proof (cases v rule: int_cases)
  case (nonneg n)
  obtain d ds where d: "nat_digits 10 n = d # ds" by (cases "nat_digits 10 n") auto
  then have "d \<noteq> CHR ''-''" "d \<noteq> CHR ''+''"
    using nat_digits_ends(1) [of 10 n] by (auto simp: digit_char_plain)
  moreover have "strip (d # ds) = d # ds" using strip_digits [of 10 "[]" n] by (simp add: d)
  ultimately show ?thesis
    using parse_dec_digits [of n]
    by (simp add: nonneg py_str_def signed_digits_simps py_int_def d)
next
  case (neg n)
  have "strip (''-'' @ nat_digits 10 (Suc n)) = ''-'' @ nat_digits 10 (Suc n)"
    by (rule strip_digits) simp_all
  then show ?thesis
    by (simp add: neg py_str_def signed_digits_simps py_int_def parse_dec_digits del: of_nat_Suc)
qed

lemma py_str_digits: "0 \<le> c \<Longrightarrow> list_all is_digit (py_str c) \<and> py_str c \<noteq> []"
proof -
  assume "0 \<le> c"
  then have e: "py_str c = nat_digits 10 (nat c)" by (simp add: py_str_def signed_digits_def)
  have "is_digit x" if "x \<in> set (nat_digits 10 n)" for x n
    using that
  proof (induction "10::nat" n rule: nat_digits.induct)
    case (1 n)
    have d: "is_digit (digit_char d)" if "d < 10" for d :: nat
      using that code_digit_char [of d] by (simp add: is_digit_def)
    show ?case
      using 1(2) by (subst (asm) nat_digits.simps) (auto split: if_splits intro: d 1(1))
  qed
  then show ?thesis by (simp add: e list_all_iff)
qed

end
