(* ===== verification/Py_Regex.thy ===== *)
theory Py_Regex
  imports Py_Str
begin

text \<open>
  The part of Python's \<open>re\<close> the scripts use: a backtracking matcher that lists the matches of
  a pattern at a position in the order Python tries them, so that the first one is the match
  Python returns. The position is given by the character before it, for \<open>^\<close> and \<open>\b\<close>.
\<close>

datatype re =
    Empty
  | Sat "char \<Rightarrow> bool"
  | Seq re re
  | Alt re re
  | Star bool re  \<comment> \<open>True for the greedy star\<close>
  | Group nat re
  | Bol
  | Eol
  | Wordb
  | LineStart  \<comment> \<open>\<open>^\<close> and \<open>$\<close> under \<open>re.MULTILINE\<close>\<close>
  | LineEnd
  | Look re  \<comment> \<open>lookahead, for a pattern without groups\<close>

type_synonym groups = "(nat \<times> string) list"

definition before :: "char option \<Rightarrow> string \<Rightarrow> char option" where
  "before p x = (if x = [] then p else Some (last x))"

definition word_at :: "char option \<Rightarrow> bool" where
  "word_at p = (case p of None \<Rightarrow> False | Some c \<Rightarrow> is_word_char c)"

definition first_char :: "string \<Rightarrow> char option" where
  "first_char s = (case s of [] \<Rightarrow> None | c # _ \<Rightarrow> Some c)"

function (sequential) matches :: "re \<Rightarrow> char option \<Rightarrow> string \<Rightarrow> (string \<times> groups) list" where
  "matches Empty p s = [([], [])]"
| "matches (Sat f) p s = (case s of [] \<Rightarrow> [] | c # _ \<Rightarrow> if f c then [([c], [])] else [])"
| "matches (Seq a b) p s =
     concat (map (\<lambda>(x, g). map (\<lambda>(y, h). (x @ y, g @ h)) (matches b (before p x) (drop (length x) s)))
       (matches a p s))"
| "matches (Alt a b) p s = matches a p s @ matches b p s"
| "matches (Star greedy a) p s =
     (let more = concat (map (\<lambda>(x, g). if x = [] \<or> s = [] then []
          else map (\<lambda>(y, h). (x @ y, g @ h)) (matches (Star greedy a) (before p x) (drop (length x) s)))
        (matches a p s))
      in if greedy then more @ [([], [])] else ([], []) # more)"
| "matches (Group n a) p s = map (\<lambda>(x, g). (x, g @ [(n, x)])) (matches a p s)"
| "matches Bol p s = (if p = None then [([], [])] else [])"
| "matches Eol p s = (if s = [] \<or> s = [newline] then [([], [])] else [])"
| "matches Wordb p s = (if word_at p \<noteq> word_at (first_char s) then [([], [])] else [])"
| "matches LineStart p s = (if p = None \<or> p = Some newline then [([], [])] else [])"
| "matches LineEnd p s = (if s = [] \<or> hd s = newline then [([], [])] else [])"
| "matches (Look a) p s = (if matches a p s = [] then [] else [([], [])])"
  by pat_completeness auto
termination
  by (relation "measures [\<lambda>(r, p, s). size r, \<lambda>(r, p, s). length s]") auto

definition match_group :: "nat \<Rightarrow> groups \<Rightarrow> string option" where
  "match_group n g = map_of (rev g) n"

text \<open>\<open>re.match\<close> and \<open>re.search\<close>; the search returns the text before the match too.\<close>

definition re_match :: "re \<Rightarrow> string \<Rightarrow> (string \<times> groups) option" where
  "re_match r s = (case matches r None s of [] \<Rightarrow> None | m # _ \<Rightarrow> Some m)"

fun search_from :: "re \<Rightarrow> char option \<Rightarrow> string \<Rightarrow> (string \<times> string \<times> groups) option" where
  "search_from r p [] = (case matches r p [] of [] \<Rightarrow> None | (x, g) # _ \<Rightarrow> Some ([], x, g))"
| "search_from r p (c # s) =
     (case matches r p (c # s) of
        (x, g) # _ \<Rightarrow> Some ([], x, g)
      | [] \<Rightarrow> map_option (\<lambda>(pre, x, g). (c # pre, x, g)) (search_from r (Some c) s))"

definition re_search :: "re \<Rightarrow> string \<Rightarrow> (string \<times> string \<times> groups) option" where
  "re_search r s = search_from r None s"

definition found_groups :: "re \<Rightarrow> string \<Rightarrow> groups option" where
  "found_groups r s = map_option (snd \<circ> snd) (re_search r s)"

text \<open>\<open>re.sub\<close> with a replacement computed from the match.\<close>

function sub_from :: "re \<Rightarrow> (string \<Rightarrow> groups \<Rightarrow> string) \<Rightarrow> char option \<Rightarrow> string \<Rightarrow> string" where
  "sub_from r f p s =
     (case matches r p s of
        [] \<Rightarrow> (case s of [] \<Rightarrow> [] | c # cs \<Rightarrow> c # sub_from r f (Some c) cs)
      | (x, g) # _ \<Rightarrow>
          if x = [] \<or> s = [] then
            f x g @ (case s of [] \<Rightarrow> [] | c # cs \<Rightarrow> c # sub_from r f (Some c) cs)
          else f x g @ sub_from r f (Some (last x)) (drop (length x) s))"
  by pat_completeness auto
termination
  by (relation "measure (\<lambda>(r, f, p, s). length s)") (auto split: if_splits)

declare sub_from.simps [simp del]

definition re_sub :: "re \<Rightarrow> (string \<Rightarrow> groups \<Rightarrow> string) \<Rightarrow> string \<Rightarrow> string" where
  "re_sub r f s = sub_from r f None s"

fun findall_from :: "nat \<Rightarrow> re \<Rightarrow> char option \<Rightarrow> string \<Rightarrow> groups list" where
  "findall_from 0 r p s = []"
| "findall_from (Suc n) r p s =
     (case matches r p s of
        [] \<Rightarrow> (case s of [] \<Rightarrow> [] | c # cs \<Rightarrow> findall_from n r (Some c) cs)
      | (x, g) # _ \<Rightarrow> (g @ [(0, x)]) #
          (case s of [] \<Rightarrow> []
           | c # cs \<Rightarrow> if x = [] then findall_from n r (Some c) cs
                       else findall_from n r (Some (last x)) (drop (length x) s)))"

text \<open>Each round of \<open>findall\<close> consumes a character, so the length is fuel enough.\<close>

definition re_findall :: "re \<Rightarrow> string \<Rightarrow> groups list" where
  "re_findall r s = findall_from (Suc (length s)) r None s"

section \<open>Pattern constructors\<close>

fun seqs :: "re list \<Rightarrow> re" where
  "seqs [] = Empty"
| "seqs [r] = r"
| "seqs (r # rs) = Seq r (seqs rs)"

definition lit :: "string \<Rightarrow> re" where
  "lit s = seqs (map (\<lambda>c. Sat (\<lambda>d. d = c)) s)"

definition many :: "re \<Rightarrow> re" where "many r = Star True r"
definition many1 :: "re \<Rightarrow> re" where "many1 r = Seq r (Star True r)"
definition lazy :: "re \<Rightarrow> re" where "lazy r = Star False r"
definition lazy1 :: "re \<Rightarrow> re" where "lazy1 r = Seq r (Star False r)"
definition opt :: "re \<Rightarrow> re" where "opt r = Alt r Empty"

definition dot :: re where "dot = Sat (\<lambda>c. c \<noteq> newline)"
definition spaces :: re where "spaces = many (Sat is_space)"
definition spaces1 :: re where "spaces1 = many1 (Sat is_space)"
definition digits :: re where "digits = many1 (Sat is_digit)"
definition lowers :: re where "lowers = many1 (Sat is_lower)"

definition is_lhex :: "char \<Rightarrow> bool" where
  "is_lhex c \<longleftrightarrow> is_digit c \<or> c \<in> set ''abcdef''"

section \<open>Laws\<close>

declare matches.simps(5) [simp del]

lemma in_star:
  "(x, g) \<in> set (matches (Star b a) p s) \<longleftrightarrow> x = [] \<and> g = [] \<or>
    (\<exists>x1 g1 y h. (x1, g1) \<in> set (matches a p s) \<and> x1 \<noteq> [] \<and> s \<noteq> [] \<and> x = x1 @ y \<and> g = g1 @ h
      \<and> (y, h) \<in> set (matches (Star b a) (before p x1) (drop (length x1) s)))"
  (is "?l \<longleftrightarrow> ?r")
proof -
  let ?f = "\<lambda>(x1, g1). if x1 = [] \<or> s = [] then []
    else map (\<lambda>(y, h). (x1 @ y, g1 @ h)) (matches (Star b a) (before p x1) (drop (length x1) s))"
  have "set (matches (Star b a) p s) = insert ([], []) (set (concat (map ?f (matches a p s))))"
    by (subst matches.simps(5)) (simp add: Let_def)
  then have "?l \<longleftrightarrow> x = [] \<and> g = [] \<or> (\<exists>m \<in> set (matches a p s). (x, g) \<in> set (?f m))" by simp
  also have "\<dots> \<longleftrightarrow> ?r"
    by (rule arg_cong [of _ _ "\<lambda>q. _ \<or> q"]) (auto simp: Bex_def image_iff split: if_splits)
  finally show ?thesis .
qed

lemma matches_prefix: "(x, g) \<in> set (matches r p s) \<Longrightarrow> \<exists>t. s = x @ t"
proof (induction r p s arbitrary: x g rule: matches.induct)
  case (3 a b p s)
  then obtain x1 g1 y h where m: "(x1, g1) \<in> set (matches a p s)" "x = x1 @ y"
    "(y, h) \<in> set (matches b (before p x1) (drop (length x1) s))"
    by auto
  from 3(1) [OF m(1)] obtain t where t: "s = x1 @ t" by blast
  from 3(2) [OF m(1) refl m(3)] t m(2) show ?case by auto
next
  case (5 greedy a p s)
  then consider "x = []"
    | x1 g1 y h where "(x1, g1) \<in> set (matches a p s)" "x = x1 @ y" "\<not> (x1 = [] \<or> s = [])"
      "(y, h) \<in> set (matches (Star greedy a) (before p x1) (drop (length x1) s))"
    using in_star [THEN iffD1, of x g greedy a p s] by blast
  then show ?case
  proof cases
    case 1 then show ?thesis by simp
  next
    case m: (2 x1 g1 y h)
    from 5(1) [OF m(1)] obtain t where t: "s = x1 @ t" by blast
    from 5(2) [OF m(1) refl m(3,4)] t m(2) show ?thesis by auto
  qed
qed (auto split: list.splits if_splits)

lemma search_from_split:
  "search_from r p s = Some (pre, x, g) \<Longrightarrow> \<exists>post. s = pre @ x @ post"
proof (induction r p s arbitrary: pre rule: search_from.induct)
  case (1 r p)
  then have "pre = []" "(x, g) \<in> set (matches r p [])" by (auto split: list.splits)
  with matches_prefix show ?case by fastforce
next
  case (2 r p c s)
  show ?case
  proof (cases "matches r p (c # s)")
    case Nil
    with 2 show ?thesis by fastforce
  next
    case (Cons m ms)
    with 2(2) have "pre = []" "(x, g) \<in> set (matches r p (c # s))" by (auto split: prod.splits)
    with matches_prefix show ?thesis by fastforce
  qed
qed

text \<open>The search finds the leftmost position where the pattern matches.\<close>

lemma search_from_none:
  "search_from r p s = None \<longleftrightarrow>
    (\<forall>u v. s = u @ v \<longrightarrow> matches r (before p u) v = [])"
proof (induction s arbitrary: p)
  case Nil
  then show ?case by (auto simp: before_def split: list.splits)
next
  case (Cons c s)
  have "(\<forall>u v. c # s = u @ v \<longrightarrow> matches r (before p u) v = []) \<longleftrightarrow>
    matches r (before p []) (c # s) = [] \<and> (\<forall>u v. s = u @ v \<longrightarrow> matches r (before p (c # u)) v = [])"
    (is "?l \<longleftrightarrow> ?a \<and> ?b")
  proof (intro iffI conjI allI impI)
    fix u v assume l: ?l and "s = u @ v"
    then have "c # s = (c # u) @ v" by simp
    with l show "matches r (before p (c # u)) v = []" by blast
  next
    fix u v assume ab: "?a \<and> ?b" and uv: "c # s = u @ v"
    show "matches r (before p u) v = []"
    proof (cases u)
      case Nil
      with ab uv show ?thesis by simp
    next
      case (Cons d w)
      with uv have "d = c" "s = w @ v" by simp_all
      with ab Cons show ?thesis by blast
    qed
  qed (auto simp: Cons_eq_append_conv)
  moreover have "before p [] = p" by (simp add: before_def)
  moreover have "before p (c # u) = before (Some c) u" for u by (simp add: before_def)
  ultimately show ?case using Cons [of "Some c"] by (auto split: list.splits)
qed

text \<open>Substituting in a text the pattern does not occur in leaves it alone.\<close>

lemma sub_from_none: "search_from r p s = None \<Longrightarrow> sub_from r f p s = s"
proof (induction s arbitrary: p)
  case Nil
  then show ?case by (subst sub_from.simps) (auto split: list.splits)
next
  case (Cons c s)
  then have "matches r p (c # s) = []" "search_from r (Some c) s = None" by (auto split: list.splits)
  with Cons.IH show ?case by (subst sub_from.simps) simp
qed

lemma re_sub_none: "re_search r s = None \<Longrightarrow> re_sub r f s = s"
  by (simp add: re_search_def re_sub_def sub_from_none)

lemma sub_from_first:
  "search_from r p s = Some (pre, x, g) \<Longrightarrow> x \<noteq> [] \<Longrightarrow>
    sub_from r f p s = pre @ f x g @ sub_from r f (Some (last x)) (drop (length pre + length x) s)"
proof (induction s arbitrary: p pre)
  case Nil
  from search_from_split [OF Nil(1)] Nil(2) show ?case by simp
next
  case (Cons c s)
  show ?case
  proof (cases "matches r p (c # s)")
    case Nil
    with Cons.prems obtain pre' where pre: "pre = c # pre'" "search_from r (Some c) s = Some (pre', x, g)"
      by auto
    from Cons.IH [OF pre(2) Cons.prems(2)] Nil pre(1) show ?thesis by (subst sub_from.simps) simp
  next
    case (Cons m ms)
    with Cons.prems show ?thesis by (subst sub_from.simps) (auto split: prod.splits)
  qed
qed

text \<open>A character class never yields more characters than asked: what a starred class matches.\<close>

lemma matches_star_sat:
  "(x, g) \<in> set (matches (Star b (Sat f)) p s) \<Longrightarrow> g = [] \<and> list_all f x"
proof (induction "length s" arbitrary: x g p s rule: less_induct)
  case less
  from less.prems have "x = [] \<and> g = [] \<or>
    (\<exists>x1 g1 y h. (x1, g1) \<in> set (matches (Sat f) p s) \<and> x1 \<noteq> [] \<and> s \<noteq> [] \<and> x = x1 @ y \<and> g = g1 @ h
      \<and> (y, h) \<in> set (matches (Star b (Sat f)) (before p x1) (drop (length x1) s)))"
    by (rule in_star [THEN iffD1])
  then show ?case
  proof (elim disjE exE conjE)
    fix x1 g1 y h
    assume m: "(x1, g1) \<in> set (matches (Sat f) p s)" "s \<noteq> []" "x = x1 @ y" "g = g1 @ h"
      "(y, h) \<in> set (matches (Star b (Sat f)) (before p x1) (drop (length x1) s))"
    from m(1,2) obtain c cs where c: "s = c # cs" "f c" "x1 = [c]" "g1 = []"
      by (cases s) (auto split: if_splits)
    from less.hyps [OF _ m(5)] c have "h = [] \<and> list_all f y" by simp
    with m c show ?thesis by simp
  qed simp
qed

lemma many1_sat:
  "(x, g) \<in> set (matches (many1 (Sat f)) p s) \<Longrightarrow> g = [] \<and> (\<exists>c y. x = c # y \<and> f c \<and> list_all f y)"
  unfolding many1_def by (auto split: list.splits if_splits dest!: matches_star_sat)

text \<open>A pattern without groups yields none; a pattern that begins with \<open>^\<close> matches at the start only.\<close>

fun group_free :: "re \<Rightarrow> bool" where
  "group_free (Seq a b) \<longleftrightarrow> group_free a \<and> group_free b"
| "group_free (Alt a b) \<longleftrightarrow> group_free a \<and> group_free b"
| "group_free (Star _ a) \<longleftrightarrow> group_free a"
| "group_free (Group _ a) \<longleftrightarrow> False"
| "group_free _ \<longleftrightarrow> True"

lemma group_free_matches: "(x, g) \<in> set (matches r p s) \<Longrightarrow> group_free r \<Longrightarrow> g = []"
proof (induction r p s arbitrary: x g rule: matches.induct)
  case (3 a b p s)
  then obtain x1 g1 y h where m: "(x1, g1) \<in> set (matches a p s)" "g = g1 @ h"
    "(y, h) \<in> set (matches b (before p x1) (drop (length x1) s))" by auto
  from 3(1) [OF m(1)] 3(2) [OF m(1) refl m(3)] 3(4) m(2) show ?case by simp
next
  case (5 greedy a p s)
  then consider "g = []"
    | x1 g1 y h where "(x1, g1) \<in> set (matches a p s)" "g = g1 @ h" "\<not> (x1 = [] \<or> s = [])"
      "(y, h) \<in> set (matches (Star greedy a) (before p x1) (drop (length x1) s))"
    using in_star [THEN iffD1, of x g greedy a p s] by blast
  then show ?case
  proof cases
    case m: (2 x1 g1 y h)
    from 5(1) [OF m(1)] 5(2) [OF m(1) refl m(3,4)] 5(4) m(2) show ?thesis by simp
  qed
qed (auto split: list.splits if_splits)

lemma group_free_seqs: "list_all group_free rs \<Longrightarrow> group_free (seqs rs)"
  by (induction rs rule: seqs.induct) auto

lemma anchored_matches: "matches (seqs (Bol # rs)) (Some c) s = []"
  by (cases rs) simp_all

lemma re_sub_anchored:
  assumes "re_match (seqs (Bol # rs)) s = Some (x, g)" "x \<noteq> []"
  shows "re_sub (seqs (Bol # rs)) f s = f x g @ drop (length x) s"
proof -
  let ?r = "seqs (Bol # rs)"
  obtain ms where m: "matches ?r None s = (x, g) # ms"
    using assms(1) by (auto simp: re_match_def split: list.splits)
  then have "s \<noteq> []" using matches_prefix [of x g ?r None s] assms(2) by auto
  have rest: "sub_from ?r f (Some c) t = t" for c t
    by (induction t arbitrary: c) (subst sub_from.simps, simp add: anchored_matches)+
  show ?thesis
    unfolding re_sub_def by (subst sub_from.simps) (use m \<open>s \<noteq> []\<close> assms(2) in \<open>simp add: rest\<close>)
qed

section \<open>Predicting a match without running the matcher\<close>

text \<open>
  \<open>eats r s x g t\<close>: on the text \<open>s\<close> the first match of \<open>r\<close> is \<open>x\<close>, with groups \<open>g\<close>, and leaves
  \<open>t\<close>, wherever \<open>s\<close> stands.
\<close>

definition first_match :: "re \<Rightarrow> char option \<Rightarrow> string \<Rightarrow> (string \<times> groups) option" where
  "first_match r p s = (case matches r p s of [] \<Rightarrow> None | m # _ \<Rightarrow> Some m)"

definition eats :: "re \<Rightarrow> string \<Rightarrow> string \<Rightarrow> groups \<Rightarrow> string \<Rightarrow> bool" where
  "eats r s x g t \<longleftrightarrow> s = x @ t \<and> (\<forall>p. first_match r p s = Some (x, g))"

definition rejects :: "re \<Rightarrow> string \<Rightarrow> bool" where
  "rejects r s \<longleftrightarrow> (\<forall>p. matches r p s = [])"

named_theorems eating \<open>rules for the first match of a pattern\<close>

lemma eats_Empty [eating]: "eats Empty s [] [] s"
  by (simp add: eats_def first_match_def)

lemma eats_Sat [eating]: "f c \<Longrightarrow> eats (Sat f) (c # t) [c] [] t"
  by (simp add: eats_def first_match_def)

lemma eats_Group [eating]: "eats r s x g t \<Longrightarrow> eats (Group n r) s x (g @ [(n, x)]) t"
  by (auto simp: eats_def first_match_def split: list.splits)

lemma first_match_Cons: "first_match r p s = Some m \<longleftrightarrow> (\<exists>ms. matches r p s = m # ms)"
  by (auto simp: first_match_def split: list.splits)

lemma eats_Seq:
  assumes "eats a s x g t" "eats b t y h u"
  shows "eats (Seq a b) s (x @ y) (g @ h) u"
  unfolding eats_def
proof (intro conjI allI)
  show "s = (x @ y) @ u" using assms by (simp add: eats_def)
  fix p
  obtain ms where ms: "matches a p s = (x, g) # ms" using assms(1) unfolding eats_def first_match_Cons by blast
  have "drop (length x) s = t" using assms(1) by (simp add: eats_def)
  moreover obtain ns where "matches b (before p x) t = (y, h) # ns"
    using assms(2) unfolding eats_def first_match_Cons by blast
  ultimately show "first_match (Seq a b) p s = Some (x @ y, g @ h)"
    by (simp add: first_match_def ms)
qed

lemma eats_Alt1 [eating]: "eats a s x g t \<Longrightarrow> eats (Alt a b) s x g t"
  unfolding eats_def first_match_Cons by (metis append_Cons matches.simps(4))

lemma eats_Alt2:
  assumes "rejects a s" "eats b s x g t"
  shows "eats (Alt a b) s x g t"
proof -
  have "first_match (Alt a b) p s = first_match b p s" for p
    using assms(1) by (simp add: rejects_def first_match_def)
  with assms(2) show ?thesis by (metis eats_def)
qed

lemma rejects_Sat: "s = [] \<or> \<not> f (hd s) \<Longrightarrow> rejects (Sat f) s"
  by (cases s) (simp_all add: rejects_def)

lemma rejects_Seq: "rejects a s \<Longrightarrow> rejects (Seq a b) s"
  by (simp add: rejects_def)

lemma rejects_Group: "rejects a s \<Longrightarrow> rejects (Group n a) s"
  by (simp add: rejects_def)

lemma star_Sat:
  "matches (Star True (Sat f)) p s =
    (case s of [] \<Rightarrow> [([], [])]
     | c # cs \<Rightarrow> if f c then map (\<lambda>(y, h). (c # y, h)) (matches (Star True (Sat f)) (Some c) cs) @ [([], [])]
               else [([], [])])"
  by (subst matches.simps(5)) (auto simp: before_def split: list.split)

lemma star_takeWhile: "\<exists>ms. matches (Star True (Sat f)) p s = (takeWhile f s, []) # ms"
proof (induction s arbitrary: p)
  case Nil
  then show ?case by (subst star_Sat) simp
next
  case (Cons c s)
  from Cons.IH [of "Some c"] obtain ms where
    "matches (Star True (Sat f)) (Some c) s = (takeWhile f s, []) # ms" by blast
  then show ?case by (subst star_Sat) simp
qed

lemma eats_many: "eats (many (Sat f)) s (takeWhile f s) [] (dropWhile f s)"
  using star_takeWhile [of f _ s] by (simp add: eats_def many_def first_match_Cons)

lemma takeWhile_run:
  assumes "\<forall>c \<in> set xs. f c" "t = [] \<or> \<not> f (hd t)"
  shows "takeWhile f (xs @ t) = xs" "dropWhile f (xs @ t) = t"
proof -
  have "takeWhile f t = []" "dropWhile f t = t" using assms(2) by (cases t; simp)+
  with assms(1) show "takeWhile f (xs @ t) = xs" "dropWhile f (xs @ t) = t" by simp_all
qed

lemma eats_many_run [eating]:
  "\<forall>c \<in> set xs. f c \<Longrightarrow> t = [] \<or> \<not> f (hd t) \<Longrightarrow> eats (many (Sat f)) (xs @ t) xs [] t"
  using eats_many [of f "xs @ t"] takeWhile_run [of xs f t] by simp

lemma eats_many1_run [eating]:
  assumes "xs \<noteq> []" "\<forall>c \<in> set xs. f c" "t = [] \<or> \<not> f (hd t)"
  shows "eats (many1 (Sat f)) (xs @ t) xs [] t"
proof -
  obtain y ys where xs: "xs = y # ys" using assms(1) by (cases xs) auto
  have "eats (Sat f) (xs @ t) [y] [] (ys @ t)" using assms(2) xs by (simp add: eats_Sat)
  moreover have "eats (Star True (Sat f)) (ys @ t) ys [] t"
    using eats_many_run [of ys f t] assms(2,3) xs by (simp add: many_def)
  ultimately have "eats (Seq (Sat f) (Star True (Sat f))) (xs @ t) ([y] @ ys) ([] @ []) t" by (rule eats_Seq)
  then show ?thesis by (simp add: many1_def xs)
qed

lemma eats_seqs_Cons:
  "eats a s x g t \<Longrightarrow> eats (seqs rs) t y h u \<Longrightarrow> eats (seqs (a # rs)) s (x @ y) (g @ h) u"
proof (cases rs)
  case Nil
  assume "eats a s x g t" "eats (seqs rs) t y h u"
  moreover from this Nil have "y = [] \<and> h = [] \<and> u = t" by (auto simp: eats_def first_match_def)
  ultimately show ?thesis using Nil by simp
qed (simp add: eats_Seq)

lemma eats_lit [eating]: "eats (lit w) (w @ t) w [] t"
proof (induction w)
  case Nil
  then show ?case by (simp add: lit_def eats_Empty)
next
  case (Cons c w)
  have "eats (Sat (\<lambda>d. d = c)) (c # w @ t) [c] [] (w @ t)" by (rule eats_Sat) simp
  from eats_seqs_Cons [OF this Cons [unfolded lit_def]] show ?case by (simp add: lit_def)
qed

lemma rejects_lit: "s = [] \<or> hd s \<noteq> c \<Longrightarrow> rejects (lit (c # w)) s"
  by (cases w) (auto simp: lit_def intro: rejects_Seq rejects_Sat)

lemma rejects_seqs: "rejects a s \<Longrightarrow> rejects (seqs (a # rs)) s"
  by (cases rs) (auto intro: rejects_Seq)

text \<open>A starred class that may match one character or none, when the rest refuses the first.\<close>

lemma eats_back_off:
  assumes "f c" "t = [] \<or> \<not> f (hd t)" "rejects b t" "eats b (c # t) x g u"
  shows "eats (Seq (many (Sat f)) b) (c # t) x g u"
  unfolding eats_def
proof (intro conjI allI)
  show "c # t = x @ u" using assms(4) by (simp add: eats_def)
  fix p
  have "matches (Star True (Sat f)) q t = [([], [])]" for q
    by (subst star_Sat) (use assms(2) in \<open>auto split: list.split\<close>)
  then have m: "matches (many (Sat f)) p (c # t) = [([c], []), ([], [])]"
    unfolding many_def by (subst star_Sat) (simp add: assms(1))
  obtain ms where "matches b p (c # t) = (x, g) # ms"
    using assms(4) unfolding eats_def first_match_Cons by blast
  moreover have "matches b (before p [c]) t = []" using assms(3) by (simp add: rejects_def)
  ultimately show "first_match (Seq (many (Sat f)) b) p (c # t) = Some (x, g)"
    by (simp add: first_match_def m before_def)
qed

lemma eats_back_off_group:
  assumes "f c" "t = [] \<or> \<not> f (hd t)" "rejects b t" "eats b (c # t) x g u"
  shows "eats (Seq (Group n (many (Sat f))) b) (c # t) x ((n, []) # g) u"
  unfolding eats_def
proof (intro conjI allI)
  show "c # t = x @ u" using assms(4) by (simp add: eats_def)
  fix p
  have "matches (Star True (Sat f)) q t = [([], [])]" for q
    by (subst star_Sat) (use assms(2) in \<open>auto split: list.split\<close>)
  then have m: "matches (many (Sat f)) p (c # t) = [([c], []), ([], [])]"
    unfolding many_def by (subst star_Sat) (simp add: assms(1))
  obtain ms where "matches b p (c # t) = (x, g) # ms"
    using assms(4) unfolding eats_def first_match_Cons by blast
  moreover have "matches b (before p [c]) t = []" using assms(3) by (simp add: rejects_def)
  ultimately show "first_match (Seq (Group n (many (Sat f))) b) p (c # t) = Some (x, (n, []) # g)"
    by (simp add: first_match_def m before_def)
qed

lemma eats_search:
  assumes "eats r s x g t"
  shows "re_search r s = Some ([], x, g)"
proof -
  obtain ms where "matches r None s = (x, g) # ms" using assms unfolding eats_def first_match_Cons by blast
  then show ?thesis by (cases s) (simp_all add: re_search_def)
qed

lemma eats_search_from:
  "eats r s x g t \<Longrightarrow> search_from r p s = Some ([], x, g)"
proof -
  assume "eats r s x g t"
  then obtain ms where "matches r p s = (x, g) # ms" unfolding eats_def first_match_Cons by blast
  then show ?thesis by (cases s) simp_all
qed

lemma search_skip:
  "rejects r (c # s) \<Longrightarrow> search_from r p (c # s) = map_option (\<lambda>(pre, x, g). (c # pre, x, g)) (search_from r (Some c) s)"
  by (simp add: rejects_def)

lemma sub_from_eats:
  "eats r s x g t \<Longrightarrow> x \<noteq> [] \<Longrightarrow> sub_from r f p s = f x g @ sub_from r f (Some (last x)) t"
  by (subst sub_from.simps) (auto simp: eats_def first_match_Cons dest!: spec [of _ p])

lemma sub_from_skip: "rejects r (c # s) \<Longrightarrow> sub_from r f p (c # s) = c # sub_from r f (Some c) s"
  by (subst sub_from.simps) (simp add: rejects_def)

lemma sub_from_skips:
  "\<forall>c \<in> set w. \<forall>s. rejects r (c # s) \<Longrightarrow> sub_from r f p (w @ s) = w @ sub_from r f (before p w) s"
  by (induction w arbitrary: p) (simp_all add: sub_from_skip before_def)

lemma re_sub_skips_none:
  "\<forall>c \<in> set w. \<forall>s. rejects r (c # s) \<Longrightarrow> rejects r [] \<Longrightarrow> sub_from r f p w = w"
  by (induction w arbitrary: p) (subst sub_from.simps, simp add: rejects_def)+


lemma rejects_opt_Seq: "rejects a s \<Longrightarrow> rejects b s \<Longrightarrow> rejects (Seq (opt a) b) s"
  by (simp add: rejects_def opt_def before_def)

text \<open>Patterns without \<open>^\<close> and \<open>\b\<close> do not look at the character before.\<close>

fun position_free :: "re \<Rightarrow> bool" where
  "position_free (Seq a b) \<longleftrightarrow> position_free a \<and> position_free b"
| "position_free (Alt a b) \<longleftrightarrow> position_free a \<and> position_free b"
| "position_free (Star _ a) \<longleftrightarrow> position_free a"
| "position_free (Group _ a) \<longleftrightarrow> position_free a"
| "position_free Bol \<longleftrightarrow> False"
| "position_free Wordb \<longleftrightarrow> False"
| "position_free LineStart \<longleftrightarrow> False"
| "position_free (Look a) \<longleftrightarrow> position_free a"
| "position_free _ \<longleftrightarrow> True"

lemma matches_position_free: "position_free r \<Longrightarrow> matches r p s = matches r q s"
proof (induction r p s arbitrary: q rule: matches.induct)
  case (3 a b p s)
  have pf: "position_free a" "position_free b" using 3(3) by simp_all
  have a: "matches a p s = matches a q s" by (rule 3(1) [OF pf(1)])
  let ?f = "\<lambda>p m. case m of (x, g) \<Rightarrow>
    map (\<lambda>(y, h). (x @ y, g @ h)) (matches b (before p x) (drop (length x) s))"
  have b: "?f p m = ?f q m" if "m \<in> set (matches a q s)" for m
  proof (cases m)
    case (Pair x g)
    with that a have "(x, g) \<in> set (matches a p s)" by simp
    from 3(2) [OF this refl pf(2), of "before q x"] show ?thesis by (simp add: Pair)
  qed
  have "map (?f p) (matches a q s) = map (?f q) (matches a q s)" by (rule map_cong [OF refl b])
  then show ?case by (simp only: matches.simps(3) a)
next
  case (5 greedy a p s)
  have pf: "position_free a" "position_free (Star greedy a)" using 5(3) by simp_all
  have a: "matches a p s = matches a q s" by (rule 5(1) [OF pf(1)])
  let ?f = "\<lambda>p m. case m of (x, g) \<Rightarrow> if x = [] \<or> s = [] then []
    else map (\<lambda>(y, h). (x @ y, g @ h)) (matches (Star greedy a) (before p x) (drop (length x) s))"
  have b: "?f p m = ?f q m" if "m \<in> set (matches a q s)" for m
  proof (cases m)
    case (Pair x g)
    with that a have m: "(x, g) \<in> set (matches a p s)" by simp
    show ?thesis
    proof (cases "x = [] \<or> s = []")
      case False
      from 5(2) [OF m refl False pf(2), of "before q x"] False show ?thesis by (simp add: Pair)
    qed (simp add: Pair)
  qed
  have "map (?f p) (matches a q s) = map (?f q) (matches a q s)" by (rule map_cong [OF refl b])
  then show ?case by (subst (1 2) matches.simps(5)) (simp only: a)
next
  case (4 a b p s)
  have "position_free a" "position_free b" using 4(3) by simp_all
  from 4(1) [OF this(1), of q] 4(2) [OF this(2), of q] show ?case by (simp only: matches.simps(4))
next
  case (6 n a p s)
  have "position_free a" using 6(2) by simp
  from 6(1) [OF this, of q] show ?case by (simp only: matches.simps(6))
next
  case (12 a p s)
  have "position_free a" using 12(2) by simp
  from 12(1) [OF this, of q] show ?case by (simp only: matches.simps(12))
qed simp_all

lemma search_position_free: "position_free r \<Longrightarrow> search_from r p s = search_from r q s"
proof (induction s arbitrary: p q)
  case Nil
  then show ?case using matches_position_free [OF Nil, of p "[]" q] by simp
next
  case (Cons c s)
  then show ?case using matches_position_free [OF Cons.prems, of p "c # s" q] by simp
qed

lemma position_free_seqs: "list_all position_free rs \<Longrightarrow> position_free (seqs rs)"
  by (induction rs rule: seqs.induct) auto

lemma position_free_simps [simp]:
  "position_free (lit w)" "position_free spaces" "position_free digits" "position_free (opt a) = position_free a"
  by (auto simp: lit_def spaces_def many_def digits_def many1_def opt_def list_all_iff
      intro!: position_free_seqs)

end
