(* ===== verification/Py_Float.thy ===== *)
theory Py_Float
  imports Py_Str
begin

text \<open>
  The floating point numbers of Python, IEEE doubles. A finite number is a sign, a mantissa and an
  exponent of two, in the one form a double has: 53 bits unless the exponent is the least one. Every operation rounds its
  exact result once, to the nearest double and halves to the even mantissa. First the operations the scripts use, then what
  rounding does to a value, and which quotients of integers it leaves alone.
\<close>

datatype pyfloat =
    Fin bool int int  \<comment> \<open>whether negative, mantissa, exponent\<close>
  | Infinite bool
  | NotANumber

section \<open>Rounding\<close>

definition two_to :: "int \<Rightarrow> int" where
  "two_to e = 2 ^ nat e"

text \<open>The quotient of a nonnegative integer rounded to the nearest integer, halves to even.\<close>

definition half_even :: "int \<Rightarrow> int \<Rightarrow> int" where
  "half_even n d =
     (let q = n div d; r = 2 * (n mod d) in if r < d \<or> (r = d \<and> even q) then q else q + 1)"

fun bit_length :: "int \<Rightarrow> int" where
  "bit_length n = (if n \<le> 0 then 0 else bit_length (n div 2) + 1)"

declare bit_length.simps [simp del]

text \<open>The power of two at or below a positive quotient, and the exponent of its double.\<close>

definition binade :: "int \<Rightarrow> int \<Rightarrow> int" where
  "binade n d =
     (let k = bit_length n - bit_length d in if d * two_to k \<le> n * two_to (- k) then k else k - 1)"

definition least_exponent :: int where "least_exponent = -1074"
definition greatest_exponent :: int where "greatest_exponent = 971"

definition exponent_of :: "int \<Rightarrow> int \<Rightarrow> int" where
  "exponent_of n d = max (binade n d - 52) least_exponent"

definition mantissa_of :: "int \<Rightarrow> int \<Rightarrow> int" where
  "mantissa_of n d = half_even (n * two_to (- exponent_of n d)) (d * two_to (exponent_of n d))"

definition nearest :: "bool \<Rightarrow> int \<Rightarrow> int \<Rightarrow> pyfloat" where
  "nearest s n d =
     (let e = exponent_of n d; m = mantissa_of n d in
      if m = 0 then Fin s 0 least_exponent
      else if e + (if m = 2 ^ 53 then 1 else 0) > greatest_exponent then Infinite s
      else if m = 2 ^ 53 then Fin s (2 ^ 52) (e + 1)
      else Fin s m e)"

section \<open>Conversions and arithmetic\<close>

text \<open>The operands of an operation, as a fraction of integers whose denominator is positive.\<close>

definition numer :: "int \<Rightarrow> int \<Rightarrow> int" where "numer m e = m * two_to e"
definition denom :: "int \<Rightarrow> int" where "denom e = two_to (- e)"

definition finite_or_overflow :: "pyfloat \<Rightarrow> pyfloat result" where
  "finite_or_overflow f = (case f of Infinite s \<Rightarrow> raise OverflowError | _ \<Rightarrow> ret f)"

definition float_of_int :: "int \<Rightarrow> pyfloat result" where
  "float_of_int i = finite_or_overflow (nearest (i < 0) \<bar>i\<bar> 1)"

text \<open>\<open>a / b\<close> on integers rounds the exact quotient; on floats a zero divisor is an error.\<close>

definition int_div :: "int \<Rightarrow> int \<Rightarrow> pyfloat result" where
  "int_div a b =
     (if b = 0 then raise ZeroDivisionError
      else finite_or_overflow (nearest ((a < 0) \<noteq> (b < 0)) \<bar>a\<bar> \<bar>b\<bar>))"

fun float_mul :: "pyfloat \<Rightarrow> pyfloat \<Rightarrow> pyfloat" where
  "float_mul (Fin s m e) (Fin s' m' e') = nearest (s \<noteq> s') (numer m e * numer m' e') (denom e * denom e')"
| "float_mul (Fin s m e) (Infinite s') = (if m = 0 then NotANumber else Infinite (s \<noteq> s'))"
| "float_mul (Infinite s) (Fin s' m e) = (if m = 0 then NotANumber else Infinite (s \<noteq> s'))"
| "float_mul (Infinite s) (Infinite s') = Infinite (s \<noteq> s')"
| "float_mul _ _ = NotANumber"

definition is_zero :: "pyfloat \<Rightarrow> bool" where
  "is_zero f = (case f of Fin s m e \<Rightarrow> m = 0 | _ \<Rightarrow> False)"

fun float_quot :: "pyfloat \<Rightarrow> pyfloat \<Rightarrow> pyfloat" where
  "float_quot (Fin s m e) (Fin s' m' e') = nearest (s \<noteq> s') (numer m e * denom e') (denom e * numer m' e')"
| "float_quot (Fin s m e) (Infinite s') = Fin (s \<noteq> s') 0 least_exponent"
| "float_quot (Infinite s) (Fin s' m e) = Infinite (s \<noteq> s')"
| "float_quot _ _ = NotANumber"

definition float_div :: "pyfloat \<Rightarrow> pyfloat \<Rightarrow> pyfloat result" where
  "float_div f g = (if is_zero g then raise ZeroDivisionError else ret (float_quot f g))"

text \<open>An integer operand is converted first.\<close>

definition float_div_int :: "pyfloat \<Rightarrow> int \<Rightarrow> pyfloat result" where
  "float_div_int f i = rbind (float_of_int i) (\<lambda>g. float_div f g)"

definition float_mul_int :: "pyfloat \<Rightarrow> int \<Rightarrow> pyfloat result" where
  "float_mul_int f i = rbind (float_of_int i) (\<lambda>g. ret (float_mul f g))"

text \<open>\<open>int(f)\<close> cuts off the fraction.\<close>

fun int_of_float :: "pyfloat \<Rightarrow> int result" where
  "int_of_float (Fin s m e) = ret ((if s then - 1 else 1) * (numer m e div denom e))"
| "int_of_float (Infinite s) = raise OverflowError"
| "int_of_float NotANumber = raise ValueError"

text \<open>The order of finite floats and infinities.\<close>

definition signed_numer :: "bool \<Rightarrow> int \<Rightarrow> int \<Rightarrow> int" where
  "signed_numer s m e = (if s then - 1 else 1) * numer m e"

fun float_less :: "pyfloat \<Rightarrow> pyfloat \<Rightarrow> bool" where
  "float_less (Fin s m e) (Fin s' m' e') \<longleftrightarrow> signed_numer s m e * denom e' < signed_numer s' m' e' * denom e"
| "float_less (Fin s m e) (Infinite s') \<longleftrightarrow> \<not> s'"
| "float_less (Infinite s) (Fin s' m' e') \<longleftrightarrow> s"
| "float_less (Infinite s) (Infinite s') \<longleftrightarrow> s \<and> \<not> s'"
| "float_less _ _ \<longleftrightarrow> False"

section \<open>Printing\<close>

fun decimal_digits :: "int \<Rightarrow> string" where
  "decimal_digits n = (if n < 10 then [digit_char (nat n)] else decimal_digits (n div 10) @ [digit_char (nat (n mod 10))])"

declare decimal_digits.simps [simp del]

text \<open>\<open>'{:.kf}'.format(f)\<close>.\<close>

fun format_fixed :: "nat \<Rightarrow> pyfloat \<Rightarrow> string" where
  "format_fixed k (Fin s m e) =
     (let ds = zfill (Suc k) (decimal_digits (half_even (numer m e * 10 ^ k) (denom e))); n = length ds - k in
      (if s then ''-'' else []) @ take n ds @ (if k = 0 then [] else ''.'' @ drop n ds))"
| "format_fixed k (Infinite s) = (if s then ''-inf'' else ''inf'')"
| "format_fixed k NotANumber = ''nan''"

text \<open>
  \<open>repr(f)\<close>: the shortest decimal that reads back as the number, and the closest of those. With \<open>k\<close> digits these are
  the two integers around the scaled number, nearest first; 17 digits are always enough.
\<close>

definition ten_to :: "int \<Rightarrow> int" where "ten_to e = 10 ^ nat e"

function zeros_after_point :: "int \<Rightarrow> int \<Rightarrow> int" where
  "zeros_after_point n d = (if n \<le> 0 \<or> d \<le> 10 * n then 0 else zeros_after_point (10 * n) d + 1)"
  by pat_completeness auto
termination by (relation "measure (\<lambda>(n, d). nat (d - n))") auto

declare zeros_after_point.simps [simp del]

text \<open>The number of digits before the point, negative for zeros after it.\<close>

definition decimal_point :: "int \<Rightarrow> int \<Rightarrow> int" where
  "decimal_point n d = (if d \<le> n then int (length (decimal_digits (n div d))) else - zeros_after_point n d)"

definition candidates :: "int \<Rightarrow> int \<Rightarrow> int \<Rightarrow> (int \<times> int) list" where
  "candidates n d k =
     (let p = decimal_point n d - k; a = n * ten_to (- p); b = d * ten_to p; r = half_even a b in
      [(r, p), (if r = a div b then r + 1 else r - 1, p)])"

definition shortest :: "int \<Rightarrow> int \<Rightarrow> int \<times> int" where
  "shortest m e =
     (case find (\<lambda>(r, p). nearest False (r * ten_to p) (ten_to (- p)) = Fin False m e)
        (concat (map (candidates (numer m e) (denom e)) [1..17])) of
        Some c \<Rightarrow> c
      | None \<Rightarrow> hd (candidates (numer m e) (denom e) 17))"

definition layout :: "string \<Rightarrow> int \<Rightarrow> string" where
  "layout ds point =
     (let n = int (length ds) in
      if point \<le> - 4 \<or> 16 < point then
        (let x = point - 1; xs = decimal_digits \<bar>x\<bar> in
         take 1 ds @ (if n = 1 then [] else ''.'' @ drop 1 ds) @ ''e'' @ (if x < 0 then ''-'' else ''+'') @ zfill 2 xs)
      else if point \<le> 0 then ''0.'' @ replicate (nat (- point)) (CHR ''0'') @ ds
      else if n \<le> point then ds @ replicate (nat (point - n)) (CHR ''0'') @ ''.0''
      else take (nat point) ds @ ''.'' @ drop (nat point) ds)"

fun py_repr :: "pyfloat \<Rightarrow> string" where
  "py_repr (Fin s m e) =
     (if s then ''-'' else [])
     @ (if m = 0 then ''0.0''
        else let (r, p) = shortest m e; ds = decimal_digits r in
          layout (rstrip_chars ''0'' ds) (int (length ds) + p))"
| "py_repr (Infinite s) = (if s then ''-inf'' else ''inf'')"
| "py_repr NotANumber = ''nan''"

section \<open>Reading\<close>

text \<open>Digits up to the first other character, where the text need not have any.\<close>

definition span_digits :: "string \<Rightarrow> string \<times> string" where
  "span_digits s = (let p = (\<lambda>c. is_digit c \<or> c = CHR ''_'') in (takeWhile p s, dropWhile p s))"

definition opt_digits :: "string \<Rightarrow> int option" where
  "opt_digits s = (if s = [] then Some 0 else parse_digits 10 0 True s)"

definition digit_count :: "string \<Rightarrow> int" where
  "digit_count s = int (length (filter is_digit s))"

definition read_sign :: "string \<Rightarrow> bool \<times> string" where
  "read_sign s = (case s of
     c # cs \<Rightarrow> if c = CHR ''-'' then (True, cs) else if c = CHR ''+'' then (False, cs) else (False, s)
   | [] \<Rightarrow> (False, s))"

definition read_exponent :: "string \<Rightarrow> int option" where
  "read_exponent s = (case s of
     [] \<Rightarrow> Some 0
   | c # cs \<Rightarrow>
       if c = CHR ''e'' \<or> c = CHR ''E'' then
         (let (neg, ds) = read_sign cs in
          map_option (\<lambda>v. if neg then - v else v) (parse_digits 10 0 True ds))
       else None)"

text \<open>The exact value of a decimal number, as a fraction.\<close>

definition read_fraction :: "string \<Rightarrow> (int \<times> int) option" where
  "read_fraction u =
     (let (whole, rest) = span_digits u;
          (frac, rest) = (case rest of c # cs \<Rightarrow> if c = CHR ''.'' then span_digits cs else ([], rest) | [] \<Rightarrow> ([], rest))
      in if whole = [] \<and> frac = [] then None
         else case (opt_digits whole, opt_digits frac, read_exponent rest) of
           (Some a, Some b, Some x) \<Rightarrow>
             let k = digit_count frac; p = x - k in
             Some ((a * 10 ^ nat k + b) * 10 ^ nat p, 10 ^ nat (- p))
         | _ \<Rightarrow> None)"

text \<open>\<open>float(s)\<close> of a text.\<close>

definition py_float :: "string \<Rightarrow> pyfloat result" where
  "py_float t =
     (let (s, u) = read_sign (strip t); w = lower u in
      if w = ''inf'' \<or> w = ''infinity'' then ret (Infinite s)
      else if w = ''nan'' then ret NotANumber
      else rbind (of_option ValueError (read_fraction u)) (\<lambda>(n, d). ret (nearest s n d)))"

end
