(* ===== verification/Perf_Trace.thy ===== *)
theory Perf_Trace
  imports Perf_Claims Py_Regex Py_Float
begin

text \<open>
  The text side of \<open>perf-model/model.py\<close> and \<open>perf-model/cycle_diff.py\<close>: reading RVFI traces
  with regular expressions, writing the annotated trace, cutting out the timed part, counting
  cycles and events, and the difference of the cycles of successive instructions. Files are
  strings; the lines printed are computed apart from the values they show.
\<close>

section \<open>Reading a trace\<close>

definition re_instr :: re where
  "re_instr = seqs [Group 1 lowers, spaces1, lit ''0:'', spaces, lit ''0x'', many (Sat (\<lambda>c. c = CHR ''0'')),
     Group 2 (many1 (Sat is_lhex)), spaces, lit ''('', Group 3 (many1 (Sat (\<lambda>c. is_lhex c \<or> c = CHR ''x''))),
     lit '')'', spaces, opt (Group 4 (seqs [lit ''@'', spaces, digits])), spaces, Group 5 (many dot)]"

text \<open>\<open>Instruction(line, address, hex_code, mnemo)\<close>; the identity is the number of the line.\<close>

definition mk_instruction ::
  "nat \<Rightarrow> string \<Rightarrow> string \<Rightarrow> string \<Rightarrow> string \<Rightarrow> instruction result" where
  "mk_instruction n ln addr hex mn =
     rbind (py_int 16 hex) (\<lambda>b. rbind (py_int 16 addr) (\<lambda>a.
     ret \<lparr>bin = b, iid = n, line = ln, address = a, hex_code = hex, mnemo = mn\<rparr>))"

definition parse_line :: "nat \<Rightarrow> string \<Rightarrow> instruction option result" where
  "parse_line n raw =
     (let ln = strip raw in
      case found_groups re_instr ln of
        None \<Rightarrow> ret None
      | Some g \<Rightarrow>
          (case (match_group 2 g, match_group 3 g, match_group 5 g) of
             (Some addr, Some hex, Some mn) \<Rightarrow> rbind (mk_instruction n ln addr hex mn) (\<lambda>i. ret (Some i))
           | _ \<Rightarrow> raise TypeError))"

fun parse_lines :: "nat \<Rightarrow> string list \<Rightarrow> instruction list result" where
  "parse_lines n [] = ret []"
| "parse_lines n (l # ls) = rbind (parse_line n l) (\<lambda>i. rbind (parse_lines (Suc n) ls) (\<lambda>is.
     ret (case i of None \<Rightarrow> is | Some j \<Rightarrow> j # is)))"

definition load_file :: "model \<Rightarrow> string \<Rightarrow> model result" where
  "load_file m text = rbind (parse_lines 0 (read_lines text)) (\<lambda>is. ret (load m is))"

text \<open>The identities of one file are distinct, as the objects of the code are.\<close>

lemma parse_line_iid: "parse_line n l = Inr (Some i) \<Longrightarrow> iid i = n"
  by (auto simp: parse_line_def mk_instruction_def Let_def split: option.splits)

lemma parse_lines_iids:
  "parse_lines n ls = Inr is \<Longrightarrow> (\<forall>i \<in> set is. n \<le> iid i) \<and> distinct (map iid is)"
proof (induction ls arbitrary: n "is")
  case (Cons l ls)
  then obtain i js where p: "parse_line n l = Inr i" "parse_lines (Suc n) ls = Inr js"
    "is = (case i of None \<Rightarrow> js | Some j \<Rightarrow> j # js)" by auto
  from Cons.IH [OF p(2)] have "\<forall>i \<in> set js. Suc n \<le> iid i" "distinct (map iid js)" by auto
  with p parse_line_iid show ?case by (fastforce split: option.splits)
qed simp

section \<open>Writing the annotated trace\<close>

definition re_annotation :: re where
  "re_annotation = seqs [lit '')'', spaces, opt (Group 1 (seqs [lit ''@'', spaces, digits])), lit '' '']"

definition annotate :: "int \<Rightarrow> string \<Rightarrow> string" where
  "annotate c ln = re_sub re_annotation (\<lambda>_ _. '') @ '' @ py_str c @ '' '') ln"

definition annotate_instr :: "(nat \<Rightarrow> event list) \<Rightarrow> instruction \<Rightarrow> string result" where
  "annotate_instr evs i =
     (if evs (iid i) = [] then raise IndexError
      else let commit_event = last (evs (iid i)) in
        rbind (assertR (kind commit_event = EK_commit)) (\<lambda>_.
        ret (annotate (cycle commit_event) (line i) @ [newline])))"

definition write_trace :: "(nat \<Rightarrow> event list) \<Rightarrow> instruction list \<Rightarrow> string result" where
  "write_trace evs is = rbind (mapR (annotate_instr evs) is) (\<lambda>ls. ret (concat ls))"

section \<open>The timed part and its counts\<close>

definition re_csrr_minstret :: re where
  "re_csrr_minstret = seqs [Bol, lit ''csrr'', spaces1, Sat is_word_char, Sat is_word_char, lit '','',
     spaces, lit ''minstret'', Eol]"

definition is_minstret :: "instruction \<Rightarrow> bool" where
  "is_minstret i \<longleftrightarrow> re_search re_csrr_minstret (mnemo i) \<noteq> None"

definition timed_step :: "instruction list \<times> bool \<Rightarrow> instruction \<Rightarrow> instruction list \<times> bool" where
  "timed_step = (\<lambda>(filtered, accepting) i.
     if is_minstret i then (filtered, \<not> accepting)
     else if accepting then (filtered @ [i], accepting)
     else (filtered, accepting))"

definition filter_timed_part :: "instruction list \<Rightarrow> instruction list" where
  "filter_timed_part is = fst (foldl timed_step ([], False) is)"

text \<open>\<open>min\<close> and \<open>max\<close> of an empty sequence raise ValueError, an index into one IndexError.\<close>

definition py_min :: "int list \<Rightarrow> int result" where
  "py_min xs = (if xs = [] then raise ValueError else ret (Min (set xs)))"

definition py_max :: "int list \<Rightarrow> int result" where
  "py_max xs = (if xs = [] then raise ValueError else ret (Max (set xs)))"

definition count_cycles :: "(nat \<Rightarrow> event list) \<Rightarrow> instruction list \<Rightarrow> int result" where
  "count_cycles evs is =
     (if is = [] then raise IndexError
      else rbind (py_min (map cycle (evs (iid (hd is))))) (\<lambda>s.
           rbind (py_max (map cycle (evs (iid (last is))))) (\<lambda>e. ret (e - s))))"

text \<open>The counts of \<open>print_stats\<close>; a \<open>defaultdict\<close> in the order of first use.\<close>

fun bump :: "event_kind \<Rightarrow> (event_kind \<times> nat) list \<Rightarrow> (event_kind \<times> nat) list" where
  "bump k [] = [(k, 1)]"
| "bump k ((j, n) # d) = (if j = k then (j, n + 1) # d else (j, n) # bump k d)"

definition count_events :: "(nat \<Rightarrow> event list) \<Rightarrow> instruction list \<Rightarrow> (event_kind \<times> nat) list" where
  "count_events evs is = foldl (\<lambda>d i. foldl (\<lambda>d e. bump (kind e) d) d (evs (iid i))) [] is"

record stats =
  st_cycles :: int
  st_instrs :: nat
  st_events :: "(event_kind \<times> nat) list"

definition print_stats :: "(nat \<Rightarrow> event list) \<Rightarrow> instruction list \<Rightarrow> stats result" where
  "print_stats evs is =
     (let ecount = count_events evs is in
      rbind (count_cycles evs is) (\<lambda>n.
        if n = 0 then raise ZeroDivisionError
        else ret \<lparr>st_cycles = n, st_instrs = length is, st_events = ecount\<rparr>))"

text \<open>\<open>main\<close> of \<open>model.py\<close>: None while the run goes on for ever.\<close>

definition model_main :: "string \<Rightarrow> (string \<times> stats) result option" where
  "model_main text =
     (case load_file (model_init 2 2 8 None True True) text of
        Inl e \<Rightarrow> Some (raise e)
      | Inr m \<Rightarrow> (case run None m of
          None \<Rightarrow> None
        | Some (Inl e) \<Rightarrow> Some (raise e)
        | Some (Inr (m', n)) \<Rightarrow>
            Some (rbind (write_trace (events m') (retired m')) (\<lambda>out.
                  rbind (print_stats (events m') (retired m')) (\<lambda>s. ret (out, s))))))"

text \<open>
  \<open>issue_commit_graph\<close> on an input file: the model is run for every issue and commit width from 1 to n, and the
  score is a million over the cycles of the timed part. A width of 0 is not run and keeps the integer 0 of the
  table, here None.
\<close>

definition graph_cell :: "string \<Rightarrow> nat \<Rightarrow> nat \<Rightarrow> pyfloat result option" where
  "graph_cell text issue commit =
     obind (Some (load_file (model_init (int issue) (int commit) 8 None True True) text)) (\<lambda>m.
     obind (run None m) (\<lambda>(m', n).
     Some (rbind (count_cycles (events m') (filter_timed_part (retired m'))) (\<lambda>n_cycles. int_div 1000000 n_cycles))))"

definition issue_commit_graph :: "string \<Rightarrow> nat \<Rightarrow> pyfloat option list list result option" where
  "issue_commit_graph text n =
     ofold (\<lambda>scores issue. ofold (\<lambda>scores commit.
         obind (graph_cell text issue commit) (\<lambda>score.
         Some (ret (scores[issue := (scores ! issue)[commit := Some score]]))))
       scores [1..<n + 1])
     (replicate (n + 1) (replicate (n + 1) None)) [1..<n + 1]"

text \<open>The lines of \<open>print_stats\<close>; the names of the kinds of events are those of the enumeration.\<close>

definition print_data :: "string \<Rightarrow> string \<Rightarrow> string" where
  "print_data name shown = ljust 24 name @ '' = '' @ shown"

fun kind_name :: "event_kind \<Rightarrow> string" where
  "kind_name EK_WAW = ''EventKind.WAW''"
| "kind_name EK_WAR = ''EventKind.WAR''"
| "kind_name EK_RAW = ''EventKind.RAW''"
| "kind_name EK_BMISS = ''EventKind.BMISS''"
| "kind_name EK_BHIT = ''EventKind.BHIT''"
| "kind_name EK_STRUCT = ''EventKind.STRUCT''"
| "kind_name EK_issue = ''EventKind.issue''"
| "kind_name EK_done = ''EventKind.done''"
| "kind_name EK_commit = ''EventKind.commit''"

definition stats_lines :: "stats \<Rightarrow> string list result" where
  "stats_lines s =
     rbind (int_div 1000000 (st_cycles s)) (\<lambda>score.
     rbind (mapR (\<lambda>(ek, n). rbind (int_div (100 * int n) (int (st_instrs s))) (\<lambda>share.
       ret (print_data (kind_name ek @ ''/instr'') (format_fixed 2 share @ ''%'')))) (st_events s)) (\<lambda>shares.
     ret ([print_data ''cycle number'' (py_str (st_cycles s)), print_data ''Coremark/MHz'' (py_repr score),
       print_data ''instruction number'' (py_str (int (st_instrs s)))] @ shares)))"

section \<open>\<open>cycle_diff.py\<close>\<close>

record trace =
  t_addr :: string
  t_cycle :: int
  t_mnemo :: string
  t_flags :: string
  t_delta :: "int option"

definition re_csrr_minstret1 :: re where
  "re_csrr_minstret1 = seqs [Bol, lit ''csrr'', spaces1, many1 (Sat is_word_char), lit '','',
     spaces, lit ''minstret'', Eol]"

definition re_full :: re where
  "re_full = seqs [Group 1 lowers, spaces1, lit ''0:'', spaces, lit ''0x00000000'',
     Group 2 (many1 (Sat is_lhex)), spaces, lit ''('', Group 3 (many1 (Sat (\<lambda>c. is_lhex c \<or> c = CHR ''x''))),
     lit '')'', spaces, seqs [Group 4 (many (Sat (\<lambda>c. \<not> is_space c))), lit ''@'', spaces, Group 5 digits,
     spaces, Group 6 (many dot)]]"

definition trace_of_line :: "string \<Rightarrow> trace option result" where
  "trace_of_line raw =
     (case found_groups re_full (strip raw) of
        None \<Rightarrow> ret None
      | Some g \<Rightarrow>
          (case (match_group 2 g, match_group 4 g, match_group 5 g, match_group 6 g) of
             (Some addr, Some flags, Some cyc, Some mn) \<Rightarrow>
               rbind (py_int 10 cyc) (\<lambda>c.
               ret (Some \<lparr>t_addr = addr, t_cycle = c, t_mnemo = mn, t_flags = flags, t_delta = None\<rparr>))
           | _ \<Rightarrow> raise TypeError))"

definition filter_add :: "trace list \<times> bool \<Rightarrow> trace \<Rightarrow> trace list \<times> bool" where
  "filter_add = (\<lambda>(l, accepting) t.
     if re_search re_csrr_minstret1 (t_mnemo t) \<noteq> None then (l, \<not> accepting)
     else if accepting then (l @ [t], accepting) else (l, accepting))"

definition read_traces :: "string \<Rightarrow> trace list result" where
  "read_traces text =
     rbind (mapR trace_of_line (read_lines text)) (\<lambda>ts.
     ret (fst (foldl filter_add ([], False) (map the (filter (\<lambda>t. t \<noteq> None) ts)))))"

fun deltas :: "int \<Rightarrow> trace list \<Rightarrow> trace list" where
  "deltas c [] = []"
| "deltas c (t # ts) = t\<lparr>t_delta := Some (t_cycle t - c)\<rparr> # deltas (t_cycle t) ts"

definition trace_report :: "trace \<Rightarrow> string" where
  "trace_report t =
     ''+'' @ (case t_delta t of None \<Rightarrow> ''None'' | Some d \<Rightarrow> py_str d) @ '' '' @ t_flags t @ '' 0x'' @ t_addr t
       @ '': '' @ t_mnemo t"

definition write_traces :: "trace list \<Rightarrow> string" where
  "write_traces ts = concat (map (\<lambda>t. trace_report t @ [newline]) ts)"

text \<open>\<open>main\<close>: the cycle number, the instruction number and the written file.\<close>

definition diff_main :: "string \<Rightarrow> (int \<times> nat \<times> string) result" where
  "diff_main text =
     rbind (read_traces text) (\<lambda>ts.
       if ts = [] then raise IndexError
       else let c = t_cycle (hd ts);
                cycle_number = t_cycle (last ts) - c + 1;
                ts = deltas c ts
            in if cycle_number = 0 then raise ZeroDivisionError
               else ret (cycle_number, length ts, write_traces ts))"

text \<open>What is printed of the comparison.\<close>

definition diff_lines :: "int \<Rightarrow> nat \<Rightarrow> string list result" where
  "diff_lines cycle_number n =
     rbind (int_div 1000000 cycle_number) (\<lambda>score. rbind (int_div (int n) cycle_number) (\<lambda>per_cycle.
     ret [print_data ''cycle number'' (py_str cycle_number), print_data ''Coremark/MHz'' (py_repr score),
       print_data ''instruction number'' (py_str (int n)), print_data ''IPC'' (py_repr per_cycle)]))"

end
