(* ===== verification/Py_Dict.thy ===== *)
theory Py_Dict
  imports Prelude "HOL-Library.AList"
begin

text \<open>
  Python's dictionaries: association lists in insertion order with distinct keys. Assignment is
  \<open>AList.update\<close>, which replaces the value in place and appends a new key, \<open>del\<close> is \<open>AList.delete\<close>.
  The lemmas account for what an assignment does to a sum over the values.
\<close>

type_synonym ('k, 'v) dict = "('k \<times> 'v) list"

definition dict_keys :: "('k, 'v) dict \<Rightarrow> 'k list" where
  "dict_keys d = map fst d"

definition dict_ok :: "('k, 'v) dict \<Rightarrow> bool" where
  "dict_ok d \<longleftrightarrow> distinct (map fst d)"

text \<open>\<open>d[k]\<close> and \<open>d.get(k, x)\<close>.\<close>

definition dict_get :: "('k, 'v) dict \<Rightarrow> 'k \<Rightarrow> 'v result" where
  "dict_get d k = of_option KeyError (map_of d k)"

definition dict_get_or :: "('k, 'v) dict \<Rightarrow> 'k \<Rightarrow> 'v \<Rightarrow> 'v" where
  "dict_get_or d k x = (case map_of d k of None \<Rightarrow> x | Some v \<Rightarrow> v)"

definition has_key :: "('k, 'v) dict \<Rightarrow> 'k \<Rightarrow> bool" where
  "has_key d k \<longleftrightarrow> map_of d k \<noteq> None"

text \<open>\<open>del d[k]\<close>\<close>

definition dict_del :: "('k, 'v) dict \<Rightarrow> 'k \<Rightarrow> ('k, 'v) dict result" where
  "dict_del d k = (if has_key d k then ret (AList.delete k d) else raise KeyError)"

text \<open>\<open>d.update(e)\<close>\<close>

definition dict_update_all :: "('k, 'v) dict \<Rightarrow> ('k, 'v) dict \<Rightarrow> ('k, 'v) dict" where
  "dict_update_all d e = foldl (\<lambda>d (k, v). AList.update k v d) d e"

lemma dict_ok_Nil [simp]: "dict_ok []"
  by (simp add: dict_ok_def)

lemma dict_ok_update [simp]: "dict_ok d \<Longrightarrow> dict_ok (AList.update k v d)"
  unfolding dict_ok_def by (rule distinct_update)

lemma dict_ok_delete [simp]: "dict_ok d \<Longrightarrow> dict_ok (AList.delete k d)"
  unfolding dict_ok_def by (rule distinct_delete)

lemma dict_ok_update_all: "dict_ok d \<Longrightarrow> dict_ok (dict_update_all d e)"
  unfolding dict_update_all_def by (induction e arbitrary: d) auto

lemma map_of_update_all: "map_of (dict_update_all d e) = map_of d ++ map_of (rev e)"
  unfolding dict_update_all_def
proof (induction e arbitrary: d)
  case (Cons p e)
  obtain k v where "p = (k, v)" by (cases p)
  with Cons [of "AList.update k v d"] show ?case
    by (simp add: update_conv' map_add_def fun_eq_iff split: option.split)
qed simp

lemma has_key_iff: "has_key d k \<longleftrightarrow> k \<in> fst ` set d"
  by (simp add: has_key_def map_of_eq_None_iff)

lemma map_of_in: "map_of d k \<noteq> None \<longleftrightarrow> k \<in> fst ` set d"
  by (simp add: map_of_eq_None_iff)

lemma dict_eqI:
  "map fst d = map fst e \<Longrightarrow> dict_ok d \<Longrightarrow> map_of d = map_of e \<Longrightarrow> d = e"
proof (induction d arbitrary: e)
  case (Cons p d)
  then obtain q e' where e: "e = q # e'" "fst q = fst p" "map fst e' = map fst d" by (cases e) auto
  from Cons.prems(3) e(1,2) have "snd p = snd q"
    by (metis map_of_Cons_code(2) map_of_eq_Some_iff option.inject prod.collapse)
  moreover have "map_of d = map_of e'"
  proof
    fix k
    show "map_of d k = map_of e' k"
    proof (cases "k = fst p")
      case True
      then have "k \<notin> fst ` set d" using Cons.prems(2) by (auto simp: dict_ok_def)
      moreover from this e(3) have "k \<notin> fst ` set e'" by (metis list.set_map)
      ultimately show ?thesis by (metis map_of_eq_None_iff)
    next
      case False
      with Cons.prems(3) e(1,2) show ?thesis by (metis fun_upd_other map_of.simps(2))
    qed
  qed
  ultimately show ?case using Cons e by (simp add: dict_ok_def prod_eq_iff)
qed simp

lemma keys_update_mem: "k \<in> fst ` set d \<Longrightarrow> map fst (AList.update k v d) = map fst d"
  by (simp add: update_keys)

section \<open>Sums over the values\<close>

definition weight :: "('v \<Rightarrow> int) \<Rightarrow> ('k, 'v) dict \<Rightarrow> int" where
  "weight g d = (\<Sum>p\<leftarrow>d. g (snd p))"

lemma weight_Nil [simp]: "weight g [] = 0"
  by (simp add: weight_def)

lemma weight_update:
  "dict_ok d \<Longrightarrow> weight g (AList.update k v d)
     = weight g d + g v - (case map_of d k of None \<Rightarrow> 0 | Some u \<Rightarrow> g u)"
proof (induction d)
  case (Cons p d)
  show ?case
  proof (cases "fst p = k")
    case True
    then show ?thesis by (cases p) (simp add: weight_def)
  next
    case False
    with Cons show ?thesis by (cases p) (simp add: weight_def dict_ok_def)
  qed
qed (simp add: weight_def)

end
