(* ===== verification/Profile.thy ===== *)
theory Profile
  imports Isa_Facts Py_Regex Py_Dict
begin

text \<open>
  The flamegraph profiler \<open>perf-model/profile.py\<close>: functions read from an \<open>objdump -h\<close> listing,
  instructions read from an RVFI trace, the call stack they drive, the events and the statistics
  handed to \<open>flameprof\<close>. Dictionaries are association lists in insertion order
  (\<open>AList.update\<close>). Files are strings; the script itself is in \<open>Profile_Main\<close>.
\<close>

section \<open>Functions\<close>

record asm_func =
  af_index :: int
  af_name :: string
  af_size :: int
  af_vma :: int
  af_lma :: int
  af_file_off :: int
  af_align :: int

definition start_addr :: "asm_func \<Rightarrow> int" where
  "start_addr f = af_vma f"

definition end_addr :: "asm_func \<Rightarrow> int" where
  "end_addr f = af_vma f + af_size f"

definition contains_addr :: "asm_func \<Rightarrow> int \<Rightarrow> bool" where
  "contains_addr f addr \<longleftrightarrow> start_addr f \<le> addr \<and> addr < end_addr f"

definition py_nth :: "'a list \<Rightarrow> nat \<Rightarrow> 'a result" where
  "py_nth xs n = (if n < length xs then ret (xs ! n) else raise IndexError)"

definition func_of_line :: "string list \<Rightarrow> asm_func result" where
  "func_of_line l =
     rbind (py_nth l 0) (\<lambda>x. rbind (py_int 10 x) (\<lambda>index.
     rbind (py_nth l 1) (\<lambda>name.
     rbind (py_nth l 2) (\<lambda>x. rbind (py_int 16 x) (\<lambda>size.
     rbind (py_nth l 3) (\<lambda>x. rbind (py_int 16 x) (\<lambda>vma.
     rbind (py_nth l 4) (\<lambda>x. rbind (py_int 16 x) (\<lambda>lma.
     rbind (py_nth l 5) (\<lambda>x. rbind (py_int 16 x) (\<lambda>off.
     rbind (py_nth l 6) (\<lambda>x. rbind (py_int 16 (drop 3 x)) (\<lambda>al.
     ret \<lparr>af_index = index, af_name = drop 6 name, af_size = size, af_vma = vma, af_lma = lma,
          af_file_off = off, af_align = al\<rparr>)))))))))))))"

definition load_elf :: "string \<Rightarrow> asm_func list result" where
  "load_elf text =
     mapR func_of_line (map split_ws (filter (contains ''.text.'') (read_lines text)))"

section \<open>Instructions of the trace\<close>

record rvfi_instr =
  ri_address :: int
  ri_cycle :: int
  ri_op :: instr
  ri_line :: string
  ri_name :: string
  ri_mem_address :: "int option"

definition re_instr_cycle :: re where
  "re_instr_cycle = seqs [Group 1 lowers, spaces1, lit ''0:'', spaces, lit ''0x00000000'',
     Group 2 (many1 (Sat is_lhex)), spaces, lit ''('', Group 3 (many1 (Sat (\<lambda>c. is_lhex c \<or> c = CHR ''x''))),
     lit '')'', spaces, lit ''@'', spaces, Group 4 digits, spaces, Group 5 (many dot)]"

definition re_mem :: re where
  "re_mem = seqs [lit ''mem'', spaces, lit ''0x'', Group 1 (many1 (Sat is_lhex))]"

definition mk_rvfi ::
  "int \<Rightarrow> int \<Rightarrow> int \<Rightarrow> string \<Rightarrow> string \<Rightarrow> string option \<Rightarrow> rvfi_instr result" where
  "mk_rvfi addr cyc op name ln next_line =
     (let i = \<lparr>ri_address = addr, ri_cycle = cyc, ri_op = \<lparr>bin = op\<rparr>, ri_line = ln, ri_name = name,
        ri_mem_address = None\<rparr>
      in if is_load (ri_op i) \<or> is_store (ri_op i) then
           (case next_line of
              None \<Rightarrow> raise AssertionError
            | Some nl \<Rightarrow>
                rbind (of_option AttributeError (found_groups re_mem nl)) (\<lambda>g.
                rbind (of_option TypeError (match_group 1 g)) (\<lambda>h.
                rbind (py_int 16 h) (\<lambda>a. ret (i\<lparr>ri_mem_address := Some a\<rparr>)))))
         else ret i)"

fun rvfi_from_lines :: "string list \<Rightarrow> rvfi_instr list result" where
  "rvfi_from_lines [] = ret []"
| "rvfi_from_lines (l # ls) =
     (let ln = strip l in
      case found_groups re_instr_cycle ln of
        None \<Rightarrow> rvfi_from_lines ls
      | Some g \<Rightarrow>
          (case (match_group 2 g, match_group 3 g, match_group 4 g, match_group 5 g) of
             (Some a, Some h, Some c, Some mn) \<Rightarrow>
               rbind (py_int 16 a) (\<lambda>addr. rbind (py_int 10 c) (\<lambda>cyc. rbind (py_int 16 h) (\<lambda>op.
               rbind (mk_rvfi addr cyc op (hd (split_char (CHR '' '') mn)) ln
                       (case ls of [] \<Rightarrow> None | nl # _ \<Rightarrow> Some nl)) (\<lambda>i.
               rbind (rvfi_from_lines ls) (\<lambda>is. ret (i # is))))))
           | _ \<Rightarrow> raise TypeError))"

definition load_trace :: "string \<Rightarrow> rvfi_instr list result" where
  "load_trace text = rvfi_from_lines (read_lines text)"

section \<open>The call stack\<close>

record call_stack =
  cs_stack :: "asm_func list"
  cs_fns :: "(int \<times> asm_func) list"

definition call_stack_init :: "asm_func list \<Rightarrow> call_stack" where
  "call_stack_init functions =
     \<lparr>cs_stack = [], cs_fns = foldl (\<lambda>d f. AList.update (start_addr f) f d) [] functions\<rparr>"

record raw_event =
  re_stack :: "string list"
  re_cycle :: int

definition stack_names :: "call_stack \<Rightarrow> string list" where
  "stack_names cs = map af_name (cs_stack cs)"

definition cs_run :: "call_stack \<Rightarrow> rvfi_instr \<Rightarrow> raw_event option \<times> call_stack" where
  "cs_run cs i =
     (let addr = ri_address i;
          e = \<lparr>re_stack = stack_names cs, re_cycle = ri_cycle i\<rparr>
      in case map_of (cs_fns cs) addr of
           Some f \<Rightarrow> (Some e, cs\<lparr>cs_stack := cs_stack cs @ [f]\<rparr>)
         | None \<Rightarrow>
             if cs_stack cs \<noteq> [] \<and> \<not> contains_addr (last (cs_stack cs)) addr
                \<and> (\<exists>f \<in> set (map snd (cs_fns cs)). contains_addr f addr)
             then (Some e, cs\<lparr>cs_stack := butlast (cs_stack cs)\<rparr>)
             else (None, cs))"

section \<open>Events\<close>

record pevent =
  ev_stack :: "string list"
  ev_instr :: rvfi_instr
  ev_duration :: int
  ev_icount :: int
  ev_executed :: "(string \<times> (int \<times> int)) list"

record run_state =
  rs_events :: "pevent list"
  rs_cs :: call_stack
  rs_event_cycle :: int
  rs_event_i :: int
  rs_instr_cycle :: int
  rs_executed :: "(string \<times> (int \<times> int)) list"

definition run_step :: "run_state \<Rightarrow> int \<times> rvfi_instr \<Rightarrow> run_state" where
  "run_step s = (\<lambda>(k, i).
     let (count, tot) = (case map_of (rs_executed s) (ri_name i) of None \<Rightarrow> (0, 0) | Some p \<Rightarrow> p);
         count = count + 1;
         tot = tot + (ri_cycle i - rs_instr_cycle s);
         ex = AList.update (ri_name i) (count, tot) (rs_executed s);
         s = s\<lparr>rs_executed := ex, rs_instr_cycle := ri_cycle i\<rparr>;
         (e, cs) = cs_run (rs_cs s) i;
         s = s\<lparr>rs_cs := cs\<rparr>
     in case e of
          None \<Rightarrow> s
        | Some r \<Rightarrow> s\<lparr>rs_events := rs_events s @ [\<lparr>ev_stack = re_stack r, ev_instr = i,
              ev_duration = re_cycle r - rs_event_cycle s, ev_icount = k - rs_event_i s,
              ev_executed = ex\<rparr>],
            rs_event_cycle := re_cycle r, rs_event_i := k, rs_executed := []\<rparr>)"

definition run_init :: "asm_func list \<Rightarrow> run_state" where
  "run_init fns = \<lparr>rs_events = [], rs_cs = call_stack_init fns, rs_event_cycle = 0, rs_event_i = 0,
     rs_instr_cycle = 0, rs_executed = []\<rparr>"

fun number :: "int \<Rightarrow> 'a list \<Rightarrow> (int \<times> 'a) list" where
  "number k [] = []"
| "number k (x # xs) = (k, x) # number (k + 1) xs"

definition run_all :: "asm_func list \<Rightarrow> rvfi_instr list \<Rightarrow> pevent list" where
  "run_all fns is = rs_events (foldl run_step (run_init fns) (number 0 is))"

section \<open>Statistics\<close>

record stat =
  s_cc :: int
  s_nc :: int
  s_tt :: int
  s_ct :: int
  s_icount :: int
  s_callers :: "(string \<times> (int \<times> int \<times> int \<times> int)) list"

definition stat_init :: stat where
  "stat_init = \<lparr>s_cc = 0, s_nc = 0, s_tt = 0, s_ct = 0, s_icount = 0, s_callers = []\<rparr>"

definition add_caller :: "string \<Rightarrow> int \<Rightarrow> int \<Rightarrow> int \<Rightarrow> int \<Rightarrow> stat \<Rightarrow> stat" where
  "add_caller caller c_cc c_nc c_tt c_ct s =
     (let (cc, nc, tt, ct) = (case map_of (s_callers s) caller of None \<Rightarrow> (0, 0, 0, 0) | Some p \<Rightarrow> p)
      in s\<lparr>s_callers := AList.update caller (cc + c_cc, nc + c_nc, tt + c_tt, ct + c_ct) (s_callers s)\<rparr>)"

type_synonym pstats = "(string \<times> stat) list"

definition put_stat :: "string \<Rightarrow> pstats \<Rightarrow> pstats" where
  "put_stat name d = (if name \<notin> fst ` set d then AList.update name stat_init d else d)"

text \<open>\<open>stats[name].attr += x\<close>: KeyError when the name is missing.\<close>

definition on_stat :: "string \<Rightarrow> (stat \<Rightarrow> stat) \<Rightarrow> pstats \<Rightarrow> pstats result" where
  "on_stat name f d =
     (case map_of d name of None \<Rightarrow> raise KeyError | Some s \<Rightarrow> ret (AList.update name (f s) d))"

definition fake_file :: "string \<Rightarrow> string \<times> int \<times> string" where
  "fake_file func = ([], 1, func)"

definition stat_build ::
  "stat \<Rightarrow> int \<times> int \<times> int \<times> int \<times> ((string \<times> int \<times> string) \<times> (int \<times> int \<times> int \<times> int)) list" where
  "stat_build s = (s_cc s, s_nc s, s_tt s, s_ct s, map (\<lambda>(f, t). (fake_file f, t)) (s_callers s))"

definition inst_step :: "string \<Rightarrow> pstats \<Rightarrow> string \<times> (int \<times> int) \<Rightarrow> pstats result" where
  "inst_step func d = (\<lambda>(name, count, dur).
     rbind (on_stat name (\<lambda>s. s\<lparr>s_tt := s_tt s + dur\<rparr>) (put_stat name d)) (\<lambda>d.
     rbind (on_stat name (\<lambda>s. s\<lparr>s_ct := s_ct s + dur\<rparr>) d) (\<lambda>d.
     on_stat name (add_caller func 0 count dur dur) d)))"

definition callee_step :: "int \<Rightarrow> pstats \<Rightarrow> string \<times> string \<Rightarrow> pstats result" where
  "callee_step dur d = (\<lambda>(caller, callee). on_stat callee (add_caller caller 0 0 0 dur) d)"

definition change_step :: "pevent \<Rightarrow> string list \<Rightarrow> pstats \<Rightarrow> pstats result" where
  "change_step e last_stack d =
     (let stack = ev_stack e; func = last stack in
      if length stack \<ge> length last_stack then
        rbind (assertR (length stack = length last_stack + 1)) (\<lambda>_. ret d)
      else
        rbind (assertR (length stack + 1 = length last_stack)) (\<lambda>_.
        let callee = last last_stack; caller = func; d = put_stat caller d;
            c_cc = (if callee \<notin> set stack then 1 else 0)
        in rbind (on_stat callee (add_caller caller c_cc 1 0 0) d) (\<lambda>d.
           rbind (on_stat callee (\<lambda>s. s\<lparr>s_cc := s_cc s + c_cc\<rparr>) d) (\<lambda>d.
           on_stat callee (\<lambda>s. s\<lparr>s_nc := s_nc s + 1\<rparr>) d))))"

definition event_step :: "bool \<Rightarrow> pstats \<times> string list \<Rightarrow> pevent \<Rightarrow> (pstats \<times> string list) result" where
  "event_step inst = (\<lambda>(d, last_stack) e.
     let stack = ev_stack e in
     if stack = [] then ret (d, last_stack)
     else
       let func = last stack;
           d = put_stat func d;
           duration = (if inst then 0 else ev_duration e)
       in rbind (if inst then foldR (inst_step func) d (ev_executed e) else ret d) (\<lambda>d.
          rbind (on_stat func (\<lambda>s. s\<lparr>s_tt := s_tt s + duration\<rparr>) d) (\<lambda>d.
          rbind (on_stat func (\<lambda>s. s\<lparr>s_icount := s_icount s + ev_icount e\<rparr>) d) (\<lambda>d.
          rbind (foldR (\<lambda>d f. on_stat f (\<lambda>s. s\<lparr>s_ct := s_ct s + ev_duration e\<rparr>) d) d stack) (\<lambda>d.
          rbind (if length stack > 1
                 then on_stat func (add_caller (stack ! (length stack - 2)) 0 0 duration 0) d
                 else ret d) (\<lambda>d.
          rbind (foldR (callee_step (ev_duration e)) d (zip stack (tl stack))) (\<lambda>d.
          rbind (change_step e last_stack d) (\<lambda>d. ret (d, stack)))))))))"

definition build_stats :: "pevent list \<Rightarrow> bool \<Rightarrow> pstats result" where
  "build_stats events inst =
     rbind (foldR (event_step inst) ([], []) events) (\<lambda>(d, _). ret d)"

section \<open>Output\<close>

definition py_list_str :: "string list \<Rightarrow> string" where
  "py_list_str xs = ''['' @ join '', '' (map (\<lambda>x. [CHR 0x27] @ x @ [CHR 0x27]) xs) @ '']''"

text \<open>A list of names is printed with quotes; names hold no quote or backslash.\<close>

definition format_stack_change :: "string list \<Rightarrow> string list \<Rightarrow> string option" where
  "format_stack_change old_stack new_stack =
     (if length old_stack > length new_stack
      then Some (''RET FROM '' @ last old_stack @ '' (in '' @ py_list_str new_stack @ '')'')
      else if length new_stack > length old_stack
      then Some (''CALL '' @ last new_stack @ '' (in '' @ py_list_str old_stack @ '')'')
      else None)"

definition render_input ::
  "pstats \<Rightarrow> ((string \<times> int \<times> string) \<times>
     (int \<times> int \<times> int \<times> int \<times> ((string \<times> int \<times> string) \<times> (int \<times> int \<times> int \<times> int)) list)) list" where
  "render_input d = map (\<lambda>(func, s). (fake_file func, stat_build s)) d"

definition filter_events :: "pevent list \<Rightarrow> string \<Rightarrow> pevent list" where
  "filter_events events func_name = filter (\<lambda>e. func_name \<notin> set (ev_stack e)) events"

end
