(* ===== verification/Trace_Facts.thy ===== *)
theory Trace_Facts
  imports Perf_Trace Profile
begin

text \<open>
  Facts on the text side of the performance model: what the regular expressions of three scripts read from
  the lines the RVFI tracer prints, with or without a cycle annotation, and that the annotated
  trace of a completed run is read back.
\<close>

section \<open>Lines of the RVFI tracer\<close>

definition rvfi_line :: "string \<Rightarrow> string \<Rightarrow> string \<Rightarrow> string \<Rightarrow> string" where
  "rvfi_line addr hex ann mn = ''core   0: 0x'' @ addr @ '' ('' @ hex @ '') '' @ ann @ mn"

definition cycle_note :: "string \<Rightarrow> string" where
  "cycle_note ds = (if ds = [] then [] else ''@ '' @ ds @ '' '')"

text \<open>
  The address is printed with leading zeros, the encoding with its prefix; the mnemonic starts
  and ends with a printed character and contains no closing parenthesis followed by a space.
\<close>

definition mnemo_ok :: "string \<Rightarrow> bool" where
  "mnemo_ok mn \<longleftrightarrow> mn \<noteq> [] \<and> \<not> is_space (hd mn) \<and> \<not> is_space (last mn) \<and> hd mn \<noteq> CHR ''@''
     \<and> newline \<notin> set mn \<and> re_search re_annotation mn = None"

definition fields_ok :: "string \<Rightarrow> string \<Rightarrow> string \<Rightarrow> string \<Rightarrow> bool" where
  "fields_ok z a h ds \<longleftrightarrow> set z \<subseteq> {CHR ''0''} \<and> a \<noteq> [] \<and> list_all is_lhex a \<and> hd a \<noteq> CHR ''0''
     \<and> h \<noteq> [] \<and> list_all is_lhex h \<and> list_all is_digit ds"

lemma char_classes [simp]:
  "is_space (CHR '' '')" "\<not> is_space (CHR ''('')" "\<not> is_space (CHR '')'')" "\<not> is_space (CHR ''@'')"
  "\<not> is_space (CHR ''c'')" "\<not> is_lhex (CHR '' '')" "\<not> is_lhex (CHR '')'')" "is_lhex (CHR ''0'')"
  "\<not> is_digit (CHR '' '')" "\<not> is_lower (CHR '' '')" "is_space newline"
  by (simp_all add: is_space_def is_lhex_def is_digit_def is_lower_def newline_def)

lemma digit_not_space: "is_digit c \<Longrightarrow> \<not> is_space c"
  by (auto simp: is_digit_def is_space_def)

lemma lhex_not_space: "is_lhex c \<Longrightarrow> \<not> is_space c"
  by (auto simp: is_lhex_def digit_not_space) (auto simp: is_space_def)

lemma list_all_hd: "list_all f xs \<Longrightarrow> xs \<noteq> [] \<Longrightarrow> f (hd xs)"
  by (cases xs) auto

lemma eats_spaces: "list_all is_space w \<Longrightarrow> t = [] \<or> \<not> is_space (hd t) \<Longrightarrow> eats spaces (w @ t) w [] t"
  unfolding spaces_def by (rule eats_many_run) (auto simp: list_all_iff)

lemma eats_rest: "newline \<notin> set mn \<Longrightarrow> eats (Group n (many dot)) mn mn [(n, mn)] []"
  using eats_Group [OF eats_many_run [of mn "\<lambda>c. c \<noteq> newline" "[]"], of n]
  by (simp add: dot_def) (metis append_Nil2)

lemma eats_note:
  assumes "ds \<noteq> []" "list_all is_digit ds" "t = [] \<or> \<not> is_digit (hd t)"
  shows "eats (Group n (seqs [lit ''@'', spaces, digits])) (''@ '' @ ds @ t) (''@ '' @ ds) [(n, ''@ '' @ ds)] t"
proof -
  have 1: "eats (lit ''@'') (''@'' @ '' '' @ ds @ t) ''@'' [] ('' '' @ ds @ t)" by (rule eats_lit)
  have 2: "eats spaces ('' '' @ ds @ t) '' '' [] (ds @ t)"
    using list_all_hd [OF assms(2,1)] assms(1) by (intro eats_spaces) (auto simp: digit_not_space)
  have 3: "eats digits (ds @ t) ds [] t"
    unfolding digits_def using assms by (intro eats_many1_run) (auto simp: list_all_iff)
  have "eats (seqs [digits]) (ds @ t) ds [] t" using 3 by simp
  from eats_seqs_Cons [OF 1 eats_seqs_Cons [OF 2 this]]
  have "eats (seqs [lit ''@'', spaces, digits]) (''@'' @ '' '' @ ds @ t) (''@'' @ '' '' @ ds) ([] @ [] @ []) t" .
  from eats_Group [OF this, of n] show ?thesis by simp
qed

lemma rejects_note: "t = [] \<or> hd t \<noteq> CHR ''@'' \<Longrightarrow> rejects (Group n (seqs [lit ''@'', spaces, digits])) t"
  by (intro rejects_Group rejects_seqs rejects_lit)

text \<open>The end of a line, after the closing parenthesis.\<close>

lemma eats_line_end:
  assumes "mnemo_ok mn" "list_all is_digit ds"
  shows "\<exists>g. eats (seqs [spaces, opt (Group 4 (seqs [lit ''@'', spaces, digits])), spaces, Group 5 (many dot)])
      ('' '' @ cycle_note ds @ mn) ('' '' @ cycle_note ds @ mn) g [] \<and> map_of (rev g) 5 = Some mn
      \<and> fst ` set g \<subseteq> {4, 5}"
proof -
  from assms(1) have mn: "mn \<noteq> []" "\<not> is_space (hd mn)" "hd mn \<noteq> CHR ''@''" "newline \<notin> set mn"
    by (simp_all add: mnemo_ok_def)
  have r: "eats (seqs [Group 5 (many dot)]) mn mn [(5, mn)] []" using eats_rest [OF mn(4)] by simp
  show ?thesis
  proof (cases "ds = []")
    case True
    have 1: "eats spaces ('' '' @ mn) '' '' [] mn" using mn by (intro eats_spaces) simp_all
    have 2: "eats (opt (Group 4 (seqs [lit ''@'', spaces, digits]))) mn [] [] mn"
      unfolding opt_def using mn by (intro eats_Alt2 rejects_note eats_Empty) simp
    have 3: "eats spaces ([] @ mn) [] [] mn" using mn by (intro eats_spaces) simp_all
    from eats_seqs_Cons [OF 1 eats_seqs_Cons [OF 2 eats_seqs_Cons [OF 3 [unfolded append_Nil] r]]]
    show ?thesis using True by (intro exI [of _ "[(5, mn)]"]) (simp add: cycle_note_def)
  next
    case False
    have 1: "eats spaces ('' '' @ ''@ '' @ ds @ '' '' @ mn) '' '' [] (''@ '' @ ds @ '' '' @ mn)"
      by (intro eats_spaces) simp_all
    have 2: "eats (opt (Group 4 (seqs [lit ''@'', spaces, digits]))) (''@ '' @ ds @ '' '' @ mn) (''@ '' @ ds)
        [(4, ''@ '' @ ds)] ('' '' @ mn)"
      unfolding opt_def by (intro eats_Alt1 eats_note [OF False assms(2)]) simp
    have 3: "eats spaces ('' '' @ mn) '' '' [] mn" using mn by (intro eats_spaces) simp_all
    from eats_seqs_Cons [OF 1 eats_seqs_Cons [OF 2 eats_seqs_Cons [OF 3 r]]]
    show ?thesis using False
      by (intro exI [of _ "[(4, ''@ '' @ ds), (5, mn)]"]) (simp add: cycle_note_def)
  qed
qed

text \<open>The whole line for \<open>Model.re_instr\<close>.\<close>

lemma eats_core: "eats (Group 1 lowers) (''core'' @ ''   '' @ t) ''core'' [(1, ''core'')] (''   '' @ t)"
  using eats_Group [of lowers "''core'' @ ''   '' @ t" "''core''" "[]" "''   '' @ t" 1]
    eats_many1_run [of "''core''" is_lower "''   '' @ t"]
  by (simp add: lowers_def is_lower_def)

lemma eats_gap: "t = [] \<or> \<not> is_space (hd t) \<Longrightarrow> eats spaces1 (''   '' @ t) ''   '' [] t"
  unfolding spaces1_def by (rule eats_many1_run) auto

lemma eats_hex_field:
  assumes "h \<noteq> []" "list_all is_lhex h"
  shows "eats (Group 3 (many1 (Sat (\<lambda>c. is_lhex c \<or> c = CHR ''x'')))) ((''0x'' @ h) @ '')'' @ t) (''0x'' @ h)
    [(3, ''0x'' @ h)] ('')'' @ t)"
  using eats_Group [OF eats_many1_run [of "''0x'' @ h" "\<lambda>c. is_lhex c \<or> c = CHR ''x''" "'')'' @ t"], of 3] assms
  by (simp add: list_all_iff)

lemma eats_addr_field:
  "a \<noteq> [] \<Longrightarrow> list_all is_lhex a \<Longrightarrow>
    eats (Group 2 (many1 (Sat is_lhex))) (a @ '' ('' @ t) a [(2, a)] ('' ('' @ t)"
  using eats_Group [OF eats_many1_run [of a is_lhex "'' ('' @ t"], of 2] by (simp add: list_all_iff)

lemma eats_re_instr:
  assumes f: "fields_ok z a h ds" and mn: "mnemo_ok mn"
  shows "\<exists>g. eats re_instr (rvfi_line (z @ a) (''0x'' @ h) (cycle_note ds) mn)
      (rvfi_line (z @ a) (''0x'' @ h) (cycle_note ds) mn) g []
    \<and> match_group 2 g = Some a \<and> match_group 3 g = Some (''0x'' @ h) \<and> match_group 5 g = Some mn"
proof -
  let ?eol = "'' '' @ cycle_note ds @ mn"
  let ?s11 = "'')'' @ ?eol"
  let ?s9 = "(''0x'' @ h) @ ?s11"
  let ?s7 = "'' ('' @ ?s9"
  let ?s4 = "z @ a @ ?s7"
  from f have a: "a \<noteq> []" "list_all is_lhex a" "hd a \<noteq> CHR ''0''" and h: "h \<noteq> []" "list_all is_lhex h"
    and z: "\<forall>c \<in> set z. c = CHR ''0''" and ds: "list_all is_digit ds" by (auto simp: fields_ok_def)
  obtain g where g: "eats (seqs [spaces, opt (Group 4 (seqs [lit ''@'', spaces, digits])), spaces, Group 5 (many dot)])
      ?eol ?eol g []" "map_of (rev g) 5 = Some mn" "fst ` set g \<subseteq> {4, 5}"
    using eats_line_end [OF mn ds] by blast
  have 10: "eats (lit '')'') ?s11 '')'' [] ?eol" by (rule eats_lit)
  have 9: "eats (Group 3 (many1 (Sat (\<lambda>c. is_lhex c \<or> c = CHR ''x'')))) ?s9 (''0x'' @ h) [(3, ''0x'' @ h)] ?s11"
    by (rule eats_hex_field [OF h])
  have 8: "eats (lit ''('') (''('' @ ?s9) ''('' [] ?s9" by (rule eats_lit)
  have 7: "eats spaces ('' '' @ ''('' @ ?s9) '' '' [] (''('' @ ?s9)" by (intro eats_spaces) simp_all
  have 6: "eats (Group 2 (many1 (Sat is_lhex))) (a @ ?s7) a [(2, a)] ('' '' @ ''('' @ ?s9)"
    using eats_addr_field [OF a(1,2), of ?s9] by simp
  have 5: "eats (many (Sat (\<lambda>c. c = CHR ''0''))) ?s4 z [] (a @ ?s7)"
    using z a(1,3) by (intro eats_many_run) auto
  have 4: "eats (lit ''0x'') (''0x'' @ ?s4) ''0x'' [] ?s4" by (rule eats_lit)
  have 3: "eats spaces ('' '' @ ''0x'' @ ?s4) '' '' [] (''0x'' @ ?s4)" by (intro eats_spaces) simp_all
  have 2: "eats (lit ''0:'') (''0:'' @ '' '' @ ''0x'' @ ?s4) ''0:'' [] ('' '' @ ''0x'' @ ?s4)" by (rule eats_lit)
  have 1: "eats spaces1 (''   '' @ ''0:'' @ '' '' @ ''0x'' @ ?s4) ''   '' [] (''0:'' @ '' '' @ ''0x'' @ ?s4)"
    by (rule eats_gap) simp
  note e = eats_seqs_Cons [OF eats_core eats_seqs_Cons [OF 1 eats_seqs_Cons [OF 2 eats_seqs_Cons [OF 3
      eats_seqs_Cons [OF 4 eats_seqs_Cons [OF 5 eats_seqs_Cons [OF 6 eats_seqs_Cons [OF 7
      eats_seqs_Cons [OF 8 eats_seqs_Cons [OF 9 eats_seqs_Cons [OF 10 g(1)]]]]]]]]]]]
  have k: "map_of (rev g) n = None" if "n \<in> {1, 2, 3}" for n
    using g(3) that by (auto simp: map_of_eq_None_iff image_subset_iff)
  show ?thesis
    using e g(2) k
    by (intro exI [of _ "(1, ''core'') # (2, a) # (3, ''0x'' @ h) # g"])
      (simp add: re_instr_def rvfi_line_def match_group_def map_add_def del: One_nat_def)
qed


section \<open>Annotating a line\<close>

lemma annotation_position_free: "position_free re_annotation"
  by (simp add: re_annotation_def)

lemma rejects_annotation: "s = [] \<or> hd s \<noteq> CHR '')'' \<Longrightarrow> rejects re_annotation s"
  unfolding re_annotation_def by (intro rejects_seqs rejects_lit)

lemma eats_annotation:
  assumes mn: "mnemo_ok mn" and ds: "list_all is_digit ds"
  shows "\<exists>g. eats re_annotation ('') '' @ cycle_note ds @ mn) ('') '' @ cycle_note ds) g mn"
proof -
  let ?X = "Group 1 (seqs [lit ''@'', spaces, digits])"
  from mn have m: "mn \<noteq> []" "\<not> is_space (hd mn)" "hd mn \<noteq> CHR ''@''" by (simp_all add: mnemo_ok_def)
  have 1: "eats (lit '')'') ('')'' @ t) '')'' [] t" for t by (rule eats_lit)
  have 4: "eats (seqs [lit '' '']) ('' '' @ mn) '' '' [] mn" using eats_lit [of "'' ''" mn] by simp
  show ?thesis
  proof (cases "ds = []")
    case True
    have b: "eats (seqs [opt ?X, lit '' '']) ('' '' @ mn) ([] @ '' '') ([] @ []) mn"
      by (intro eats_seqs_Cons [OF _ 4]) (unfold opt_def, intro eats_Alt2 rejects_note eats_Empty, simp)
    have "hd mn \<noteq> CHR '' ''" using m(2) by auto
    then have r: "rejects (seqs [opt ?X, lit '' '']) mn"
      using m(3) by (simp del: seqs.simps(2,3) add: seqs.simps(3) [of _ "lit '' ''" "[]"])
        (intro rejects_opt_Seq rejects_note; simp add: rejects_lit)
    have "eats (Seq (many (Sat is_space)) (seqs [opt ?X, lit '' ''])) (CHR '' '' # mn) '' '' [] mn"
      using b m(2) by (intro eats_back_off r) simp_all
    then have 2: "eats (seqs [spaces, opt ?X, lit '' '']) ('' '' @ mn) '' '' [] mn" by (simp add: spaces_def)
    from eats_seqs_Cons [OF 1 2] show ?thesis
      using True by (intro exI) (simp add: re_annotation_def cycle_note_def)
  next
    case False
    have 2: "eats spaces ('' '' @ ''@ '' @ ds @ '' '' @ mn) '' '' [] (''@ '' @ ds @ '' '' @ mn)"
      by (intro eats_spaces) simp_all
    have 3: "eats (opt ?X) (''@ '' @ ds @ '' '' @ mn) (''@ '' @ ds) [(1, ''@ '' @ ds)] ('' '' @ mn)"
      unfolding opt_def by (intro eats_Alt1 eats_note [OF False ds]) simp
    from eats_seqs_Cons [OF 1 eats_seqs_Cons [OF 2 eats_seqs_Cons [OF 3 4]]] show ?thesis
      using False by (intro exI) (simp add: re_annotation_def cycle_note_def)
  qed
qed

lemma annotate_line:
  assumes f: "fields_ok z a h ds" and mn: "mnemo_ok mn" and c: "0 \<le> c"
  shows "annotate c (rvfi_line (z @ a) (''0x'' @ h) (cycle_note ds) mn) =
    rvfi_line (z @ a) (''0x'' @ h) (cycle_note (py_str c)) mn"
proof -
  let ?f = "\<lambda>(_ :: string) (_ :: groups). '') @ '' @ py_str c @ '' ''"
  let ?pre = "''core   0: 0x'' @ (z @ a) @ '' ('' @ ''0x'' @ h"
  have cl: "CHR '')'' \<notin> set z \<union> set a \<union> set h"
    using f by (auto simp: fields_ok_def list_all_iff is_lhex_def is_digit_def)
  then have "CHR '')'' \<notin> set ?pre" by auto
  then have sk: "\<forall>d \<in> set ?pre. \<forall>s. rejects re_annotation (d # s)"
    by (auto intro!: rejects_annotation simp del: append.simps)
  have ds: "list_all is_digit ds" using f by (simp add: fields_ok_def)
  obtain g where g: "eats re_annotation ('') '' @ cycle_note ds @ mn) ('') '' @ cycle_note ds) g mn"
    using eats_annotation [OF mn ds] by blast
  have none: "search_from re_annotation p mn = None" for p
    using mn search_position_free [OF annotation_position_free, of None mn p]
    by (simp add: mnemo_ok_def re_search_def)
  have "rvfi_line (z @ a) (''0x'' @ h) (cycle_note ds) mn = ?pre @ '') '' @ cycle_note ds @ mn"
    by (simp add: rvfi_line_def)
  then have "annotate c (rvfi_line (z @ a) (''0x'' @ h) (cycle_note ds) mn) =
      ?pre @ sub_from re_annotation ?f (before None ?pre) ('') '' @ cycle_note ds @ mn)"
    by (simp only: annotate_def re_sub_def sub_from_skips [OF sk])
  also have "\<dots> = ?pre @ '') @ '' @ py_str c @ '' '' @ mn"
    using sub_from_eats [OF g] sub_from_none [OF none] by simp
  also have "\<dots> = rvfi_line (z @ a) (''0x'' @ h) (cycle_note (py_str c)) mn"
    using c by (simp add: rvfi_line_def cycle_note_def py_str_def signed_digits_def)
  finally show ?thesis .
qed

lemma rvfi_strip:
  assumes "mnemo_ok mn"
  shows "strip (rvfi_line addr hex ann mn) = rvfi_line addr hex ann mn"
  using assms by (intro strip_id) (simp_all add: rvfi_line_def mnemo_ok_def)

lemma parse_rvfi_line:
  assumes f: "fields_ok z a h ds" and mn: "mnemo_ok mn"
  defines "ln \<equiv> rvfi_line (z @ a) (''0x'' @ h) (cycle_note ds) mn"
  shows "parse_line n ln = rbind (mk_instruction n ln a (''0x'' @ h) mn) (\<lambda>i. ret (Some i))"
proof -
  obtain g where g: "eats re_instr ln ln g []" "match_group 2 g = Some a" "match_group 3 g = Some (''0x'' @ h)"
    "match_group 5 g = Some mn"
    using eats_re_instr [OF f mn] unfolding ln_def by blast
  have "strip ln = ln" unfolding ln_def by (rule rvfi_strip [OF mn])
  moreover have "found_groups re_instr ln = Some g"
    using eats_search [OF g(1)] by (simp add: found_groups_def)
  ultimately show ?thesis using g(2-4) by (simp add: parse_line_def)
qed

section \<open>The annotated line in \<open>cycle_diff.py\<close>\<close>

lemma eats_full_end:
  assumes "mnemo_ok mn" "ds \<noteq> []" "list_all is_digit ds"
  shows "eats (seqs [Group 4 (many (Sat (\<lambda>c. \<not> is_space c))), lit ''@'', spaces, Group 5 digits, spaces,
      Group 6 (many dot)]) (cycle_note ds @ mn) (cycle_note ds @ mn) [(4, []), (5, ds), (6, mn)] []"
proof -
  from assms(1) have mn: "mn \<noteq> []" "\<not> is_space (hd mn)" "newline \<notin> set mn" by (simp_all add: mnemo_ok_def)
  have 6: "eats (seqs [Group 6 (many dot)]) mn mn [(6, mn)] []" using eats_rest [OF mn(3)] by simp
  have 5: "eats spaces ('' '' @ mn) '' '' [] mn" using mn by (intro eats_spaces) simp_all
  have 4: "eats (Group 5 digits) (ds @ '' '' @ mn) ds [(5, ds)] ('' '' @ mn)"
    using eats_Group [OF eats_many1_run [of ds is_digit "'' '' @ mn"], of 5] assms(2,3)
    by (simp add: digits_def list_all_iff)
  have 3: "eats spaces ('' '' @ ds @ '' '' @ mn) '' '' [] (ds @ '' '' @ mn)"
    using list_all_hd [OF assms(3,2)] assms(2) by (intro eats_spaces) (auto simp: digit_not_space)
  have 2: "eats (lit ''@'') (''@'' @ '' '' @ ds @ '' '' @ mn) ''@'' [] ('' '' @ ds @ '' '' @ mn)" by (rule eats_lit)
  from eats_seqs_Cons [OF 2 eats_seqs_Cons [OF 3 eats_seqs_Cons [OF 4 eats_seqs_Cons [OF 5 6]]]]
  have e: "eats (seqs [lit ''@'', spaces, Group 5 digits, spaces, Group 6 (many dot)])
      (CHR ''@'' # '' '' @ ds @ '' '' @ mn) (''@ '' @ ds @ '' '' @ mn) [(5, ds), (6, mn)] []"
    by simp
  have "eats (Seq (Group 4 (many (Sat (\<lambda>c. \<not> is_space c))))
      (seqs [lit ''@'', spaces, Group 5 digits, spaces, Group 6 (many dot)]))
      (CHR ''@'' # '' '' @ ds @ '' '' @ mn) (''@ '' @ ds @ '' '' @ mn) ((4, []) # [(5, ds), (6, mn)]) []"
    by (intro eats_back_off_group e rejects_seqs rejects_lit) simp_all
  then show ?thesis using assms(2) by (simp add: cycle_note_def)
qed

lemma eats_re_full:
  assumes b: "b \<noteq> []" "list_all is_lhex b" and h: "h \<noteq> []" "list_all is_lhex h"
    and ds: "ds \<noteq> []" "list_all is_digit ds" and mn: "mnemo_ok mn"
  defines "ln \<equiv> rvfi_line (''00000000'' @ b) (''0x'' @ h) (cycle_note ds) mn"
  shows "\<exists>g. eats re_full ln ln g [] \<and> match_group 2 g = Some b \<and> match_group 4 g = Some []
    \<and> match_group 5 g = Some ds \<and> match_group 6 g = Some mn"
proof -
  let ?eol = "cycle_note ds @ mn"
  let ?s10 = "'')'' @ '' '' @ ?eol"
  let ?s9 = "(''0x'' @ h) @ ?s10"
  let ?s5 = "b @ '' ('' @ ?s9"
  note e = eats_full_end [OF mn ds]
  have hd: "\<not> is_space (hd ?eol)" using ds by (simp add: cycle_note_def)
  have 11: "eats spaces ('' '' @ ?eol) '' '' [] ?eol" using hd by (intro eats_spaces) simp_all
  have 10: "eats (lit '')'') ?s10 '')'' [] ('' '' @ ?eol)" by (rule eats_lit)
  have 9: "eats (Group 3 (many1 (Sat (\<lambda>c. is_lhex c \<or> c = CHR ''x'')))) ?s9 (''0x'' @ h) [(3, ''0x'' @ h)] ?s10"
    by (rule eats_hex_field [OF h])
  have 8: "eats (lit ''('') (''('' @ ?s9) ''('' [] ?s9" by (rule eats_lit)
  have 7: "eats spaces ('' '' @ ''('' @ ?s9) '' '' [] (''('' @ ?s9)" by (intro eats_spaces) simp_all
  have 6: "eats (Group 2 (many1 (Sat is_lhex))) ?s5 b [(2, b)] ('' '' @ ''('' @ ?s9)"
    using eats_addr_field [OF b, of ?s9] by simp
  have 4: "eats (lit ''0x00000000'') (''0x00000000'' @ ?s5) ''0x00000000'' [] ?s5" by (rule eats_lit)
  have 3: "eats spaces ('' '' @ ''0x00000000'' @ ?s5) '' '' [] (''0x00000000'' @ ?s5)"
    by (intro eats_spaces) simp_all
  have 2: "eats (lit ''0:'') (''0:'' @ '' '' @ ''0x00000000'' @ ?s5) ''0:'' [] ('' '' @ ''0x00000000'' @ ?s5)"
    by (rule eats_lit)
  have 1: "eats spaces1 (''   '' @ ''0:'' @ '' '' @ ''0x00000000'' @ ?s5) ''   '' []
      (''0:'' @ '' '' @ ''0x00000000'' @ ?s5)" by (rule eats_gap) simp
  have e': "eats (seqs [seqs [Group 4 (many (Sat (\<lambda>c. \<not> is_space c))), lit ''@'', spaces, Group 5 digits,
      spaces, Group 6 (many dot)]]) ?eol ?eol [(4, []), (5, ds), (6, mn)] []" using e by simp
  note all = eats_seqs_Cons [OF eats_core eats_seqs_Cons [OF 1 eats_seqs_Cons [OF 2 eats_seqs_Cons [OF 3
      eats_seqs_Cons [OF 4 eats_seqs_Cons [OF 6 eats_seqs_Cons [OF 7 eats_seqs_Cons [OF 8
      eats_seqs_Cons [OF 9 eats_seqs_Cons [OF 10 eats_seqs_Cons [OF 11 e']]]]]]]]]]]
  show ?thesis
    using all
    by (intro exI [of _ "[(1, ''core''), (2, b), (3, ''0x'' @ h), (4, []), (5, ds), (6, mn)]"])
      (simp add: re_full_def ln_def rvfi_line_def match_group_def del: One_nat_def)
qed

text \<open>The same line for the pattern of \<open>profile.py\<close>.\<close>

lemma eats_re_instr_cycle:
  assumes b: "b \<noteq> []" "list_all is_lhex b" and h: "h \<noteq> []" "list_all is_lhex h"
    and ds: "ds \<noteq> []" "list_all is_digit ds" and mn: "mnemo_ok mn"
  defines "ln \<equiv> rvfi_line (''00000000'' @ b) (''0x'' @ h) (cycle_note ds) mn"
  shows "\<exists>g. eats re_instr_cycle ln ln g [] \<and> match_group 2 g = Some b \<and> match_group 3 g = Some (''0x'' @ h)
    \<and> match_group 4 g = Some ds \<and> match_group 5 g = Some mn"
proof -
  from mn have m: "mn \<noteq> []" "\<not> is_space (hd mn)" "newline \<notin> set mn" by (simp_all add: mnemo_ok_def)
  let ?s14 = "ds @ '' '' @ mn"
  let ?s11 = "'' '' @ ''@'' @ '' '' @ ?s14"
  let ?s9 = "(''0x'' @ h) @ '')'' @ ?s11"
  let ?s5 = "b @ '' ('' @ ?s9"
  have 16: "eats (seqs [Group 5 (many dot)]) mn mn [(5, mn)] []" using eats_rest [OF m(3)] by simp
  have 15: "eats spaces ('' '' @ mn) '' '' [] mn" using m by (intro eats_spaces) simp_all
  have 14: "eats (Group 4 digits) ?s14 ds [(4, ds)] ('' '' @ mn)"
    using eats_Group [OF eats_many1_run [of ds is_digit "'' '' @ mn"], of 4] ds by (simp add: digits_def list_all_iff)
  have 13: "eats spaces ('' '' @ ?s14) '' '' [] ?s14"
    using list_all_hd [OF ds(2,1)] ds(1) by (intro eats_spaces) (auto simp: digit_not_space)
  have 12: "eats (lit ''@'') (''@'' @ '' '' @ ?s14) ''@'' [] ('' '' @ ?s14)" by (rule eats_lit)
  have 11: "eats spaces ?s11 '' '' [] (''@'' @ '' '' @ ?s14)" by (intro eats_spaces) simp_all
  have 10: "eats (lit '')'') ('')'' @ ?s11) '')'' [] ?s11" by (rule eats_lit)
  have 9: "eats (Group 3 (many1 (Sat (\<lambda>c. is_lhex c \<or> c = CHR ''x'')))) ?s9 (''0x'' @ h) [(3, ''0x'' @ h)] ('')'' @ ?s11)"
    by (rule eats_hex_field [OF h])
  have 8: "eats (lit ''('') (''('' @ ?s9) ''('' [] ?s9" by (rule eats_lit)
  have 7: "eats spaces ('' '' @ ''('' @ ?s9) '' '' [] (''('' @ ?s9)" by (intro eats_spaces) simp_all
  have 6: "eats (Group 2 (many1 (Sat is_lhex))) ?s5 b [(2, b)] ('' '' @ ''('' @ ?s9)"
    using eats_addr_field [OF b, of ?s9] by simp
  have 4: "eats (lit ''0x00000000'') (''0x00000000'' @ ?s5) ''0x00000000'' [] ?s5" by (rule eats_lit)
  have 3: "eats spaces ('' '' @ ''0x00000000'' @ ?s5) '' '' [] (''0x00000000'' @ ?s5)"
    by (intro eats_spaces) simp_all
  have 2: "eats (lit ''0:'') (''0:'' @ '' '' @ ''0x00000000'' @ ?s5) ''0:'' [] ('' '' @ ''0x00000000'' @ ?s5)"
    by (rule eats_lit)
  have 1: "eats spaces1 (''   '' @ ''0:'' @ '' '' @ ''0x00000000'' @ ?s5) ''   '' []
      (''0:'' @ '' '' @ ''0x00000000'' @ ?s5)" by (rule eats_gap) simp
  note all = eats_seqs_Cons [OF eats_core eats_seqs_Cons [OF 1 eats_seqs_Cons [OF 2 eats_seqs_Cons [OF 3
      eats_seqs_Cons [OF 4 eats_seqs_Cons [OF 6 eats_seqs_Cons [OF 7 eats_seqs_Cons [OF 8
      eats_seqs_Cons [OF 9 eats_seqs_Cons [OF 10 eats_seqs_Cons [OF 11 eats_seqs_Cons [OF 12
      eats_seqs_Cons [OF 13 eats_seqs_Cons [OF 14 eats_seqs_Cons [OF 15 16]]]]]]]]]]]]]]]
  show ?thesis
    using all ds
    by (intro exI [of _ "[(1, ''core''), (2, b), (3, ''0x'' @ h), (4, ds), (5, mn)]"])
      (simp add: re_instr_cycle_def ln_def rvfi_line_def cycle_note_def match_group_def del: One_nat_def)
qed

lemma profiled_line:
  assumes b: "b \<noteq> []" "list_all is_lhex b" and h: "h \<noteq> []" "list_all is_lhex h" and c: "0 \<le> c" and mn: "mnemo_ok mn"
  defines "ln \<equiv> rvfi_line (''00000000'' @ b) (''0x'' @ h) (cycle_note (py_str c)) mn"
  shows "rvfi_from_lines (ln # ls) = rbind (py_int 16 b) (\<lambda>address. rbind (py_int 16 (''0x'' @ h)) (\<lambda>op.
    rbind (mk_rvfi address c op (hd (split_char (CHR '' '') mn)) ln (case ls of [] \<Rightarrow> None | l # _ \<Rightarrow> Some l)) (\<lambda>i.
    rbind (rvfi_from_lines ls) (\<lambda>is. ret (i # is)))))"
proof -
  have ds: "py_str c \<noteq> []" "list_all is_digit (py_str c)" using py_str_digits [OF c] by simp_all
  obtain g where g: "eats re_instr_cycle ln ln g []" "match_group 2 g = Some b" "match_group 3 g = Some (''0x'' @ h)"
    "match_group 4 g = Some (py_str c)" "match_group 5 g = Some mn"
    using eats_re_instr_cycle [OF b h ds mn] unfolding ln_def by blast
  have "strip ln = ln" unfolding ln_def by (rule rvfi_strip [OF mn])
  moreover have "found_groups re_instr_cycle ln = Some g" using eats_search [OF g(1)] by (simp add: found_groups_def)
  ultimately show ?thesis using g(2-5) by (simp add: py_int_py_str)
qed

lemma full_line:
  assumes b: "b \<noteq> []" "list_all is_lhex b" and h: "h \<noteq> []" "list_all is_lhex h"
    and c: "0 \<le> c" and mn: "mnemo_ok mn"
  shows "trace_of_line (rvfi_line (''00000000'' @ b) (''0x'' @ h) (cycle_note (py_str c)) mn) =
    Inr (Some \<lparr>t_addr = b, t_cycle = c, t_mnemo = mn, t_flags = [], t_delta = None\<rparr>)"
proof -
  let ?ln = "rvfi_line (''00000000'' @ b) (''0x'' @ h) (cycle_note (py_str c)) mn"
  have ds: "py_str c \<noteq> []" "list_all is_digit (py_str c)" using py_str_digits [OF c] by simp_all
  obtain g where g: "eats re_full ?ln ?ln g []" "match_group 2 g = Some b" "match_group 4 g = Some []"
    "match_group 5 g = Some (py_str c)" "match_group 6 g = Some mn"
    using eats_re_full [OF b h ds mn] by blast
  have "found_groups re_full (strip ?ln) = Some g"
    using eats_search [OF g(1)] by (simp add: found_groups_def rvfi_strip [OF mn])
  with g(2-5) show ?thesis by (simp add: trace_of_line_def py_int_py_str)
qed

section \<open>After a completed run\<close>

lemma write_trace_total:
  assumes "\<forall>i \<in> set is. retired_life n m i"
  shows "\<exists>ls. mapR (annotate_instr (events m)) is = Inr ls \<and>
    ls = map (\<lambda>i. annotate (cycle (last (events m (iid i)))) (line i) @ [newline]) is"
proof -
  have "annotate_instr (events m) i = Inr (annotate (cycle (last (events m (iid i)))) (line i) @ [newline])"
    if "i \<in> set is" for i
    using assms that by (auto simp: retired_life_def annotate_instr_def)
  then have "mapR (annotate_instr (events m)) is =
      Inr (map (\<lambda>i. annotate (cycle (last (events m (iid i)))) (line i) @ [newline]) is)"
    by (rule mapR_total)
  then show ?thesis by blast
qed

lemma commit_cycles_sorted:
  "sorted (map (cycle \<circ> fst) l) \<Longrightarrow> sorted (map (cycle \<circ> fst) (filter P l))"
  by (rule sorted_filter)

lemma first_last_commit:
  assumes l: "log_inv trace cfg n m" and pr: "projected m" and q: "instr_queue m = []" "scoreboard m = []"
    and ne: "trace \<noteq> []"
  shows "\<exists>e e'. e \<in> set (events m (iid (hd trace))) \<and> kind e = EK_commit
    \<and> e' \<in> set (events m (iid (last trace))) \<and> kind e' = EK_commit \<and> cycle e \<le> cycle e'"
proof -
  let ?cs = "filter (\<lambda>(e, i). kind e = EK_commit) (log m)"
  have t: "map snd ?cs = trace"
    using l q by (simp add: log_inv_def commits_of_def abs_model_def)
  with ne have cs: "?cs \<noteq> []" by auto
  have s: "sorted (map (cycle \<circ> fst) ?cs)" using l commit_cycles_sorted by (auto simp: log_inv_def)
  obtain e where e: "hd ?cs = (e, hd trace)" using t cs by (metis hd_map prod.collapse)
  obtain e' where e': "last ?cs = (e', last trace)" using t cs by (metis last_map prod.collapse)
  have in1: "(e, hd trace) \<in> set ?cs" using e cs by (metis hd_in_set)
  have in2: "(e', last trace) \<in> set ?cs" using e' cs by (metis last_in_set)
  have "(cycle \<circ> fst) (hd ?cs) \<le> (cycle \<circ> fst) (last ?cs)"
  proof (cases ?cs)
    case (Cons x xs)
    then show ?thesis using s by (cases xs rule: rev_cases) auto
  qed (use cs in simp)
  then have "cycle e \<le> cycle e'" by (simp add: e e')
  moreover have "x \<in> set (events m (iid i))" if "(x, i) \<in> set ?cs" for x i
    using that pr by (force simp: projected_def events_of_def)
  ultimately show ?thesis using in1 in2 by fastforce
qed

lemma life_mem: "kind e \<in> {EK_issue, EK_done, EK_commit} \<Longrightarrow> e \<in> set es \<longleftrightarrow> e \<in> set (life es)"
  by (auto simp: life_def)

lemma py_min_le: "x \<in> set xs \<Longrightarrow> \<exists>v. py_min xs = Inr v \<and> v \<le> x"
  by (auto simp: py_min_def)

lemma py_max_ge: "x \<in> set xs \<Longrightarrow> \<exists>v. py_max xs = Inr v \<and> x \<le> v"
  by (auto simp: py_max_def)

lemma count_cycles_positive:
  assumes l: "log_inv trace cfg n m" and pr: "projected m" and q: "instr_queue m = []" "scoreboard m = []"
    and ne: "trace \<noteq> []" and life: "\<forall>i \<in> set trace. retired_life k m i"
  shows "\<exists>c. count_cycles (events m) trace = Inr c \<and> 2 \<le> c"
proof -
  obtain e e' where e: "e \<in> set (events m (iid (hd trace)))" "kind e = EK_commit"
    "e' \<in> set (events m (iid (last trace)))" "kind e' = EK_commit" "cycle e \<le> cycle e'"
    using first_last_commit [OF l pr q ne] by blast
  obtain a b where ab: "a + exec_duration (hd trace) < b"
    "life (events m (iid (hd trace))) = [ev EK_issue a, ev EK_done (a + exec_duration (hd trace)), ev EK_commit b]"
    using life ne by (fastforce simp: retired_life_def)
  have "e \<in> set (life (events m (iid (hd trace))))" using e(1,2) by (subst life_mem [symmetric]) simp_all
  with ab(2) e(2) have b: "cycle e = b" by auto
  have "ev EK_issue a \<in> set (events m (iid (hd trace)))" by (subst life_mem) (simp_all add: ab(2))
  then obtain lo where lo: "py_min (map cycle (events m (iid (hd trace)))) = Inr lo" "lo \<le> a"
    using py_min_le [of a "map cycle (events m (iid (hd trace)))"] by force
  obtain hi where hi: "py_max (map cycle (events m (iid (last trace)))) = Inr hi" "cycle e' \<le> hi"
    using py_max_ge [of "cycle e'" "map cycle (events m (iid (last trace)))"] e(3) by force
  show ?thesis using lo hi ab(1) b e(5) exec_duration_pos(1) [of "hd trace"] ne
    by (simp add: count_cycles_def)
qed

section \<open>Properties\<close>

text \<open>
  C9: Annotating a trace keeps it readable. On every line the RVFI tracer prints, with or
  without a cycle annotation, \<open>write_trace\<close> sets the annotation and nothing else: annotating again
  replaces it, \<open>load_file\<close> reads the same instruction from the line, \<open>cycle_diff.py\<close> reads the
  cycle written, the address and the mnemonic, and the profiler the cycle, the address, the instruction and its name
  (for a load or store it also needs a line with the address of the access behind it).
\<close>

theorem annotated_line_readable:
  assumes "fields_ok z a h ds" "mnemo_ok mn" "0 \<le> c" "0 \<le> c'"
    and "z @ a = ''00000000'' @ b" "b \<noteq> []"
  defines "ln \<equiv> rvfi_line (z @ a) (''0x'' @ h) (cycle_note ds) mn"
  shows "annotate c' (annotate c ln) = annotate c' ln
    \<and> parse_line n ln = rbind (mk_instruction n ln a (''0x'' @ h) mn) (\<lambda>i. ret (Some i))
    \<and> parse_line n (annotate c ln) =
        rbind (mk_instruction n (annotate c ln) a (''0x'' @ h) mn) (\<lambda>i. ret (Some i))
    \<and> trace_of_line (annotate c ln) =
        Inr (Some \<lparr>t_addr = b, t_cycle = c, t_mnemo = mn, t_flags = [], t_delta = None\<rparr>)
    \<and> rvfi_from_lines (annotate c ln # ls) =
        rbind (py_int 16 b) (\<lambda>address. rbind (py_int 16 (''0x'' @ h)) (\<lambda>op.
        rbind (mk_rvfi address c op (hd (split_char (CHR '' '') mn)) (annotate c ln)
          (case ls of [] \<Rightarrow> None | l # _ \<Rightarrow> Some l)) (\<lambda>i.
        rbind (rvfi_from_lines ls) (\<lambda>is. ret (i # is)))))"
proof -
  have f': "fields_ok z a h (py_str c)" using assms(1) py_str_digits [OF assms(3)] by (simp add: fields_ok_def)
  have "list_all is_lhex (z @ a)" using assms(1) by (auto simp: fields_ok_def list_all_iff)
  then have b: "list_all is_lhex b" unfolding assms(5) by simp
  have h: "h \<noteq> []" "list_all is_lhex h" using assms(1) by (simp_all add: fields_ok_def)
  show ?thesis
    using annotate_line [OF assms(1,2,3)] annotate_line [OF assms(1,2,4)] annotate_line [OF f' assms(2,4)]
      parse_rvfi_line [OF assms(1,2)] parse_rvfi_line [OF f' assms(2)]
      full_line [OF assms(6) b h assms(3,2), folded assms(5)] profiled_line [OF assms(6) b h assms(3,2), of ls, folded assms(5)]
    by (simp add: ln_def)
qed

lemma annotated_line_readable_witness:
  "trace_of_line (annotate 17 (''core   0: 0x0000000080000104 (0x00008067) ret'')) =
    Inr (Some \<lparr>t_addr = ''80000104'', t_cycle = 17, t_mnemo = ''ret'', t_flags = [], t_delta = None\<rparr>)"
proof -
  have "fields_ok ''00000000'' ''80000104'' ''00008067'' []"
    by (simp add: fields_ok_def is_lhex_def is_digit_def)
  moreover have "mnemo_ok ''ret''" by code_simp
  ultimately show ?thesis
    using annotated_line_readable [of "''00000000''" "''80000104''" "''00008067''" "[]" "''ret''" 17 0 "''80000104''" 0]
    by (simp add: rvfi_line_def cycle_note_def)
qed

text \<open>
  C8: \<open>main\<close> of the model succeeds. On every trace file whose lines parse, that is not empty and
  contains only instructions the decoder knows, the run ends, the assertion of \<open>write_trace\<close> on
  the last event never fails, and the statistics count a positive number of cycles (no division
  by zero); the annotated file has one line for every instruction of the trace, in order.
\<close>

theorem main_succeeds:
  assumes "parse_lines 0 (read_lines text) = Inr is" "is \<noteq> []" "\<forall>i \<in> set is. \<not> isl (fields_of i)"
  shows "\<exists>out s cs. model_main text = Some (Inr (out, s)) \<and> st_instrs s = length is \<and> 2 \<le> st_cycles s
    \<and> length cs = length is
    \<and> out = concat (map (\<lambda>(c, i). annotate c (line i) @ [newline]) (zip cs is))"
proof -
  let ?m = "load (model_init 2 2 8 None True True) is"
  obtain res where res: "run_loop None 0 ?m = Some res"
    using run_terminates [OF live_load [of 2 2 8 None True True "is"]] by auto
  have "\<forall>i \<in> set is. known i" using assms(3) by (simp add: known_def)
  then have "\<not> isl res" using run_known_returns [OF res known_load] by simp
  then obtain m' n where r: "run None ?m = Some (Inr (m', n))" using res by (cases res) (auto simp: run_def)
  have d: "distinct (map iid is)" using parse_lines_iids [OF assms(1)] by simp
  note c = completed_run [OF r]
  have life: "\<forall>i \<in> set is. retired_life (n - 1) m' i" using c(6) d by blast
  obtain k where k: "count_cycles (events m') is = Inr k" "2 \<le> k"
    using count_cycles_positive [OF c(1,5,3,4) assms(2) life] by blast
  let ?cs = "map (\<lambda>i. cycle (last (events m' (iid i)))) is"
  have w: "write_trace (events m') is = Inr (concat (map (\<lambda>(c, i). annotate c (line i) @ [newline]) (zip ?cs is)))"
    using write_trace_total [OF life] by (auto simp: write_trace_def zip_map1 zip_same_conv_map o_def)
  have "load_file (model_init 2 2 8 None True True) text = Inr ?m" using assms(1) by (simp add: load_file_def)
  then have "model_main text = Some (Inr (concat (map (\<lambda>(c, i). annotate c (line i) @ [newline]) (zip ?cs is)),
      \<lparr>st_cycles = k, st_instrs = length is, st_events = count_events (events m') is\<rparr>))"
    using r w k c(2) by (simp add: model_main_def print_stats_def)
  then show ?thesis using k(2) by (intro exI [of _ ?cs] exI) (auto intro!: exI)
qed

lemma main_succeeds_witness:
  "\<exists>out s. model_main (''core   0: 0x0000000080000104 (0x00000013) nop'') = Some (Inr (out, s))
    \<and> st_instrs s = 1"
proof -
  let ?t = "''core   0: 0x0000000080000104 (0x00000013) nop''"
  let ?i = "\<lparr>bin = 0x13, iid = 0, line = ?t, address = 0x80000104, hex_code = ''0x00000013'', mnemo = ''nop''\<rparr>"
  have f: "fields_ok ''00000000'' ''80000104'' ''00000013'' []"
    by (simp add: fields_ok_def is_lhex_def is_digit_def)
  have m: "mnemo_ok ''nop''" by code_simp
  have l: "rvfi_line (''00000000'' @ ''80000104'') (''0x'' @ ''00000013'') (cycle_note []) ''nop'' = ?t"
    by (simp add: rvfi_line_def cycle_note_def)
  have "mk_instruction 0 ?t ''80000104'' (''0x'' @ ''00000013'') ''nop'' = Inr ?i" by code_simp
  with parse_rvfi_line [OF f m, of 0] have "parse_line 0 ?t = Inr (Some ?i)" unfolding l by simp
  moreover have "read_lines ?t = [?t]" by code_simp
  ultimately have p: "parse_lines 0 (read_lines ?t) = Inr [?i]" by simp
  have "\<not> isl (fields_of ?i)" by code_simp
  then have k: "\<forall>i \<in> set [?i]. \<not> isl (fields_of i)" by simp
  from main_succeeds [OF p _ k] show ?thesis by auto
qed

lemma timed_fold:
  "foldl timed_step ([], False) is =
    (map (\<lambda>k. is ! k) (filter (\<lambda>k. \<not> is_minstret (is ! k) \<and> odd (length (filter is_minstret (take k is))))
       [0..<length is]), odd (length (filter is_minstret is)))"
proof (induction "is" rule: rev_induct)
  case (snoc i "is")
  have p: "filter (\<lambda>k. \<not> is_minstret ((is @ [i]) ! k) \<and> odd (length (filter is_minstret (take k (is @ [i])))))
      [0..<length is] = filter (\<lambda>k. \<not> is_minstret (is ! k) \<and> odd (length (filter is_minstret (take k is))))
      [0..<length is]" (is "?l = ?r")
    by (intro filter_cong) (auto simp: nth_append)
  have "map (\<lambda>k. (is @ [i]) ! k) ?r = map (\<lambda>k. is ! k) ?r" by (auto simp: nth_append)
  with p snoc show ?case by (auto simp: timed_step_def)
qed simp

text \<open>
  \<open>filter_timed_part\<close> keeps, in order, exactly the instructions that follow an odd number of
  reads of \<open>minstret\<close> and are not such a read themselves.
\<close>

lemma timed_part:
  "filter_timed_part is =
    map (\<lambda>k. is ! k) (filter (\<lambda>k. \<not> is_minstret (is ! k) \<and> odd (length (filter is_minstret (take k is))))
       [0..<length is])"
  unfolding filter_timed_part_def timed_fold by simp

lemma deltas_sum:
  "ts \<noteq> [] \<Longrightarrow> sum_list (map (\<lambda>t. the (t_delta t)) (deltas c ts)) = t_cycle (last ts) - c"
  by (induction c ts rule: deltas.induct) auto

lemma deltas_same:
  "map t_cycle (deltas c ts) = map t_cycle ts" "map t_addr (deltas c ts) = map t_addr ts"
  "length (deltas c ts) = length ts"
  by (induction c ts rule: deltas.induct) auto

text \<open>
  The durations \<open>cycle_diff.py\<close> attributes to the instructions add up: the first is 0, and
  their sum is the cycle number it prints less one; addresses and order are kept.
\<close>

lemma cycle_diff_adds_up:
  assumes "read_traces text = Inr ts" "diff_main text = Inr (cycles, n, out)"
  shows "n = length ts \<and> (\<exists>ds. out = write_traces ds \<and> map t_addr ds = map t_addr ts
    \<and> the (t_delta (hd ds)) = 0 \<and> sum_list (map (\<lambda>t. the (t_delta t)) ds) = cycles - 1)"
proof -
  from assms have ne: "ts \<noteq> []" and e: "cycles = t_cycle (last ts) - t_cycle (hd ts) + 1"
    "n = length ts" "out = write_traces (deltas (t_cycle (hd ts)) ts)"
    by (auto simp: diff_main_def Let_def deltas_same split: if_splits)
  let ?ds = "deltas (t_cycle (hd ts)) ts"
  have "the (t_delta (hd ?ds)) = 0" using ne by (cases ts) auto
  then show ?thesis using e deltas_sum [OF ne] deltas_same by (intro conjI exI [of _ ?ds]) simp_all
qed


lemma strip_snoc: "is_space c \<Longrightarrow> strip (x @ [c]) = strip x"
proof (cases "\<forall>d \<in> set x. is_space d")
  case True
  assume "is_space c"
  with True have "dropWhile is_space x = []" "dropWhile is_space (x @ [c]) = []" by auto
  then show ?thesis by (simp only: strip_def lstrip_def)
qed (auto simp: strip_def rstrip_def lstrip_def dropWhile_append)

lemma cycle_diff_adds_up_witness:
  "\<exists>text n out. diff_main text = Inr (4, n, out) \<and> n = 2"
proof -
  let ?l = "\<lambda>c mn. rvfi_line (''00000000'' @ ''80000104'') (''0x'' @ ''00000013'') (cycle_note (py_str c)) mn"
  let ?t = "\<lambda>c mn. \<lparr>t_addr = ''80000104'', t_cycle = c, t_mnemo = mn, t_flags = [], t_delta = None\<rparr>"
  let ?text = "?l 2 ''csrr a0, minstret'' @ [newline] @ ?l 5 ''nop'' @ [newline] @ ?l 8 ''ret''"
  have ok: "mnemo_ok ''csrr a0, minstret''" "mnemo_ok ''nop''" "mnemo_ok ''ret''" by code_simp+
  have l: "trace_of_line (?l c mn) = Inr (Some (?t c mn))" if "mnemo_ok mn" "0 \<le> c" for c mn
    by (rule full_line) (use that in \<open>simp_all add: is_lhex_def is_digit_def\<close>)
  have nl: "trace_of_line (x @ [newline]) = trace_of_line x" for x
    by (simp add: trace_of_line_def strip_snoc)
  have rd: "read_lines ?text = [?l 2 ''csrr a0, minstret'' @ [newline], ?l 5 ''nop'' @ [newline], ?l 8 ''ret'']"
    by code_simp
  have m: "re_search re_csrr_minstret1 ''csrr a0, minstret'' \<noteq> None" "re_search re_csrr_minstret1 ''nop'' = None"
    "re_search re_csrr_minstret1 ''ret'' = None" by code_simp+
  have ts: "read_traces ?text = Inr [?t 5 ''nop'', ?t 8 ''ret'']"
    unfolding read_traces_def rd using m
    by (simp add: nl filter_add_def l [OF ok(1), of 2, simplified] l [OF ok(2), of 5, simplified]
        l [OF ok(3), of 8, simplified])
  have d: "\<exists>out. diff_main ?text = Inr (4, 2, out)"
    unfolding diff_main_def ts rbind.simps by (simp add: Let_def deltas_same)
  then obtain out where o: "diff_main ?text = Inr (4, 2, out)" by blast
  from cycle_diff_adds_up [OF ts o] o show ?thesis by blast
qed

end
