(* ===== verification/Profile_Facts.thy ===== *)
theory Profile_Facts
  imports Profile
begin

text \<open>
  What the profiler's numbers mean: the events cut the run into consecutive pieces, their stacks
  form a path of calls and returns, and the statistics give every cycle to one function.
\<close>

section \<open>The events of a run\<close>

lemma number_snoc: "number k (xs @ [x]) = number k xs @ [(k + int (length xs), x)]"
  by (induction xs arbitrary: k) auto

lemma map_snd_number [simp]: "map snd (number k xs) = xs"
  by (induction xs arbitrary: k) auto

lemma run_all_snoc:
  "foldl run_step s (number 0 (is @ [i])) = run_step (foldl run_step s (number 0 is)) (int (length is), i)"
  by (simp add: number_snoc)

definition after_run :: "asm_func list \<Rightarrow> rvfi_instr list \<Rightarrow> run_state" where
  "after_run fns is = foldl run_step (run_init fns) (number 0 is)"

lemma after_run_Nil: "after_run fns [] = run_init fns"
  by (simp add: after_run_def)

lemma after_run_snoc: "after_run fns (is @ [i]) = run_step (after_run fns is) (int (length is), i)"
  by (simp add: after_run_def run_all_snoc)

lemma run_all_after: "run_all fns is = rs_events (after_run fns is)"
  by (simp add: run_all_def after_run_def)

text \<open>One step: the executed instructions grow, and an event closes the piece.\<close>

definition executed_next :: "run_state \<Rightarrow> rvfi_instr \<Rightarrow> (string \<times> (int \<times> int)) list" where
  "executed_next s i =
     (let (c, t) = dict_get_or (rs_executed s) (ri_name i) (0, 0)
      in AList.update (ri_name i) (c + 1, t + (ri_cycle i - rs_instr_cycle s)) (rs_executed s))"

definition event_of :: "run_state \<Rightarrow> int \<Rightarrow> rvfi_instr \<Rightarrow> pevent" where
  "event_of s k i = \<lparr>ev_stack = stack_names (rs_cs s), ev_instr = i,
     ev_duration = ri_cycle i - rs_event_cycle s, ev_icount = k - rs_event_i s,
     ev_executed = executed_next s i\<rparr>"

lemma cs_run_cases:
  obtains (same) "cs_run cs i = (None, cs)"
  | (call) f where "cs_run cs i = (Some \<lparr>re_stack = stack_names cs, re_cycle = ri_cycle i\<rparr>,
      cs\<lparr>cs_stack := cs_stack cs @ [f]\<rparr>)"
  | (pop) "cs_stack cs \<noteq> []" "cs_run cs i = (Some \<lparr>re_stack = stack_names cs, re_cycle = ri_cycle i\<rparr>,
      cs\<lparr>cs_stack := butlast (cs_stack cs)\<rparr>)"
proof (cases "map_of (cs_fns cs) (ri_address i)")
  case None
  show thesis
  proof (cases "cs_stack cs \<noteq> [] \<and> \<not> contains_addr (last (cs_stack cs)) (ri_address i)
      \<and> (\<exists>f \<in> set (map snd (cs_fns cs)). contains_addr f (ri_address i))")
    case True
    with None show thesis by (intro pop) (simp_all add: cs_run_def)
  next
    case False
    with None show thesis by (intro same) (auto simp: cs_run_def Let_def)
  qed
next
  case (Some f)
  then show thesis by (intro call) (simp add: cs_run_def)
qed

lemma run_step_quiet:
  "cs_run (rs_cs s) i = (None, cs) \<Longrightarrow>
    run_step s (k, i) = s\<lparr>rs_executed := executed_next s i, rs_instr_cycle := ri_cycle i, rs_cs := cs\<rparr>"
  by (simp add: run_step_def executed_next_def dict_get_or_def Let_def split: prod.splits)

lemma run_step_event:
  "cs_run (rs_cs s) i = (Some \<lparr>re_stack = stack_names (rs_cs s), re_cycle = ri_cycle i\<rparr>, cs) \<Longrightarrow>
    run_step s (k, i) = \<lparr>rs_events = rs_events s @ [event_of s k i], rs_cs = cs,
      rs_event_cycle = ri_cycle i, rs_event_i = k, rs_instr_cycle = ri_cycle i, rs_executed = []\<rparr>"
  by (simp add: run_step_def event_of_def executed_next_def dict_get_or_def Let_def split: prod.splits)

text \<open>The invariants of the loop of \<open>run_all\<close> live in one rule.\<close>

lemma after_run_induct [case_names Nil quiet event]:
  assumes "P [] (run_init fns)"
    and "\<And>is i s. P is s \<Longrightarrow> cs_run (rs_cs s) i = (None, rs_cs s) \<Longrightarrow>
      P (is @ [i]) (s\<lparr>rs_executed := executed_next s i, rs_instr_cycle := ri_cycle i\<rparr>)"
    and "\<And>is i s cs. P is s \<Longrightarrow>
      (\<exists>f. cs_stack cs = cs_stack (rs_cs s) @ [f]) \<or>
        cs_stack (rs_cs s) \<noteq> [] \<and> cs_stack cs = butlast (cs_stack (rs_cs s)) \<Longrightarrow>
      P (is @ [i]) \<lparr>rs_events = rs_events s @ [event_of s (int (length is)) i], rs_cs = cs,
        rs_event_cycle = ri_cycle i, rs_event_i = int (length is), rs_instr_cycle = ri_cycle i,
        rs_executed = []\<rparr>"
  shows "P is (after_run fns is)"
proof (induction "is" rule: rev_induct)
  case Nil
  with assms(1) show ?case by (simp add: after_run_Nil)
next
  case (snoc i "is")
  let ?s = "after_run fns is"
  show ?case
  proof (cases rule: cs_run_cases [of "rs_cs ?s" i])
    case same
    have "run_step ?s (int (length is), i)
        = ?s\<lparr>rs_executed := executed_next ?s i, rs_instr_cycle := ri_cycle i\<rparr>"
      by (simp add: run_step_quiet [OF same])
    then show ?thesis using assms(2) [OF snoc same] by (simp add: after_run_snoc)
  next
    case (call f)
    show ?thesis unfolding after_run_snoc run_step_event [OF call]
      by (rule assms(3) [OF snoc]) simp
  next
    case pop
    show ?thesis unfolding after_run_snoc run_step_event [OF pop(2)]
      by (rule assms(3) [OF snoc]) (simp add: pop(1))
  qed
qed

lemma executed_weight:
  assumes "dict_ok (rs_executed s)"
  shows "dict_ok (executed_next s i)"
    "weight snd (executed_next s i) = weight snd (rs_executed s) + (ri_cycle i - rs_instr_cycle s)"
    "weight fst (executed_next s i) = weight fst (rs_executed s) + 1"
  using assms
  by (auto simp: executed_next_def Let_def dict_get_or_def weight_update split: option.split prod.split)

definition run_sums :: "rvfi_instr list \<Rightarrow> run_state \<Rightarrow> bool" where
  "run_sums is s \<longleftrightarrow>
     dict_ok (rs_executed s) \<and> weight snd (rs_executed s) = rs_instr_cycle s - rs_event_cycle s
     \<and> weight fst (rs_executed s) = int (length is) - (if rs_events s = [] then 0 else rs_event_i s + 1)
     \<and> (\<Sum>e\<leftarrow>rs_events s. ev_duration e) = rs_event_cycle s
     \<and> (\<Sum>e\<leftarrow>rs_events s. ev_icount e) = rs_event_i s"

lemma run_sums_holds: "run_sums is (after_run fns is)"
proof (induction rule: after_run_induct)
  case Nil
  then show ?case by (simp add: run_sums_def run_init_def)
next
  case (quiet "is" i s)
  from quiet(1) executed_weight [of s i] show ?case by (simp add: run_sums_def)
next
  case (event "is" i s cs)
  from event(1) show ?case by (auto simp: run_sums_def event_of_def)
qed

definition events_account :: "rvfi_instr list \<Rightarrow> run_state \<Rightarrow> bool" where
  "events_account is s \<longleftrightarrow> (\<forall>n < length (rs_events s).
     \<exists>k < length is. is ! k = ev_instr (rs_events s ! n)
       \<and> (\<Sum>e\<leftarrow>take (Suc n) (rs_events s). ev_duration e) = ri_cycle (is ! k)
       \<and> (\<Sum>e\<leftarrow>take (Suc n) (rs_events s). ev_icount e) = int k)"

lemma events_account_holds: "run_sums is (after_run fns is) \<and> events_account is (after_run fns is)"
proof (induction rule: after_run_induct)
  case Nil
  then show ?case by (simp add: run_sums_def events_account_def run_init_def)
next
  case (quiet "is" i s)
  then have "run_sums is s" "events_account is s" by simp_all
  with \<open>events_account is s\<close> have "events_account (is @ [i]) s"
    unfolding events_account_def by (auto simp: nth_append intro: less_SucI)
  moreover from \<open>run_sums is s\<close> executed_weight [of s i]
  have "run_sums (is @ [i]) (s\<lparr>rs_executed := executed_next s i, rs_instr_cycle := ri_cycle i\<rparr>)"
    by (simp add: run_sums_def)
  ultimately show ?case by (simp add: events_account_def)
next
  case (event "is" i s cs)
  then have a: "run_sums is s" "events_account is s" by simp_all
  let ?e = "event_of s (int (length is)) i"
  let ?t = "\<lparr>rs_events = rs_events s @ [?e], rs_cs = cs, rs_event_cycle = ri_cycle i,
    rs_event_i = int (length is), rs_instr_cycle = ri_cycle i, rs_executed = []\<rparr>"
  have "run_sums (is @ [i]) ?t" using a(1) by (auto simp: run_sums_def event_of_def)
  moreover have "events_account (is @ [i]) ?t"
    unfolding events_account_def
  proof (intro allI impI)
    fix n assume n: "n < length (rs_events ?t)"
    show "\<exists>k < length (is @ [i]). (is @ [i]) ! k = ev_instr (rs_events ?t ! n)
       \<and> (\<Sum>e\<leftarrow>take (Suc n) (rs_events ?t). ev_duration e) = ri_cycle ((is @ [i]) ! k)
       \<and> (\<Sum>e\<leftarrow>take (Suc n) (rs_events ?t). ev_icount e) = int k"
    proof (cases "n = length (rs_events s)")
      case True
      with a(1) show ?thesis
        by (intro exI [of _ "length is"]) (simp add: run_sums_def event_of_def)
    next
      case False
      with n have "n < length (rs_events s)" by simp
      with a(2) obtain k where "k < length is" "is ! k = ev_instr (rs_events s ! n)"
        "(\<Sum>e\<leftarrow>take (Suc n) (rs_events s). ev_duration e) = ri_cycle (is ! k)"
        "(\<Sum>e\<leftarrow>take (Suc n) (rs_events s). ev_icount e) = int k"
        unfolding events_account_def by blast
      with \<open>n < length (rs_events s)\<close> show ?thesis
        by (intro exI [of _ k]) (simp add: nth_append)
    qed
  qed
  ultimately show ?case by simp
qed

lemma executed_durations: "\<forall>e \<in> set (run_all fns is). weight snd (ev_executed e) = ev_duration e
   \<and> dict_ok (ev_executed e)"
proof -
  have "run_sums is (after_run fns is) \<and>
    (\<forall>e \<in> set (rs_events (after_run fns is)). weight snd (ev_executed e) = ev_duration e
       \<and> dict_ok (ev_executed e))"
  proof (induction rule: after_run_induct)
    case Nil
    then show ?case by (simp add: run_sums_def run_init_def)
  next
    case (quiet "is" i s)
    with executed_weight [of s i] show ?case by (simp add: run_sums_def)
  next
    case (event "is" i s cs)
    with executed_weight [of s i] show ?case by (auto simp: run_sums_def event_of_def)
  qed
  then show ?thesis by (simp add: run_all_after)
qed

text \<open>The stacks of consecutive events differ by one call or one return.\<close>

definition stack_step :: "'a list \<Rightarrow> 'a list \<Rightarrow> bool" where
  "stack_step s t \<longleftrightarrow> (\<exists>f. t = s @ [f]) \<or> s \<noteq> [] \<and> t = butlast s"

lemma stack_step_map: "stack_step s t \<Longrightarrow> stack_step (map f s) (map f t)"
  by (auto simp: stack_step_def map_butlast)

definition stacks_path :: "run_state \<Rightarrow> bool" where
  "stacks_path s \<longleftrightarrow> successively stack_step (map ev_stack (rs_events s) @ [stack_names (rs_cs s)])
     \<and> hd (map ev_stack (rs_events s) @ [stack_names (rs_cs s)]) = []"

lemma stacks_path_holds: "stacks_path (after_run fns is)"
proof (induction rule: after_run_induct)
  case Nil
  then show ?case by (simp add: stacks_path_def run_init_def call_stack_init_def stack_names_def)
next
  case (quiet "is" i s)
  then show ?case by (simp add: stacks_path_def)
next
  case (event "is" i s cs)
  then have "stack_step (cs_stack (rs_cs s)) (cs_stack cs)" by (simp add: stack_step_def)
  then have "stack_step (stack_names (rs_cs s)) (stack_names cs)"
    unfolding stack_names_def by (rule stack_step_map)
  with event(1) show ?case
    by (auto simp: stacks_path_def event_of_def successively_append_iff hd_append split: if_splits)
qed

lemma event_stacks:
  "successively stack_step (map ev_stack (run_all fns is))"
  "run_all fns is \<noteq> [] \<Longrightarrow> ev_stack (hd (run_all fns is)) = []"
  using stacks_path_holds [of fns "is"]
  by (auto simp: stacks_path_def run_all_after successively_append_iff hd_append hd_map split: if_splits)

section \<open>The statistics\<close>

text \<open>
  \<open>stm N t c f\<close>: where the names of \<open>N\<close> are known the statement \<open>f\<close> ends normally, forgets no
  name, and the own times grow by \<open>t\<close>, the instruction counts by \<open>c\<close> in total.
\<close>

definition names :: "pstats \<Rightarrow> string set" where
  "names d = fst ` set d"

definition stm :: "string set \<Rightarrow> int \<Rightarrow> int \<Rightarrow> (pstats \<Rightarrow> pstats result) \<Rightarrow> bool" where
  "stm N t c f \<longleftrightarrow> (\<forall>d. dict_ok d \<longrightarrow> N \<subseteq> names d \<longrightarrow>
     (\<exists>d'. f d = Inr d' \<and> dict_ok d' \<and> names d \<subseteq> names d'
       \<and> weight s_tt d' = weight s_tt d + t \<and> weight s_icount d' = weight s_icount d + c))"

named_theorems stm_rules \<open>how statements compose\<close>

lemma stmE:
  assumes "stm N t c f" "dict_ok d" "N \<subseteq> names d"
  obtains d' where "f d = Inr d'" "dict_ok d'" "names d \<subseteq> names d'"
    "weight s_tt d' = weight s_tt d + t" "weight s_icount d' = weight s_icount d + c"
  using assms unfolding stm_def by blast

lemma stm_ret [stm_rules]: "stm N 0 0 Inr"
  by (simp add: stm_def)

lemma stm_bind [stm_rules]:
  assumes "stm N t c f" "stm N t' c' g"
  shows "stm N (t + t') (c + c') (\<lambda>d. rbind (f d) g)"
  unfolding stm_def
proof (intro allI impI)
  fix d assume d: "dict_ok d" "N \<subseteq> names d"
  from stmE [OF assms(1) d] obtain d1 where d1: "f d = Inr d1" "dict_ok d1" "names d \<subseteq> names d1"
    "weight s_tt d1 = weight s_tt d + t" "weight s_icount d1 = weight s_icount d + c" by blast
  from d(2) d1(3) have "N \<subseteq> names d1" by simp
  from stmE [OF assms(2) d1(2) this] obtain d2 where "g d1 = Inr d2" "dict_ok d2" "names d1 \<subseteq> names d2"
    "weight s_tt d2 = weight s_tt d1 + t'" "weight s_icount d2 = weight s_icount d1 + c'" by blast
  with d1 show "\<exists>d'. rbind (f d) g = Inr d' \<and> dict_ok d' \<and> names d \<subseteq> names d'
    \<and> weight s_tt d' = weight s_tt d + (t + t') \<and> weight s_icount d' = weight s_icount d + (c + c')"
    by auto
qed

lemma names_update [simp]: "names (AList.update n s d) = insert n (names d)"
  by (simp add: names_def dom_update)

lemma stm_on [stm_rules]:
  assumes "n \<in> N" "\<And>s. s_tt (f s) = s_tt s + t \<and> s_icount (f s) = s_icount s + c"
  shows "stm N t c (on_stat n f)"
  unfolding stm_def
proof (intro allI impI)
  fix d assume d: "dict_ok d" "N \<subseteq> names d"
  with assms(1) have "n \<in> fst ` set d" by (auto simp: names_def)
  then obtain s where "map_of d n = Some s" by (metis map_of_in option.exhaust)
  with d assms show "\<exists>d'. on_stat n f d = Inr d' \<and> dict_ok d' \<and> names d \<subseteq> names d'
    \<and> weight s_tt d' = weight s_tt d + t \<and> weight s_icount d' = weight s_icount d + c"
    by (auto simp: on_stat_def weight_update)
qed

lemma put_stat_facts [simp]:
  assumes "dict_ok d"
  shows "dict_ok (put_stat n d)" "names (put_stat n d) = insert n (names d)"
    "weight s_tt (put_stat n d) = weight s_tt d" "weight s_icount (put_stat n d) = weight s_icount d"
proof -
  have "map_of d n = None" if "n \<notin> fst ` set d" using that by (simp add: map_of_eq_None_iff)
  with assms show "dict_ok (put_stat n d)" "names (put_stat n d) = insert n (names d)"
    "weight s_tt (put_stat n d) = weight s_tt d" "weight s_icount (put_stat n d) = weight s_icount d"
    by (auto simp: put_stat_def weight_update stat_init_def names_def dom_update)
qed

lemma stm_put [stm_rules]:
  assumes "stm (insert n N) t c f"
  shows "stm N t c (\<lambda>d. f (put_stat n d))"
  unfolding stm_def
proof (intro allI impI)
  fix d assume d: "dict_ok d" "N \<subseteq> names d"
  then have p: "insert n N \<subseteq> names (put_stat n d)" "dict_ok (put_stat n d)" by auto
  from stmE [OF assms p(2,1)] obtain d' where "f (put_stat n d) = Inr d'" "dict_ok d'"
    "names (put_stat n d) \<subseteq> names d'" "weight s_tt d' = weight s_tt (put_stat n d) + t"
    "weight s_icount d' = weight s_icount (put_stat n d) + c" .
  with d(1) show "\<exists>d'. f (put_stat n d) = Inr d' \<and> dict_ok d' \<and> names d \<subseteq> names d'
       \<and> weight s_tt d' = weight s_tt d + t \<and> weight s_icount d' = weight s_icount d + c"
    by (intro exI [of _ d']) simp
qed

lemma stm_fold:
  assumes "\<And>x. x \<in> set xs \<Longrightarrow> stm N (h x) 0 (\<lambda>d. f d x)"
  shows "stm N (\<Sum>x\<leftarrow>xs. h x) 0 (\<lambda>d. foldR f d xs)"
  using assms
proof (induction xs)
  case (Cons x xs)
  then have "stm N (h x) 0 (\<lambda>d. f d x)" "stm N (\<Sum>x\<leftarrow>xs. h x) 0 (\<lambda>d. foldR f d xs)" by simp_all
  from stm_bind [OF this] show ?case by simp
qed (simp add: stm_ret)

lemma stm_fold0 [stm_rules]:
  "(\<And>x. x \<in> set xs \<Longrightarrow> stm N 0 0 (\<lambda>d. f d x)) \<Longrightarrow> stm N 0 0 (\<lambda>d. foldR f d xs)"
  using stm_fold [of xs N "\<lambda>_. 0" f] by simp

lemma stat_fields [simp]:
  "s_tt (add_caller a b c t u s) = s_tt s" "s_icount (add_caller a b c t u s) = s_icount s"
  by (simp_all add: add_caller_def split: prod.split)

text \<open>The parts of an event, one lemma each.\<close>

lemma stm_inst: "stm N (snd (snd x)) 0 (\<lambda>d. inst_step func d x)"
proof -
  obtain name cnt dur where x: "x = (name, cnt, dur)" by (cases x)
  have "stm N (dur + (0 + 0)) (0 + (0 + 0)) (\<lambda>d. inst_step func d (name, cnt, dur))"
    unfolding inst_step_def prod.case by (intro stm_rules) simp_all
  then show ?thesis by (simp add: x)
qed

lemma stm_insts: "stm N (weight snd ex) 0 (\<lambda>d. foldR (inst_step func) d ex)"
  unfolding weight_def by (rule stm_fold) (rule stm_inst)

lemma stm_callees: "set stack \<subseteq> N \<Longrightarrow> stm N 0 0 (\<lambda>d. foldR (callee_step dur) d (zip stack (tl stack)))"
proof (rule stm_fold0)
  fix p assume N: "set stack \<subseteq> N" and p: "p \<in> set (zip stack (tl stack))"
  obtain a b where ab: "p = (a, b)" by (cases p)
  with p have "b \<in> set stack"
    by (metis list.sel(2) list.set_sel(2) set_zip_rightD)
  with N show "stm N 0 0 (\<lambda>d. callee_step dur d p)"
    unfolding callee_step_def ab prod.case by (intro stm_on) auto
qed

lemma stm_change:
  assumes "set (ev_stack e) \<subseteq> N" "set last_stack \<subseteq> N"
    "length (ev_stack e) = length last_stack + 1 \<or> length (ev_stack e) + 1 = length last_stack"
  shows "stm N 0 0 (\<lambda>d. change_step e last_stack d)"
proof (cases "length (ev_stack e) = length last_stack + 1")
  case True
  then show ?thesis by (simp add: change_step_def stm_ret)
next
  case False
  with assms(3) have l: "length (ev_stack e) + 1 = length last_stack" by simp
  then have "last_stack \<noteq> []" by auto
  then have "last last_stack \<in> N" using assms(2) by (meson last_in_set subsetD)
  moreover define c where "c = (if last last_stack \<notin> set (ev_stack e) then 1 else 0 :: int)"
  moreover have "(\<lambda>d. change_step e last_stack d) = (\<lambda>d. rbind (on_stat (last last_stack)
      (add_caller (last (ev_stack e)) c 1 0 0) (put_stat (last (ev_stack e)) d)) (\<lambda>d.
      rbind (on_stat (last last_stack) (\<lambda>s. s\<lparr>s_cc := s_cc s + c\<rparr>) d)
        (on_stat (last last_stack) (\<lambda>s. s\<lparr>s_nc := s_nc s + 1\<rparr>))))"
    using l by (simp add: change_step_def c_def fun_eq_iff Let_def)
  moreover have "stm N (0 + (0 + 0)) (0 + (0 + 0)) \<dots>"
    by (rule stm_put [where f = "\<lambda>d. rbind (on_stat _ _ d) _"], intro stm_rules)
      (simp_all add: \<open>last last_stack \<in> N\<close>)
  ultimately show ?thesis by simp
qed

text \<open>An event, after its function is known and before the check of its stack.\<close>

definition event_body :: "bool \<Rightarrow> pevent \<Rightarrow> pstats \<Rightarrow> pstats result" where
  "event_body inst e d =
     (let stack = ev_stack e; func = last stack; duration = (if inst then 0 else ev_duration e)
      in rbind (if inst then foldR (inst_step func) d (ev_executed e) else ret d) (\<lambda>d.
         rbind (on_stat func (\<lambda>s. s\<lparr>s_tt := s_tt s + duration\<rparr>) d) (\<lambda>d.
         rbind (on_stat func (\<lambda>s. s\<lparr>s_icount := s_icount s + ev_icount e\<rparr>) d) (\<lambda>d.
         rbind (foldR (\<lambda>d f. on_stat f (\<lambda>s. s\<lparr>s_ct := s_ct s + ev_duration e\<rparr>) d) d stack) (\<lambda>d.
         rbind (if length stack > 1
                then on_stat func (add_caller (stack ! (length stack - 2)) 0 0 duration 0) d
                else ret d) (\<lambda>d.
         foldR (callee_step (ev_duration e)) d (zip stack (tl stack))))))))"

lemma event_step_body:
  "event_step inst (d, last_stack) e =
     (if ev_stack e = [] then ret (d, last_stack)
      else rbind (rbind (event_body inst e (put_stat (last (ev_stack e)) d)) (\<lambda>d. change_step e last_stack d))
        (\<lambda>d. ret (d, ev_stack e)))"
  by (simp add: event_step_def event_body_def Let_def rbind_assoc)

lemma stm_event_body:
  assumes "set (ev_stack e) \<subseteq> N" "ev_stack e \<noteq> []" "weight snd (ev_executed e) = ev_duration e"
  shows "stm N (ev_duration e) (ev_icount e) (event_body inst e)"
proof -
  let ?fn = "last (ev_stack e)"
  have fn: "?fn \<in> N" using assms(1,2) by auto
  have first: "stm N (if inst then ev_duration e else 0) 0
      (\<lambda>d. if inst then foldR (inst_step ?fn) d (ev_executed e) else ret d)"
    using stm_insts [of N "ev_executed e" ?fn] assms(3) by (simp add: stm_ret)
  have fifth: "stm N 0 0 (\<lambda>d. if length (ev_stack e) > 1
      then on_stat ?fn (add_caller (ev_stack e ! (length (ev_stack e) - 2)) 0 0 (if inst then 0 else ev_duration e) 0) d
      else ret d)"
    using fn by (cases "length (ev_stack e) > 1") (simp_all add: stm_ret stm_on)
  have "stm N ((if inst then ev_duration e else 0) + ((if inst then 0 else ev_duration e) + (0 + (0 + (0 + 0)))))
      (0 + (0 + (ev_icount e + (0 + (0 + 0))))) (event_body inst e)"
    unfolding event_body_def [abs_def] Let_def
    by (intro stm_bind first fifth stm_on stm_fold0 stm_callees) (use fn assms(1) in auto)
  then show ?thesis by (cases inst) simp_all
qed

lemma stack_step_length:
  "stack_step s t \<Longrightarrow> length t = length s + 1 \<or> length t + 1 = length s"
  by (auto simp: stack_step_def)

lemma stack_step_set: "stack_step s t \<Longrightarrow> t \<noteq> [] \<Longrightarrow> set t \<subseteq> insert (last t) (set s)"
  by (auto simp: stack_step_def dest: in_set_butlastD)

lemma event_step_stm:
  assumes "stack_step last_stack (ev_stack e)" "ev_stack e \<noteq> []" "weight snd (ev_executed e) = ev_duration e"
    "dict_ok d" "set last_stack \<subseteq> names d"
  obtains d' where "event_step inst (d, last_stack) e = Inr (d', ev_stack e)" "dict_ok d'"
    "set (ev_stack e) \<subseteq> names d'"
    "weight s_tt d' = weight s_tt d + ev_duration e" "weight s_icount d' = weight s_icount d + ev_icount e"
proof -
  let ?fn = "last (ev_stack e)" and ?N = "set last_stack" and ?M = "insert (last (ev_stack e)) (set last_stack)"
  have M: "set (ev_stack e) \<subseteq> ?M" by (rule stack_step_set [OF assms(1,2)])
  have "stm ?M (ev_duration e + 0) (ev_icount e + 0) (\<lambda>d. rbind (event_body inst e d) (\<lambda>d. change_step e last_stack d))"
    by (rule stm_bind [OF stm_event_body [OF M assms(2,3)] stm_change [OF M]])
      (use stack_step_length [OF assms(1)] in auto)
  moreover have "?M \<subseteq> names (put_stat ?fn d)" "dict_ok (put_stat ?fn d)" using assms(4,5) by auto
  ultimately obtain d' where d': "rbind (event_body inst e (put_stat ?fn d)) (\<lambda>d. change_step e last_stack d) = Inr d'"
    "dict_ok d'" "names (put_stat ?fn d) \<subseteq> names d'" "weight s_tt d' = weight s_tt (put_stat ?fn d) + ev_duration e"
    "weight s_icount d' = weight s_icount (put_stat ?fn d) + ev_icount e"
    by (auto elim: stmE)
  have "event_step inst (d, last_stack) e = Inr (d', ev_stack e)"
    unfolding event_step_body d'(1) using assms(2) by simp
  moreover have "set (ev_stack e) \<subseteq> names d'" using M d'(3) \<open>?M \<subseteq> names (put_stat ?fn d)\<close> by blast
  ultimately show thesis using that d' assms(4) by simp
qed

lemma events_stm:
  assumes "successively stack_step (last_stack # map ev_stack es)"
    "\<forall>e \<in> set es. ev_stack e \<noteq> [] \<and> weight snd (ev_executed e) = ev_duration e"
    "dict_ok d" "set last_stack \<subseteq> names d"
  shows "\<exists>d'. foldR (event_step inst) (d, last_stack) es = Inr (d', last (last_stack # map ev_stack es))
    \<and> dict_ok d' \<and> set (last (last_stack # map ev_stack es)) \<subseteq> names d'
    \<and> weight s_tt d' = weight s_tt d + (\<Sum>e\<leftarrow>es. ev_duration e)
    \<and> weight s_icount d' = weight s_icount d + (\<Sum>e\<leftarrow>es. ev_icount e)"
  using assms
proof (induction es arbitrary: d last_stack)
  case (Cons e es)
  from Cons.prems have e: "stack_step last_stack (ev_stack e)" "ev_stack e \<noteq> []"
    "weight snd (ev_executed e) = ev_duration e" by simp_all
  from event_step_stm [OF e Cons.prems(3,4), of inst] obtain d1 where
    d1: "event_step inst (d, last_stack) e = Inr (d1, ev_stack e)" "dict_ok d1" "set (ev_stack e) \<subseteq> names d1"
      "weight s_tt d1 = weight s_tt d + ev_duration e" "weight s_icount d1 = weight s_icount d + ev_icount e" .
  from Cons.prems(1,2) have "successively stack_step (ev_stack e # map ev_stack es)"
    "\<forall>e \<in> set es. ev_stack e \<noteq> [] \<and> weight snd (ev_executed e) = ev_duration e" by simp_all
  from Cons.IH [OF this d1(2,3)] d1 show ?case by auto
qed simp

text \<open>Once the stack is empty again, the next function entered fails the assertion.\<close>

lemma event_after_empty:
  assumes "length (ev_stack e) = 1" "length last_stack = 1" "weight snd (ev_executed e) = ev_duration e" "dict_ok d"
  shows "event_step inst (d, last_stack) e = Inl AssertionError"
proof -
  obtain g where g: "ev_stack e = [g]" using assms(1) by (auto simp: length_Suc_conv)
  have "stm {g} (ev_duration e) (ev_icount e) (event_body inst e)"
    by (rule stm_event_body) (use g assms(3) in auto)
  moreover have "{g} \<subseteq> names (put_stat g d)" "dict_ok (put_stat g d)" using assms(4) by auto
  ultimately obtain d' where "event_body inst e (put_stat g d) = Inr d'" by (auto elim: stmE)
  then show ?thesis using assms(2) g by (simp add: event_step_body change_step_def assertR_def)
qed

text \<open>The stack is empty at an event other than the first and the last.\<close>

definition emptied :: "pevent list \<Rightarrow> bool" where
  "emptied es \<longleftrightarrow> (\<exists>e \<in> set (butlast (tl es)). ev_stack e = [])"

text \<open>The cycles (or instructions) of the events with a function on the stack.\<close>

definition inside :: "(pevent \<Rightarrow> int) \<Rightarrow> pevent list \<Rightarrow> int" where
  "inside f es = (\<Sum>e\<leftarrow>filter (\<lambda>e. ev_stack e \<noteq> []) es. f e)"

lemma build_stats_outcome:
  assumes "successively stack_step (map ev_stack es)" "es \<noteq> [] \<longrightarrow> ev_stack (hd es) = []"
    "\<forall>e \<in> set es. weight snd (ev_executed e) = ev_duration e"
  shows "if emptied es then build_stats es inst = Inl AssertionError
    else \<exists>d. build_stats es inst = Inr d \<and> dict_ok d
      \<and> weight s_tt d = inside ev_duration es \<and> weight s_icount d = inside ev_icount es"
proof (cases es)
  case Nil
  then show ?thesis by (simp add: emptied_def build_stats_def inside_def)
next
  case (Cons e0 rest)
  with assms(2) have e0: "ev_stack e0 = []" by simp
  define good where "good = takeWhile (\<lambda>e. ev_stack e \<noteq> []) rest"
  define bad where "bad = dropWhile (\<lambda>e. ev_stack e \<noteq> []) rest"
  have rest: "rest = good @ bad" by (simp add: good_def bad_def)
  have good: "\<forall>e \<in> set good. ev_stack e \<noteq> [] \<and> weight snd (ev_executed e) = ev_duration e"
    using assms(3) by (auto simp: good_def Cons dest: set_takeWhileD)
  have path: "successively stack_step ([] # map ev_stack good @ map ev_stack bad)"
    using assms(1) by (simp add: Cons e0 rest)
  then have pg: "successively stack_step ([] # map ev_stack good)"
    by (metis append_Cons successively_append_iff)
  obtain d where d: "foldR (event_step inst) ([], []) good = Inr (d, last ([] # map ev_stack good))"
    "dict_ok d" "weight s_tt d = (\<Sum>e\<leftarrow>good. ev_duration e)" "weight s_icount d = (\<Sum>e\<leftarrow>good. ev_icount e)"
    using events_stm [OF pg good, of "[]" inst] by auto
  have step0: "event_step inst ([], []) e0 = Inr ([], [])" by (simp add: event_step_body e0)
  have inside: "inside f (e0 # good) = (\<Sum>e\<leftarrow>good. f e)" for f
  proof -
    have "filter (\<lambda>e. ev_stack e \<noteq> []) good = good" using good by (simp add: filter_id_conv)
    then show ?thesis by (simp add: inside_def e0)
  qed
  show ?thesis
  proof (cases bad)
    case Nil
    then have "\<not> emptied es"
      using good by (auto simp: emptied_def Cons rest Nil dest: in_set_butlastD)
    moreover have "build_stats es inst = Inr d"
      by (simp add: build_stats_def Cons rest Nil step0 d(1))
    ultimately show ?thesis using d(2-4) inside Nil by (simp add: Cons rest)
  next
    case bad: (Cons b more)
    then have b: "ev_stack b = []"
      using hd_dropWhile [of "\<lambda>e. ev_stack e \<noteq> []" rest] by (simp add: bad_def)
    have stepb: "event_step inst (d, l) b = Inr (d, l)" for l by (simp add: event_step_body b)
    show ?thesis
    proof (cases more)
      case Nil
      have "\<not> emptied es"
        using good by (auto simp: emptied_def Cons rest bad Nil butlast_append)
      moreover have "build_stats es inst = Inr d"
        by (simp add: build_stats_def Cons rest bad Nil step0 d(1) foldR_append stepb)
      moreover have "inside f es = (\<Sum>e\<leftarrow>good. f e)" for f
        using inside [of f] b e0 by (simp add: inside_def Cons rest bad Nil)
      ultimately show ?thesis using d(2-4) by simp
    next
      case more: (Cons c evs)
      have "stack_step (last ([] # map ev_stack good)) (ev_stack b)" "stack_step (ev_stack b) (ev_stack c)"
        using path by (auto simp: bad more successively_append_iff simp flip: append_Cons)
      then have len: "length (ev_stack c) = 1" "length (last ([] # map ev_stack good)) = 1"
        using stack_step_length b by (force simp: stack_step_def)+
      have "c \<in> set es" by (simp add: Cons rest bad more)
      with assms(3) have "weight snd (ev_executed c) = ev_duration c" by blast
      from event_after_empty [OF len this d(2)]
      have "build_stats es inst = Inl AssertionError"
        by (simp add: build_stats_def Cons rest bad more step0 d(1) foldR_append stepb)
      moreover have "emptied es"
        using b by (simp add: emptied_def Cons rest bad more butlast_append)
      ultimately show ?thesis by simp
    qed
  qed
qed

section \<open>Claims\<close>

text \<open>
  C16: The events of \<open>run_all\<close> cut the run into consecutive pieces. The durations of the first \<open>n\<close>
  events add up to the cycle of the instruction that closed the last of them and their instruction
  counts to its index; the cycles per instruction name of an event add up to its duration. The
  first event has an empty stack, and two consecutive stacks differ by one call or one return.
\<close>

theorem events_cut_the_run:
  assumes "run_all fns is = es"
  shows "(\<forall>n < length es. \<exists>k < length is. is ! k = ev_instr (es ! n)
       \<and> (\<Sum>e\<leftarrow>take (Suc n) es. ev_duration e) = ri_cycle (is ! k)
       \<and> (\<Sum>e\<leftarrow>take (Suc n) es. ev_icount e) = int k
       \<and> (\<Sum>(name, count, cycles)\<leftarrow>ev_executed (es ! n). cycles) = ev_duration (es ! n))
    \<and> (es \<noteq> [] \<longrightarrow> ev_stack (hd es) = [])
    \<and> successively (\<lambda>s t. (\<exists>f. t = s @ [f]) \<or> s \<noteq> [] \<and> t = butlast s) (map ev_stack es)"
proof (intro conjI allI impI)
  fix n assume n: "n < length es"
  have "events_account is (after_run fns is)" using events_account_holds by blast
  moreover have "rs_events (after_run fns is) = es" using assms by (simp add: run_all_after)
  ultimately obtain k where k: "k < length is" "is ! k = ev_instr (es ! n)"
    "(\<Sum>e\<leftarrow>take (Suc n) es. ev_duration e) = ri_cycle (is ! k)"
    "(\<Sum>e\<leftarrow>take (Suc n) es. ev_icount e) = int k"
    using n unfolding events_account_def by blast
  moreover have "weight snd (ev_executed (es ! n)) = ev_duration (es ! n)"
    using executed_durations [of fns "is"] n assms by auto
  then have "(\<Sum>(name, count, cycles)\<leftarrow>ev_executed (es ! n). cycles) = ev_duration (es ! n)"
    by (simp add: weight_def case_prod_unfold)
  ultimately show "\<exists>k < length is. is ! k = ev_instr (es ! n)
       \<and> (\<Sum>e\<leftarrow>take (Suc n) es. ev_duration e) = ri_cycle (is ! k)
       \<and> (\<Sum>e\<leftarrow>take (Suc n) es. ev_icount e) = int k
       \<and> (\<Sum>(name, count, cycles)\<leftarrow>ev_executed (es ! n). cycles) = ev_duration (es ! n)" by blast
next
  show "es \<noteq> [] \<Longrightarrow> ev_stack (hd es) = []" using event_stacks(2) [of fns "is"] assms by blast
  show "successively (\<lambda>s t. (\<exists>f. t = s @ [f]) \<or> s \<noteq> [] \<and> t = butlast s) (map ev_stack es)"
    using event_stacks(1) [of fns "is"] assms by (simp add: stack_step_def [abs_def])
qed

text \<open>A main function that calls another one twice.\<close>

definition prog :: "asm_func list" where
  "prog = [\<lparr>af_index = 0, af_name = ''main'', af_size = 32, af_vma = 100, af_lma = 100, af_file_off = 0, af_align = 2\<rparr>,
     \<lparr>af_index = 1, af_name = ''leaf'', af_size = 8, af_vma = 200, af_lma = 200, af_file_off = 0, af_align = 2\<rparr>]"

definition at :: "int \<Rightarrow> int \<Rightarrow> rvfi_instr" where
  "at a c = \<lparr>ri_address = a, ri_cycle = c, ri_op = \<lparr>bin = 19\<rparr>, ri_line = [], ri_name = ''addi'', ri_mem_address = None\<rparr>"

definition prog_run :: "rvfi_instr list" where
  "prog_run = [at 100 5, at 104 6, at 200 8, at 204 9, at 108 11, at 200 14, at 112 20]"

theorem events_cut_the_run_witness:
  "length (run_all prog prog_run) = 5
    \<and> successively (\<lambda>s t. (\<exists>f. t = s @ [f]) \<or> s \<noteq> [] \<and> t = butlast s) (map ev_stack (run_all prog prog_run))"
proof
  show "length (run_all prog prog_run) = 5" by code_simp
qed (use events_cut_the_run [of prog prog_run, OF refl] in blast)

text \<open>
  C17: \<open>build_stats\<close> gives every cycle spent under a function, and every instruction counted there, to
  exactly one entry, with and without the analysis per instruction name, and it never misses a key.
  It fails in one case, with an AssertionError: when the stack empties before the last event, since
  the next function entered is then compared with a stack of the same length.
\<close>

theorem stats_account:
  "if \<exists>e \<in> set (butlast (tl (run_all fns is))). ev_stack e = []
   then build_stats (run_all fns is) inst = Inl AssertionError
   else \<exists>d. build_stats (run_all fns is) inst = Inr d \<and> distinct (map fst d)
     \<and> (\<Sum>(func, s)\<leftarrow>d. s_tt s) = (\<Sum>e\<leftarrow>filter (\<lambda>e. ev_stack e \<noteq> []) (run_all fns is). ev_duration e)
     \<and> (\<Sum>(func, s)\<leftarrow>d. s_icount s) = (\<Sum>e\<leftarrow>filter (\<lambda>e. ev_stack e \<noteq> []) (run_all fns is). ev_icount e)"
proof -
  have "\<forall>e \<in> set (run_all fns is). weight snd (ev_executed e) = ev_duration e"
    using executed_durations by blast
  from build_stats_outcome [OF event_stacks(1) _ this, of inst] event_stacks(2) [of fns "is"]
  show ?thesis by (auto simp: emptied_def inside_def weight_def dict_ok_def case_prod_unfold)
qed

theorem stats_account_witness:
  "(\<exists>d. build_stats (run_all prog prog_run) True = Inr d)
   \<and> build_stats (run_all prog [at 200 8, at 108 11, at 200 14, at 104 16]) False = Inl AssertionError"
proof
  have "\<not> (\<exists>e \<in> set (butlast (tl (run_all prog prog_run))). ev_stack e = [])" by code_simp
  with stats_account [of prog prog_run True] show "\<exists>d. build_stats (run_all prog prog_run) True = Inr d"
    by auto
  have "\<exists>e \<in> set (butlast (tl (run_all prog [at 200 8, at 108 11, at 200 14, at 104 16]))). ev_stack e = []"
    by code_simp
  with stats_account [of prog "[at 200 8, at 108 11, at 200 14, at 104 16]" False]
  show "build_stats (run_all prog [at 200 8, at 108 11, at 200 14, at 104 16]) False = Inl AssertionError"
    by simp
qed

end
