(* ===== verification/Yaml.thy ===== *)
theory Yaml
  imports Py_Str Py_Dict
begin

text \<open>
  The Python values of a loaded YAML file (and of the variables computed from it): None, booleans,
  integers, strings, lists and dictionaries whose keys are strings. Accessors raise what Python
  raises on a value of the wrong shape. The values are trees: the files use no YAML anchors, so no
  two places of a loaded document share an object.
\<close>

datatype yaml =
    YNone
  | YBool bool
  | YInt int
  | YStr string
  | YList "yaml list"
  | YMap "(string \<times> yaml) list"

section \<open>Shapes\<close>

definition is_map :: "yaml \<Rightarrow> bool" where
  "is_map y = (case y of YMap _ \<Rightarrow> True | _ \<Rightarrow> False)"

definition is_list :: "yaml \<Rightarrow> bool" where
  "is_list y = (case y of YList _ \<Rightarrow> True | _ \<Rightarrow> False)"

definition is_str :: "yaml \<Rightarrow> bool" where
  "is_str y = (case y of YStr _ \<Rightarrow> True | _ \<Rightarrow> False)"

definition is_bool :: "yaml \<Rightarrow> bool" where
  "is_bool y = (case y of YBool _ \<Rightarrow> True | _ \<Rightarrow> False)"

lemma shape_simps [simp]:
  "is_map (YMap d)" "\<not> is_map YNone" "\<not> is_map (YBool b)" "\<not> is_map (YInt i)" "\<not> is_map (YStr s)" "\<not> is_map (YList l)"
  "is_list (YList l)" "\<not> is_list YNone" "\<not> is_list (YBool b)" "\<not> is_list (YInt i)" "\<not> is_list (YStr s)" "\<not> is_list (YMap d)"
  "is_str (YStr s)" "\<not> is_str YNone" "\<not> is_str (YBool b)" "\<not> is_str (YInt i)" "\<not> is_str (YList l)" "\<not> is_str (YMap d)"
  "is_bool (YBool b)" "\<not> is_bool YNone" "\<not> is_bool (YInt i)" "\<not> is_bool (YStr s)" "\<not> is_bool (YList l)" "\<not> is_bool (YMap d)"
  by (simp_all add: is_map_def is_list_def is_str_def is_bool_def)

lemma is_map_iff: "is_map y \<longleftrightarrow> (\<exists>d. y = YMap d)"
  by (cases y) simp_all

text \<open>The truth value: \<open>if x:\<close>\<close>

fun truthy :: "yaml \<Rightarrow> bool" where
  "truthy YNone = False"
| "truthy (YBool b) = b"
| "truthy (YInt i) = (i \<noteq> 0)"
| "truthy (YStr s) = (s \<noteq> [])"
| "truthy (YList xs) = (xs \<noteq> [])"
| "truthy (YMap d) = (d \<noteq> [])"

section \<open>Access\<close>

text \<open>\<open>x.get(k, default)\<close>, \<open>x[k]\<close> for a string \<open>k\<close>, \<open>x.items()\<close>, \<open>x[i]\<close>.\<close>

definition y_get :: "yaml \<Rightarrow> string \<Rightarrow> yaml \<Rightarrow> yaml result" where
  "y_get y k x = (case y of YMap d \<Rightarrow> ret (dict_get_or d k x) | _ \<Rightarrow> raise AttributeError)"

definition y_index :: "yaml \<Rightarrow> string \<Rightarrow> yaml result" where
  "y_index y k = (case y of YMap d \<Rightarrow> dict_get d k | _ \<Rightarrow> raise TypeError)"

definition y_items :: "yaml \<Rightarrow> (string \<times> yaml) list result" where
  "y_items y = (case y of YMap d \<Rightarrow> ret d | _ \<Rightarrow> raise AttributeError)"

definition y_keys :: "yaml \<Rightarrow> string list result" where
  "y_keys y = (case y of YMap d \<Rightarrow> ret (map fst d) | _ \<Rightarrow> raise AttributeError)"

definition y_nth :: "yaml \<Rightarrow> nat \<Rightarrow> yaml result" where
  "y_nth y n = (case y of
     YList xs \<Rightarrow> if n < length xs then ret (xs ! n) else raise IndexError
   | YStr s \<Rightarrow> if n < length s then ret (YStr [s ! n]) else raise IndexError
   | YMap d \<Rightarrow> raise KeyError
   | _ \<Rightarrow> raise TypeError)"

text \<open>\<open>for x in y\<close>\<close>

definition y_iter :: "yaml \<Rightarrow> yaml list result" where
  "y_iter y = (case y of
     YList xs \<Rightarrow> ret xs
   | YStr s \<Rightarrow> ret (map (\<lambda>c. YStr [c]) s)
   | YMap d \<Rightarrow> ret (map (\<lambda>p. YStr (fst p)) d)
   | _ \<Rightarrow> raise TypeError)"

definition y_len :: "yaml \<Rightarrow> nat result" where
  "y_len y = (case y of YList xs \<Rightarrow> ret (length xs) | YStr s \<Rightarrow> ret (length s)
     | YMap d \<Rightarrow> ret (length d) | _ \<Rightarrow> raise TypeError)"

definition as_str :: "yaml \<Rightarrow> string result" where
  "as_str y = (case y of YStr s \<Rightarrow> ret s | _ \<Rightarrow> raise TypeError)"

text \<open>A method of strings on another value is an AttributeError.\<close>

definition str_method :: "yaml \<Rightarrow> string result" where
  "str_method y = (case y of YStr s \<Rightarrow> ret s | _ \<Rightarrow> raise AttributeError)"

text \<open>The value of an arithmetic operand, and \<open>int(x)\<close>.\<close>

definition as_int :: "yaml \<Rightarrow> int result" where
  "as_int y = (case y of YInt i \<Rightarrow> ret i | YBool b \<Rightarrow> ret (if b then 1 else 0) | _ \<Rightarrow> raise TypeError)"

definition y_int :: "yaml \<Rightarrow> int result" where
  "y_int y = (case y of YStr s \<Rightarrow> py_int 10 s | _ \<Rightarrow> as_int y)"

definition y_hex :: "yaml \<Rightarrow> string result" where
  "y_hex y = rbind (as_int y) (\<lambda>i. ret (py_hex i))"

text \<open>\<open>int(x, 16)\<close> wants a string.\<close>

definition y_int16 :: "yaml \<Rightarrow> int result" where
  "y_int16 y = (case y of YStr s \<Rightarrow> py_int 16 s | _ \<Rightarrow> raise TypeError)"

section \<open>Equality\<close>

text \<open>\<open>x == y\<close>: True is 1, and dictionaries are compared without their order.\<close>

function (sequential) y_eq :: "yaml \<Rightarrow> yaml \<Rightarrow> bool"
  and y_eqs :: "yaml list \<Rightarrow> yaml list \<Rightarrow> bool"
  and y_eq_items :: "(string \<times> yaml) list \<Rightarrow> (string \<times> yaml) list \<Rightarrow> bool" where
  "y_eq (YList xs) (YList ys) = y_eqs xs ys"
| "y_eq (YMap d) (YMap e) = (length d = length e \<and> y_eq_items d e)"
| "y_eq (YBool b) (YInt i) = (i = (if b then 1 else 0))"
| "y_eq (YInt i) (YBool b) = (i = (if b then 1 else 0))"
| "y_eq (YBool b) (YBool c) = (b = c)"
| "y_eq (YInt i) (YInt j) = (i = j)"
| "y_eq (YStr s) (YStr t) = (s = t)"
| "y_eq YNone YNone = True"
| "y_eq _ _ = False"
| "y_eqs [] [] = True"
| "y_eqs (x # xs) (y # ys) = (y_eq x y \<and> y_eqs xs ys)"
| "y_eqs _ _ = False"
| "y_eq_items [] e = True"
| "y_eq_items ((k, v) # d) e =
     (case map_of e k of None \<Rightarrow> False | Some w \<Rightarrow> y_eq v w \<and> y_eq_items d e)"
  by pat_completeness auto
termination
  by (relation "measure (\<lambda>x. case x of Inl (a, b) \<Rightarrow> size a
    | Inr (Inl (a, b)) \<Rightarrow> size_list size a | Inr (Inr (a, b)) \<Rightarrow> size_list (size_prod (\<lambda>_. 0) size) a)")
    auto

text \<open>\<open>k in y\<close> for a string.\<close>

definition y_in :: "string \<Rightarrow> yaml \<Rightarrow> bool result" where
  "y_in k y = (case y of
     YMap d \<Rightarrow> ret (has_key d k)
   | YStr s \<Rightarrow> ret (contains k s)
   | YList xs \<Rightarrow> ret (\<exists>x \<in> set xs. y_eq x (YStr k))
   | _ \<Rightarrow> raise TypeError)"

text \<open>The keys of every dictionary inside are distinct, as in any Python value.\<close>

fun wf_yaml :: "yaml \<Rightarrow> bool"
  and wf_list :: "yaml list \<Rightarrow> bool"
  and wf_items :: "(string \<times> yaml) list \<Rightarrow> bool" where
  "wf_yaml (YMap d) = (dict_ok d \<and> wf_items d)"
| "wf_yaml (YList xs) = wf_list xs"
| "wf_yaml _ = True"
| "wf_list [] = True"
| "wf_list (x # xs) = (wf_yaml x \<and> wf_list xs)"
| "wf_items [] = True"
| "wf_items ((k, v) # d) = (wf_yaml v \<and> wf_items d)"

section \<open>Printing\<close>

text \<open>\<open>repr\<close> of a string, with the escapes and the choice of the quote.\<close>

definition hex2 :: "nat \<Rightarrow> string" where
  "hex2 n = [digit_char (n div 16 mod 16), digit_char (n mod 16)]"

definition repr_char :: "char \<Rightarrow> char \<Rightarrow> string" where
  "repr_char q c =
     (let bs = CHR 0x5C; n = code c in
      if c = q \<or> c = bs then [bs, c]
      else if n = 10 then bs # ''n'' else if n = 13 then bs # ''r'' else if n = 9 then bs # ''t''
      else if n < 32 \<or> (127 \<le> n \<and> n \<le> 160) \<or> n = 173 then bs # ''x'' @ hex2 n
      else [c])"

definition py_repr :: "string \<Rightarrow> string" where
  "py_repr s =
     (let q = (if CHR 0x27 \<in> set s \<and> CHR 0x22 \<notin> set s then CHR 0x22 else CHR 0x27)
      in q # concat (map (repr_char q) s) @ [q])"

fun y_repr :: "yaml \<Rightarrow> string"
  and y_reprs :: "yaml list \<Rightarrow> string list"
  and y_repr_items :: "(string \<times> yaml) list \<Rightarrow> string list" where
  "y_repr YNone = ''None''"
| "y_repr (YBool b) = (if b then ''True'' else ''False'')"
| "y_repr (YInt i) = py_str i"
| "y_repr (YStr s) = py_repr s"
| "y_repr (YList xs) = ''['' @ join '', '' (y_reprs xs) @ '']''"
| "y_repr (YMap d) = ''{'' @ join '', '' (y_repr_items d) @ ''}''"
| "y_reprs [] = []"
| "y_reprs (x # xs) = y_repr x # y_reprs xs"
| "y_repr_items [] = []"
| "y_repr_items ((k, v) # d) = (py_repr k @ '': '' @ y_repr v) # y_repr_items d"

text \<open>\<open>str(x)\<close>\<close>

definition y_str :: "yaml \<Rightarrow> string" where
  "y_str y = (case y of YStr s \<Rightarrow> s | _ \<Rightarrow> y_repr y)"

text \<open>\<open>str(d.keys())\<close>\<close>

definition keys_str :: "string list \<Rightarrow> string" where
  "keys_str ks = ''dict_keys(['' @ join '', '' (map py_repr ks) @ ''])''"

section \<open>Laws\<close>

lemma y_get_map [simp]: "y_get (YMap d) k x = ret (dict_get_or d k x)"
  by (simp add: y_get_def)

lemma y_get_Inr: "y_get y k x = Inr v \<longleftrightarrow> (\<exists>d. y = YMap d \<and> dict_get_or d k x = v)"
  by (cases y) (auto simp: y_get_def)

lemma y_index_map [simp]: "y_index (YMap d) k = dict_get d k"
  by (simp add: y_index_def)

lemma y_items_map [simp]: "y_items (YMap d) = ret d"
  by (simp add: y_items_def)

lemma y_items_Inr: "y_items y = Inr d \<longleftrightarrow> y = YMap d"
  by (cases y) (auto simp: y_items_def)

lemma y_str_simps [simp]:
  "y_str (YStr s) = s" "y_str (YInt i) = py_str i" "y_str YNone = ''None''"
  by (simp_all add: y_str_def)

lemma y_int_simps [simp]: "y_int (YInt i) = Inr i" "y_int (YStr s) = py_int 10 s"
  by (simp_all add: y_int_def as_int_def)

lemma as_int_simps [simp]: "as_int (YInt i) = Inr i"
  by (simp add: as_int_def)

lemma as_str_simps [simp]: "as_str (YStr s) = Inr s"
  by (simp add: as_str_def)

lemma str_method_simps [simp]: "str_method (YStr s) = Inr s"
  by (simp add: str_method_def)

lemma y_eq_str [simp]: "y_eq y (YStr s) \<longleftrightarrow> y = YStr s"
  by (cases y) auto

lemma wf_items_iff: "wf_items d \<longleftrightarrow> (\<forall>(k, v) \<in> set d. wf_yaml v)"
  by (induction d) auto

lemma wf_list_iff: "wf_list xs \<longleftrightarrow> (\<forall>x \<in> set xs. wf_yaml x)"
  by (induction xs) auto

end
