(* ===== verification/Config_Update.thy ===== *)
theory Config_Update
  imports Yaml Py_Regex
begin

text \<open>
  The updaters of the configuration generators: \<open>csr_updater.py\<close>, \<open>isa_updater.py\<close> and
  \<open>spike_updater.py\<close>. A file is the YAML value loaded from it; the dictionaries the code changes in
  place are returned changed. Keys that the code splices into a regular expression are register
  names, which hold no special character, so the pattern is the name itself.
\<close>

section \<open>CSR updater\<close>

function (sequential) csr_recursive_update ::
  "(string \<times> yaml) list \<Rightarrow> (string \<times> yaml) list \<Rightarrow> (string \<times> yaml) list" where
  "csr_recursive_update d [] = d"
| "csr_recursive_update d ((key, value) # u) =
     csr_recursive_update
       (case map_of d key of
          None \<Rightarrow> d
        | Some old \<Rightarrow>
            (case (value, old) of
               (YMap w, YMap e) \<Rightarrow>
                 if key = ''rv32'' then AList.update key value d
                 else AList.update key (YMap (csr_recursive_update e w)) d
             | _ \<Rightarrow> AList.update key value d)) u"
  by pat_completeness auto
termination
  by (relation "measure (\<lambda>(d, u). size_list (size_prod (\<lambda>_. 0) size) u)") auto

text \<open>\<open>d.get(k, x)\<close> where the key is itself a value.\<close>

definition get_by :: "(string \<times> yaml) list \<Rightarrow> yaml \<Rightarrow> yaml \<Rightarrow> yaml result" where
  "get_by d k x = (case k of
     YStr s \<Rightarrow> ret (dict_get_or d s x)
   | YList _ \<Rightarrow> raise TypeError
   | YMap _ \<Rightarrow> raise TypeError
   | _ \<Rightarrow> ret x)"

definition is_excluded :: "yaml \<Rightarrow> yaml \<Rightarrow> yaml \<Rightarrow> (string \<times> yaml) list \<Rightarrow> bool result" where
  "is_excluded exclude_key sub_key cond v =
     (if truthy sub_key then
        rbind (get_by v exclude_key (YMap [])) (\<lambda>x.
        rbind (case x of YMap e \<Rightarrow> get_by e sub_key YNone | _ \<Rightarrow> raise AttributeError) (\<lambda>y.
        ret (y_eq y cond)))
      else rbind (get_by v exclude_key YNone) (\<lambda>y. ret (y_eq y cond)))"

function (sequential) remove_keys_recursive ::
  "((string \<times> yaml) list \<Rightarrow> bool result) \<Rightarrow> (string \<times> yaml) list \<Rightarrow> (string \<times> yaml) list result" where
  "remove_keys_recursive excl [] = ret []"
| "remove_keys_recursive excl ((k, v) # d) =
     (case v of
        YMap e \<Rightarrow>
          rbind (excl e) (\<lambda>b. rbind (remove_keys_recursive excl e) (\<lambda>e'.
          rbind (remove_keys_recursive excl d) (\<lambda>d'. ret (if b then d' else (k, YMap e') # d'))))
      | _ \<Rightarrow> rbind (remove_keys_recursive excl d) (\<lambda>d'. ret ((k, v) # d')))"
  by pat_completeness auto
termination
  by (relation "measure (\<lambda>(p, d). size_list (size_prod (\<lambda>_. 0) size) d)") auto

text \<open>The keys of one entry of the updater that lie beyond its range.\<close>

definition re_index :: "string \<Rightarrow> re" where
  "re_index key = Seq (lit key) (Group 1 digits)"

definition beyond :: "string \<Rightarrow> yaml \<Rightarrow> string \<Rightarrow> bool result" where
  "beyond key range_value k =
     (case found_groups (re_index key) k of
        None \<Rightarrow> ret False
      | Some g \<Rightarrow>
          rbind (of_option TypeError (match_group 1 g)) (\<lambda>x. rbind (py_int 10 x) (\<lambda>index.
          rbind (as_int range_value) (\<lambda>r. ret (index \<ge> r)))))"

definition out_of_range :: "string list \<Rightarrow> string list \<Rightarrow> string \<times> yaml \<Rightarrow> string list result" where
  "out_of_range ks acc = (\<lambda>(key, value).
     rbind (y_in ''range'' value) (\<lambda>b.
     if b then rbind (y_index value ''range'') (\<lambda>r.
       foldR (\<lambda>acc k. rbind (beyond key r k) (\<lambda>p. ret (if p then acc @ [k] else acc))) acc ks)
     else ret acc))"

text \<open>\<open>d.update(e)\<close> on loaded values.\<close>

definition y_update :: "(string \<times> yaml) list \<Rightarrow> yaml \<Rightarrow> (string \<times> yaml) list result" where
  "y_update d y = (case y of
     YMap e \<Rightarrow> ret (dict_update_all d e)
   | YList [] \<Rightarrow> ret d
   | YStr [] \<Rightarrow> ret d
   | YStr _ \<Rightarrow> raise ValueError
   | _ \<Rightarrow> raise TypeError)"

definition as_dict :: "py_error \<Rightarrow> yaml \<Rightarrow> (string \<times> yaml) list result" where
  "as_dict e y = (case y of YMap d \<Rightarrow> ret d | _ \<Rightarrow> raise e)"

definition apply_exclude :: "yaml \<Rightarrow> (string \<times> yaml) list \<Rightarrow> (string \<times> yaml) list result" where
  "apply_exclude exclude_data h =
     (if truthy exclude_data then
        rbind (y_get exclude_data ''key'' YNone) (\<lambda>exclude_key.
        rbind (y_get exclude_data ''sub_key'' YNone) (\<lambda>sub_key.
        rbind (y_get exclude_data ''cond'' YNone) (\<lambda>cond.
        rbind (remove_keys_recursive (is_excluded exclude_key sub_key cond) h) (\<lambda>h.
        remove_keys_recursive (is_excluded exclude_key sub_key cond) h))))
      else ret h)"

definition delete_keys :: "string list \<Rightarrow> (string \<times> yaml) list \<Rightarrow> (string \<times> yaml) list" where
  "delete_keys ks d = foldl (\<lambda>d k. AList.delete k d) d ks"

text \<open>
  The files: the source, the custom one, the debug one and the updater, the last two optional.
  \<open>original_dict.copy()\<close> is shallow: the entry \<open>hart0\<close> of the copy is the one of the original.
\<close>

definition merge_debug :: "yaml option \<Rightarrow> (string \<times> yaml) list \<Rightarrow> (string \<times> yaml) list result" where
  "merge_debug debugfile h =
     (case debugfile of
        None \<Rightarrow> ret h
      | Some debug_dict \<Rightarrow>
          rbind (y_index debug_dict ''hart0'') (\<lambda>dh. rbind (y_index dh ''debug_mode'') (\<lambda>mode.
          if truthy mode then y_update h dh else ret h)))"

definition csr_formatter :: "yaml \<Rightarrow> yaml \<Rightarrow> yaml option \<Rightarrow> yaml option \<Rightarrow> yaml result" where
  "csr_formatter srcfile customfile debugfile modifile =
     rbind (as_dict AttributeError srcfile) (\<lambda>original.
     rbind (rbind (dict_get original ''hart0'') (as_dict AttributeError)) (\<lambda>h.
     rbind (merge_debug debugfile h) (\<lambda>h.
     rbind (y_index customfile ''hart0'') (\<lambda>ch.
     rbind (y_update h ch) (\<lambda>h.
     rbind (case modifile of None \<Rightarrow> ret [] | Some u \<Rightarrow> y_items u) (\<lambda>update_dict.
     let h = csr_recursive_update h update_dict in
     rbind (foldR (out_of_range (map fst h)) [] update_dict) (\<lambda>keys_to_remove.
     rbind (apply_exclude (dict_get_or update_dict ''exclude'' YNone) h) (\<lambda>h.
     let h = delete_keys keys_to_remove h;
         top = delete_keys keys_to_remove (AList.update ''hart0'' (YMap h) original)
     in dict_get top ''hart0''))))))))"

section \<open>ISA updater\<close>

definition ext_step :: "(string \<times> yaml) list \<Rightarrow> yaml list \<Rightarrow> string list \<Rightarrow> string \<times> yaml \<Rightarrow> string list" where
  "ext_step isa_dict yaml_ext isa_list = (\<lambda>(element, value).
     if is_bool value then
       (if truthy (dict_get_or isa_dict element (YBool False))
           \<and> (\<exists>x \<in> set yaml_ext. y_eq x (YStr element))
        then isa_list @ [element] else isa_list)
     else if element \<in> set isa_list then remove1 element isa_list else isa_list)"

definition extension_update :: "(string \<times> yaml) list \<Rightarrow> string list \<Rightarrow> yaml list \<Rightarrow> string list" where
  "extension_update isa_dict isa_list yaml_ext = foldl (ext_step isa_dict yaml_ext) isa_list isa_dict"

text \<open>A boolean fills every value of the entry, or of its entries.\<close>

definition fill_one :: "yaml \<Rightarrow> yaml \<Rightarrow> yaml" where
  "fill_one value old = (case old of YMap e \<Rightarrow> YMap (map (\<lambda>(k, _). (k, value)) e) | _ \<Rightarrow> value)"

definition fill_bool :: "yaml \<Rightarrow> yaml \<Rightarrow> yaml" where
  "fill_bool value old =
     (case old of YMap e \<Rightarrow> YMap (map (\<lambda>(k, v). (k, fill_one value v)) e) | _ \<Rightarrow> value)"

function (sequential) isa_recursive_update ::
  "yaml \<Rightarrow> (string \<times> yaml) list \<Rightarrow> yaml result" where
  "isa_recursive_update original [] = ret original"
| "isa_recursive_update original ((key, value) # u) =
     rbind (as_dict AttributeError original) (\<lambda>d.
     rbind (case map_of d key of
          None \<Rightarrow> ret d
        | Some old \<Rightarrow>
            (case value of
               YMap w \<Rightarrow> rbind (isa_recursive_update old w) (\<lambda>new. ret (AList.update key new d))
             | YBool b \<Rightarrow> ret (AList.update key (fill_bool value old) d)
             | _ \<Rightarrow> ret (AList.update key value d))) (\<lambda>d.
     isa_recursive_update (YMap d) u))"
  by pat_completeness auto
termination
  by (relation "measure (\<lambda>(d, u). size_list (size_prod (\<lambda>_. 0) size) u)") auto

definition base_letters :: string where "base_letters = ''ACDFGHJLMNPQSTUV''"

definition isa_regex :: re where
  "isa_regex = seqs [lit ''RV'', Group 1 (Alt (lit ''32'') (Alt (lit ''64'') (lit ''128''))),
     Group 2 (Seq (Sat (\<lambda>c. c \<in> set ''IE'')) (many (Sat (\<lambda>c. c \<in> set base_letters)))),
     many (Group 3 (Alt (Group 4 (Seq (lit ''Z'') (many1 (Sat is_word_char))))
       (Group 5 (many1 (Sat (\<lambda>c. is_word_char c \<and> c \<noteq> CHR ''_'')))))),
     many (Group 6 (Seq (lit ''X'') (many (Sat (\<lambda>c. is_lower c \<or> is_digit c))))),
     many (Group 7 (Seq (lit ''_X'') (many (Sat (\<lambda>c. is_lower c \<or> is_digit c))))), Eol]"

definition isa_extensions :: "string \<Rightarrow> string list result" where
  "isa_extensions isa =
     (case re_match isa_regex isa of
        None \<Rightarrow> ret []
      | Some (x, g) \<Rightarrow>
          rbind (of_option TypeError (match_group 2 g)) (\<lambda>character_data.
          rbind (of_option AttributeError (match_group 3 g)) (\<lambda>rest.
          ret (map (\<lambda>c. [c]) character_data @ split_char (CHR ''_'') rest))))"

text \<open>\<open>subset_data[key] = data[key]\<close> for the extensions in order.\<close>

definition select_ext ::
  "(string \<times> yaml) list \<Rightarrow> (string \<times> yaml) list \<Rightarrow> string \<Rightarrow> (string \<times> yaml) list result" where
  "select_ext data picked ext =
     foldR (\<lambda>s (key, v). rbind (y_index v ''Subset_Name'') (\<lambda>n.
       ret (if y_eq n (YStr ext) then AList.update key v s else s))) picked data"

definition missing_entry :: "string \<Rightarrow> yaml" where
  "missing_entry ext = YMap [(''Description'', YStr (''No info found yet for extension '' @ ext)),
     (''Subset_Name'', YStr ext)]"

definition isa_select ::
  "(string \<times> yaml) list \<Rightarrow> (string \<times> yaml) list \<Rightarrow> string list \<Rightarrow> (string \<times> yaml) list result" where
  "isa_select modif_dict data extensions =
     rbind (mapR (\<lambda>(key, v). y_index v ''Subset_Name'') data) (\<lambda>yaml_extensions.
     let extensions = extension_update modif_dict extensions yaml_extensions in
     rbind (foldR (select_ext data) [] extensions) (\<lambda>subset_data.
     let missing = filter (\<lambda>ext. \<not> (\<exists>x \<in> set yaml_extensions. y_eq x (YStr ext))) extensions in
     ret (foldl (\<lambda>s ext. AList.update ext (missing_entry ext) s) subset_data missing)))"

definition isa_filter :: "yaml \<Rightarrow> yaml option \<Rightarrow> yaml option \<Rightarrow> (string \<times> yaml) list result" where
  "isa_filter parsed_data updater template =
     rbind (y_index parsed_data ''hart0'') (\<lambda>h. rbind (y_index h ''ISA'') (\<lambda>i.
     rbind (as_str i) (\<lambda>isa.
     rbind (isa_extensions isa) (\<lambda>extensions.
     rbind (case updater of None \<Rightarrow> ret [] | Some u \<Rightarrow> y_items u) (\<lambda>modif_dict.
     rbind (isa_recursive_update (case template of None \<Rightarrow> YMap [] | Some t \<Rightarrow> t) modif_dict) (\<lambda>data.
     rbind (as_dict TypeError data) (\<lambda>data.
     isa_select modif_dict data extensions)))))))"

section \<open>Spike updater\<close>

text \<open>The recursive call names \<open>csr_recursive_update\<close>, which \<open>spike_updater.py\<close> does not import.\<close>

definition spike_step :: "(string \<times> yaml) list \<Rightarrow> string \<times> yaml \<Rightarrow> (string \<times> yaml) list result" where
  "spike_step d = (\<lambda>(key, value).
     case map_of d key of
       None \<Rightarrow> ret d
     | Some old \<Rightarrow>
         if is_map value \<and> is_map old then
           (if key = ''cores'' then ret (AList.update key value d) else raise NameError)
         else ret (AList.update key value d))"

definition spike_recursive_update ::
  "(string \<times> yaml) list \<Rightarrow> (string \<times> yaml) list \<Rightarrow> (string \<times> yaml) list result" where
  "spike_recursive_update d u = foldR spike_step d u"

definition is_hexdigit :: "char \<Rightarrow> bool" where
  "is_hexdigit c \<longleftrightarrow> is_digit c \<or> c \<in> set ''abcdefABCDEF''"

definition re_hex_string :: re where
  "re_hex_string = seqs [opt (lit [CHR 0x27]), Group 1 (Seq (lit ''0x'') (many1 (Sat is_hexdigit))),
     opt (lit [CHR 0x27])]"

definition is_hex_string :: "string \<Rightarrow> bool" where
  "is_hex_string s \<longleftrightarrow> re_match re_hex_string s \<noteq> None"

text \<open>\<open>s.isdigit()\<close> holds for superscript digits too, which \<open>int\<close> rejects.\<close>

definition py_isdigit :: "string \<Rightarrow> bool" where
  "py_isdigit s \<longleftrightarrow> s \<noteq> [] \<and> list_all (\<lambda>c. is_digit c \<or> code c \<in> {178, 179, 185}) s"

definition convert_str :: "string \<Rightarrow> yaml result" where
  "convert_str s =
     (if lower s = ''true'' then ret (YBool True)
      else if lower s = ''false'' then ret (YBool False)
      else if py_isdigit s then rbind (py_int 10 s) (\<lambda>i. ret (YInt i))
      else if is_hex_string (strip s) then rbind (py_int 16 s) (\<lambda>i. ret (YInt i))
      else ret (YStr s))"

fun custom_convert :: "yaml \<Rightarrow> yaml result"
  and custom_convert_items :: "(string \<times> yaml) list \<Rightarrow> (string \<times> yaml) list result"
  and custom_convert_list :: "yaml list \<Rightarrow> yaml list result" where
  "custom_convert (YMap d) = rbind (custom_convert_items d) (\<lambda>e. ret (YMap e))"
| "custom_convert (YList xs) = rbind (custom_convert_list xs) (\<lambda>ys. ret (YList ys))"
| "custom_convert (YStr s) = convert_str s"
| "custom_convert y = ret y"
| "custom_convert_items [] = ret []"
| "custom_convert_items ((k, v) # d) =
     rbind (custom_convert v) (\<lambda>w. rbind (custom_convert_items d) (\<lambda>e. ret ((k, w) # e)))"
| "custom_convert_list [] = ret []"
| "custom_convert_list (x # xs) =
     rbind (custom_convert x) (\<lambda>y. rbind (custom_convert_list xs) (\<lambda>ys. ret (y # ys)))"

definition spike_formatter :: "yaml \<Rightarrow> yaml option \<Rightarrow> yaml result" where
  "spike_formatter original_dict modifile =
     rbind (y_index original_dict ''spike_param_tree'') (\<lambda>t.
     rbind (case modifile of None \<Rightarrow> ret [] | Some u \<Rightarrow> y_items u) (\<lambda>updated_values.
     rbind (if updated_values = [] then ret original_dict
            else rbind (as_dict TypeError t) (\<lambda>tree.
              rbind (spike_recursive_update tree updated_values) (\<lambda>tree.
              rbind (as_dict TypeError original_dict) (\<lambda>d.
              ret (YMap (AList.update ''spike_param_tree'' (YMap tree) d)))))) custom_convert))"

end
