(* ===== verification/Config_Facts.thy ===== *)
theory Config_Facts
  imports Config_Update
begin

text \<open>What the updaters of the configuration generators guarantee.\<close>

section \<open>The recursive update of the CSR file\<close>

definition csr_merge :: "string \<Rightarrow> yaml \<Rightarrow> yaml \<Rightarrow> yaml" where
  "csr_merge k value old =
     (case (value, old) of
        (YMap w, YMap e) \<Rightarrow> if k = ''rv32'' then value else YMap (csr_recursive_update e w)
      | _ \<Rightarrow> value)"

lemma csr_merge_plain: "\<not> (is_map v \<and> is_map x) \<Longrightarrow> csr_merge k v x = v"
  by (auto simp: csr_merge_def is_map_iff split: yaml.splits prod.splits)

lemma csr_update_step:
  "csr_recursive_update d ((k, v) # u)
     = csr_recursive_update (case map_of d k of None \<Rightarrow> d | Some old \<Rightarrow> AList.update k (csr_merge k v old) d) u"
  by (simp add: csr_merge_def split: option.split prod.split yaml.split)

declare csr_recursive_update.simps(2) [simp del]

lemma csr_update_keys: "map fst (csr_recursive_update d u) = map fst d"
proof (induction u arbitrary: d)
  case (Cons p u)
  obtain k v where p: "p = (k, v)" by (cases p)
  have "map fst (AList.update k x d) = map fst d" if "map_of d k = Some y" for x y
    using that by (intro keys_update_mem) (metis map_of_in option.distinct(1))
  then show ?case unfolding p csr_update_step Cons by (simp split: option.split)
qed simp

lemma csr_update_dict_ok: "dict_ok d \<Longrightarrow> dict_ok (csr_recursive_update d u)"
  by (simp add: dict_ok_def csr_update_keys)

lemma csr_update_lookup:
  "dict_ok u \<Longrightarrow> map_of (csr_recursive_update d u) k =
    (case map_of d k of None \<Rightarrow> None
     | Some old \<Rightarrow> Some (case map_of u k of None \<Rightarrow> old | Some v \<Rightarrow> csr_merge k v old))"
proof (induction u arbitrary: d)
  case Nil
  then show ?case by (simp split: option.split)
next
  case (Cons p u)
  obtain key v where p: "p = (key, v)" by (cases p)
  with Cons.prems have u: "dict_ok u" "map_of u key = None"
    by (auto simp: dict_ok_def map_of_eq_None_iff)
  show ?case
  proof (cases "map_of d key")
    case None
    then show ?thesis unfolding p csr_update_step using Cons.IH [OF u(1), of d] u(2)
      by (cases "key = k") (auto split: option.split)
  next
    case (Some old)
    have "map_of (AList.update key (csr_merge key v old) d) = (map_of d)(key \<mapsto> csr_merge key v old)"
      by (rule update_conv')
    then show ?thesis unfolding p csr_update_step using Cons.IH [OF u(1)] u(2) Some
      by (cases "key = k") (auto split: option.split)
  qed
qed

lemma csr_update_self:
  "wf_yaml y \<Longrightarrow> (\<forall>u. y = YMap u \<longrightarrow> csr_recursive_update u u = u)"
proof (induction y rule: measure_induct_rule [where f = size])
  case (less y)
  show ?case
  proof (intro allI impI)
    fix u assume y: "y = YMap u"
    with less.prems have ok: "dict_ok u" "wf_items u" by simp_all
    have merge: "csr_merge k v v = v" if "(k, v) \<in> set u" for k v
    proof (cases v)
      case (YMap w)
      have "size v < size y"
        using size_list_estimation' [OF that, of "size v" "size_prod (\<lambda>_. 0) size"] y by simp
      moreover have "wf_yaml v" using ok(2) that by (auto simp: wf_items_iff)
      ultimately have "csr_recursive_update w w = w" using less.IH YMap by blast
      then show ?thesis by (simp add: csr_merge_def YMap)
    qed (simp_all add: csr_merge_def)
    show "csr_recursive_update u u = u"
    proof (rule dict_eqI)
      show "map_of (csr_recursive_update u u) = map_of u"
      proof
        fix k show "map_of (csr_recursive_update u u) k = map_of u k"
          by (cases "map_of u k") (auto simp: csr_update_lookup [OF ok(1)] merge dest!: map_of_SomeD)
      qed
    qed (simp_all add: csr_update_keys csr_update_dict_ok ok(1))
  qed
qed

lemma csr_update_twice:
  "wf_yaml y \<Longrightarrow> \<forall>u d. y = YMap u \<longrightarrow> dict_ok d \<longrightarrow> wf_items d \<longrightarrow>
    csr_recursive_update (csr_recursive_update d u) u = csr_recursive_update d u"
proof (induction y rule: measure_induct_rule [where f = size])
  case (less y)
  show ?case
  proof (intro allI impI)
    fix u d assume y: "y = YMap u" and d: "dict_ok d" "wf_items d"
    with less.prems have ok: "dict_ok u" "wf_items u" by simp_all
    have merge: "csr_merge k v (csr_merge k v x) = csr_merge k v x" if "(k, v) \<in> set u" "wf_yaml x" for k v x
    proof (cases "is_map v \<and> is_map x \<and> k \<noteq> ''rv32''")
      case True
      then obtain w e where we: "v = YMap w" "x = YMap e" by (auto simp: is_map_iff)
      have "size v < size y"
        using size_list_estimation' [OF that(1), of "size v" "size_prod (\<lambda>_. 0) size"] y by simp
      moreover have "wf_yaml v" using ok(2) that by (auto simp: wf_items_iff)
      ultimately have "csr_recursive_update (csr_recursive_update e w) w = csr_recursive_update e w"
        using less.IH [of v] we that(2) by auto
      then show ?thesis using True by (simp add: csr_merge_def we)
    next
      case False
      then have m: "csr_merge k v x = v"
        by (auto simp: csr_merge_def is_map_iff split: yaml.splits prod.splits)
      have "csr_merge k v v = v"
      proof (cases v)
        case (YMap w)
        have "wf_yaml v" using ok(2) that by (auto simp: wf_items_iff)
        with csr_update_self [of v] have "csr_recursive_update w w = w" using YMap by blast
        then show ?thesis by (simp add: csr_merge_def YMap)
      qed (simp_all add: csr_merge_def)
      with m show ?thesis by simp
    qed
    show "csr_recursive_update (csr_recursive_update d u) u = csr_recursive_update d u"
    proof (rule dict_eqI)
      have "csr_merge k v (csr_merge k v x) = csr_merge k v x" if "map_of d k = Some x" "map_of u k = Some v" for k v x
        using that d(2) by (intro merge) (auto simp: wf_items_iff dest: map_of_SomeD)
      then show "map_of (csr_recursive_update (csr_recursive_update d u) u) = map_of (csr_recursive_update d u)"
        by (intro ext) (simp add: csr_update_lookup [OF ok(1)] split: option.split)
    qed (simp_all add: csr_update_keys csr_update_dict_ok d(1))
  qed
qed

text \<open>
  The updater changes values, never keys: every dictionary keeps its keys in their order, a
  register or attribute the updater does not name keeps its value, and a named one is merged when both
  sides are dictionaries (replaced at once under \<open>rv32\<close>) and replaced otherwise. Applying
  the same updater twice is applying it once.
\<close>

lemma csr_update_law:
  assumes "wf_yaml (YMap u)" "wf_yaml (YMap d)"
  shows "map fst (csr_recursive_update d u) = map fst d
    \<and> (\<forall>k. map_of (csr_recursive_update d u) k =
         (case (map_of d k, map_of u k) of
            (Some (YMap e), Some (YMap w)) \<Rightarrow>
              Some (if k = ''rv32'' then YMap w else YMap (csr_recursive_update e w))
          | (Some old, Some v) \<Rightarrow> Some v
          | (old, _) \<Rightarrow> old))
    \<and> csr_recursive_update (csr_recursive_update d u) u = csr_recursive_update d u"
proof (intro conjI allI)
  have u: "dict_ok u" using assms(1) by simp
  fix k
  show "map_of (csr_recursive_update d u) k =
         (case (map_of d k, map_of u k) of
            (Some (YMap e), Some (YMap w)) \<Rightarrow>
              Some (if k = ''rv32'' then YMap w else YMap (csr_recursive_update e w))
          | (Some old, Some v) \<Rightarrow> Some v
          | (old, _) \<Rightarrow> old)"
    unfolding csr_update_lookup [OF u] csr_merge_def
    by (cases "map_of d k"; cases "map_of u k"; cases "the (map_of d k)"; cases "the (map_of u k)") simp_all
  show "csr_recursive_update (csr_recursive_update d u) u = csr_recursive_update d u"
    using csr_update_twice [OF assms(1)] assms(2) by simp
qed (rule csr_update_keys)

lemma csr_update_law_witness:
  "map_of (csr_recursive_update [(''mtvec'', YMap [(''reset-val'', YInt 0), (''rv64'', YNone)]), (''mip'', YInt 1)]
     [(''mtvec'', YMap [(''reset-val'', YInt 5), (''new'', YInt 7)]), (''mie'', YInt 2)]) ''mtvec''
   = Some (YMap [(''reset-val'', YInt 5), (''rv64'', YNone)])"
proof -
  have "csr_recursive_update [(''reset-val'', YInt 0), (''rv64'', YNone)] [(''reset-val'', YInt 5), (''new'', YInt 7)]
    = [(''reset-val'', YInt 5), (''rv64'', YNone)]" by code_simp
  then show ?thesis
    using csr_update_law [of "[(''mtvec'', YMap [(''reset-val'', YInt 5), (''new'', YInt 7)]), (''mie'', YInt 2)]"
        "[(''mtvec'', YMap [(''reset-val'', YInt 0), (''rv64'', YNone)]), (''mip'', YInt 1)]"]
    by (simp add: dict_ok_def)
qed

section \<open>Extensions\<close>

definition subset_name :: "yaml \<Rightarrow> yaml result" where
  "subset_name v = y_index v ''Subset_Name''"

lemma mapR_names: "mapR (\<lambda>(key, v). y_index v ''Subset_Name'') data = Inr ns \<Longrightarrow>
    ext_y \<in> set ns \<longleftrightarrow> (\<exists>(key, v) \<in> set data. subset_name v = Inr ext_y)"
proof (induction data arbitrary: ns)
  case (Cons p data)
  obtain k v where p: "p = (k, v)" by (cases p)
  with Cons.prems obtain n ns' where n: "subset_name v = Inr n" "ns = n # ns'"
    "mapR (\<lambda>(key, v). y_index v ''Subset_Name'') data = Inr ns'" by (auto simp: subset_name_def)
  from Cons.IH [OF n(3)] n(1,2) show ?case by (auto simp: p)
qed simp

text \<open>The switches: only the last one for a name counts, and names are distinct.\<close>

definition switched :: "(string \<times> yaml) list \<Rightarrow> yaml list \<Rightarrow> string set \<Rightarrow> string set" where
  "switched m names l =
     {ext. (ext \<in> l \<and> \<not> (\<exists>v. map_of m ext = Some v \<and> \<not> is_bool v))
        \<or> map_of m ext = Some (YBool True) \<and> YStr ext \<in> set names}"

lemma ext_step_set:
  assumes "dict_ok m" "(k, v) \<in> set m" "\<not> is_bool v \<Longrightarrow> count_list l k \<le> 1"
  shows "set (ext_step m names l (k, v)) =
    (if is_bool v then (if v = YBool True \<and> YStr k \<in> set names then insert k (set l) else set l) else set l - {k})"
proof -
  have "map_of m k = Some v" using assms(1,2) by (simp add: dict_ok_def)
  moreover have "set (remove1 k l) = set l - {k}" if "\<not> is_bool v"
    using assms(3) [OF that] by (induction l) (auto simp: count_list_0_iff split: if_splits)
  ultimately show ?thesis
    by (cases v) (auto simp: ext_step_def dict_get_or_def)
qed

lemma ext_step_count:
  assumes "dict_ok m" "(k, v) \<in> set m" "k' \<noteq> k"
  shows "count_list (ext_step m names l (k, v)) k' = count_list l k'"
proof -
  have "count_list (remove1 k l) k' = count_list l k'" using assms(3) by (induction l) auto
  then show ?thesis using assms by (simp add: ext_step_def)
qed

lemma extension_fold:
  assumes "dict_ok m" "set p \<subseteq> set m" "distinct (map fst p)"
    "\<And>k v. (k, v) \<in> set p \<Longrightarrow> count_list l k \<le> 1"
  shows "set (foldl (ext_step m names) l p) = switched p names (set l)"
  using assms
proof (induction p arbitrary: l)
  case Nil
  then show ?case by (simp add: switched_def)
next
  case (Cons q p)
  obtain k v where q: "q = (k, v)" by (cases q)
  let ?l = "ext_step m names l (k, v)"
  have kv: "(k, v) \<in> set m" using Cons.prems(2) q by simp
  have fresh: "k \<notin> fst ` set p" using Cons.prems(3) q by simp
  have "map_of p k = None" using fresh by (simp add: map_of_eq_None_iff)
  have "set (foldl (ext_step m names) ?l p) = switched p names (set ?l)"
  proof (rule Cons.IH)
    fix k' v' assume k': "(k', v') \<in> set p"
    with fresh have "k' \<noteq> k" by force
    with ext_step_count [OF Cons.prems(1) kv] show "count_list ?l k' \<le> 1"
      using Cons.prems(4) k' by fastforce
  qed (use Cons.prems in auto)
  also have "switched p names (set ?l) = switched (q # p) names (set l)"
  proof (rule set_eqI)
    fix e
    have l: "set ?l = (if is_bool v then (if v = YBool True \<and> YStr k \<in> set names then insert k (set l) else set l)
        else set l - {k})"
      by (rule ext_step_set [OF Cons.prems(1) kv]) (use Cons.prems(4) [of k v] q in simp)
    show "e \<in> switched p names (set ?l) \<longleftrightarrow> e \<in> switched (q # p) names (set l)"
    proof (cases "e = k")
      case True
      with \<open>map_of p k = None\<close> show ?thesis
        unfolding switched_def l q by (cases v) auto
    next
      case False
      then show ?thesis unfolding switched_def l q by simp
    qed
  qed
  finally show ?case by (simp add: q)
qed

lemma count_distinct: "distinct l \<Longrightarrow> count_list l k \<le> 1"
  by (induction l) (auto simp: count_list_0_iff)

lemma extension_update_set:
  "dict_ok m \<Longrightarrow> distinct l \<Longrightarrow> set (extension_update m l names) = switched m names (set l)"
  unfolding extension_update_def
  by (rule extension_fold) (simp_all add: dict_ok_def count_distinct [simplified])

text \<open>An assignment that agrees with what is there only adds the pair.\<close>

lemma set_update_agree:
  "(\<And>v'. (k, v') \<in> set s \<Longrightarrow> v' = v) \<Longrightarrow> set (AList.update k v s) = insert (k, v) (set s)"
  by (induction s) auto

lemma select_ext_set:
  assumes "dict_ok data" "set p \<subseteq> set data" "set s \<subseteq> set data"
    "\<forall>(k, v) \<in> set p. \<exists>n. subset_name v = Inr n"
  shows "\<exists>s'. foldR (\<lambda>s (key, v). rbind (y_index v ''Subset_Name'') (\<lambda>n.
       ret (if y_eq n (YStr e) then AList.update key v s else s))) s p = Inr s'
     \<and> set s' = set s \<union> {(k, v) \<in> set p. subset_name v = Inr (YStr e)} \<and> set s' \<subseteq> set data"
  using assms(2-4)
proof (induction p arbitrary: s)
  case (Cons q p)
  obtain k v where q: "q = (k, v)" by (cases q)
  with Cons.prems obtain n where n: "y_index v ''Subset_Name'' = Inr n" by (auto simp: subset_name_def)
  let ?s = "if n = YStr e then AList.update k v s else s"
  have "set (AList.update k v s) = insert (k, v) (set s)"
  proof (rule set_update_agree)
    fix v' assume "(k, v') \<in> set s"
    with Cons.prems(1,2) q have "(k, v') \<in> set data" "(k, v) \<in> set data" by auto
    with assms(1) show "v' = v" by (metis dict_ok_def eq_key_imp_eq_value)
  qed
  then have s: "set ?s = set s \<union> {p. p = (k, v) \<and> n = YStr e}" "set ?s \<subseteq> set data"
    using Cons.prems(1,2) q by auto
  obtain s' where s': "foldR (\<lambda>s (key, v). rbind (y_index v ''Subset_Name'') (\<lambda>n.
       ret (if y_eq n (YStr e) then AList.update key v s else s))) ?s p = Inr s'"
     "set s' = set ?s \<union> {(k, v) \<in> set p. subset_name v = Inr (YStr e)}" "set s' \<subseteq> set data"
    using Cons.IH [OF _ s(2)] Cons.prems(1,3) by auto
  show ?case
  proof (intro exI conjI)
    show "foldR (\<lambda>s (key, v). rbind (y_index v ''Subset_Name'') (\<lambda>n.
       ret (if y_eq n (YStr e) then AList.update key v s else s))) s (q # p) = Inr s'"
      using s'(1) by (simp add: q n)
    show "set s' = set s \<union> {(k, v) \<in> set (q # p). subset_name v = Inr (YStr e)}"
      unfolding s'(2) s(1) q using n by (auto simp: subset_name_def)
  qed (rule s'(3))
qed simp

lemma select_all_set:
  assumes "dict_ok data" "set s \<subseteq> set data" "\<forall>(k, v) \<in> set data. \<exists>n. subset_name v = Inr n"
  shows "\<exists>s'. foldR (select_ext data) s es = Inr s' \<and> set s' \<subseteq> set data
     \<and> set s' = set s \<union> {(k, v) \<in> set data. \<exists>e \<in> set es. subset_name v = Inr (YStr e)}"
  using assms(2)
proof (induction es arbitrary: s)
  case Nil
  then show ?case by auto
next
  case (Cons e es)
  obtain s1 where s1: "select_ext data s e = Inr s1" "set s1 \<subseteq> set data"
    "set s1 = set s \<union> {(k, v) \<in> set data. subset_name v = Inr (YStr e)}"
    using select_ext_set [OF assms(1) order_refl Cons.prems assms(3), of e] by (auto simp: select_ext_def)
  from Cons.IH [OF s1(2)] obtain s' where "foldR (select_ext data) s1 es = Inr s'" "set s' \<subseteq> set data"
    "set s' = set s1 \<union> {(k, v) \<in> set data. \<exists>e \<in> set es. subset_name v = Inr (YStr e)}" by blast
  with s1 show ?case by (intro exI [of _ s']) auto
qed

lemma missing_lookup:
  "map_of (foldl (\<lambda>s e. AList.update e (missing_entry e) s) s es) k =
    (if k \<in> set es then Some (missing_entry k) else map_of s k)"
  by (induction es arbitrary: s) (auto simp: update_conv')

lemma chosen:
  "(\<And>v. x = Some v \<longleftrightarrow> y = Some v \<and> P v) \<Longrightarrow>
    x = (case y of None \<Rightarrow> None | Some v \<Rightarrow> if P v then Some v else None)"
  by (cases y; cases x) (simp_all, metis option.distinct(1), metis option.inject option.distinct(1))

lemma part_lookup:
  assumes "dict_ok data" "set s \<subseteq> set data"
  shows "map_of s k = Some v \<longleftrightarrow> (k, v) \<in> set s"
proof
  assume kv: "(k, v) \<in> set s"
  then obtain w where w: "map_of s k = Some w" by (metis domD dom_map_of_conv_image_fst image_eqI fst_conv)
  then have "(k, w) \<in> set data" "(k, v) \<in> set data" using kv assms(2) map_of_SomeD by fast+
  with assms(1) have "w = v" by (metis dict_ok_def eq_key_imp_eq_value)
  with w show "map_of s k = Some v" by simp
qed (rule map_of_SomeD)

text \<open>
  What is selected, in terms of the updater, the template and the ISA string: a template has an
  extension when one of its entries has that \<open>Subset_Name\<close>.
\<close>

definition in_template :: "(string \<times> yaml) list \<Rightarrow> string \<Rightarrow> bool" where
  "in_template data e \<longleftrightarrow> (\<exists>(k, v) \<in> set data. y_index v ''Subset_Name'' = Inr (YStr e))"

definition left_in :: "(string \<times> yaml) list \<Rightarrow> string list \<Rightarrow> string \<Rightarrow> bool" where
  "left_in m es e \<longleftrightarrow> e \<in> set es \<and> (\<forall>v. map_of m e = Some v \<longrightarrow> is_bool v)"

definition switched_on :: "(string \<times> yaml) list \<Rightarrow> string \<Rightarrow> bool" where
  "switched_on m e \<longleftrightarrow> map_of m e = Some (YBool True)"

text \<open>
  C22: The document of \<open>isa_filter\<close>, key by key, for an updater and a template without repeated keys
  and an ISA string without repeated names. An extension of the ISA string that no entry of the
  template has, and that the updater leaves in, is documented by a stub under its own name; under
  every other key stands the entry of the template, exactly when its extension is one that the ISA
  string names and the updater leaves in, or one that the updater sets to True. A value False leaves
  an extension in; only a value that is no boolean takes it out.
\<close>

theorem isa_selection:
  assumes "isa_select m data es = Inr r" "dict_ok m" "dict_ok data" "distinct es"
  shows "map_of r k =
    (if left_in m es k \<and> \<not> in_template data k then Some (missing_entry k)
     else case map_of data k of
       None \<Rightarrow> None
     | Some v \<Rightarrow>
         if \<exists>e. y_index v ''Subset_Name'' = Inr (YStr e) \<and> (left_in m es e \<or> switched_on m e)
         then Some v else None)"
proof -
  from assms(1) obtain ns sub where ns: "mapR (\<lambda>(key, v). y_index v ''Subset_Name'') data = Inr ns"
    and sub: "foldR (select_ext data) [] (extension_update m es ns) = Inr sub"
    and r: "r = foldl (\<lambda>s e. AList.update e (missing_entry e) s) sub
      (filter (\<lambda>e. YStr e \<notin> set ns) (extension_update m es ns))"
    by (auto simp: isa_select_def Let_def)
  let ?E = "extension_update m es ns"
  have names: "YStr e \<in> set ns \<longleftrightarrow> in_template data e" for e
    using mapR_names [OF ns, of "YStr e"] by (simp add: in_template_def subset_name_def)
  have E: "e \<in> set ?E \<longleftrightarrow> left_in m es e \<or> switched_on m e \<and> in_template data e" for e
    unfolding extension_update_set [OF assms(2,4)]
    by (auto simp: switched_def left_in_def switched_on_def names)
  have "\<forall>(k, v) \<in> set data. \<exists>n. subset_name v = Inr n"
    using ns by (auto simp: mapR_Inr_iff list_all2_conv_all_nth subset_name_def in_set_conv_nth split: prod.splits)
  from select_all_set [OF assms(3) _ this, of "[]" ?E] sub
  have picked: "set sub = {(k, v) \<in> set data. \<exists>e \<in> set ?E. subset_name v = Inr (YStr e)}" by auto
  have data: "map_of data k = Some v \<longleftrightarrow> (k, v) \<in> set data" for v
    using part_lookup [OF assms(3) order_refl] .
  have picked_at: "map_of sub k = Some v \<longleftrightarrow> map_of data k = Some v
      \<and> (\<exists>e. y_index v ''Subset_Name'' = Inr (YStr e) \<and> (left_in m es e \<or> switched_on m e))" for v
  proof -
    have "set sub \<subseteq> set data" unfolding picked by auto
    then have "map_of sub k = Some v \<longleftrightarrow> (k, v) \<in> set sub" by (rule part_lookup [OF assms(3)])
    moreover have "in_template data e" if "(k, v) \<in> set data" "y_index v ''Subset_Name'' = Inr (YStr e)" for e
      using that unfolding in_template_def by blast
    ultimately show ?thesis unfolding data picked using E by (auto simp: subset_name_def)
  qed
  have "map_of sub k = (case map_of data k of None \<Rightarrow> None
     | Some v \<Rightarrow> if \<exists>e. y_index v ''Subset_Name'' = Inr (YStr e) \<and> (left_in m es e \<or> switched_on m e)
         then Some v else None)"
    by (rule chosen) (rule picked_at)
  then show ?thesis
    unfolding r missing_lookup by (auto simp: E names)
qed

text \<open>
  Entries as those of \<open>isa_template.yaml\<close>, whose keys are titles: with \<open>Zicond\<close> set to False and
  \<open>Zcb\<close> to True, for an ISA string with \<open>I\<close>, \<open>Zicond\<close> and \<open>Zcmp\<close>. The entry for \<open>Zcmp\<close> has the
  subset name \<open>Zicmp\<close>, so that it is left out and \<open>Zcmp\<close> gets a stub.
\<close>

definition example_template :: "(string \<times> yaml) list" where
  "example_template =
    [(''RV32Zcb Code Size Reduction Instructions'', YMap [(''Subset_Name'', YStr ''Zcb'')]),
     (''RV32M Multiplication and Division Instructions'', YMap [(''Subset_Name'', YStr ''M'')]),
     (''RV32Zicond Integer Conditional Instructions'', YMap [(''Subset_Name'', YStr ''Zicond'')]),
     (''RVZcmp_Code_Size_Reduction_Instructions'', YMap [(''Subset_Name'', YStr ''Zicmp'')]),
     (''RV32I Base Integer Instructions'', YMap [(''Subset_Name'', YStr ''I'')])]"

theorem isa_selection_witness:
  "\<exists>r. isa_select [(''Zicond'', YBool False), (''Zcb'', YBool True)] example_template [''I'', ''Zicond'', ''Zcmp''] = Inr r
    \<and> map_of r ''RV32I Base Integer Instructions'' = Some (YMap [(''Subset_Name'', YStr ''I'')])
    \<and> map_of r ''RV32Zicond Integer Conditional Instructions'' = Some (YMap [(''Subset_Name'', YStr ''Zicond'')])
    \<and> map_of r ''RV32M Multiplication and Division Instructions'' = None
    \<and> map_of r ''RVZcmp_Code_Size_Reduction_Instructions'' = None
    \<and> map_of r ''Zcmp'' = Some (missing_entry ''Zcmp'')"
proof -
  let ?m = "[(''Zicond'', YBool False), (''Zcb'', YBool True)]"
  obtain r where r: "isa_select ?m example_template [''I'', ''Zicond'', ''Zcmp''] = Inr r"
    by (simp add: example_template_def isa_select_def extension_update_def ext_step_def select_ext_def dict_get_def
      dict_get_or_def)
  note look = left_in_def switched_on_def in_template_def
  have "dict_ok ?m" "dict_ok example_template" "distinct [''I'', ''Zicond'', ''Zcmp'']"
    by (simp_all add: dict_ok_def example_template_def)
  then have "map_of r ''RV32I Base Integer Instructions'' = Some (YMap [(''Subset_Name'', YStr ''I'')])"
    "map_of r ''RV32Zicond Integer Conditional Instructions'' = Some (YMap [(''Subset_Name'', YStr ''Zicond'')])"
    "map_of r ''RV32M Multiplication and Division Instructions'' = None"
    "map_of r ''RVZcmp_Code_Size_Reduction_Instructions'' = None"
    "map_of r ''Zcmp'' = Some (missing_entry ''Zcmp'')"
    by (simp_all add: isa_selection [OF r], simp_all add: look example_template_def dict_get_def)
  with r show ?thesis by blast
qed

section \<open>The Spike file\<close>

lemma convert_str_stable: "convert_str s = Inr y \<Longrightarrow> custom_convert y = Inr y"
  by (auto simp: convert_str_def split: if_splits)

lemma convert_stable:
  "custom_convert x = Inr y \<Longrightarrow> custom_convert y = Inr y"
  "custom_convert_items d = Inr e \<Longrightarrow> custom_convert_items e = Inr e"
  "custom_convert_list xs = Inr ys \<Longrightarrow> custom_convert_list ys = Inr ys"
  by (induction x and d and xs arbitrary: y and e and ys
      rule: custom_convert_custom_convert_items_custom_convert_list.induct)
    (auto simp: convert_str_stable)

definition cannot_merge :: "(string \<times> yaml) list \<Rightarrow> string \<times> yaml \<Rightarrow> bool" where
  "cannot_merge tree = (\<lambda>(k, v). k \<noteq> ''cores'' \<and> is_map v \<and> (\<exists>old. map_of tree k = Some old \<and> is_map old))"

lemma spike_update_outcome:
  "dict_ok u \<Longrightarrow> if \<exists>p \<in> set u. cannot_merge tree p then foldR spike_step tree u = Inl NameError
    else \<exists>t. foldR spike_step tree u = Inr t \<and> map fst t = map fst tree"
proof (induction u arbitrary: tree)
  case (Cons p u)
  obtain k v where p: "p = (k, v)" by (cases p)
  show ?case
  proof (cases "cannot_merge tree p")
    case True
    then have "spike_step tree p = Inl NameError"
      by (auto simp: cannot_merge_def spike_step_def p)
    with True show ?thesis by auto
  next
    case False
    then obtain t where t: "spike_step tree p = Inr t" "map fst t = map fst tree"
      "\<And>k'. k' \<noteq> k \<Longrightarrow> map_of t k' = map_of tree k'"
    proof (cases "map_of tree k")
      case None
      then show thesis by (intro that [of tree]) (simp_all add: spike_step_def p)
    next
      case (Some old)
      then have "k \<in> fst ` set tree" by (metis map_of_in option.distinct(1))
      with False Some show thesis
        by (intro that [of "AList.update k v tree"])
          (auto simp: spike_step_def p cannot_merge_def keys_update_mem update_conv')
    qed
    have "cannot_merge t q = cannot_merge tree q" if "q \<in> set u" for q
    proof -
      have "fst q \<noteq> k" using Cons.prems that p by (auto simp: dict_ok_def)
      then show ?thesis using t(3) [of "fst q"] by (cases q) (simp add: cannot_merge_def)
    qed
    moreover have "dict_ok u" using Cons.prems by (simp add: dict_ok_def)
    ultimately show ?thesis using Cons.IH [of t] False t(1,2) by auto
  qed
qed simp

text \<open>
  C23: The Spike file: converting the leaves twice is converting them once, so that a written file
  is read back unchanged. The update keeps the keys of the tree, and ends normally unless the updater
  has a dictionary, under a key other than \<open>cores\<close>, where the tree has one: then it ends in a
  NameError, since the module calls a function it does not import.
\<close>

theorem spike_file:
  assumes "dict_ok u" "custom_convert x = Inr y"
  shows "custom_convert y = Inr y
    \<and> (if \<exists>(k, v) \<in> set u. k \<noteq> ''cores'' \<and> is_map v \<and> (\<exists>old. map_of tree k = Some old \<and> is_map old)
       then spike_recursive_update tree u = Inl NameError
       else \<exists>t. spike_recursive_update tree u = Inr t \<and> map fst t = map fst tree)"
  using spike_update_outcome [OF assms(1), of tree] convert_stable(1) [OF assms(2)]
  by (simp add: spike_recursive_update_def cannot_merge_def)

theorem spike_file_witness:
  "custom_convert (YMap [(''isa'', YStr ''rv32imc''), (''max_steps'', YInt 200000), (''dram'', YBool True)])
     = Inr (YMap [(''isa'', YStr ''rv32imc''), (''max_steps'', YInt 200000), (''dram'', YBool True)])
   \<and> spike_recursive_update [(''dram'', YMap [])] [(''dram'', YMap [(''base'', YStr ''0x0'')])] = Inl NameError"
proof -
  have "custom_convert (YMap [(''isa'', YStr ''rv32imc''), (''max_steps'', YStr ''200000''), (''dram'', YStr ''True'')])
     = Inr (YMap [(''isa'', YStr ''rv32imc''), (''max_steps'', YInt 200000), (''dram'', YBool True)])"
    by code_simp
  from spike_file [OF _ this, of "[(''dram'', YMap [(''base'', YStr ''0x0'')])]" "[(''dram'', YMap [])]"]
  show ?thesis by (simp add: dict_ok_def)
qed

end
