(* ===== verification/Csr_Factorizer.thy ===== *)
theory Csr_Factorizer
  imports Config_Update
begin

text \<open>
  The CSR factorizer \<open>csr_factorizer.py\<close>: registers of the same name and kind with consecutive
  numbers become one entry with a range of addresses. The local lists of the function are a record.
  Register names hold no special character of regular expressions, so that the substitutions in
  descriptions replace the name itself.
\<close>

text \<open>The kinds of a register: the keys of its type, or of the types of its fields.\<close>

datatype legal = LNone | LKeys "string list" | LList "string list list"

definition keys_eq :: "string list \<Rightarrow> string list \<Rightarrow> bool" where
  "keys_eq a b \<longleftrightarrow> set a = set b"

fun legal_eq :: "legal \<Rightarrow> legal \<Rightarrow> bool" where
  "legal_eq LNone LNone = True"
| "legal_eq (LKeys a) (LKeys b) = keys_eq a b"
| "legal_eq (LList a) (LList b) = list_all2 keys_eq a b"
| "legal_eq _ _ = False"

record fac =
  f_privname :: "string option"  \<comment> \<open>group 1 of the last match\<close>
  f_legalname :: legal
  f_fieldname :: "string list"
  f_regname :: "string list"
  f_regdescr :: "yaml list"
  f_regadress :: "string list"
  f_reg_number :: "string list"
  f_new_regname :: "string list"
  f_data :: "yaml list"
  f_field_suffix :: "string list"
  f_suffix_name :: "string list"
  f_suffix_descr :: "yaml list"
  f_suffix_address :: "string list"
  f_suffix_number :: "string list"
  f_key_to_remove :: "string list"

definition fac_init :: fac where
  "fac_init = \<lparr>f_privname = None, f_legalname = LNone, f_fieldname = [], f_regname = [], f_regdescr = [],
     f_regadress = [], f_reg_number = [], f_new_regname = [], f_data = [], f_field_suffix = [],
     f_suffix_name = [], f_suffix_descr = [], f_suffix_address = [], f_suffix_number = [],
     f_key_to_remove = []\<rparr>"

definition address_to_key :: "string \<Rightarrow> int result" where
  "address_to_key address = py_int 16 address"

text \<open>\<open>sorted(xs, key=f)\<close> is stable; \<open>xs[0]\<close> and \<open>xs[-1]\<close> raise on the empty list.\<close>

definition sortedR :: "('a \<Rightarrow> int result) \<Rightarrow> 'a list \<Rightarrow> 'a list result" where
  "sortedR f xs = rbind (mapR f xs) (\<lambda>ks. ret (map snd (sort_key fst (zip ks xs))))"

definition firstR :: "'a list \<Rightarrow> 'a result" where
  "firstR xs = (case xs of [] \<Rightarrow> raise IndexError | x # _ \<Rightarrow> ret x)"

definition lastR :: "'a list \<Rightarrow> 'a result" where
  "lastR xs = (if xs = [] then raise IndexError else ret (last xs))"

definition re_numbered :: re where
  "re_numbered = seqs [Group 1 (many1 (Sat (\<lambda>c. \<not> is_digit c))), Group 2 digits, Group 3 (many dot)]"

definition item_legal :: "yaml \<Rightarrow> yaml \<Rightarrow> string list list result" where
  "item_legal rv32 item =
     (if is_list item then ret []
      else rbind (rbind (as_dict AttributeError rv32) (\<lambda>d. get_by d item (YMap []))) (\<lambda>x.
        rbind (y_get x ''type'' YNone) (\<lambda>t.
        if t = YNone then ret [] else rbind (y_keys t) (\<lambda>ks. ret [ks]))))"

definition legal_of :: "yaml \<Rightarrow> legal result" where
  "legal_of rv32 =
     rbind (y_get rv32 ''fields'' (YList [])) (\<lambda>fields.
     if \<not> truthy fields then
       rbind (y_get rv32 ''type'' YNone) (\<lambda>t.
       if t = YNone then ret LNone else rbind (y_keys t) (\<lambda>ks. ret (LKeys ks)))
     else rbind (y_iter fields) (\<lambda>items. rbind (mapR (item_legal rv32) items) (\<lambda>ls. ret (LList (concat ls)))))"

text \<open>A copy of the register with a new address.\<close>

definition with_address :: "(string \<times> yaml) list \<Rightarrow> string \<Rightarrow> string \<Rightarrow> (string \<times> yaml) list result" where
  "with_address yaml_data name addr =
     rbind (rbind (dict_get yaml_data name) (as_dict AttributeError)) (\<lambda>d.
     ret (AList.update ''address'' (YStr addr) d))"

definition range_name :: "string \<Rightarrow> string list \<Rightarrow> string \<Rightarrow> string result" where
  "range_name field nums suffix =
     rbind (firstR nums) (\<lambda>a. rbind (lastR nums) (\<lambda>b.
     ret (field @ ''['' @ a @ ''-'' @ b @ '']'' @ suffix)))"

text \<open>A new name begins: the registers of the last name are closed.\<close>

definition close_regs :: "(string \<times> yaml) list \<Rightarrow> fac \<Rightarrow> fac result" where
  "close_regs yaml_data s =
     (if f_regname s = [] then ret s else
        rbind (sortedR address_to_key (f_regadress s)) (\<lambda>regadress.
        rbind (firstR (f_fieldname s)) (\<lambda>field.
        rbind (sortedR (\<lambda>x. py_int 10 (lstrip_chars field x)) (f_regname s)) (\<lambda>regname.
        rbind (rbind (firstR regadress) (py_int 16)) (\<lambda>start.
        rbind (firstR (f_regdescr s)) (\<lambda>desc.
        rbind (rbind (firstR regname) (\<lambda>name. rbind (lastR regadress) (\<lambda>stop.
          with_address yaml_data name (py_hex start @ ''-'' @ stop)))) (\<lambda>modified.
        rbind (range_name field (f_reg_number s) []) (\<lambda>name.
        ret (s\<lparr>f_regadress := regadress, f_regname := regname,
               f_new_regname := f_new_regname s @ [name], f_data := f_data s @ [YMap modified]\<rparr>)))))))))"

definition close_suffixes :: "(string \<times> yaml) list \<Rightarrow> fac \<Rightarrow> fac result" where
  "close_suffixes yaml_data s =
     (if f_suffix_name s = [] then ret s else
        rbind (firstR (f_field_suffix s)) (\<lambda>field.
        rbind (sortedR (\<lambda>x. py_int 10 (rstrip_chars ''h'' (lstrip_chars field x))) (f_suffix_name s)) (\<lambda>names.
        rbind (sortedR address_to_key (f_suffix_address s)) (\<lambda>addrs.
        rbind (firstR (f_suffix_descr s)) (\<lambda>desc.
        rbind (rbind (firstR names) (\<lambda>name. rbind (firstR addrs) (\<lambda>start. rbind (lastR addrs) (\<lambda>stop.
          with_address yaml_data name (start @ ''-'' @ stop))))) (\<lambda>modified.
        rbind (range_name field (f_suffix_number s) ''h'') (\<lambda>name.
        ret (s\<lparr>f_suffix_name := names, f_suffix_address := addrs,
               f_new_regname := f_new_regname s @ [name], f_data := f_data s @ [YMap modified]\<rparr>))))))))"

definition fac_match ::
  "(string \<times> yaml) list \<Rightarrow> string \<Rightarrow> yaml \<Rightarrow> legal \<Rightarrow> string \<Rightarrow> string \<Rightarrow> string \<Rightarrow> string \<Rightarrow> fac \<Rightarrow> fac result" where
  "fac_match yaml_data regaddress desc legal m0 m1 m2 m3 s =
     rbind
       (if f_privname s = Some m1 \<and> legal_eq (f_legalname s) legal then
          ret (if m3 \<noteq> [] then
                 s\<lparr>f_suffix_name := f_suffix_name s @ [m0], f_field_suffix := f_field_suffix s @ [m1],
                   f_suffix_number := f_suffix_number s @ [m2], f_suffix_descr := f_suffix_descr s @ [desc],
                   f_suffix_address := f_suffix_address s @ [regaddress]\<rparr>
               else
                 s\<lparr>f_fieldname := f_fieldname s @ [m1], f_regname := f_regname s @ [m0],
                   f_reg_number := f_reg_number s @ [m2], f_regdescr := f_regdescr s @ [desc],
                   f_regadress := f_regadress s @ [regaddress]\<rparr>)
        else
          rbind (close_regs yaml_data s) (\<lambda>s.
          rbind (close_suffixes yaml_data
            (s\<lparr>f_regname := [m0], f_fieldname := [m1], f_reg_number := [m2], f_regdescr := [],
               f_regadress := [regaddress]\<rparr>)) (\<lambda>s.
          ret (s\<lparr>f_suffix_name := [], f_field_suffix := [], f_regdescr := [], f_suffix_number := [m2],
                 f_suffix_address := []\<rparr>))))
       (\<lambda>s. ret (s\<lparr>f_privname := Some m1, f_legalname := legal\<rparr>))"

definition fac_step :: "(string \<times> yaml) list \<Rightarrow> fac \<Rightarrow> string \<times> yaml \<Rightarrow> fac result" where
  "fac_step yaml_data s = (\<lambda>(key, value).
     if \<not> is_map value then ret s else
     rbind (y_get value ''address'' YNone) (\<lambda>a.
     rbind (if truthy a then y_hex a else ret []) (\<lambda>regaddress.
     rbind (y_get value ''description'' (YStr [])) (\<lambda>dv.
     let desc = (if truthy dv then dv else YStr []) in
     rbind (y_get value ''rv32'' (YStr [])) (\<lambda>rv32.
     rbind (y_index rv32 ''accessible'') (\<lambda>acc.
     if \<not> truthy acc then ret s else
     rbind (legal_of rv32) (\<lambda>legal.
     (case re_search re_numbered key of
        None \<Rightarrow> ret s
      | Some (pre, m0, g) \<Rightarrow>
          (case (match_group 1 g, match_group 2 g, match_group 3 g) of
             (Some m1, Some m2, Some m3) \<Rightarrow>
               fac_match yaml_data regaddress desc legal m0 m1 m2 m3
                 (s\<lparr>f_key_to_remove := f_key_to_remove s @ [key]\<rparr>)
           | _ \<Rightarrow> raise TypeError)))))))))"

text \<open>The end of the function: the open names are closed, with a description this time.\<close>

definition with_description :: "yaml \<Rightarrow> string \<Rightarrow> string \<Rightarrow> (string \<times> yaml) list \<Rightarrow> (string \<times> yaml) list" where
  "with_description desc name field d =
     AList.update ''description'' (YStr (replace_str name field (y_str desc))) d"

definition finish_regs :: "(string \<times> yaml) list \<Rightarrow> fac \<Rightarrow> fac result" where
  "finish_regs yaml_data s =
     (if f_regname s = [] then ret s else
        rbind (rbind (firstR (f_regadress s)) (py_int 16)) (\<lambda>start.
        rbind (lastR (f_regadress s)) (\<lambda>stop.
        rbind (firstR (f_regdescr s)) (\<lambda>desc.
        rbind (firstR (f_regname s)) (\<lambda>name. rbind (firstR (f_fieldname s)) (\<lambda>field.
        rbind (rbind (dict_get yaml_data name) (as_dict AttributeError)) (\<lambda>d.
        rbind (range_name field (f_reg_number s) []) (\<lambda>new_name.
        ret (s\<lparr>f_new_regname := f_new_regname s @ [new_name],
               f_data := f_data s @ [YMap (AList.update ''address'' (YStr (py_hex start @ ''-'' @ stop))
                 (with_description desc name field d))],
               f_regname := [], f_regdescr := [], f_regadress := [], f_fieldname := []\<rparr>)))))))))"

definition finish_suffixes :: "(string \<times> yaml) list \<Rightarrow> fac \<Rightarrow> fac result" where
  "finish_suffixes yaml_data s =
     (if f_suffix_name s = [] then ret s else
        rbind (firstR (f_suffix_descr s)) (\<lambda>desc.
        rbind (firstR (f_suffix_name s)) (\<lambda>name. rbind (firstR (f_field_suffix s)) (\<lambda>field.
        rbind (rbind (dict_get yaml_data name) (as_dict AttributeError)) (\<lambda>d.
        rbind (rbind (firstR (f_suffix_address s)) (py_int 16)) (\<lambda>start.
        rbind (lastR (f_suffix_address s)) (\<lambda>stop.
        rbind (range_name field (f_suffix_number s) ''h'') (\<lambda>new_name.
        ret (s\<lparr>f_new_regname := f_new_regname s @ [new_name],
               f_data := f_data s @ [YMap (AList.update ''address'' (YStr (py_hex start @ ''-'' @ stop))
                 (with_description desc name field d))],
               f_suffix_name := [], f_field_suffix := [], f_regdescr := [], f_regadress := []\<rparr>)))))))))"

definition factorizer :: "(string \<times> yaml) list \<Rightarrow> (string \<times> yaml) list result" where
  "factorizer yaml_data =
     rbind (foldR (fac_step yaml_data) fac_init yaml_data) (\<lambda>s.
     rbind (finish_regs yaml_data s) (\<lambda>s.
     rbind (finish_suffixes yaml_data s) (\<lambda>s.
     let d = foldl (\<lambda>d (reg, v). AList.update reg v d) yaml_data (zip (f_new_regname s) (f_data s))
     in foldR dict_del d (f_key_to_remove s))))"

end
