(* ===== verification/Csr_Doc.thy ===== *)
theory Csr_Doc
  imports Csr_Factorizer
begin

text \<open>
  The CSR half of \<open>utils.py\<close>: the classes of a register document, the helper \<open>Render\<close>, and
  \<open>CsrParser\<close>, which turns a RISC-V Config file into registers and their fields. A local variable
  that Python may read before or long after its assignment is an option carried through the loop.
\<close>

section \<open>Documents\<close>

record field_info =
  fi_name :: string
  fi_legal :: string
  fi_reset :: string
  fi_msb :: yaml
  fi_lsb :: yaml
  fi_width :: yaml
  fi_desc :: yaml
  fi_access :: string
  fi_and :: "string option"
  fi_or :: "string option"

record register =
  rg_name :: string
  rg_address :: string
  rg_reset :: string
  rg_size :: int
  rg_access :: yaml
  rg_desc :: yaml
  rg_RV32 :: yaml
  rg_RV64 :: yaml
  rg_field :: "field_info list"

record address_block =
  ab_name :: string
  ab_registers :: "register list"

record memory_map =
  mm_name :: yaml
  mm_blocks :: "address_block list"

record csr_document =
  cd_name :: yaml
  cd_maps :: "memory_map list"

definition add_register :: "address_block \<Rightarrow> register \<Rightarrow> address_block" where
  "add_register a r = a\<lparr>ab_registers := ab_registers a @ [r]\<rparr>"

definition add_address_block :: "memory_map \<Rightarrow> address_block \<Rightarrow> memory_map" where
  "add_address_block m a = m\<lparr>mm_blocks := mm_blocks m @ [a]\<rparr>"

definition add_memory_map :: "csr_document \<Rightarrow> memory_map \<Rightarrow> csr_document" where
  "add_memory_map d m = d\<lparr>cd_maps := cd_maps d @ [m]\<rparr>"

section \<open>Render\<close>

text \<open>\<open>int(None)\<close> is a TypeError, which \<open>is_decimal\<close> does not catch.\<close>

definition is_decimal :: "string option \<Rightarrow> bool result" where
  "is_decimal value =
     (case value of None \<Rightarrow> raise TypeError
      | Some s \<Rightarrow> (case py_int 10 s of Inl e \<Rightarrow> ret False | Inr _ \<Rightarrow> ret True))"

definition range_end :: "string option \<Rightarrow> string result" where
  "range_end value =
     rbind (is_decimal value) (\<lambda>b. rbind (of_option TypeError value) (\<lambda>s.
     if b then rbind (py_int 10 s) (\<lambda>i. ret (py_hex i)) else ret s))"

definition render_range :: "string option \<Rightarrow> string option \<Rightarrow> string result" where
  "render_range start stop =
     rbind (range_end start) (\<lambda>a. rbind (range_end stop) (\<lambda>b. ret (a @ '' - '' @ b)))"

definition value_set :: "string list \<Rightarrow> string" where
  "value_set values = join '', '' values"

definition bitmask :: "string \<Rightarrow> string \<Rightarrow> string" where
  "bitmask a b = ''masked: & '' @ a @ '' | '' @ b"

definition fieldtype :: "string \<Rightarrow> string" where
  "fieldtype typ =
     (let up = upper typ in
      if up = ''RO_CONSTANT'' then ''ROCST'' else if up = ''RO_VARIABLE'' then ''ROVAR'' else up)"

section \<open>Legal values\<close>

definition pattern_warl :: re where
  "pattern_warl = seqs [Wordb,
     foldr Alt [lit ''warl'', lit ''wlrl'', lit ''ro_constant'', lit ''ro_variable'', lit ''rw''] (lit ''ro''), Wordb]"

definition hex_number :: re where
  "hex_number = Seq (opt (lit ''0x'')) (many1 (Sat is_hexdigit))"

text \<open>The pattern of an expression such as \<open>mode[1:0] in [0x0:0x1]\<close>; group 3 is the bracket.\<close>

definition bracket :: re where
  "bracket = Group 3 (seqs [lit ''['', spaces, Group 4 hex_number, spaces, many1 (Sat (\<lambda>c. \<not> is_digit c)),
     spaces, opt (Group 5 hex_number), spaces, lit '']''])"

definition is_name_char :: "char \<Rightarrow> bool" where
  "is_name_char c \<longleftrightarrow> is_word_char c \<or> c \<in> set ''[]:''"

definition re_field_legal :: re where
  "re_field_legal = seqs [Group 1 (many1 (Sat is_name_char)), spaces, Group 2 (many1 (Sat is_word_char)),
     spaces, bracket]"

definition re_register_legal :: re where
  "re_register_legal = seqs [Group 1 (seqs [many1 (Sat is_name_char), spaces,
     Group 2 (many1 (Sat is_word_char)), spaces]), bracket]"

definition re_value :: re where
  "re_value = seqs [spaces, Group 1 hex_number, spaces, Group 2 (Alt (lit '':'') (opt (lit '',''))), spaces,
     opt (Group 3 hex_number)]"

definition grp :: "nat \<Rightarrow> groups \<Rightarrow> string result" where
  "grp n g = of_option TypeError (match_group n g)"

text \<open>\<open>str(m.group(n))\<close>\<close>

definition str_grp :: "nat \<Rightarrow> groups \<Rightarrow> string" where
  "str_grp n g = (case match_group n g of None \<Rightarrow> ''None'' | Some s \<Rightarrow> s)"

definition in_set :: "string \<Rightarrow> string result" where
  "in_set g3 =
     (if contains '','' g3 then ret (value_set (split_char (CHR '','') (strip_chars ''[]'' g3)))
      else if contains '':'' g3 then
        (case split_char (CHR '':'') (strip_chars ''[]'' g3) of
           [start, stop] \<Rightarrow> render_range (Some start) (Some stop)
         | _ \<Rightarrow> raise ValueError)
      else ret (strip_chars ''[]'' g3))"

text \<open>The legal value with the masks of a field, and of a whole register.\<close>

definition field_expr :: "groups \<Rightarrow> (string \<times> string option \<times> string option) result" where
  "field_expr g =
     rbind (grp 3 g) (\<lambda>g3.
     let expr_type = str_grp 2 g in
     if expr_type = ''bitmask'' then
       (let a = str_grp 4 g; b = str_grp 5 g in ret (bitmask a b, Some a, Some b))
     else if expr_type = ''in'' then rbind (in_set g3) (\<lambda>v. ret (v, None, None))
     else ret (g3, None, None))"

definition register_expr :: "groups \<Rightarrow> string result" where
  "register_expr g =
     rbind (render_range (match_group 4 g) (match_group 5 g)) (\<lambda>r.
     rbind (grp 3 g) (\<lambda>g3.
     let expr_type = str_grp 2 g in
     if expr_type = ''bitmask'' then ret r
     else if expr_type = ''in'' then in_set g3
     else ret g3))"

text \<open>One element of a list of legal values: ranges and numbers between commas.\<close>

definition process_value :: "groups \<Rightarrow> string result" where
  "process_value g =
     rbind (grp 1 g) (\<lambda>first.
     let second = (case match_group 3 g of None \<Rightarrow> first | Some [] \<Rightarrow> first | Some s \<Rightarrow> s) in
     if str_grp 2 g = '':'' then render_range (Some first) (Some second)
     else rbind (py_int 10 first) (\<lambda>i. ret (py_hex i)))"

definition process_val :: "string list \<Rightarrow> string \<Rightarrow> string list result" where
  "process_val acc val =
     (case found_groups re_value val of
        None \<Rightarrow> ret acc
      | Some g \<Rightarrow> rbind (process_value g) (\<lambda>v. ret (acc @ [v])))"

definition list_legal :: "string option \<Rightarrow> yaml \<Rightarrow> string option result" where
  "list_legal bitlegal value =
     rbind (str_method value) (\<lambda>s.
     rbind (foldR process_val [] (split_char (CHR '','') s)) (\<lambda>vs. ret (Some (value_set vs))))"

definition legal_text :: "yaml \<Rightarrow> string result" where
  "legal_text legal_2 = rbind (y_index legal_2 ''legal'') (\<lambda>l. rbind (y_nth l 0) (\<lambda>x. ret (y_str x)))"

definition warl_kinds :: "string list \<Rightarrow> string list result" where
  "warl_kinds ks = mapR (grp 0) (re_findall pattern_warl (keys_str ks))"

text \<open>The value found under the kind; the old \<open>bitlegal\<close> stays where nothing is assigned.\<close>

definition field_legal ::
  "yaml \<Rightarrow> string option \<Rightarrow> (string option \<times> string option \<times> string option) result" where
  "field_legal legal_2 bitlegal =
     (case legal_2 of
        YNone \<Rightarrow> ret (Some ''No Legal values'', None, None)
      | YMap d \<Rightarrow>
          rbind (legal_text legal_2) (\<lambda>t.
          (case found_groups re_field_legal t of
             None \<Rightarrow> ret (bitlegal, None, None)
           | Some g \<Rightarrow> rbind (field_expr g) (\<lambda>(v, a, b). ret (Some v, a, b))))
      | YList vs \<Rightarrow> rbind (foldR list_legal bitlegal vs) (\<lambda>b. ret (b, None, None))
      | _ \<Rightarrow> rbind (y_hex legal_2) (\<lambda>h. ret (Some h, None, None)))"

definition register_legal :: "yaml \<Rightarrow> string option \<Rightarrow> string option result" where
  "register_legal legal_2 bitlegal =
     (case legal_2 of
        YNone \<Rightarrow> ret (Some ''No Legal values'')
      | YMap d \<Rightarrow>
          rbind (legal_text legal_2) (\<lambda>t.
          (case found_groups re_register_legal t of
             None \<Rightarrow> ret bitlegal
           | Some g \<Rightarrow> rbind (register_expr g) (\<lambda>v. ret (Some v))))
      | YList vs \<Rightarrow> foldR list_legal bitlegal vs
      | _ \<Rightarrow> rbind (y_hex legal_2) (\<lambda>h. ret (Some h)))"

section \<open>Fields\<close>

text \<open>\<open>hex(int(resetValue, 16) >> lsb & ((1 << width) - 1))\<close>; a negative count raises.\<close>

definition field_reset :: "string \<Rightarrow> int \<Rightarrow> int \<Rightarrow> string result" where
  "field_reset resetValue lsb width =
     rbind (py_int 16 resetValue) (\<lambda>v.
     if lsb < 0 \<or> width < 0 then raise ValueError
     else ret (py_hex (shr v (nat lsb) AND (shl 1 (nat width) - 1))))"

text \<open>\<open>y[item]\<close> for a key that is a value itself.\<close>

definition y_at :: "yaml \<Rightarrow> yaml \<Rightarrow> yaml result" where
  "y_at y k = (case y of
     YMap d \<Rightarrow> (case k of YStr s \<Rightarrow> dict_get d s | YList _ \<Rightarrow> raise TypeError | YMap _ \<Rightarrow> raise TypeError
       | _ \<Rightarrow> raise KeyError)
   | _ \<Rightarrow> raise TypeError)"

definition field_kind ::
  "yaml \<Rightarrow> string option \<Rightarrow> (string option \<times> string \<times> string option \<times> string option) result" where
  "field_kind elem bitlegal =
     rbind (y_get elem ''type'' YNone) (\<lambda>legal. rbind (y_get elem ''implemented'' YNone) (\<lambda>implemented.
     if legal = YNone then ret (Some (if truthy implemented then [] else ''0x0''), ''ROCST'', None, None)
     else
       rbind (y_keys legal) (\<lambda>ks. rbind (warl_kinds ks) (\<lambda>warl.
       (case warl of
          [] \<Rightarrow> ret (bitlegal, [], None, None)
        | w # _ \<Rightarrow>
            rbind (y_get legal w YNone) (\<lambda>legal_2.
            rbind (field_legal legal_2 bitlegal) (\<lambda>(l, a, b). ret (l, fieldtype w, a, b))))))))"

definition re_range_name :: re where
  "re_range_name = seqs [Group 1 (seqs [Group 2 (many1 (Sat (\<lambda>c. \<not> is_digit c))), digits, Group 3 (many dot)]),
     lit ''-'', digits]"

text \<open>\<open>Factorizer_pattern\<close>: the first number of a field name, and its replacement everywhere.\<close>

definition factored_name :: "yaml \<Rightarrow> string option \<Rightarrow> string option result" where
  "factored_name item fieldName =
     (case re_search digits (y_str item) of
        None \<Rightarrow> ret fieldName
      | Some (pre, x, g) \<Rightarrow>
          rbind (if x \<notin> {''0'', ''1'', ''2'', ''3''} then rbind (py_int 10 x) (\<lambda>i. ret (py_str (i - 8))) else ret x) (\<lambda>num.
          rbind (as_str item) (\<lambda>s.
          ret (Some (re_sub digits (\<lambda>_ _. ''[i*4 +'' @ num @ '']'') s)))))"

text \<open>The variables of the loop over the fields, and the fields made so far.\<close>

record loop_vars =
  lv_bitlegal :: "string option"
  lv_name :: "string option"
  lv_fields :: "field_info list"

definition field_item :: "string \<Rightarrow> yaml \<Rightarrow> string \<Rightarrow> loop_vars \<Rightarrow> yaml \<Rightarrow> loop_vars result" where
  "field_item regName rv32 resetValue s item =
     rbind (y_at rv32 item) (\<lambda>elem.
     rbind (y_get elem ''description'' (YStr [])) (\<lambda>desc.
     rbind (rbind (y_get elem ''msb'' (YStr [])) y_int) (\<lambda>msb.
     rbind (rbind (y_get elem ''lsb'' (YStr [])) y_int) (\<lambda>lsb.
     let width = msb - lsb + 1 in
     rbind (field_reset resetValue lsb width) (\<lambda>reset.
     rbind (field_kind elem (lv_bitlegal s)) (\<lambda>(bitlegal, access, a, b).
     rbind (if re_match re_range_name regName \<noteq> None then factored_name item (lv_name s)
            else rbind (as_str item) (\<lambda>n. ret (Some n))) (\<lambda>fieldName.
     rbind (of_option UnboundLocalError fieldName) (\<lambda>name.
     rbind (of_option UnboundLocalError bitlegal) (\<lambda>legal.
     ret \<lparr>lv_bitlegal = bitlegal, lv_name = fieldName,
       lv_fields = lv_fields s @ [\<lparr>fi_name = name, fi_legal = legal, fi_reset = reset, fi_msb = YInt msb,
         fi_lsb = YInt lsb, fi_width = YInt width, fi_desc = desc, fi_access = access, fi_and = a, fi_or = b\<rparr>]\<rparr>)))))))))"

definition reserved_item :: "string \<Rightarrow> loop_vars \<Rightarrow> yaml \<Rightarrow> loop_vars result" where
  "reserved_item resetValue s itm =
     rbind (y_nth itm 0) (\<lambda>first.
     rbind (y_len itm) (\<lambda>n. rbind (y_nth itm (n - 1)) (\<lambda>final.
     rbind (y_int final) (\<lambda>hi. rbind (y_int first) (\<lambda>lo.
     let width = hi - lo + 1; name = ''Reserved_'' @ y_str first in
     rbind (as_int first) (\<lambda>lsb. rbind (field_reset resetValue lsb width) (\<lambda>reset.
     ret \<lparr>lv_bitlegal = Some [], lv_name = Some name,
       lv_fields = lv_fields s @ [\<lparr>fi_name = name, fi_legal = [], fi_reset = reset, fi_msb = final,
         fi_lsb = first, fi_width = YInt width, fi_desc = YStr ''Reserved'', fi_access = ''WPRI'',
         fi_and = None, fi_or = None\<rparr>]\<rparr>)))))))"

definition any_item :: "string \<Rightarrow> yaml \<Rightarrow> string \<Rightarrow> loop_vars \<Rightarrow> yaml \<Rightarrow> loop_vars result" where
  "any_item regName rv32 resetValue s item =
     (case item of
        YList is \<Rightarrow> foldR (reserved_item resetValue) s is
      | _ \<Rightarrow> field_item regName rv32 resetValue s item)"

definition fields_of_items :: "string \<Rightarrow> yaml \<Rightarrow> string \<Rightarrow> yaml list \<Rightarrow> field_info list result" where
  "fields_of_items regName rv32 resetValue items =
     rbind (foldR (any_item regName rv32 resetValue) \<lparr>lv_bitlegal = None, lv_name = None, lv_fields = []\<rparr> items)
       (\<lambda>s. ret (lv_fields s))"

section \<open>Registers without fields\<close>

definition re_bracket_range :: re where
  "re_bracket_range = seqs [Group 1 (many1 (Sat (\<lambda>c. \<not> is_digit c))), lit ''['', Group 2 digits, lit ''-'', digits,
     lit '']'', Group 3 (many dot)]"

definition register_names :: "string \<Rightarrow> yaml \<Rightarrow> (string \<times> yaml) result" where
  "register_names regName regDesc =
     (case re_match re_bracket_range regName of
        None \<Rightarrow> ret (regName, regDesc)
      | Some (x, g) \<Rightarrow>
          rbind (grp 1 g) (\<lambda>g1. rbind (grp 2 g) (\<lambda>g2. rbind (grp 3 g) (\<lambda>g3. rbind (as_str regDesc) (\<lambda>desc.
          ret (if g3 \<noteq> [] then (g1 @ ''[i]'' @ g3, YStr (replace_str (g1 @ g2 @ g3) (g1 @ g3) desc))
               else (g1 @ ''[i]'', YStr (replace_str (g1 @ g2) g1 desc))))))))"

definition register_kind :: "yaml \<Rightarrow> (string option \<times> string) result" where
  "register_kind legal =
     (if legal = YNone then ret (Some [], ''RO'')
      else rbind (y_keys legal) (\<lambda>ks. rbind (warl_kinds ks) (\<lambda>warl.
        (case warl of
           [] \<Rightarrow> ret (None, [])
         | w # _ \<Rightarrow> rbind (y_get legal w YNone) (\<lambda>legal_2.
             rbind (register_legal legal_2 None) (\<lambda>l. ret (l, fieldtype w)))))))"

definition whole_reset :: "string \<Rightarrow> int \<Rightarrow> string result" where
  "whole_reset resetValue sz =
     rbind (py_int 16 resetValue) (\<lambda>v. ret (''0x'' @ zfill (nat (sz div 4)) (drop 2 (py_hex v))))"

definition whole_field ::
  "string \<Rightarrow> yaml \<Rightarrow> string \<Rightarrow> int \<Rightarrow> yaml \<Rightarrow> (field_info \<times> yaml) result" where
  "whole_field regName rv32 resetValue sz regDesc =
     rbind (register_names regName regDesc) (\<lambda>(name, desc).
     rbind (y_get rv32 ''msb'' YNone) (\<lambda>msb. rbind (y_get rv32 ''lsb'' YNone) (\<lambda>lsb.
     rbind (y_get rv32 ''type'' YNone) (\<lambda>legal.
     rbind (register_kind legal) (\<lambda>(bitlegal, access).
     rbind (whole_reset resetValue sz) (\<lambda>reset.
     rbind (if msb = YNone then ret (YInt 31, YStr [])
            else rbind (y_int msb) (\<lambda>m. ret (msb, YInt (m + 1)))) (\<lambda>(msb, width).
     rbind (of_option UnboundLocalError bitlegal) (\<lambda>legal.
     ret (\<lparr>fi_name = name, fi_legal = legal, fi_reset = reset, fi_msb = msb,
       fi_lsb = (if lsb = YNone then YInt 0 else lsb), fi_width = width, fi_desc = desc, fi_access = access,
       fi_and = None, fi_or = None\<rparr>, desc)))))))))"

section \<open>The parser\<close>

definition return_register ::
  "string \<Rightarrow> yaml \<Rightarrow> string \<Rightarrow> string \<Rightarrow> int \<Rightarrow> yaml \<Rightarrow> yaml \<Rightarrow> yaml \<Rightarrow> yaml \<Rightarrow> yaml \<Rightarrow> register result" where
  "return_register regName registerElem regAddress resetValue sz access regDesc flds RV32 RV64 =
     rbind (y_len flds) (\<lambda>n. rbind (y_get registerElem ''rv32'' (YStr [])) (\<lambda>rv32.
     rbind (if n > 0 then
              rbind (y_iter flds) (\<lambda>items.
              rbind (fields_of_items regName rv32 resetValue items) (\<lambda>fs. ret (fs, regDesc)))
            else rbind (whole_field regName rv32 resetValue sz regDesc) (\<lambda>(f, desc). ret ([f], desc)))
       (\<lambda>(fs, desc).
     ret \<lparr>rg_name = regName, rg_address = regAddress, rg_reset = resetValue, rg_size = sz,
       rg_access = access, rg_desc = desc, rg_RV32 = RV32, rg_RV64 = RV64, rg_field = fs\<rparr>)))"

text \<open>A register without reset value takes the one of the register before it.\<close>

definition register_step ::
  "int \<Rightarrow> string option \<times> address_block \<Rightarrow> string \<times> yaml \<Rightarrow> (string option \<times> address_block) result" where
  "register_step sz = (\<lambda>(reset, a) (regName, elem).
     if \<not> is_map elem then ret (reset, a) else
     rbind (y_get elem ''address'' YNone) (\<lambda>ad.
     rbind (case ad of YStr s \<Rightarrow> ret s | _ \<Rightarrow> y_hex ad) (\<lambda>regAddress.
     rbind (y_get elem ''reset-val'' (YStr [])) (\<lambda>rv.
     rbind (if \<not> y_eq rv (YStr []) then rbind (y_hex rv) (\<lambda>h. ret (Some h)) else ret reset) (\<lambda>reset.
     rbind (y_get elem ''priv_mode'' (YStr [])) (\<lambda>access.
     rbind (y_get elem ''description'' (YStr [])) (\<lambda>dv.
     let desc = (if dv = YNone then YStr [] else dv) in
     rbind (y_get elem ''rv32'' (YStr [])) (\<lambda>rv32. rbind (y_get rv32 ''accessible'' (YList [])) (\<lambda>RV32.
     rbind (y_get elem ''rv64'' (YStr [])) (\<lambda>rv64. rbind (y_get rv64 ''accessible'' (YList [])) (\<lambda>RV64.
     rbind (if truthy RV32 then y_get rv32 ''fields'' (YList []) else ret (YList [])) (\<lambda>flds.
     rbind (of_option UnboundLocalError reset) (\<lambda>resetValue.
     rbind (return_register regName elem regAddress resetValue sz access desc flds RV32 RV64) (\<lambda>r.
     ret (reset, add_register a r)))))))))))))))"

definition csr_return_document :: "yaml \<Rightarrow> yaml \<Rightarrow> yaml option \<Rightarrow> yaml option \<Rightarrow> csr_document result" where
  "csr_return_document srcFile customFile debugfile modiFile =
     rbind (y_index srcFile ''hart0'') (\<lambda>docName.
     rbind (y_get docName ''supported_xlen'' (YStr [])) (\<lambda>xs. rbind (y_nth xs 0) (\<lambda>x. rbind (y_int x) (\<lambda>sz.
     rbind (csr_formatter srcFile customFile debugfile modiFile) (\<lambda>data.
     rbind (y_items data) (\<lambda>data.
     rbind (factorizer data) (\<lambda>registers.
     rbind (foldR (register_step sz) (None, \<lparr>ab_name = ''csr'', ab_registers = []\<rparr>) registers) (\<lambda>(_, a).
     let m = add_address_block \<lparr>mm_name = docName, mm_blocks = []\<rparr> a
     in ret (add_memory_map \<lparr>cd_name = docName, cd_maps = []\<rparr> m)))))))))"

end
