(* ===== verification/Csr_Blocks.thy ===== *)
theory Csr_Blocks
  imports Csr_Doc "HOL-Library.List_Lexorder" "HOL-Library.Char_ord"
begin

text \<open>
  The writers of CSR documents in \<open>utils.py\<close>: ReStructuredText, AsciiDoc and Markdown. AsciiDoc is a
  string the code builds itself. The other two go through the libraries RstCloth and MdUtils: the
  model is the sequence of calls the code makes on them, and what the library renders from the
  calls is a parameter of the generators.
\<close>

section \<open>Calls on the libraries\<close>

datatype rst_op =
    RDirective string "string list"
  | RTitle string
  | RNewline
  | RH2 string
  | RH3 string
  | RContent string
  | RLi string
  | RTable "string list" "yaml list list"
  | RField string yaml

datatype md_op =
    MWrite string
  | MHeader int string
  | MParagraph
  | MTable int int "yaml list"
  | MLine string

section \<open>Shared by the formats\<close>

text \<open>\<open>a | b\<close> and \<open>a + b\<close> on the values of a register.\<close>

definition y_or :: "yaml \<Rightarrow> yaml \<Rightarrow> yaml result" where
  "y_or a b =
     (case (a, b) of
        (YBool p, YBool q) \<Rightarrow> ret (YBool (p \<or> q))
      | (YMap d, YMap e) \<Rightarrow> ret (YMap (dict_update_all d e))
      | _ \<Rightarrow> rbind (as_int a) (\<lambda>i. rbind (as_int b) (\<lambda>j. ret (YInt (i OR j)))))"

definition add_str :: "yaml \<Rightarrow> string \<Rightarrow> string result" where
  "add_str y s = rbind (as_str y) (\<lambda>t. ret (t @ s))"

definition visible :: "register \<Rightarrow> bool result" where
  "visible reg = rbind (y_or (rg_RV32 reg) (rg_RV64 reg)) (\<lambda>y. ret (truthy y))"

definition sort_registers :: "register list \<Rightarrow> register list" where
  "sort_registers rs = sort_key rg_address rs"

definition get_access_privilege :: "register \<Rightarrow> string result" where
  "get_access_privilege reg =
     rbind (py_int 0 (hd (split_char (CHR ''-'') (rg_address reg)))) (\<lambda>a.
     ret (if a AND 0xC00 = 0xC00 then ''RO'' else ''RW''))"

text \<open>\<open>sort_address\<close> looks at the first register only; nothing calls it.\<close>

definition sort_address :: "register list \<Rightarrow> (int \<times> int) option result" where
  "sort_address rs =
     (case rs of
        [] \<Rightarrow> ret None
      | reg # _ \<Rightarrow>
          if CHR ''-'' \<in> set (rg_address reg) then
            (case split_char (CHR ''-'') (rg_address reg) of
               [start, stop] \<Rightarrow> rbind (py_int 16 start) (\<lambda>a. rbind (py_int 16 stop) (\<lambda>b. ret (Some (a, b))))
             | _ \<Rightarrow> raise ValueError)
          else rbind (py_int 16 (rg_address reg)) (\<lambda>a. ret (Some (a, a))))"

definition access_text :: "register \<Rightarrow> string result" where
  "access_text reg = rbind (get_access_privilege reg) (\<lambda>p. add_str (rg_access reg) p)"

definition field_bits :: "field_info \<Rightarrow> string" where
  "field_bits f =
     (if y_eq (fi_width f) (YInt 1) then y_str (fi_lsb f)
      else ''['' @ y_str (fi_msb f) @ '':'' @ y_str (fi_lsb f) @ '']'')"

definition field_line :: "string \<Rightarrow> field_info \<Rightarrow> yaml list" where
  "field_line legal f = [YStr (field_bits f), YStr (upper (fi_name f)), YStr (fi_reset f), YStr (fi_access f),
     YStr legal, fi_desc f]"

text \<open>\<open>int(x[0].strip("[]").split(":")[0])\<close>\<close>

definition line_key :: "yaml list \<Rightarrow> int result" where
  "line_key l =
     rbind (firstR l) (\<lambda>c. rbind (str_method c) (\<lambda>s.
     py_int 10 (hd (split_char (CHR '':'') (strip_chars ''[]'' s)))))"

definition field_headers :: "string list" where
  "field_headers = [''Bits'', ''Field Name'', ''Reset Value'', ''Type'', ''Legal Values'', ''Description'']"

definition reset_text :: "register \<Rightarrow> string" where
  "reset_text reg = ''0x'' @ zfill (nat (rg_size reg div 4)) (drop 2 (rg_reset reg))"

definition copyright :: "string list" where
  "copyright = [''Copyright (c) 2024 OpenHW Group'', ''Copyright (c) 2024 Thales'',
     ''SPDX-License-Identifier: Apache-2.0 WITH SHL-2.1'', ''Author: Abdessamii Oukalrazqou'']"

definition para :: "string list \<Rightarrow> string" where
  "para ls = join [newline] ls"

definition unlines :: "string list \<Rightarrow> string" where
  "unlines ls = concat (map (\<lambda>l. l @ [newline]) ls)"

section \<open>ReStructuredText\<close>

definition rst_conventions :: "rst_op list" where
  "rst_conventions =
    [RH2 ''Conventions'', RNewline,
     RContent (para [''In the subsequent sections, register fields are labeled with one of the'',
       ''following abbreviations:'', []]),
     RNewline,
     RLi (para [''WPRI (Writes Preserve Values, Reads Ignore Values): read/write field reserved'',
       ''for future use.  For forward compatibility, implementations that do not'',
       ''furnish these fields must make them read-only zero.'']),
     RLi (para [''WLRL (Write/Read Only Legal Values): read/write CSR field that specifies'',
       ''behavior for only a subset of possible bit encodings, with other bit encodings'',
       ''reserved.'']),
     RLi (para [''WARL (Write Any Values, Reads Legal Values): read/write CSR fields which are'',
       ''only defined for a subset of bit encodings, but allow any value to be written'',
       ''while guaranteeing to return a legal value whenever read.'']),
     RLi (para [''ROCST (Read-Only Constant): A special case of WARL field which admits only one'',
       ''legal value, and therefore, behaves as a constant field that silently ignores'', ''writes.'']),
     RLi (para [''ROVAR (Read-Only Variable): A special case of WARL field which can take'',
       ''  multiple legal values but cannot be modified by software and depends only on'',
       ''  the architectural state of the hart.'']),
     RNewline,
     RContent (para [''In particular, a register that is not internally divided'',
       ''into multiple fields can be considered as containing a single field of XLEN bits.'',
       ''This allows to clearly represent read-write registers holding a single legal value'',
       ''(typically zero).'']),
     RNewline]"

definition rst_summary_row :: "register \<times> string \<Rightarrow> yaml list list result" where
  "rst_summary_row = (\<lambda>(reg, priv).
     rbind (visible reg) (\<lambda>v.
     if v then
       rbind (add_str (rg_access reg) priv) (\<lambda>acc.
       let name = upper (rg_name reg) in
       ret [[YStr (rg_address reg), YStr (''`'' @ name @ '' <#'' @ name @ ''>`_''), YStr acc,
             YStr (y_str (rg_desc reg))]])
     else ret []))"

definition rst_register :: "register \<Rightarrow> rst_op list result" where
  "rst_register reg =
     rbind (visible reg) (\<lambda>v.
     if \<not> v then ret [] else
       rbind (if rg_reset reg = [] then ret [] else
         rbind (access_text reg) (\<lambda>acc.
         ret [RField ''Reset Value'' (YStr (reset_text reg)), RField ''Privilege'' (YStr acc),
              RField ''Description'' (rg_desc reg)])) (\<lambda>reset_part.
       rbind (sortedR line_key (map (\<lambda>f. field_line (fi_legal f) f) (rg_field reg))) (\<lambda>table.
       let name = upper (rg_name reg) in
       ret ([RNewline, RDirective (''.. _'' @ name @ '':'') [], RH3 name, RNewline,
             RField ''Address'' (YStr (rg_address reg))] @ reset_part @ [RTable field_headers table]))))"

definition rst_csr_block :: "string \<Rightarrow> register list \<Rightarrow> rst_op list result" where
  "rst_csr_block name registers =
     (let rs = sort_registers registers in
      rbind (mapR get_access_privilege rs) (\<lambda>privs.
      rbind (mapR rst_summary_row (zip rs privs)) (\<lambda>rows.
      rbind (mapR rst_register rs) (\<lambda>parts.
      ret ([RDirective ''..'' copyright, RTitle name, RNewline] @ rst_conventions
        @ [RH2 ''Register Summary'',
           RTable [''Address'', ''Register Name'', ''Privilege'', ''Description''] (concat rows),
           RH2 ''Register Description''] @ concat parts)))))"

section \<open>AsciiDoc\<close>

definition generate_label :: "string \<Rightarrow> string" where
  "generate_label name = ''_'' @ upper (remove_char (CHR '']'') (remove_char (CHR ''['') name))"

definition adoc_conventions :: string where
  "adoc_conventions = unlines
    [''==== Conventions'', [],
     ''In the subsequent sections, register fields are labeled with one of the following abbreviations:'', [],
     ''* WPRI (Writes Preserve Values, Reads Ignore Values): read/write field reserved'',
     ''for future use.  For forward compatibility, implementations that do not'',
     ''furnish these fields must make them read-only zero.'',
     ''* WLRL (Write/Read Only Legal Values): read/write CSR field that specifies'',
     ''behavior for only a subset of possible bit encodings, with other bit encodings'',
     ''reserved.'',
     ''* WARL (Write Any Values, Reads Legal Values): read/write CSR fields which are'',
     ''only defined for a subset of bit encodings, but allow any value to be written'',
     ''while guaranteeing to return a legal value whenever read.'',
     ''* ROCST (Read-Only Constant): A special case of WARL field which admits only one'',
     ''legal value, and therefore, behaves as a constant field that silently ignores'',
     ''writes.'',
     ''* ROVAR (Read-Only Variable): A special case of WARL field which can take'',
     ''multiple legal values but cannot be modified by software and depends only on'',
     ''the architectural state of the hart.'', [],
     ''In particular, a register that is not internally divided'',
     ''into multiple fields can be considered as containing a single field of XLEN bits.'',
     ''This allows to clearly represent read-write registers holding a single legal value'',
     ''(typically zero).'', []]"

definition adoc_copyright :: string where
  "adoc_copyright = unlines ([''////''] @ map (\<lambda>l. ''  '' @ l) copyright @ [''////'', []])"

definition adoc_summary_row :: "register \<times> string \<Rightarrow> string result" where
  "adoc_summary_row = (\<lambda>(reg, priv).
     rbind (visible reg) (\<lambda>v.
     if v then
       rbind (add_str (rg_access reg) priv) (\<lambda>acc.
       let name = upper (rg_name reg) in
       ret (unlines [''|'' @ rg_address reg @ ''| `<<'' @ generate_label name @ '','' @ upper name @ ''>>`|'' @ acc
         @ ''|'' @ y_str (rg_desc reg)]))
     else ret []))"

text \<open>The masks of a field replace its legal value where both are set.\<close>

definition masked_legal :: "field_info \<Rightarrow> string" where
  "masked_legal f =
     (case (fi_and f, fi_or f) of
        (Some a, Some b) \<Rightarrow> if a \<noteq> [] \<and> b \<noteq> [] then bitmask a b else fi_legal f
      | _ \<Rightarrow> fi_legal f)"

definition escape_pipe :: "string \<Rightarrow> string" where
  "escape_pipe s = replace_str ''|'' [CHR 0x5C, CHR ''|''] s"

definition adoc_cell :: "yaml \<Rightarrow> string result" where
  "adoc_cell col =
     rbind (str_method (if y_eq col (YStr ''Reserved'') then YStr ''_Reserved_'' else col)) (\<lambda>s.
     ret (''| '' @ escape_pipe (remove_char newline s) @ '' ''))"

definition adoc_line :: "yaml list \<Rightarrow> string result" where
  "adoc_line cols = rbind (mapR adoc_cell cols) (\<lambda>cs. ret (concat cs @ [newline]))"

definition adoc_register :: "register \<Rightarrow> string result" where
  "adoc_register reg =
     rbind (visible reg) (\<lambda>v.
     if \<not> v then ret [] else
       rbind (if rg_reset reg = [] then ret [] else
         rbind (access_text reg) (\<lambda>acc.
         ret (unlines [''Reset Value:: '' @ reset_text reg, ''Privilege:: '' @ acc,
           ''Description:: '' @ y_str (rg_desc reg), []]))) (\<lambda>reset_part.
       rbind (sortedR line_key (map (\<lambda>f. field_line (masked_legal f) f) (rg_field reg))) (\<lambda>table.
       rbind (mapR adoc_line table) (\<lambda>ls.
       ret (unlines [''[['' @ generate_label (rg_name reg) @ '']]'', ''===== '' @ upper (rg_name reg), [],
             ''Address:: '' @ rg_address reg] @ reset_part
         @ unlines [''|==='', ''| Bits | Field Name | Reset Value | Type | Legal Values | Description'', []]
         @ concat ls @ unlines [''|==='', []])))))"

definition adoc_csr_block :: "string \<Rightarrow> register list \<Rightarrow> string result" where
  "adoc_csr_block name registers =
     (let rs = sort_registers registers in
      rbind (mapR get_access_privilege rs) (\<lambda>privs.
      rbind (mapR adoc_summary_row (zip rs privs)) (\<lambda>rows.
      rbind (mapR adoc_register rs) (\<lambda>parts.
      ret (adoc_copyright @ unlines [''=== '' @ name, []] @ adoc_conventions
        @ unlines [''==== Register Summary'', [], ''|==='',
            ''|Address | Register Name | Privilege | Description'', []]
        @ concat rows @ unlines [''|==='', [], ''==== Register Description'', []] @ concat parts)))))"

section \<open>Markdown\<close>

text \<open>\<open>MdAddressBlock\<close> calls \<open>self.get_access_privilege\<close>, a method neither it nor its parent has.\<close>

definition md_access_privilege :: "register \<Rightarrow> string result" where
  "md_access_privilege reg = raise AttributeError"

definition md_licence :: "string list" where
  "md_licence = [''<!--Copyright (c) 2024 OpenHW Group'', ''Copyright (c) 2024 Thales'',
     ''SPDX-License-Identifier: Apache-2.0 WITH SHL-2.1 '', ''Author: Abdessamii Oukalrazqou'', ''-->'']"

definition md_reg_desc :: "string \<Rightarrow> string \<Rightarrow> string \<Rightarrow> yaml \<Rightarrow> string \<Rightarrow> md_op list result" where
  "md_reg_desc name address resetValue desc access =
     rbind (as_str desc) (\<lambda>d.
     ret ([MHeader 4 (upper name), MLine ''---'', MLine (''**Address** '' @ address)]
       @ (if resetValue = [] then [] else [MLine (''**Reset Value** '' @ resetValue)])
       @ [MLine (''**Privilege** '' @ access), MLine (''**Description** '' @ d)]))"

definition md_summary_row :: "register \<times> string \<Rightarrow> yaml list result" where
  "md_summary_row = (\<lambda>(reg, priv).
     rbind (add_str (rg_access reg) priv) (\<lambda>acc.
     let name = upper (rg_name reg) in
     ret [YStr (rg_address reg), YStr (''['' @ name @ ''](#'' @ name @ '')''), YStr acc,
       YStr (replace_str [newline] '' '' (y_str (rg_desc reg)))]))"

definition md_register :: "register \<Rightarrow> md_op list result" where
  "md_register reg =
     rbind (md_access_privilege reg) (\<lambda>priv. rbind (add_str (rg_access reg) priv) (\<lambda>acc.
     rbind (md_reg_desc (rg_name reg) (rg_address reg) (rg_reset reg) (rg_desc reg) acc) (\<lambda>head.
     rbind (sortedR line_key (map (\<lambda>f. field_line (fi_legal f) f) (rg_field reg))) (\<lambda>table.
     ret (head @ [MTable 6 (int (length table) + 1) (map YStr field_headers @ concat table)])))))"

definition md_csr_block :: "string \<Rightarrow> register list \<Rightarrow> md_op list result" where
  "md_csr_block name registers =
     (let rs = sort_registers registers in
      rbind (mapR (\<lambda>reg. rbind (visible reg) (\<lambda>v. ret (if v then [reg] else []))) rs) (\<lambda>vis.
      let shown = concat vis in
      rbind (mapR md_access_privilege shown) (\<lambda>privs.
      rbind (mapR md_summary_row (zip shown privs)) (\<lambda>rows.
      rbind (mapR md_register shown) (\<lambda>parts.
      ret (map (\<lambda>l. MWrite (l @ [newline])) md_licence
        @ [MHeader 1 name, MParagraph, MHeader 2 ''Registers Summary'', MParagraph,
           MTable 4 (int (length shown) + 1)
             (map YStr [''Address'', ''Register Name'', ''Privilege'', ''Description''] @ concat rows),
           MHeader 3 ''Registers Description''] @ concat parts))))))"

end
