(* ===== verification/Csr_Facts.thy ===== *)
theory Csr_Facts
  imports Csr_Blocks "HOL-Library.Multiset"
begin

text \<open>
  What a CSR document says: the reset values of the fields are the bits of the register's, and the
  tables hold every field of every visible register, in order.
\<close>

section \<open>Reset values\<close>

definition good_reset :: "int \<Rightarrow> field_info \<Rightarrow> bool" where
  "good_reset v f \<longleftrightarrow> (\<exists>lsb width. 0 \<le> lsb \<and> 0 \<le> width \<and> as_int (fi_lsb f) = Inr lsb
     \<and> as_int (fi_width f) = Inr width
     \<and> fi_reset f = py_hex (take_bit (nat width) (shr v (nat lsb))))"

lemma field_reset_Inr:
  assumes "field_reset (py_hex v) lsb width = Inr r"
  shows "0 \<le> lsb \<and> 0 \<le> width \<and> r = py_hex (take_bit (nat width) (shr v (nat lsb)))"
proof -
  have "shl 1 n - 1 = (mask n :: int)" for n by (simp add: mask_eq_exp_minus_1 push_bit_eq_mult)
  then show ?thesis using assms
    by (auto simp: field_reset_def py_int_py_hex take_bit_eq_mask split: if_splits)
qed

definition resets_ok :: "int \<Rightarrow> loop_vars \<Rightarrow> bool" where
  "resets_ok v s \<longleftrightarrow> (\<forall>f \<in> set (lv_fields s). good_reset v f)"

interpretation reserved_loop: loop_invariant "resets_ok v" "reserved_item (py_hex v)" for v
  by unfold_locales
    (auto simp: reserved_item_def resets_ok_def good_reset_def Let_def dest!: field_reset_Inr)

lemma field_item_resets:
  "resets_ok v s \<Longrightarrow> field_item regName rv32 (py_hex v) s item = Inr s' \<Longrightarrow> resets_ok v s'"
  by (auto simp: field_item_def resets_ok_def good_reset_def Let_def split: prod.splits dest!: field_reset_Inr)

interpretation field_loop: loop_invariant "resets_ok v" "any_item regName rv32 (py_hex v)" for v regName rv32
  by unfold_locales
    (auto simp: any_item_def split: yaml.splits intro: field_item_resets reserved_loop.loop_keeps)

lemma fields_resets:
  assumes "fields_of_items regName rv32 (py_hex v) items = Inr fs" "f \<in> set fs"
  shows "good_reset v f"
proof -
  from assms(1) obtain s where s: "foldR (any_item regName rv32 (py_hex v))
      \<lparr>lv_bitlegal = None, lv_name = None, lv_fields = []\<rparr> items = Inr s" "fs = lv_fields s"
    by (auto simp: fields_of_items_def)
  have "resets_ok v s" by (rule field_loop.loop_keeps [OF _ s(1)]) (simp add: resets_ok_def)
  with assms(2) s(2) show ?thesis by (simp add: resets_ok_def)
qed

text \<open>The fields in the list lie one after the other, from bit \<open>a\<close> up to bit \<open>b\<close>.\<close>

fun tiles :: "int \<Rightarrow> field_info list \<Rightarrow> int \<Rightarrow> bool" where
  "tiles a [] b = (a = b)"
| "tiles a (f # fs) b =
     (as_int (fi_lsb f) = Inr a \<and>
      (case as_int (fi_width f) of Inl _ \<Rightarrow> False | Inr w \<Rightarrow> tiles (a + w) fs b))"

definition reset_value :: "field_info \<Rightarrow> int" where
  "reset_value f = (case py_int 16 (fi_reset f) of Inl _ \<Rightarrow> 0 | Inr i \<Rightarrow> i)"

definition lsb_value :: "field_info \<Rightarrow> nat" where
  "lsb_value f = (case as_int (fi_lsb f) of Inl _ \<Rightarrow> 0 | Inr i \<Rightarrow> nat i)"

lemma take_bit_split: "take_bit (a + w) v = take_bit a v + take_bit w (shr v a) * 2 ^ a" for v :: int
  by (simp add: take_bit_eq_mod drop_bit_eq_div power_add zmod_zmult2_eq)

lemma tiles_sum:
  assumes "\<forall>f \<in> set fs. good_reset v f" "0 \<le> a" "tiles a fs b"
  shows "a \<le> b \<and> (\<Sum>f\<leftarrow>fs. reset_value f * 2 ^ lsb_value f) = take_bit (nat b) v - take_bit (nat a) v"
  using assms
proof (induction fs arbitrary: a)
  case (Cons f fs)
  from Cons.prems(1) obtain lsb width where f: "0 \<le> width" "as_int (fi_lsb f) = Inr lsb"
    "as_int (fi_width f) = Inr width" "fi_reset f = py_hex (take_bit (nat width) (shr v (nat lsb)))"
    by (auto simp: good_reset_def)
  from Cons.prems(3) f have lsb: "lsb = a" and t: "tiles (a + width) fs b" by simp_all
  from Cons.IH [OF _ _ t] Cons.prems(1,2) f(1) have
    IH: "a + width \<le> b" "(\<Sum>f\<leftarrow>fs. reset_value f * 2 ^ lsb_value f)
      = take_bit (nat b) v - take_bit (nat (a + width)) v" by simp_all
  have "nat (a + width) = nat a + nat width" using f(1) Cons.prems(2) by simp
  moreover have "reset_value f = take_bit (nat width) (shr v (nat a))" "lsb_value f = nat a"
    using f lsb by (simp_all add: reset_value_def lsb_value_def py_int_py_hex)
  ultimately show ?case using IH f(1) by (simp add: take_bit_split [of "nat a" "nat width" v])
qed simp

text \<open>
  C19: The reset value shown for every field is the value of its bits in the reset value of the
  register: where the fields, in some order, cover the bits from 0 to \<open>n\<close> without gap or overlap, the
  values shown, each at its place, add up to the low \<open>n\<close> bits of the reset value.
\<close>

theorem resets_reassemble:
  assumes "fields_of_items regName rv32 (py_hex v) items = Inr fs"
    and "mset gs = mset fs" "tiles 0 gs n"
  shows "(\<Sum>f\<leftarrow>fs. reset_value f * 2 ^ lsb_value f) = take_bit (nat n) v"
proof -
  have "\<forall>f \<in> set gs. good_reset v f"
    using fields_resets [OF assms(1)] mset_eq_setD [OF assms(2)] by simp
  from tiles_sum [OF this order_refl assms(3)]
  have "(\<Sum>f\<leftarrow>gs. reset_value f * 2 ^ lsb_value f) = take_bit (nat n) v" by simp
  moreover have "(\<Sum>f\<leftarrow>gs. reset_value f * 2 ^ lsb_value f) = (\<Sum>f\<leftarrow>fs. reset_value f * 2 ^ lsb_value f)"
    by (simp add: assms(2) flip: sum_mset_sum_list)
  ultimately show ?thesis by simp
qed

definition sample_rv32 :: yaml where
  "sample_rv32 = YMap [(''mode'', YMap [(''msb'', YInt 1), (''lsb'', YInt 0), (''implemented'', YBool True)]),
     (''base'', YMap [(''msb'', YInt 7), (''lsb'', YInt 4)])]"

definition sample_items :: "yaml list" where
  "sample_items = [YStr ''base'', YStr ''mode'', YList [YList [YInt 2, YInt 3]]]"

theorem resets_reassemble_witness:
  "\<exists>fs. fields_of_items ''mtvec'' sample_rv32 (py_hex 165) sample_items = Inr fs
    \<and> map fi_legal fs = [''0x0'', [], []] \<and> map fi_reset fs = [''0xa'', ''0x1'', ''0x1'']
    \<and> (\<Sum>f\<leftarrow>fs. reset_value f * 2 ^ lsb_value f) = 165"
proof -
  let ?r = "fields_of_items ''mtvec'' sample_rv32 (py_hex 165) sample_items"
  let ?fs = "case ?r of Inr fs \<Rightarrow> fs | Inl _ \<Rightarrow> []"
  have r: "?r = Inr ?fs" and l: "map fi_legal ?fs = [''0x0'', [], []]"
    and h: "map fi_reset ?fs = [''0xa'', ''0x1'', ''0x1'']"
    and t: "tiles 0 [?fs ! 1, ?fs ! 2, ?fs ! 0] 8" by code_simp+
  obtain x y z where fs: "?fs = [x, y, z]" using l by auto
  have "mset [y, z, x] = mset [x, y, z]" by simp
  from resets_reassemble [OF r, unfolded fs, OF this, of 8] t [unfolded fs]
  have "(\<Sum>f\<leftarrow>[x, y, z]. reset_value f * 2 ^ lsb_value f) = take_bit (nat 8) 165"
    by (simp add: numeral_2_eq_2)
  also have "take_bit (nat 8) 165 = (165 :: int)" by code_simp
  finally have "(\<Sum>f\<leftarrow>?fs. reset_value f * 2 ^ lsb_value f) = 165" unfolding fs .
  then show ?thesis by (intro exI [of _ ?fs] conjI r l h)
qed

section \<open>Privileges\<close>

lemma py_int_hex0: "py_int 0 (py_hex (int n)) = Inr (int n)"
proof -
  have "strip (''0x'' @ nat_digits 16 n) = ''0x'' @ nat_digits 16 n" by (rule strip_digits) simp_all
  then show ?thesis
    by (simp add: py_hex_def signed_digits_simps py_int_def parse_auto_def parse_hex_digits)
qed

lemma hex_no_dash: "CHR ''-'' \<notin> set (py_hex (int n))"
proof -
  have "CHR ''-'' \<notin> set (nat_digits 16 n)"
    using nat_digits_chars [of 16 _ n] digit_char_plain(2) by force
  then show ?thesis by (simp add: py_hex_def signed_digits_simps)
qed

lemma read_only_bits: "(a :: int) AND 0xC00 = 0xC00 \<longleftrightarrow> bit a 10 \<and> bit a 11"
proof -
  have c: "bit (0xC00 :: int) n \<longleftrightarrow> n = 10 \<or> n = 11" for n
  proof -
    have "(0xC00 :: int) = shl 3 10" by (simp add: push_bit_eq_mult)
    then have "bit (0xC00 :: int) n \<longleftrightarrow> 10 \<le> n \<and> n - 10 < 2" by (simp only: bit_shl bit_numeral_masks)
    then show ?thesis by linarith
  qed
  show ?thesis
  proof
    assume "a AND 0xC00 = 0xC00"
    then have "bit (a AND 0xC00) n = bit (0xC00 :: int) n" for n by simp
    from this [of 10] this [of 11] show "bit a 10 \<and> bit a 11" by (simp add: bit_and_iff c)
  next
    assume "bit a 10 \<and> bit a 11"
    then show "a AND 0xC00 = 0xC00" by (intro bit_eqI) (auto simp: bit_and_iff c)
  qed
qed

text \<open>
  The privilege column: a register (or a range of registers) is read-only exactly when the bits 11
  and 10 of its (first) address are both set, as the privileged specification encodes it.
\<close>

lemma access_privilege:
  assumes "rg_address reg = py_hex (int a) @ rest" "rest = [] \<or> hd rest = CHR ''-''"
  shows "get_access_privilege reg = Inr (if bit a 10 \<and> bit a 11 then ''RO'' else ''RW'')"
proof -
  have "hd (split_char (CHR ''-'') (rg_address reg)) = py_hex (int a)"
    using assms split_char_append [OF hex_no_dash [of a], of "tl rest"] split_char_no [OF hex_no_dash [of a]]
    by (cases rest) auto
  then show ?thesis
    using read_only_bits [of "int a"] by (simp add: get_access_privilege_def py_int_hex0 bit_of_nat_iff_bit)
qed

definition range_register :: register where
  "range_register = \<lparr>rg_name = ''hpmcounter[3-31]'', rg_address = ''0xc03-0xc1f'', rg_reset = ''0x0'', rg_size = 32,
     rg_access = YStr ''U'', rg_desc = YStr [], rg_RV32 = YBool True, rg_RV64 = YBool False, rg_field = []\<rparr>"

lemma access_privilege_witness: "get_access_privilege range_register = Inr ''RO''"
proof -
  have "rg_address range_register = py_hex (int 0xc03) @ ''-0xc1f''" by code_simp
  from access_privilege [OF this] show ?thesis by (simp add: bit_iff_odd)
qed

section \<open>Tables\<close>

lemma sortedR_mset: "sortedR f xs = Inr ys \<Longrightarrow> mset ys = mset xs"
proof -
  assume "sortedR f xs = Inr ys"
  then obtain ks where ks: "mapR f xs = Inr ks" "ys = map snd (sort_key fst (zip ks xs))"
    by (auto simp: sortedR_def)
  then have "mset ys = image_mset snd (mset (zip ks xs))" by (metis mset_map mset_sort)
  with mapR_Inr_length [OF ks(1)] show "mset ys = mset xs"
    by (metis map_snd_zip mset_map)
qed

lemma sortedR_sorted: "sortedR f xs = Inr ys \<Longrightarrow> \<exists>ks. mapR f ys = Inr ks \<and> sorted ks"
proof -
  assume "sortedR f xs = Inr ys"
  then obtain ks where ks: "mapR f xs = Inr ks" "ys = map snd (sort_key fst (zip ks xs))"
    by (auto simp: sortedR_def)
  let ?ps = "sort_key fst (zip ks xs)"
  have "\<forall>p \<in> set (zip ks xs). f (snd p) = Inr (fst p)"
    using ks(1) by (auto simp: mapR_Inr_iff list_all2_conv_all_nth in_set_zip)
  then have "\<forall>p \<in> set ?ps. f (snd p) = Inr (fst p)" by simp
  then have "mapR f (map snd ?ps) = Inr (map fst ?ps)"
    unfolding mapR_Inr_iff list_all2_map1 list_all2_map2 by (intro list.rel_refl_strong) simp
  moreover have "sorted (map fst ?ps)" by simp
  ultimately show ?thesis using ks(2) by blast
qed

text \<open>The headings of the registers, and the tables of their fields, among the calls.\<close>

fun headings :: "rst_op list \<Rightarrow> string list" where
  "headings [] = []"
| "headings (RH3 n # ops) = n # headings ops"
| "headings (_ # ops) = headings ops"

fun field_tables :: "rst_op list \<Rightarrow> yaml list list list" where
  "field_tables [] = []"
| "field_tables (RTable hs t # ops) = (if hs = field_headers then t # field_tables ops else field_tables ops)"
| "field_tables (_ # ops) = field_tables ops"

fun tables_ok :: "rst_op list \<Rightarrow> bool" where
  "tables_ok [] = True"
| "tables_ok (RTable hs t # ops) = ((\<forall>r \<in> set t. length r = length hs) \<and> tables_ok ops)"
| "tables_ok (_ # ops) = tables_ok ops"

lemma ops_append [simp]:
  "headings (xs @ ys) = headings xs @ headings ys"
  "field_tables (xs @ ys) = field_tables xs @ field_tables ys"
  "tables_ok (xs @ ys) \<longleftrightarrow> tables_ok xs \<and> tables_ok ys"
proof -
  show "headings (xs @ ys) = headings xs @ headings ys"
    by (induction xs rule: headings.induct) auto
  show "field_tables (xs @ ys) = field_tables xs @ field_tables ys"
    by (induction xs rule: field_tables.induct) auto
  show "tables_ok (xs @ ys) \<longleftrightarrow> tables_ok xs \<and> tables_ok ys"
    by (induction xs rule: tables_ok.induct) auto
qed

lemma conventions_plain [simp]:
  "headings rst_conventions = []" "field_tables rst_conventions = []" "tables_ok rst_conventions"
  by (simp_all add: rst_conventions_def)

definition shows_register :: "register \<Rightarrow> yaml list list \<Rightarrow> bool" where
  "shows_register reg t \<longleftrightarrow> mset t = mset (map (\<lambda>f. field_line (fi_legal f) f) (rg_field reg))
     \<and> (\<exists>ks. mapR line_key t = Inr ks \<and> sorted ks)"

lemma rst_register_part:
  assumes "rst_register reg = Inr ops"
  shows "\<exists>v. visible reg = Inr v \<and> tables_ok ops \<and>
    (if v then headings ops = [upper (rg_name reg)] \<and> (\<exists>t. field_tables ops = [t] \<and> shows_register reg t)
     else ops = [])"
proof -
  from assms obtain v where v: "visible reg = Inr v" by (auto simp: rst_register_def)
  show ?thesis
  proof (cases v)
    case True
    with assms v obtain pre t where ops: "ops = [RNewline, RDirective (''.. _'' @ upper (rg_name reg) @ '':'') [],
          RH3 (upper (rg_name reg)), RNewline, RField ''Address'' (YStr (rg_address reg))] @ pre @ [RTable field_headers t]"
      and pre: "(if rg_reset reg = [] then ret [] else
         rbind (access_text reg) (\<lambda>acc.
         ret [RField ''Reset Value'' (YStr (reset_text reg)), RField ''Privilege'' (YStr acc),
              RField ''Description'' (rg_desc reg)])) = Inr pre"
      and t: "sortedR line_key (map (\<lambda>f. field_line (fi_legal f) f) (rg_field reg)) = Inr t"
      by (auto simp: rst_register_def Let_def)
    have plain: "headings pre = []" "field_tables pre = []" "tables_ok pre"
      using pre by (auto split: if_splits)
    have m: "mset t = mset (map (\<lambda>f. field_line (fi_legal f) f) (rg_field reg))" by (rule sortedR_mset [OF t])
    have "\<forall>r \<in> set t. length r = length field_headers"
      using mset_eq_setD [OF m] by (auto simp: field_line_def field_headers_def)
    moreover have "shows_register reg t"
      using m sortedR_sorted [OF t] by (simp add: shows_register_def)
    ultimately show ?thesis using True v plain ops by (intro exI [of _ True]) simp
  next
    case False
    with assms v show ?thesis by (intro exI [of _ False]) (auto simp: rst_register_def)
  qed
qed

definition shown :: "register list \<Rightarrow> register list" where
  "shown rs = sort_key rg_address (filter (\<lambda>reg. visible reg = Inr True) rs)"

lemma shown_sorted: "shown rs = filter (\<lambda>reg. visible reg = Inr True) (sort_registers rs)"
  by (simp add: shown_def sort_registers_def filter_sort)

lemma rst_parts:
  "mapR rst_register rs = Inr parts \<Longrightarrow> tables_ok (concat parts) \<and>
    headings (concat parts) = map (\<lambda>r. upper (rg_name r)) (filter (\<lambda>r. visible r = Inr True) rs) \<and>
    list_all2 shows_register (filter (\<lambda>r. visible r = Inr True) rs) (field_tables (concat parts))"
proof (induction rs arbitrary: parts)
  case (Cons r rs)
  then obtain p ps where p: "rst_register r = Inr p" "mapR rst_register rs = Inr ps" "parts = p # ps" by auto
  from rst_register_part [OF p(1)] Cons.IH [OF p(2)] show ?case
    unfolding p(3) by (auto split: if_splits)
qed simp

lemma summary_rows:
  "length ps = length rs \<Longrightarrow> mapR rst_summary_row (zip rs ps) = Inr rows \<Longrightarrow>
    (\<forall>r \<in> set (concat rows). length r = 4) \<and>
    map hd (concat rows) = map (\<lambda>r. YStr (rg_address r)) (filter (\<lambda>r. visible r = Inr True) rs)"
proof (induction ps rs arbitrary: rows rule: list_induct2)
  case (Cons p ps r rs)
  then obtain x xs where x: "rst_summary_row (r, p) = Inr x" "mapR rst_summary_row (zip rs ps) = Inr xs"
    "rows = x # xs" by auto
  from x(1) obtain v where "visible r = Inr v" by (auto simp: rst_summary_row_def)
  with x Cons.IH [OF x(2)] show ?case
    by (cases v) (auto simp: rst_summary_row_def Let_def)
qed simp

text \<open>
  C18: A ReStructuredText document of registers is complete and well-formed: it has one section per
  visible register, in the order of the addresses, each with one table that holds every field of the
  register once, sorted by the position of the field, and every row of every table is as long as
  its header. The summary lists the same registers.
\<close>

theorem csr_document_complete:
  assumes "rst_csr_block name rs = Inr ops"
  shows "tables_ok ops \<and> headings ops = map (\<lambda>r. upper (rg_name r)) (shown rs)
    \<and> list_all2 shows_register (shown rs) (field_tables ops)
    \<and> (\<exists>rows. RTable [''Address'', ''Register Name'', ''Privilege'', ''Description''] rows \<in> set ops
         \<and> map hd rows = map (\<lambda>r. YStr (rg_address r)) (shown rs))"
proof -
  from assms obtain privs rows parts where
    privs: "mapR get_access_privilege (sort_registers rs) = Inr privs"
    and rows: "mapR rst_summary_row (zip (sort_registers rs) privs) = Inr rows"
    and parts: "mapR rst_register (sort_registers rs) = Inr parts"
    and ops: "ops = [RDirective ''..'' copyright, RTitle name, RNewline] @ rst_conventions
        @ [RH2 ''Register Summary'',
           RTable [''Address'', ''Register Name'', ''Privilege'', ''Description''] (concat rows),
           RH2 ''Register Description''] @ concat parts"
    by (auto simp: rst_csr_block_def Let_def)
  have "[''Address'', ''Register Name'', ''Privilege'', ''Description''] \<noteq> field_headers"
    by (simp add: field_headers_def)
  with rst_parts [OF parts] summary_rows [OF mapR_Inr_length [OF privs] rows] show ?thesis
    unfolding ops shown_sorted by auto
qed

definition two_fields :: register where
  "two_fields = \<lparr>rg_name = ''mtvec'', rg_address = ''0x305'', rg_reset = ''0x1'', rg_size = 32,
     rg_access = YStr ''M'', rg_desc = YStr [], rg_RV32 = YBool True, rg_RV64 = YBool False, rg_field =
     [\<lparr>fi_name = ''base'', fi_legal = [], fi_reset = ''0x0'', fi_msb = YInt 31, fi_lsb = YInt 2, fi_width = YInt 30,
        fi_desc = YStr [], fi_access = ''WARL'', fi_and = None, fi_or = None\<rparr>,
      \<lparr>fi_name = ''mode'', fi_legal = [], fi_reset = ''0x1'', fi_msb = YInt 1, fi_lsb = YInt 0, fi_width = YInt 2,
        fi_desc = YStr [], fi_access = ''WARL'', fi_and = None, fi_or = None\<rparr>]\<rparr>"

theorem csr_document_complete_witness:
  "\<exists>ops. rst_csr_block ''csr'' [range_register, two_fields] = Inr ops
    \<and> headings ops = [''MTVEC'', ''HPMCOUNTER[3-31]'']"
proof -
  have "case rst_csr_block ''csr'' [range_register, two_fields] of Inl _ \<Rightarrow> False | Inr ops \<Rightarrow> True"
    by code_simp
  then obtain ops where ops: "rst_csr_block ''csr'' [range_register, two_fields] = Inr ops"
    by (auto split: sum.splits)
  have "map (\<lambda>r. upper (rg_name r)) (shown [range_register, two_fields]) = [''MTVEC'', ''HPMCOUNTER[3-31]'']"
    by code_simp
  with csr_document_complete [OF ops] show ?thesis using ops by simp
qed

text \<open>
  The Markdown writer of registers fails with an AttributeError as soon as one register is visible,
  since its class has no method for the privileges; without a visible register it writes the
  licence, the headings and an empty summary.
\<close>

lemma md_csr_fails:
  assumes "\<forall>r \<in> set rs. visible r = Inr (b r)"
  shows "md_csr_block name rs =
    (if \<exists>r \<in> set rs. b r then Inl AttributeError
     else Inr (map (\<lambda>l. MWrite (l @ [newline])) md_licence
       @ [MHeader 1 name, MParagraph, MHeader 2 ''Registers Summary'', MParagraph,
          MTable 4 1 (map YStr [''Address'', ''Register Name'', ''Privilege'', ''Description'']),
          MHeader 3 ''Registers Description'']))"
proof -
  let ?rs = "sort_registers rs"
  have set: "set ?rs = set rs" by (simp add: sort_registers_def)
  have vis: "mapR (\<lambda>reg. rbind (visible reg) (\<lambda>v. ret (if v then [reg] else []))) ?rs
      = Inr (map (\<lambda>reg. if b reg then [reg] else []) ?rs)"
    by (rule mapR_total) (use assms set in simp)
  have filter: "concat (map (\<lambda>reg. if b reg then [reg] else []) xs) = filter b xs" for xs
    by (induction xs) auto
  have any: "(\<exists>r \<in> set rs. b r) \<longleftrightarrow> filter b ?rs \<noteq> []" by (simp add: filter_empty_conv set)
  show ?thesis
    unfolding md_csr_block_def Let_def vis rbind.simps filter any
    by (cases "filter b ?rs") (simp_all add: md_access_privilege_def)
qed

lemma md_csr_fails_witness: "md_csr_block ''csr'' [two_fields] = Inl AttributeError"
  using md_csr_fails [of "[two_fields]" "\<lambda>_. True" "''csr''"]
  by (simp add: visible_def two_fields_def y_or_def)

end
