(* ===== verification/Isa_Doc.thy ===== *)
theory Isa_Doc
  imports Csr_Blocks
begin

text \<open>
  The ISA and Spike halves of \<open>utils.py\<close>: \<open>IsaParser\<close> with its document classes, the writers of the
  instruction tables in the three formats, \<open>SpikeParser\<close>, the generators that write the files, and
  the script \<open>riscv_config_gen.py\<close> that ties them together.
\<close>

section \<open>Documents of the instruction set\<close>

record instruction_entry =
  in_key :: string
  in_ext :: yaml
  in_descr :: yaml
  in_operation :: "string list"
  in_name :: "string list"
  in_format :: "yaml list"
  in_description :: "yaml list"
  in_pseudocode :: "yaml list"
  in_invalid :: "yaml list"
  in_exception :: "yaml list"

record instruction_block =
  ib_name :: string
  ib_list :: "instruction_entry list"

record instruction_map =
  im_name :: string
  im_blocks :: "instruction_block list"

record isa_document =
  id_name :: string
  id_instructions :: "instruction_map list"

definition add_instruction :: "instruction_block \<Rightarrow> instruction_entry \<Rightarrow> instruction_block" where
  "add_instruction b i = b\<lparr>ib_list := ib_list b @ [i]\<rparr>"

definition add_instruction_block :: "instruction_map \<Rightarrow> instruction_block \<Rightarrow> instruction_map" where
  "add_instruction_block m b = m\<lparr>im_blocks := im_blocks m @ [b]\<rparr>"

definition add_instruction_map :: "isa_document \<Rightarrow> instruction_map \<Rightarrow> isa_document" where
  "add_instruction_map d m = d\<lparr>id_instructions := id_instructions d @ [m]\<rparr>"

section \<open>IsaParser\<close>

definition column :: "yaml \<Rightarrow> string \<Rightarrow> yaml result" where
  "column data k = rbind (y_get data k (YStr [])) (\<lambda>v. ret (if v = YNone then YStr [] else v))"

definition add_operation :: "string \<Rightarrow> instruction_entry \<Rightarrow> string \<times> yaml \<Rightarrow> instruction_entry result" where
  "add_operation operation s = (\<lambda>(nm, data).
     rbind (column data ''Description'') (\<lambda>description.
     rbind (column data ''Format'') (\<lambda>fmt.
     rbind (column data ''Pseudocode'') (\<lambda>pcode.
     rbind (column data ''Exception_Raised'') (\<lambda>exc.
     rbind (column data ''Invalid_Values'') (\<lambda>bad.
     ret (s\<lparr>in_operation := in_operation s @ [operation], in_name := in_name s @ [nm],
       in_description := in_description s @ [description], in_format := in_format s @ [fmt],
       in_pseudocode := in_pseudocode s @ [pcode], in_exception := in_exception s @ [exc],
       in_invalid := in_invalid s @ [bad]\<rparr>)))))))"

definition add_operations :: "instruction_entry \<Rightarrow> string \<times> yaml \<Rightarrow> instruction_entry result" where
  "add_operations s = (\<lambda>(operation, instruction_data).
     rbind (y_items instruction_data) (\<lambda>is. foldR (add_operation operation) s is))"

definition isa_return_register :: "string \<Rightarrow> yaml \<Rightarrow> yaml \<Rightarrow> yaml \<Rightarrow> instruction_entry result" where
  "isa_return_register key ext descr instructions_data =
     (let empty = \<lparr>in_key = key, in_ext = ext, in_descr = descr, in_operation = [], in_name = [], in_format = [],
        in_description = [], in_pseudocode = [], in_invalid = [], in_exception = []\<rparr>
      in if truthy instructions_data
         then rbind (y_items instructions_data) (\<lambda>is. foldR add_operations empty is)
         else ret empty)"

definition isa_entry :: "instruction_block \<Rightarrow> string \<times> yaml \<Rightarrow> instruction_block result" where
  "isa_entry a = (\<lambda>(key, v).
     rbind (y_get v ''Subset_Name'' YNone) (\<lambda>ext. rbind (y_get v ''Description'' YNone) (\<lambda>descr.
     rbind (y_get v ''Instructions'' YNone) (\<lambda>data.
     rbind (isa_return_register key ext descr data) (\<lambda>i. ret (add_instruction a i))))))"

definition isa_return_document :: "yaml \<Rightarrow> yaml option \<Rightarrow> yaml option \<Rightarrow> isa_document result" where
  "isa_return_document srcFile modiFile templatefile =
     rbind (isa_filter srcFile modiFile templatefile) (\<lambda>yaml_data.
     rbind (foldR isa_entry \<lparr>ib_name = ''isa'', ib_list = []\<rparr> yaml_data) (\<lambda>a.
     let m = add_instruction_block \<lparr>im_name = ''ISA_B'', im_blocks = []\<rparr> a
     in ret (add_instruction_map \<lparr>id_name = ''MAP'', id_instructions = []\<rparr> m)))"

section \<open>Instruction tables\<close>

definition isa_headers :: "string list" where
  "isa_headers = [''Name'', ''Format'', ''Pseudocode'', ''Invalid_values'', ''Exception_raised'',
     ''Description'', ''Op Name'']"

text \<open>The columns are indexed by the positions of the names.\<close>

definition isa_line :: "instruction_entry \<Rightarrow> nat \<Rightarrow> yaml list result" where
  "isa_line reg k =
     rbind (y_nth (YList (map YStr (in_name reg))) k) (\<lambda>nm.
     rbind (y_nth (YList (in_format reg)) k) (\<lambda>fmt.
     rbind (y_nth (YList (in_pseudocode reg)) k) (\<lambda>pcode.
     rbind (y_nth (YList (in_invalid reg)) k) (\<lambda>bad.
     rbind (y_nth (YList (in_exception reg)) k) (\<lambda>exc.
     rbind (y_nth (YList (in_description reg)) k) (\<lambda>descr.
     rbind (y_nth (YList (map YStr (in_operation reg))) k) (\<lambda>op.
     ret [nm, fmt, pcode, bad, exc, descr, op])))))))"

definition isa_lines :: "instruction_entry \<Rightarrow> yaml list list result" where
  "isa_lines reg = mapR (isa_line reg) [0..<length (in_name reg)]"

definition rst_isa_entry :: "instruction_entry \<Rightarrow> rst_op list result" where
  "rst_isa_entry reg =
     (if in_name reg = [] then ret []
      else rbind (isa_lines reg) (\<lambda>table. ret [RH2 (in_key reg), RNewline, RTable isa_headers table]))"

definition rst_isa_block :: "string \<Rightarrow> instruction_entry list \<Rightarrow> rst_op list result" where
  "rst_isa_block name instrs =
     rbind (mapR rst_isa_entry instrs) (\<lambda>parts.
     ret ([RDirective ''..'' copyright, RTitle name, RNewline, RH2 ''Instructions'',
       RTable [''Subset Name'', ''Name'', ''Description'']
         (map (\<lambda>i. [YStr (y_str (in_ext i)), YStr (in_key i @ ''_''), YStr (y_str (in_descr i))]) instrs)]
       @ concat parts))"

definition adoc_isa_cell :: "yaml \<Rightarrow> string result" where
  "adoc_isa_cell col = rbind (str_method col) (\<lambda>s. ret (''| '' @ remove_char newline s @ '' ''))"

text \<open>The pipes of the pseudocode, the third column, are escaped first.\<close>

definition adoc_isa_line :: "yaml list \<Rightarrow> string result" where
  "adoc_isa_line cols =
     rbind (case cols of
         nm # fmt # pcode # rest \<Rightarrow> rbind (str_method pcode) (\<lambda>s. ret (nm # fmt # YStr (escape_pipe s) # rest))
       | _ \<Rightarrow> ret cols) (\<lambda>cols.
     rbind (mapR adoc_isa_cell cols) (\<lambda>cs. ret (concat cs @ [newline])))"

definition adoc_isa_entry :: "instruction_entry \<Rightarrow> string result" where
  "adoc_isa_entry reg =
     (if in_name reg = [] then ret []
      else rbind (rbind (isa_lines reg) (mapR adoc_isa_line)) (\<lambda>ls.
        ret (unlines [''==== '' @ in_key reg, [], ''|==='',
               ''| Name | Format | Pseudocode|Invalid_values | Exception_raised | Description| Op Name'', []]
          @ concat ls @ unlines [''|==='', []])))"

definition adoc_isa_block :: "string \<Rightarrow> instruction_entry list \<Rightarrow> string result" where
  "adoc_isa_block name instrs =
     rbind (mapR adoc_isa_entry instrs) (\<lambda>parts.
     ret (adoc_copyright
       @ unlines [''=== '' @ name, [], ''==== Instructions'', [], ''|==='', ''|Subset Name | Name | Description'', []]
       @ concat (map (\<lambda>i. unlines [''|'' @ y_str (in_ext i) @ '' | '' @ in_key i @ '' | ''
           @ remove_char newline (y_str (in_descr i))]) instrs)
       @ unlines [''|==='', []] @ concat parts))"

definition one_line :: "yaml \<Rightarrow> string" where
  "one_line y = replace_str [newline] '' '' (y_str y)"

definition md_isa_line :: "yaml list \<Rightarrow> yaml list" where
  "md_isa_line cols =
     (case cols of
        [nm, fmt, pcode, bad, exc, descr, op] \<Rightarrow>
          [YStr (ljust 15 (y_str nm)), YStr (''['' @ y_str fmt @ ''](#'' @ y_str fmt @ '')''), YStr (one_line pcode),
           bad, YStr (ljust 40 (one_line exc)), YStr (one_line descr), op]
      | _ \<Rightarrow> cols)"

definition md_isa_entry :: "instruction_entry \<Rightarrow> md_op list result" where
  "md_isa_entry reg =
     (if in_name reg = [] then ret []
      else rbind (isa_lines reg) (\<lambda>table.
        ret [MHeader 3 (in_key reg),
          MTable (int (length isa_headers)) (int (length (in_description reg)) + 1)
            (map YStr isa_headers @ concat (map md_isa_line table))]))"

definition md_isa_block :: "string \<Rightarrow> instruction_entry list \<Rightarrow> md_op list result" where
  "md_isa_block name instrs =
     rbind (mapR md_isa_entry instrs) (\<lambda>parts.
     ret (map (\<lambda>l. MWrite (l @ [newline])) md_licence
       @ [MHeader 1 name, MParagraph, MHeader 2 ''Instructions'',
          MTable 3 (int (length instrs) + 1)
            (map YStr [''Subset Name'', ''Name '', ''Description'']
             @ concat (map (\<lambda>i. [YStr (y_str (in_ext i)), YStr (''['' @ in_key i @ ''](#'' @ in_key i @ '')''),
                 YStr (one_line (in_descr i))]) instrs))]
       @ concat parts))"

section \<open>SpikeParser\<close>

record core_config =
  cc_isa :: string
  cc_marchid :: yaml
  cc_misa_we :: bool
  cc_misa_we_enable :: bool
  cc_misaligned :: yaml
  cc_mmu_mode :: string
  cc_mvendorid :: yaml
  cc_pmpaddr0 :: yaml
  cc_pmpcfg0 :: yaml
  cc_pmpregions :: int
  cc_priv :: string
  cc_status_fs_field_we :: bool
  cc_status_fs_field_we_enable :: bool
  cc_status_vs_field_we :: bool
  cc_status_vs_field_we_enable :: bool

record spike =
  sp_bootrom :: bool
  sp_bootrom_base :: int
  sp_bootrom_size :: int
  sp_dram :: bool
  sp_dram_base :: int
  sp_dram_size :: int
  sp_generic_core_config :: bool
  sp_max_steps :: int
  sp_max_steps_enabled :: bool
  sp_isa :: string
  sp_priv :: string
  sp_core_configs :: "core_config list"

definition re_pmpaddr :: re where
  "re_pmpaddr = Seq (lit ''pmpaddr'') (Group 1 digits)"

text \<open>One letter of the privilege modes: \<open>hart.get(csr, {}).get("rv32", "").get("accessible", [])\<close>\<close>

definition mode_letter :: "yaml \<Rightarrow> string \<Rightarrow> string \<Rightarrow> string result" where
  "mode_letter hart csr letter =
     rbind (y_get hart csr (YMap [])) (\<lambda>c. rbind (y_get c ''rv32'' (YStr [])) (\<lambda>r.
     rbind (y_get r ''accessible'' (YList [])) (\<lambda>a. ret (if truthy a then letter else []))))"

definition reset_val :: "yaml \<Rightarrow> string \<Rightarrow> yaml result" where
  "reset_val hart csr = rbind (y_get hart csr (YMap [])) (\<lambda>c. y_get c ''reset-val'' (YStr []))"

definition pmp_index :: "int \<Rightarrow> string \<Rightarrow> int result" where
  "pmp_index index k =
     (case found_groups re_pmpaddr k of
        None \<Rightarrow> ret index
      | Some g \<Rightarrow> rbind (grp 1 g) (\<lambda>d. rbind (py_int 10 d) (\<lambda>i. ret (index + i))))"

record spike_vars =
  sv_index :: int
  sv_isa :: string
  sv_priv :: "string option"
  sv_cores :: "core_config list"

definition spike_hart :: "yaml \<Rightarrow> spike_vars \<Rightarrow> yaml \<Rightarrow> spike_vars result" where
  "spike_hart data s entry =
     rbind (y_index data (''hart'' @ y_str entry)) (\<lambda>hart.
     rbind (mode_letter hart ''mstatus'' ''M'') (\<lambda>m.
     rbind (mode_letter hart ''sstatus'' ''S'') (\<lambda>sm.
     rbind (mode_letter hart ''ustatus'' ''U'') (\<lambda>u.
     rbind (y_keys hart) (\<lambda>ks.
     rbind (foldR pmp_index (sv_index s) ks) (\<lambda>index.
     rbind (rbind (y_index hart ''ISA'') str_method) (\<lambda>isa.
     rbind (reset_val hart ''marchid'') (\<lambda>marchid.
     rbind (y_get hart ''hw_data_misaligned_support'' (YStr [])) (\<lambda>misaligned.
     rbind (rbind (reset_val hart ''satp'') y_int) (\<lambda>satp.
     rbind (reset_val hart ''mvendorid'') (\<lambda>mvendorid.
     rbind (reset_val hart ''pmpaddr0'') (\<lambda>pmpaddr0.
     rbind (reset_val hart ''pmpcfg0'') (\<lambda>pmpcfg0.
     let priv = m @ sm @ u in
     ret \<lparr>sv_index = index, sv_isa = lower isa, sv_priv = Some priv,
       sv_cores = sv_cores s @ [\<lparr>cc_isa = lower isa, cc_marchid = marchid, cc_misa_we = False,
         cc_misa_we_enable = True, cc_misaligned = misaligned,
         cc_mmu_mode = (if shr satp 31 = 0 then ''bare'' else ''sv32''), cc_mvendorid = mvendorid,
         cc_pmpaddr0 = pmpaddr0, cc_pmpcfg0 = pmpcfg0, cc_pmpregions = index, cc_priv = priv,
         cc_status_fs_field_we = False, cc_status_fs_field_we_enable = False,
         cc_status_vs_field_we = False, cc_status_vs_field_we_enable = False\<rparr>]\<rparr>)))))))))))))"

definition spike_return_document :: "yaml \<Rightarrow> spike result" where
  "spike_return_document data =
     rbind (y_index data ''hart_ids'') (\<lambda>ids. rbind (y_iter ids) (\<lambda>entries.
     rbind (foldR (spike_hart data) \<lparr>sv_index = 0, sv_isa = [], sv_priv = None, sv_cores = []\<rparr> entries) (\<lambda>s.
     rbind (of_option UnboundLocalError (sv_priv s)) (\<lambda>priv.
     ret \<lparr>sp_bootrom = True, sp_bootrom_base = 0x10000, sp_bootrom_size = 0x1000, sp_dram = True,
       sp_dram_base = 0x80000000, sp_dram_size = 0x40000000, sp_generic_core_config = False,
       sp_max_steps = 200000, sp_max_steps_enabled = False, sp_isa = sv_isa s, sp_priv = priv,
       sp_core_configs = sv_cores s\<rparr>))))"

section \<open>Generators\<close>

text \<open>
  What is written: a dictionary from paths to contents, the content a value of the format's
  library. \<open>rst\<close> and \<open>md\<close> are what RstCloth and MdUtils return for a sequence of calls.
\<close>

datatype content = Text string | Dump yaml

type_synonym files = "(string, content) dict"

datatype doc_format = Rst | Adoc | Md

definition suffix_of :: "doc_format \<Rightarrow> string" where
  "suffix_of f = (case f of Rst \<Rightarrow> ''.rst'' | Adoc \<Rightarrow> ''.adoc'' | Md \<Rightarrow> ''.md'')"

definition write_file :: "string \<Rightarrow> string \<Rightarrow> string \<Rightarrow> content \<Rightarrow> files \<Rightarrow> files" where
  "write_file target folder file_name c fs =
     AList.update (''./'' @ target @ ''/'' @ folder @ ''/'' @ file_name) c fs"

definition isa_text ::
  "(rst_op list \<Rightarrow> string) \<Rightarrow> (md_op list \<Rightarrow> string result) \<Rightarrow> doc_format \<Rightarrow> instruction_block \<Rightarrow> string result" where
  "isa_text rst md fmt b =
     (case fmt of
        Rst \<Rightarrow> rbind (rst_isa_block (ib_name b) (ib_list b)) (\<lambda>ops. ret (rst ops))
      | Adoc \<Rightarrow> adoc_isa_block (ib_name b) (ib_list b)
      | Md \<Rightarrow> rbind (md_isa_block (ib_name b) (ib_list b)) md)"

definition generate_isa ::
  "(rst_op list \<Rightarrow> string) \<Rightarrow> (md_op list \<Rightarrow> string result) \<Rightarrow> string \<Rightarrow> doc_format \<Rightarrow> isa_document \<Rightarrow> files
    \<Rightarrow> files result" where
  "generate_isa rst md target fmt document fs =
     foldR (\<lambda>fs m. foldR (\<lambda>fs b.
       rbind (isa_text rst md fmt b) (\<lambda>s.
       ret (write_file target ''isa'' (ib_name b @ suffix_of fmt) (Text s) fs))) fs (im_blocks m))
     fs (id_instructions document)"

definition csr_text ::
  "(rst_op list \<Rightarrow> string) \<Rightarrow> (md_op list \<Rightarrow> string result) \<Rightarrow> doc_format \<Rightarrow> address_block \<Rightarrow> string result" where
  "csr_text rst md fmt b =
     (case fmt of
        Rst \<Rightarrow> rbind (rst_csr_block (ab_name b) (ab_registers b)) (\<lambda>ops. ret (rst ops))
      | Adoc \<Rightarrow> adoc_csr_block (ab_name b) (ab_registers b)
      | Md \<Rightarrow> rbind (md_csr_block (ab_name b) (ab_registers b)) md)"

definition generate_csr ::
  "(rst_op list \<Rightarrow> string) \<Rightarrow> (md_op list \<Rightarrow> string result) \<Rightarrow> string \<Rightarrow> doc_format \<Rightarrow> csr_document \<Rightarrow> files
    \<Rightarrow> files result" where
  "generate_csr rst md target fmt document fs =
     foldR (\<lambda>fs m. foldR (\<lambda>fs b.
       rbind (csr_text rst md fmt b) (\<lambda>s.
       ret (write_file target ''csr'' (ab_name b @ suffix_of fmt) (Text s) fs))) fs (mm_blocks m))
     fs (cd_maps document)"

text \<open>\<open>template\<close>: the YAML tree of the rendered Mako template.\<close>

definition generate_spike ::
  "(spike \<Rightarrow> yaml) \<Rightarrow> yaml option \<Rightarrow> string \<Rightarrow> spike \<Rightarrow> files \<Rightarrow> files result" where
  "generate_spike template modiFile target document fs =
     rbind (spike_formatter (template document) modiFile) (\<lambda>data.
     ret (write_file target ''spike'' ''spike.yaml'' (Dump data) fs))"

section \<open>The script\<close>

definition choose_format :: "string option \<Rightarrow> doc_format" where
  "choose_format f =
     (if f = Some ''rst'' then Rst else if f = Some ''adoc'' then Adoc else if f = Some ''md'' then Md else Rst)"

text \<open>\<open>load\<close> reads a file with \<open>yaml.safe_load\<close>, \<open>load_base\<close> with \<open>BaseLoader\<close>.\<close>

definition load_opt :: "(string \<Rightarrow> yaml result) \<Rightarrow> string option \<Rightarrow> yaml option result" where
  "load_opt load f = (case f of None \<Rightarrow> ret None | Some p \<Rightarrow> rbind (load p) (\<lambda>y. ret (Some y)))"

record gen_args =
  ga_src :: string
  ga_custom :: string
  ga_debug :: "string option"
  ga_modif :: "string option"
  ga_temp :: "string option"
  ga_target :: string
  ga_format :: "string option"

definition gen_main ::
  "(rst_op list \<Rightarrow> string) \<Rightarrow> (md_op list \<Rightarrow> string result) \<Rightarrow> (string \<Rightarrow> spike \<Rightarrow> yaml) \<Rightarrow>
   (string \<Rightarrow> yaml result) \<Rightarrow> (string \<Rightarrow> yaml result) \<Rightarrow> gen_args \<Rightarrow> files \<Rightarrow> files result" where
  "gen_main rst md mako load load_base args fs =
     (let fmt = choose_format (ga_format args) in
      case ga_temp args of
        Some (c # cs) \<Rightarrow>
          (if contains ''isa'' (c # cs) then
             rbind (load (ga_src args)) (\<lambda>src. rbind (load_opt load (Some (c # cs))) (\<lambda>t.
             rbind (load_opt load (ga_modif args)) (\<lambda>u.
             rbind (isa_return_document src u t) (\<lambda>document.
             generate_isa rst md (ga_target args) fmt document fs))))
           else if contains ''spike'' (c # cs) then
             rbind (rbind (load (ga_src args)) spike_return_document) (\<lambda>document.
             rbind (load_opt load_base (ga_modif args)) (\<lambda>u.
             generate_spike (mako (c # cs)) u (ga_target args) document fs))
           else ret fs)
      | _ \<Rightarrow>
          rbind (load (ga_src args)) (\<lambda>src. rbind (load (ga_custom args)) (\<lambda>custom.
          rbind (load_opt load (ga_debug args)) (\<lambda>debug. rbind (load_opt load (ga_modif args)) (\<lambda>u.
          rbind (csr_return_document src custom debug u) (\<lambda>document.
          generate_csr rst md (ga_target args) fmt document fs))))))"

end
