(* ===== verification/Isa_Doc_Facts.thy ===== *)
theory Isa_Doc_Facts
  imports Isa_Doc Csr_Facts Config_Facts
begin

text \<open>
  The instruction documents are rectangular: the parser fills seven columns of the same length, so
  that no writer reads past the end of one; two of the writers always succeed, and the third when all
  cells are texts. And what the number of PMP regions is the sum of.
\<close>

section \<open>Seven columns\<close>

definition rectangular :: "instruction_entry \<Rightarrow> bool" where
  "rectangular s \<longleftrightarrow> (let n = length (in_name s) in length (in_operation s) = n \<and> length (in_format s) = n
     \<and> length (in_description s) = n \<and> length (in_pseudocode s) = n \<and> length (in_invalid s) = n
     \<and> length (in_exception s) = n)"

interpretation operation_loop: loop_invariant rectangular "add_operation operation" for operation
  by unfold_locales (auto simp: add_operation_def rectangular_def Let_def split: prod.splits)

interpretation operations_loop: loop_invariant rectangular add_operations
  by unfold_locales (auto simp: add_operations_def split: prod.splits intro: operation_loop.loop_keeps)

lemma return_register_rectangular: "isa_return_register key ext descr data = Inr s \<Longrightarrow> rectangular s"
proof -
  assume s: "isa_return_register key ext descr data = Inr s"
  let ?e = "\<lparr>in_key = key, in_ext = ext, in_descr = descr, in_operation = [], in_name = [], in_format = [],
        in_description = [], in_pseudocode = [], in_invalid = [], in_exception = []\<rparr>"
  have e: "rectangular ?e" by (simp add: rectangular_def)
  show "rectangular s"
  proof (cases "truthy data")
    case True
    with s obtain "is" where "foldR add_operations ?e is = Inr s"
      by (auto simp: isa_return_register_def Let_def)
    with e show ?thesis by (rule operations_loop.loop_keeps)
  next
    case False
    with s e show ?thesis by (simp add: isa_return_register_def)
  qed
qed

interpretation entry_loop: loop_invariant "\<lambda>b. \<forall>i \<in> set (ib_list b). rectangular i" isa_entry
  by unfold_locales
    (auto simp: isa_entry_def add_instruction_def split: prod.splits dest: return_register_rectangular)

lemma document_rectangular:
  assumes "isa_return_document src u t = Inr doc" "m \<in> set (id_instructions doc)" "b \<in> set (im_blocks m)"
    "i \<in> set (ib_list b)"
  shows "rectangular i"
proof -
  from assms(1) obtain data a where a: "foldR isa_entry \<lparr>ib_name = ''isa'', ib_list = []\<rparr> data = Inr a"
    and doc: "doc = add_instruction_map \<lparr>id_name = ''MAP'', id_instructions = []\<rparr>
      (add_instruction_block \<lparr>im_name = ''ISA_B'', im_blocks = []\<rparr> a)"
    by (auto simp: isa_return_document_def Let_def)
  have "\<forall>i \<in> set (ib_list a). rectangular i" by (rule entry_loop.loop_keeps [OF _ a]) simp
  moreover have "b = a" using assms(2,3) by (simp add: doc add_instruction_map_def add_instruction_block_def)
  ultimately show ?thesis using assms(4) by blast
qed

definition row_at :: "instruction_entry \<Rightarrow> nat \<Rightarrow> yaml list" where
  "row_at i k = [YStr (in_name i ! k), in_format i ! k, in_pseudocode i ! k, in_invalid i ! k,
     in_exception i ! k, in_description i ! k, YStr (in_operation i ! k)]"

lemma isa_lines_total:
  assumes "rectangular i"
  shows "isa_lines i = Inr (map (row_at i) [0..<length (in_name i)])"
  unfolding isa_lines_def
  by (rule mapR_total) (use assms in \<open>auto simp: isa_line_def row_at_def y_nth_def rectangular_def Let_def\<close>)

definition rst_entry_ops :: "instruction_entry \<Rightarrow> rst_op list" where
  "rst_entry_ops i = (if in_name i = [] then [] else
     [RH2 (in_key i), RNewline, RTable isa_headers (map (row_at i) [0..<length (in_name i)])])"

definition md_entry_ops :: "instruction_entry \<Rightarrow> md_op list" where
  "md_entry_ops i = (if in_name i = [] then [] else
     [MHeader 3 (in_key i), MTable 7 (int (length (in_name i)) + 1)
        (map YStr isa_headers @ concat (map md_isa_line (map (row_at i) [0..<length (in_name i)])))])"

lemma rst_entries: "\<forall>i \<in> set is. rectangular i \<Longrightarrow> mapR rst_isa_entry is = Inr (map rst_entry_ops is)"
  by (rule mapR_total) (simp add: rst_isa_entry_def rst_entry_ops_def isa_lines_total)

lemma md_entries: "\<forall>i \<in> set is. rectangular i \<Longrightarrow> mapR md_isa_entry is = Inr (map md_entry_ops is)"
proof (rule mapR_total)
  fix i assume "\<forall>i \<in> set is. rectangular i" "i \<in> set is"
  then have "rectangular i" by blast
  then show "md_isa_entry i = Inr (md_entry_ops i)"
    using isa_lines_total [of i] by (simp add: md_isa_entry_def md_entry_ops_def isa_headers_def rectangular_def Let_def)
qed

fun md_tables_ok :: "md_op list \<Rightarrow> bool" where
  "md_tables_ok [] = True"
| "md_tables_ok (MTable c r text # ops) = (c * r = int (length text) \<and> md_tables_ok ops)"
| "md_tables_ok (_ # ops) = md_tables_ok ops"

lemma md_tables_append [simp]: "md_tables_ok (xs @ ys) \<longleftrightarrow> md_tables_ok xs \<and> md_tables_ok ys"
  by (induction xs rule: md_tables_ok.induct) auto

lemma md_tables_concat: "(\<forall>x \<in> set xs. md_tables_ok x) \<Longrightarrow> md_tables_ok (concat xs)"
  by (induction xs) auto

lemma tables_concat: "(\<forall>x \<in> set xs. tables_ok x) \<Longrightarrow> tables_ok (concat xs)"
  by (induction xs) auto

lemma md_writes_ok: "md_tables_ok (map (\<lambda>l. MWrite (l @ [newline])) ls)"
  by (induction ls) auto

lemma length_concat_const: "(\<forall>x \<in> set xs. length x = n) \<Longrightarrow> length (concat xs) = n * length xs"
  by (induction xs) auto

lemma rst_entry_tables: "tables_ok (rst_entry_ops i)"
  by (simp add: rst_entry_ops_def row_at_def isa_headers_def)

lemma md_entry_tables: "md_tables_ok (md_entry_ops i)"
proof -
  have "length (concat (map md_isa_line (map (row_at i) ks))) = 7 * length ks" for ks
    using length_concat_const [of "map md_isa_line (map (row_at i) ks)" 7] by (simp add: md_isa_line_def row_at_def)
  then show ?thesis by (simp add: md_entry_ops_def isa_headers_def)
qed

text \<open>
  The AsciiDoc writer calls string methods on the cells, so it needs texts; its rows are split by
  the bars that no backslash stands before.
\<close>

definition is_text :: "yaml \<Rightarrow> bool" where
  "is_text y = (case y of YStr _ \<Rightarrow> True | _ \<Rightarrow> False)"

definition all_texts :: "instruction_entry \<Rightarrow> bool" where
  "all_texts i \<longleftrightarrow> list_all is_text (in_format i @ in_pseudocode i @ in_invalid i @ in_exception i @ in_description i)"

fun bars :: "bool \<Rightarrow> string \<Rightarrow> nat" where
  "bars escaped [] = 0"
| "bars escaped (c # cs) = (if c = CHR ''|'' \<and> \<not> escaped then 1 else 0) + bars (c = CHR 0x5C) cs"

definition text_bars :: "yaml \<Rightarrow> nat" where
  "text_bars y = (case y of YStr s \<Rightarrow> bars False (remove_char newline s) | _ \<Rightarrow> 0)"

lemma newline_no_bar: "newline \<noteq> CHR ''|''" "CHR ''|'' \<noteq> newline" "CHR 0x5C \<noteq> newline"
  by code_simp+

lemma bars_blank: "bars e (s @ CHR '' '' # t) = bars e s + bars False t"
  by (induction s arbitrary: e) auto

lemma bars_cell: "bars e (''| '' @ s @ '' '' @ t) = (if e then 0 else 1) + bars False s + bars False t"
  using bars_blank [of False s t] by simp

lemma bars_escaped: "bars e (remove_char newline (escape_pipe s)) = 0"
  by (induction s arbitrary: e) (auto simp: escape_pipe_def replace_str_def remove_char_def newline_no_bar)

lemma is_text_cases: "is_text y \<longleftrightarrow> (\<exists>s. y = YStr s)"
  by (cases y) (simp_all add: is_text_def)

lemma not_text: "\<not> is_text y \<Longrightarrow> str_method y = Inl AttributeError"
  by (cases y) (simp_all add: is_text_def str_method_def)

lemma mapR_ex: "(\<And>x. x \<in> set xs \<Longrightarrow> \<exists>y. f x = Inr y) \<Longrightarrow> \<exists>ys. mapR f xs = Inr ys"
  by (induction xs) fastforce+

lemma mapR_raises:
  "(\<And>x. x \<in> set xs \<Longrightarrow> (\<exists>y. f x = Inr y) \<or> f x = Inl e) \<Longrightarrow> \<exists>x \<in> set xs. f x = Inl e \<Longrightarrow> mapR f xs = Inl e"
proof (induction xs)
  case (Cons x xs)
  show ?case
  proof (cases "f x")
    case (Inl d)
    with Cons.prems(1) [of x] show ?thesis by simp
  next
    case (Inr y)
    with Cons.prems(2) have "\<exists>x \<in> set xs. f x = Inl e" by auto
    with Cons.IH Cons.prems(1) Inr show ?thesis by simp
  qed
qed simp

definition row_texts :: "instruction_entry \<Rightarrow> nat \<Rightarrow> bool" where
  "row_texts i k \<longleftrightarrow> is_text (in_format i ! k) \<and> is_text (in_pseudocode i ! k) \<and> is_text (in_invalid i ! k)
     \<and> is_text (in_exception i ! k) \<and> is_text (in_description i ! k)"

lemma adoc_row:
  assumes "row_texts i k"
  shows "\<exists>row. adoc_isa_line (row_at i k) = Inr row \<and> bars False row = 7 + text_bars (YStr (in_name i ! k))
      + text_bars (in_format i ! k) + text_bars (in_invalid i ! k) + text_bars (in_exception i ! k)
      + text_bars (in_description i ! k) + text_bars (YStr (in_operation i ! k))"
proof -
  obtain f p v e d where t: "in_format i ! k = YStr f" "in_pseudocode i ! k = YStr p" "in_invalid i ! k = YStr v"
    "in_exception i ! k = YStr e" "in_description i ! k = YStr d"
    using assms by (auto simp: row_texts_def is_text_cases)
  show ?thesis
    unfolding adoc_isa_line_def row_at_def adoc_isa_cell_def t
    by (simp add: text_bars_def bars_blank bars_escaped newline_no_bar)
qed

lemma adoc_isa_cell_text:
  "is_text y \<Longrightarrow> \<exists>t. adoc_isa_cell y = Inr t" "\<not> is_text y \<Longrightarrow> adoc_isa_cell y = Inl AttributeError"
  by (auto simp: adoc_isa_cell_def is_text_cases not_text)

lemma adoc_row_fails:
  assumes "\<not> row_texts i k"
  shows "adoc_isa_line (row_at i k) = Inl AttributeError"
proof (cases "in_pseudocode i ! k")
  case (YStr p)
  let ?cols = "[YStr (in_name i ! k), in_format i ! k, YStr (escape_pipe p), in_invalid i ! k, in_exception i ! k,
    in_description i ! k, YStr (in_operation i ! k)]"
  have "\<exists>y \<in> set ?cols. \<not> is_text y" using assms YStr by (auto simp: row_texts_def is_text_def)
  then have "mapR adoc_isa_cell ?cols = Inl AttributeError"
    using adoc_isa_cell_text by (intro mapR_raises) metis+
  then show ?thesis unfolding adoc_isa_line_def row_at_def YStr by (simp del: mapR.simps)
qed (simp_all add: adoc_isa_line_def row_at_def str_method_def)

lemma all_texts_rows:
  "rectangular i \<Longrightarrow> all_texts i \<longleftrightarrow> (\<forall>k < length (in_name i). row_texts i k)"
  unfolding all_texts_def list_all_append unfolding list_all_length
  by (auto simp: row_texts_def rectangular_def Let_def)

lemma adoc_entry:
  assumes "rectangular i"
  shows "if all_texts i then \<exists>t. adoc_isa_entry i = Inr t else adoc_isa_entry i = Inl AttributeError"
proof -
  let ?n = "length (in_name i)"
  note texts = all_texts_rows [OF assms]
  show ?thesis
  proof (cases "in_name i = []")
    case True
    then show ?thesis using texts by (simp add: adoc_isa_entry_def)
  next
    case False
    have rows: "rbind (isa_lines i) (mapR adoc_isa_line) = mapR adoc_isa_line (map (row_at i) [0..<?n])"
      by (simp add: isa_lines_total [OF assms])
    show ?thesis
    proof (cases "all_texts i")
      case True
      then have "\<exists>ls. mapR adoc_isa_line (map (row_at i) [0..<?n]) = Inr ls"
        using texts adoc_row by (intro mapR_ex) fastforce
      with True False rows show ?thesis by (auto simp: adoc_isa_entry_def)
    next
      case fails: False
      then obtain k where "k < ?n" "\<not> row_texts i k" using texts by blast
      then have "mapR adoc_isa_line (map (row_at i) [0..<?n]) = Inl AttributeError"
        using adoc_row adoc_row_fails by (intro mapR_raises) (fastforce, fastforce)
      with fails False rows show ?thesis by (simp add: adoc_isa_entry_def)
    qed
  qed
qed

lemma adoc_block:
  assumes "\<forall>i \<in> set is. rectangular i"
  shows "if \<forall>i \<in> set is. all_texts i then \<exists>t. adoc_isa_block name is = Inr t
    else adoc_isa_block name is = Inl AttributeError"
proof (cases "\<forall>i \<in> set is. all_texts i")
  case True
  then have "\<exists>ts. mapR adoc_isa_entry is = Inr ts"
    using assms adoc_entry by (intro mapR_ex) metis
  with True show ?thesis by (auto simp: adoc_isa_block_def)
next
  case False
  then have "mapR adoc_isa_entry is = Inl AttributeError"
    using assms adoc_entry by (intro mapR_raises) metis+
  with False show ?thesis by (simp add: adoc_isa_block_def)
qed

text \<open>
  C21: Every instruction document is a set of rectangular tables: for every file that parses, no
  column is read past its end. The ReStructuredText and the Markdown writers succeed on every
  block, each row of a table has one cell per header, and each Markdown table is given as many cells
  as its columns times its rows, which the library insists on. The AsciiDoc writer succeeds exactly
  when all cells are texts, and else fails with an AttributeError; a row it writes has
  seven bars that open a cell, beside those that stand in the cells other than the pseudocode,
  whose bars it escapes.
\<close>

theorem isa_tables_rectangular:
  assumes "isa_return_document src u t = Inr doc" "m \<in> set (id_instructions doc)" "b \<in> set (im_blocks m)"
  shows "(\<exists>ops. rst_isa_block name (ib_list b) = Inr ops \<and> tables_ok ops)
    \<and> (\<exists>ops. md_isa_block name (ib_list b) = Inr ops \<and> md_tables_ok ops)
    \<and> (if \<forall>i \<in> set (ib_list b). all_texts i then \<exists>text. adoc_isa_block name (ib_list b) = Inr text
       else adoc_isa_block name (ib_list b) = Inl AttributeError)
    \<and> (\<forall>i \<in> set (ib_list b). all_texts i \<longrightarrow> (\<forall>k < length (in_name i). \<exists>row.
         adoc_isa_line (row_at i k) = Inr row \<and> bars False row = 7 + text_bars (YStr (in_name i ! k))
           + text_bars (in_format i ! k) + text_bars (in_invalid i ! k) + text_bars (in_exception i ! k)
           + text_bars (in_description i ! k) + text_bars (YStr (in_operation i ! k))))"
proof (intro conjI)
  have rect: "\<forall>i \<in> set (ib_list b). rectangular i" using document_rectangular [OF assms] by blast
  show "\<exists>ops. rst_isa_block name (ib_list b) = Inr ops \<and> tables_ok ops"
    by (simp add: rst_isa_block_def rst_entries [OF rect] tables_concat rst_entry_tables)
  have "length (concat (map (\<lambda>i. [f i, g i, h i]) xs)) = 3 * length xs"
    for f g h :: "instruction_entry \<Rightarrow> yaml" and xs
    by (subst length_concat_const [of _ 3]) auto
  then show "\<exists>ops. md_isa_block name (ib_list b) = Inr ops \<and> md_tables_ok ops"
    by (simp add: md_isa_block_def md_entries [OF rect] md_tables_concat md_entry_tables md_writes_ok)
  show "if \<forall>i \<in> set (ib_list b). all_texts i then \<exists>text. adoc_isa_block name (ib_list b) = Inr text
       else adoc_isa_block name (ib_list b) = Inl AttributeError"
    by (rule adoc_block [OF rect])
  show "\<forall>i \<in> set (ib_list b). all_texts i \<longrightarrow> (\<forall>k < length (in_name i). \<exists>row.
         adoc_isa_line (row_at i k) = Inr row \<and> bars False row = 7 + text_bars (YStr (in_name i ! k))
           + text_bars (in_format i ! k) + text_bars (in_invalid i ! k) + text_bars (in_exception i ! k)
           + text_bars (in_description i ! k) + text_bars (YStr (in_operation i ! k)))"
  proof (intro ballI impI allI)
    fix i k
    assume i: "i \<in> set (ib_list b)" "all_texts i" "k < length (in_name i)"
    then have "row_texts i k"
      using rect all_texts_rows by blast
    then show "\<exists>row. adoc_isa_line (row_at i k) = Inr row \<and> bars False row = 7 + text_bars (YStr (in_name i ! k))
           + text_bars (in_format i ! k) + text_bars (in_invalid i ! k) + text_bars (in_exception i ! k)
           + text_bars (in_description i ! k) + text_bars (YStr (in_operation i ! k))" by (rule adoc_row)
  qed
qed

definition isa_source :: yaml where
  "isa_source = YMap [(''hart0'', YMap [(''ISA'', YStr ''RV32IZba'')])]"

definition isa_template :: yaml where
  "isa_template = YMap [(''RV32I'', YMap [(''Subset_Name'', YStr ''I''), (''Instructions'', YMap [(''Moves'', YMap
     [(''MV'', YMap [(''Format'', YStr ''mv rd, rs'')]), (''LI'', YMap [(''Description'', YNone)])])])])]"

theorem isa_tables_rectangular_witness:
  "\<exists>doc m b. isa_return_document isa_source None (Some isa_template) = Inr doc
    \<and> m \<in> set (id_instructions doc) \<and> b \<in> set (im_blocks m) \<and> length (ib_list b) = 2
    \<and> (\<exists>ops. md_isa_block ''isa'' (ib_list b) = Inr ops \<and> md_tables_ok ops)
    \<and> (\<exists>text. adoc_isa_block ''isa'' (ib_list b) = Inr text)"
proof -
  let ?d = "isa_return_document isa_source None (Some isa_template)"
  have "case ?d of Inl _ \<Rightarrow> False | Inr doc \<Rightarrow>
      (case id_instructions doc of [m] \<Rightarrow> (case im_blocks m of [b] \<Rightarrow> length (ib_list b) = 2 \<and> list_all all_texts (ib_list b) | _ \<Rightarrow> False) | _ \<Rightarrow> False)"
    by code_simp
  then obtain doc m b where d: "?d = Inr doc" "m \<in> set (id_instructions doc)" "b \<in> set (im_blocks m)"
    "length (ib_list b) = 2" "list_all all_texts (ib_list b)"
    by (auto split: sum.splits list.splits)
  from isa_tables_rectangular [OF d(1-3), of "''isa''"] d show ?thesis
    unfolding list_all_iff by auto
qed

section \<open>PMP regions\<close>

lemma search_pmpaddr:
  assumes "ds \<noteq> []" "\<forall>c \<in> set ds. is_digit c"
  shows "found_groups re_pmpaddr (''pmpaddr'' @ ds) = Some [(1, ds)]"
proof -
  have "eats (lit ''pmpaddr'') (''pmpaddr'' @ ds) ''pmpaddr'' [] ds" by (rule eats_lit)
  moreover have "eats (Group 1 digits) (ds @ []) ds ([] @ [(1, ds)]) []"
    unfolding digits_def by (intro eats_Group eats_many1_run) (use assms in simp_all)
  ultimately have "eats re_pmpaddr (''pmpaddr'' @ ds) (''pmpaddr'' @ ds) [(1, ds)] []"
    unfolding re_pmpaddr_def using eats_Seq by fastforce
  from eats_search [OF this] show ?thesis by (simp add: found_groups_def)
qed

lemma pmp_index_step:
  "pmp_index k (''pmpaddr'' @ py_str (int i)) = Inr (k + int i)"
proof -
  have "py_str (int i) \<noteq> []" "\<forall>c \<in> set (py_str (int i)). is_digit c"
    using py_str_digits [of "int i"] by (simp_all add: list_all_iff)
  then show ?thesis
    using search_pmpaddr by (simp add: pmp_index_def grp_def match_group_def py_int_py_str)
qed

text \<open>
  The number of PMP regions given to Spike is the sum of the indices of the address registers, not
  their number: with \<open>pmpaddr0\<close> to \<open>pmpaddr(n-1)\<close> described, twice the value is \<open>n * (n - 1)\<close>, and the
  count carries over from one hart to the next.
\<close>

lemma pmp_regions:
  "\<exists>r. foldR pmp_index start (map (\<lambda>i. ''pmpaddr'' @ py_str (int i)) [0..<n]) = Inr r
    \<and> 2 * (r - start) = int n * (int n - 1)"
proof -
  have "foldR pmp_index k (map (\<lambda>i. ''pmpaddr'' @ py_str (int i)) xs) = Inr (k + (\<Sum>i\<leftarrow>xs. int i))" for xs k
    by (induction xs arbitrary: k) (simp_all add: pmp_index_step [simplified])
  moreover have "2 * (\<Sum>i\<leftarrow>[0..<n]. int i) = int n * (int n - 1)"
    by (induction n) (simp_all add: algebra_simps)
  ultimately show ?thesis by simp
qed

end
