(* ===== verification/Factorizer_Facts.thy ===== *)
theory Factorizer_Facts
  imports Csr_Factorizer
begin

text \<open>
  What the CSR factorizer does to the other registers (nothing), and to families of registers that
  differ in their number only.
\<close>

section \<open>Numbered names\<close>

definition has_digit :: "string \<Rightarrow> bool" where
  "has_digit s \<longleftrightarrow> (\<exists>c \<in> set s. is_digit c)"

lemma has_digit_Cons [simp]: "has_digit (c # s) \<longleftrightarrow> is_digit c \<or> has_digit s"
  by (simp add: has_digit_def)

lemma has_digit_append [simp]: "has_digit (s @ t) \<longleftrightarrow> has_digit s \<or> has_digit t"
  by (auto simp: has_digit_def)

lemma search_matches:
  "search_from r p s = Some (pre, x, g) \<Longrightarrow> \<exists>q t. s = pre @ t \<and> (x, g) \<in> set (matches r q t)"
proof (induction r p s arbitrary: pre rule: search_from.induct)
  case (1 r p)
  then have "pre = []" "(x, g) \<in> set (matches r p [])" by (auto split: list.splits)
  then show ?case by blast
next
  case (2 r p c s)
  show ?case
  proof (cases "matches r p (c # s)")
    case Nil
    with 2(2) obtain pre' where pre: "pre = c # pre'" "search_from r (Some c) s = Some (pre', x, g)" by auto
    from 2(1) [OF Nil pre(2)] show ?thesis by (auto simp: pre(1))
  next
    case (Cons m ms)
    with 2(2) have "pre = []" "(x, g) = m" by (auto split: prod.splits)
    with Cons show ?thesis by (intro exI [of _ p] exI [of _ "c # s"]) simp
  qed
qed

lemma numbered_found:
  assumes "re_search re_numbered key = Some (pre, m0, g)"
  shows "has_digit key" "match_group 2 g = Some m2 \<Longrightarrow> has_digit m2"
proof -
  from assms(1) search_matches [of re_numbered None key] obtain q t where
    t: "key = pre @ t" "(m0, g) \<in> set (matches re_numbered q t)" by (auto simp: re_search_def)
  from matches_prefix [OF t(2)] obtain rest where rest: "t = m0 @ rest" by blast
  from t(2) obtain x1 g1 x2 g2 x3 g3 q2 t2 q3 t3 where m: "m0 = x1 @ x2 @ x3"
    "g = g1 @ [(1, x1)] @ g2 @ [(2, x2)] @ g3 @ [(3, x3)]"
    "(x2, g2) \<in> set (matches digits q2 t2)" "(x3, g3) \<in> set (matches (many dot) q3 t3)"
    by (auto simp: re_numbered_def)
  have x2: "g2 = []" "has_digit x2" using many1_sat [OF m(3) [unfolded digits_def]] by (auto simp: has_digit_def)
  moreover have "g3 = []" using matches_star_sat m(4) unfolding many_def dot_def by blast
  ultimately show "match_group 2 g = Some m2 \<Longrightarrow> has_digit m2"
    using m(1,2) by (auto simp: match_group_def)
  show "has_digit key" using x2(2) m(1) t(1) rest by simp
qed

lemmas numbered_match = numbered_found(2) numbered_found(1)

section \<open>The other registers\<close>

definition numbered :: "fac \<Rightarrow> bool" where
  "numbered s \<longleftrightarrow> (\<forall>x \<in> set (f_new_regname s) \<union> set (f_reg_number s) \<union> set (f_suffix_number s)
     \<union> set (f_key_to_remove s). has_digit x)"

lemma range_name_digit:
  "range_name field nums suffix = Inr x \<Longrightarrow> \<forall>n \<in> set nums. has_digit n \<Longrightarrow> has_digit x"
  by (cases nums) (auto simp: range_name_def firstR_def)

lemma close_numbered:
  "numbered s \<Longrightarrow> close_regs d s = Inr s' \<Longrightarrow> numbered s'"
  "numbered s \<Longrightarrow> close_suffixes d s = Inr s' \<Longrightarrow> numbered s'"
  "numbered s \<Longrightarrow> finish_regs d s = Inr s' \<Longrightarrow> numbered s'"
  "numbered s \<Longrightarrow> finish_suffixes d s = Inr s' \<Longrightarrow> numbered s'"
  by (auto simp: close_regs_def close_suffixes_def finish_regs_def finish_suffixes_def numbered_def
      split: if_splits dest!: range_name_digit)

lemma fac_match_numbered:
  assumes "numbered s" "has_digit m2" "fac_match d ad ds l m0 m1 m2 m3 s = Inr s'"
  shows "numbered s'"
proof (cases "f_privname s = Some m1 \<and> legal_eq (f_legalname s) l")
  case True
  with assms show ?thesis by (auto simp: fac_match_def numbered_def split: if_splits)
next
  case False
  with assms(3) obtain s1 s2 where s: "close_regs d s = Inr s1"
    "close_suffixes d (s1\<lparr>f_regname := [m0], f_fieldname := [m1], f_reg_number := [m2], f_regdescr := [],
       f_regadress := [ad]\<rparr>) = Inr s2"
    "s' = s2\<lparr>f_suffix_name := [], f_field_suffix := [], f_regdescr := [], f_suffix_number := [m2],
       f_suffix_address := [], f_privname := Some m1, f_legalname := l\<rparr>"
    by (auto simp: fac_match_def)
  have "numbered s1" by (rule close_numbered(1) [OF assms(1) s(1)])
  then have "numbered (s1\<lparr>f_regname := [m0], f_fieldname := [m1], f_reg_number := [m2], f_regdescr := [],
       f_regadress := [ad]\<rparr>)" using assms(2) by (auto simp: numbered_def)
  from close_numbered(2) [OF this s(2)] assms(2) show ?thesis by (auto simp: s(3) numbered_def)
qed

lemma fac_step_shape:
  assumes "fac_step d s (key, v) = Inr s'"
  shows "s' = s \<or> (\<exists>pre m0 g m1 m2 m3 ad ds l. re_search re_numbered key = Some (pre, m0, g)
    \<and> match_group 2 g = Some m2
    \<and> fac_match d ad ds l m0 m1 m2 m3 (s\<lparr>f_key_to_remove := f_key_to_remove s @ [key]\<rparr>) = Inr s')"
proof -
  define found where "found = (\<lambda>ad ds l. case re_search re_numbered key of
        None \<Rightarrow> ret s
      | Some (pre, m0, g) \<Rightarrow>
          (case (match_group 1 g, match_group 2 g, match_group 3 g) of
             (Some m1, Some m2, Some m3) \<Rightarrow>
               fac_match d ad ds l m0 m1 m2 m3 (s\<lparr>f_key_to_remove := f_key_to_remove s @ [key]\<rparr>)
           | _ \<Rightarrow> raise TypeError))"
  have step: "fac_step d s (key, v) = (if \<not> is_map v then ret s else
     rbind (y_get v ''address'' YNone) (\<lambda>a.
     rbind (if truthy a then y_hex a else ret []) (\<lambda>ad.
     rbind (y_get v ''description'' (YStr [])) (\<lambda>dv.
     rbind (y_get v ''rv32'' (YStr [])) (\<lambda>rv32.
     rbind (y_index rv32 ''accessible'') (\<lambda>acc.
     if \<not> truthy acc then ret s else
     rbind (legal_of rv32) (found ad (if truthy dv then dv else YStr []))))))))"
    unfolding fac_step_def found_def prod.case Let_def ..
  from assms have "s' = s \<or> (\<exists>ad ds l. found ad ds l = Inr s')"
    unfolding step rbind_eq_Inr by (simp only: rbind_eq_Inr split: if_split_asm) blast+
  then show ?thesis
  proof (elim disjE exE)
    fix ad ds l assume f: "found ad ds l = Inr s'"
    show ?thesis
    proof (cases "re_search re_numbered key")
      case (Some m)
      obtain pre m0 g where m: "m = (pre, m0, g)" by (cases m)
      from f Some m obtain m1 m2 m3 where "match_group 2 g = Some m2"
        "fac_match d ad ds l m0 m1 m2 m3 (s\<lparr>f_key_to_remove := f_key_to_remove s @ [key]\<rparr>) = Inr s'"
        by (auto simp: found_def split: option.split_asm)
      with Some m show ?thesis by blast
    qed (use f in \<open>simp add: found_def\<close>)
  qed simp
qed

interpretation fac_loop: loop_invariant numbered "fac_step d" for d
proof unfold_locales
  fix s x s' assume s: "numbered s" "fac_step d s x = Inr s'"
  obtain key v where x: "x = (key, v)" by (cases x)
  from fac_step_shape [OF s(2) [unfolded x]] show "numbered s'"
  proof (elim disjE exE conjE)
    fix pre m0 g m1 m2 m3 ad ds l
    assume m: "re_search re_numbered key = Some (pre, m0, g)" "match_group 2 g = Some m2"
      "fac_match d ad ds l m0 m1 m2 m3 (s\<lparr>f_key_to_remove := f_key_to_remove s @ [key]\<rparr>) = Inr s'"
    have "numbered (s\<lparr>f_key_to_remove := f_key_to_remove s @ [key]\<rparr>)"
      using s(1) numbered_match(2) [OF m(1)] by (auto simp: numbered_def)
    from fac_match_numbered [OF this numbered_match(1) [OF m(1,2)] m(3)] show ?thesis .
  qed (use s in simp)
qed

lemma update_zip_other:
  "k \<notin> set ns \<Longrightarrow> map_of (foldl (\<lambda>d (reg, v). AList.update reg v d) d (zip ns vs)) k = map_of d k"
proof (induction ns arbitrary: d vs)
  case (Cons n ns)
  then show ?case by (cases vs) (simp_all add: update_conv')
qed simp

lemma del_other: "k \<notin> set ks \<Longrightarrow> foldR dict_del d ks = Inr e \<Longrightarrow> map_of e k = map_of d k"
proof (induction ks arbitrary: d)
  case (Cons x ks)
  then obtain d1 where "dict_del d x = Inr d1" "foldR dict_del d1 ks = Inr e" by auto
  then have "foldR dict_del (AList.delete x d) ks = Inr e" by (simp add: dict_del_def split: if_splits)
  from Cons.IH [OF _ this] Cons.prems(1) show ?case by (simp add: delete_conv')
qed simp

text \<open>
  The factorizer leaves every register without a number in its name as it was: it is there with the
  same value, or absent as before.
\<close>

lemma factorizer_leaves_others:
  assumes "factorizer d = Inr r" "\<forall>c \<in> set k. \<not> is_digit c"
  shows "map_of r k = map_of d k"
proof -
  from assms(1) obtain s1 s2 s where s: "foldR (fac_step d) fac_init d = Inr s1" "finish_regs d s1 = Inr s2"
    "finish_suffixes d s2 = Inr s"
    "foldR dict_del (foldl (\<lambda>d (reg, v). AList.update reg v d) d (zip (f_new_regname s) (f_data s)))
      (f_key_to_remove s) = Inr r"
    by (auto simp: factorizer_def Let_def)
  have "numbered fac_init" by (simp add: numbered_def fac_init_def)
  from close_numbered(4) [OF close_numbered(3) [OF fac_loop.loop_keeps [OF this s(1)] s(2)] s(3)]
  have "numbered s" .
  moreover have "\<not> has_digit k" using assms(2) by (simp add: has_digit_def)
  ultimately have "k \<notin> set (f_new_regname s)" "k \<notin> set (f_key_to_remove s)" by (auto simp: numbered_def)
  with del_other [OF _ s(4)] update_zip_other show ?thesis by metis
qed

lemma factorizer_leaves_others_witness:
  "let reg = (\<lambda>a. YMap [(''address'', YInt a), (''description'', YStr ''x''),
      (''rv32'', YMap [(''accessible'', YBool True)])]);
    d = [(''p0'', reg 944), (''mie'', reg 772), (''p1'', reg 945)]
   in case factorizer d of Inl _ \<Rightarrow> False
      | Inr r \<Rightarrow> map_of r ''mie'' = map_of d ''mie'' \<and> map_of r ''p[0-1]'' \<noteq> None \<and> map_of r ''p0'' = None"
proof -
  let ?reg = "\<lambda>a. YMap [(''address'', YInt a), (''description'', YStr ''x''),
      (''rv32'', YMap [(''accessible'', YBool True)])]"
  let ?d = "[(''p0'', ?reg 944), (''mie'', ?reg 772), (''p1'', ?reg 945)]"
  have "case factorizer ?d of Inl _ \<Rightarrow> False
      | Inr r \<Rightarrow> map_of r ''p[0-1]'' \<noteq> None \<and> map_of r ''p0'' = None" by code_simp
  then obtain r where r: "factorizer ?d = Inr r" "map_of r ''p[0-1]'' \<noteq> None" "map_of r ''p0'' = None"
    by (auto split: sum.split_asm)
  have "\<forall>c \<in> set ''mie''. \<not> is_digit c" by code_simp
  from factorizer_leaves_others [OF r(1) this] r show ?thesis by (simp add: Let_def)
qed

section \<open>A family of registers\<close>

lemma search_numbered:
  assumes "nm \<noteq> []" "\<forall>c \<in> set nm. \<not> is_digit c" "ds \<noteq> []" "\<forall>c \<in> set ds. is_digit c"
  shows "re_search re_numbered (nm @ ds) = Some ([], nm @ ds, [(1, nm), (2, ds), (3, [])])"
proof -
  have "eats (Group 3 (many dot)) [] [] ([] @ [(3, [])]) []"
    unfolding dot_def by (intro eats_Group) (use eats_many_run [of "[]" _ "[]"] in simp)
  moreover have "eats (Group 2 digits) (ds @ []) ds ([] @ [(2, ds)]) []"
    unfolding digits_def by (intro eats_Group eats_many1_run) (use assms in simp_all)
  moreover have "eats (Group 1 (many1 (Sat (\<lambda>c. \<not> is_digit c)))) (nm @ ds) nm ([] @ [(1, nm)]) ds"
    by (intro eats_Group eats_many1_run) (use assms in simp_all)
  ultimately have "eats re_numbered (nm @ ds) (nm @ ds @ []) ([(1, nm)] @ [(2, ds)] @ [(3, [])]) []"
    unfolding re_numbered_def by (intro eats_seqs_Cons) simp_all
  from eats_search [OF this] show ?thesis by simp
qed

lemma legal_eq_refl: "legal_eq l l"
  by (cases l) (simp_all add: keys_eq_def list.rel_refl)

abbreviation nth_name :: "string \<Rightarrow> nat \<Rightarrow> string" where
  "nth_name nm i \<equiv> nm @ py_str (int i)"

lemma nth_name_digits: "py_str (int i) \<noteq> []" "\<forall>c \<in> set (py_str (int i)). is_digit c"
  using py_str_digits [of "int i"] by (simp_all add: list_all_iff)

lemma py_str_inject: "py_str a = py_str b \<longleftrightarrow> a = b"
  by (metis py_int_py_str sum.inject(2))

text \<open>What the registers of a family have in common.\<close>

definition member ::
  "(string \<times> yaml) list \<Rightarrow> legal \<Rightarrow> int \<Rightarrow> string \<Rightarrow> (string \<times> yaml) list \<Rightarrow> bool" where
  "member rv l addr descr reg \<longleftrightarrow>
     map_of reg ''address'' = Some (YInt addr) \<and> addr \<noteq> 0
     \<and> map_of reg ''description'' = Some (YStr descr) \<and> descr \<noteq> []
     \<and> map_of reg ''rv32'' = Some (YMap rv) \<and> map_of rv ''accessible'' = Some (YBool True)
     \<and> legal_of (YMap rv) = Inr l"

lemma fac_step_member:
  assumes "nm \<noteq> []" "\<forall>c \<in> set nm. \<not> is_digit c" "member rv l addr descr reg"
  shows "fac_step d s (nth_name nm i, YMap reg) =
    fac_match d (py_hex addr) (YStr descr) l (nth_name nm i) nm (py_str (int i)) []
      (s\<lparr>f_key_to_remove := f_key_to_remove s @ [nth_name nm i]\<rparr>)"
  using assms(3) search_numbered [OF assms(1,2) nth_name_digits]
  by (simp add: fac_step_def member_def dict_get_or_def y_hex_def dict_get_def Let_def match_group_def)

section \<open>Dictionaries of families\<close>

text \<open>
  A family: registers whose names are one name with increasing numbers, of one kind and accessible. The
  dictionary of a core holds several of them, and between their registers entries that the factorizer
  passes over.
\<close>

record family =
  fm_name :: string
  fm_nums :: "nat list"
  fm_reg :: "nat \<Rightarrow> (string \<times> yaml) list"
  fm_addr :: "nat \<Rightarrow> int"
  fm_descr :: "nat \<Rightarrow> string"
  fm_rv :: "nat \<Rightarrow> (string \<times> yaml) list"
  fm_legal :: legal

definition family_ok :: "family \<Rightarrow> bool" where
  "family_ok F \<longleftrightarrow> fm_name F \<noteq> [] \<and> \<not> has_digit (fm_name F) \<and> fm_nums F \<noteq> [] \<and> sorted_wrt (<) (fm_nums F)
     \<and> (\<forall>i \<in> set (fm_nums F). member (fm_rv F i) (fm_legal F) (fm_addr F i) (fm_descr F i) (fm_reg F i))"

definition fm_key :: "family \<Rightarrow> nat \<Rightarrow> string" where
  "fm_key F i = fm_name F @ py_str (int i)"

definition fm_items :: "family \<Rightarrow> (string \<times> yaml) list" where
  "fm_items F = map (\<lambda>i. (fm_key F i, YMap (fm_reg F i))) (fm_nums F)"

definition range_key :: "family \<Rightarrow> string" where
  "range_key F = fm_name F @ ''['' @ py_str (int (hd (fm_nums F))) @ ''-'' @ py_str (int (last (fm_nums F))) @ '']''"

definition fm_addresses :: "family \<Rightarrow> int set" where
  "fm_addresses F = fm_addr F ` set (fm_nums F)"

text \<open>The entry of a family that is followed by another, and of the last one.\<close>

definition closed_entry :: "family \<Rightarrow> yaml" where
  "closed_entry F = YMap (AList.update ''address''
     (YStr (py_hex (Min (fm_addresses F)) @ ''-'' @ py_hex (Max (fm_addresses F)))) (fm_reg F (hd (fm_nums F))))"

definition last_entry :: "family \<Rightarrow> yaml" where
  "last_entry F = YMap (AList.update ''address''
     (YStr (py_hex (fm_addr F (hd (fm_nums F))) @ ''-'' @ py_hex (fm_addr F (last (fm_nums F)))))
     (with_description (YStr (fm_descr F (fm_nums F ! 1))) (fm_key F (hd (fm_nums F))) (fm_name F)
       (fm_reg F (hd (fm_nums F)))))"

definition passed_over :: "string \<times> yaml \<Rightarrow> bool" where
  "passed_over = (\<lambda>(k, v). case v of
     YMap reg \<Rightarrow> (\<exists>rv b. map_of reg ''rv32'' = Some (YMap rv) \<and> map_of rv ''accessible'' = Some (YBool b)
       \<and> (map_of reg ''address'' = None \<or> (\<exists>a. map_of reg ''address'' = Some (YInt a)))
       \<and> (b \<longrightarrow> \<not> has_digit k \<and> (\<exists>l. legal_of (YMap rv) = Inr l)))
   | _ \<Rightarrow> True)"

lemma passed_over_step:
  assumes "passed_over x"
  shows "fac_step d s x = Inr s"
proof -
  obtain k v where x: "x = (k, v)" by (cases x)
  show ?thesis
  proof (cases v)
    case (YMap reg)
    then obtain rv b where r: "map_of reg ''rv32'' = Some (YMap rv)" "map_of rv ''accessible'' = Some (YBool b)"
      "map_of reg ''address'' = None \<or> (\<exists>a. map_of reg ''address'' = Some (YInt a))"
      "b \<Longrightarrow> \<not> has_digit k" "b \<Longrightarrow> \<exists>l. legal_of (YMap rv) = Inr l"
      using assms x by (auto simp: passed_over_def)
    have "re_search re_numbered k = None" if b
      using numbered_found(1) [of k] r(4) [OF that] by (cases "re_search re_numbered k") auto
    then show ?thesis
      using r x YMap by (cases b) (auto simp: fac_step_def dict_get_or_def y_hex_def dict_get_def Let_def)
  qed (simp_all add: x fac_step_def)
qed

lemma skip_passed: "foldR (fac_step d) s xs = foldR (fac_step d) s (filter (\<lambda>x. \<not> passed_over x) xs)"
  by (induction xs arbitrary: s) (simp_all add: passed_over_step)

text \<open>The state inside a family, after some whole families and the registers \<open>js\<close> of this one.\<close>

definition inside :: "family list \<Rightarrow> family \<Rightarrow> nat list \<Rightarrow> fac" where
  "inside Fs F js = fac_init\<lparr>f_privname := Some (fm_name F), f_legalname := fm_legal F,
     f_fieldname := map (\<lambda>_. fm_name F) js, f_regname := map (fm_key F) js,
     f_regdescr := map (\<lambda>i. YStr (fm_descr F i)) (tl js), f_regadress := map (\<lambda>i. py_hex (fm_addr F i)) js,
     f_reg_number := map (\<lambda>i. py_str (int i)) js, f_suffix_number := [py_str (int (hd js))],
     f_new_regname := map range_key Fs, f_data := map closed_entry Fs,
     f_key_to_remove := concat (map (\<lambda>F. map (fm_key F) (fm_nums F)) Fs) @ map (fm_key F) js\<rparr>"

lemma fac_step_family:
  assumes "family_ok F" "i \<in> set (fm_nums F)"
  shows "fac_step d s (fm_key F i, YMap (fm_reg F i)) =
    fac_match d (py_hex (fm_addr F i)) (YStr (fm_descr F i)) (fm_legal F) (fm_key F i) (fm_name F) (py_str (int i)) []
      (s\<lparr>f_key_to_remove := f_key_to_remove s @ [fm_key F i]\<rparr>)"
  using assms fac_step_member [of "fm_name F" "fm_rv F i" "fm_legal F" "fm_addr F i" "fm_descr F i" "fm_reg F i"]
  by (auto simp: family_ok_def has_digit_def fm_key_def)

lemma step_first:
  assumes "family_ok F" "i \<in> set (fm_nums F)"
  shows "fac_step d fac_init (fm_key F i, YMap (fm_reg F i)) = Inr (inside [] F [i])"
  unfolding fac_step_family [OF assms]
  by (simp add: fac_match_def fac_init_def close_regs_def close_suffixes_def inside_def)

lemma step_inside:
  assumes "family_ok F" "i \<in> set (fm_nums F)" "js \<noteq> []"
  shows "fac_step d (inside Fs F js) (fm_key F i, YMap (fm_reg F i)) = Inr (inside Fs F (js @ [i]))"
  unfolding fac_step_family [OF assms(1,2)]
  using assms(3) by (simp add: fac_match_def inside_def legal_eq_refl fac_init_def)

text \<open>Closing a family sorts its addresses; its registers are in order already.\<close>

lemma mapR_hex: "mapR address_to_key (map (\<lambda>i. py_hex (f i)) is) = Inr (map f is)"
  by (induction "is") (simp_all add: address_to_key_def py_int_py_hex)

lemma insort_key_map: "insort_key f (g x) (map g xs) = map g (insort_key (\<lambda>x. f (g x)) x xs)"
  by (induction xs) auto

lemma sort_key_map: "sort_key f (map g xs) = map g (sort_key (\<lambda>x. f (g x)) xs)"
  by (induction xs) (simp_all add: insort_key_map)

lemma sorted_addresses:
  "sortedR address_to_key (map (\<lambda>i. py_hex (f i)) is) = Inr (map (\<lambda>i. py_hex (f i)) (sort_key f is))"
  by (simp add: sortedR_def mapR_hex zip_map_map zip_same_conv_map sort_key_map comp_def)

lemma sorted_ends:
  fixes xs :: "int list"
  assumes "sorted xs" "xs \<noteq> []"
  shows "hd xs = Min (set xs)" "last xs = Max (set xs)"
proof -
  show "hd xs = Min (set xs)" using assms by (cases xs) (auto intro!: Min_eqI [symmetric])
  show "last xs = Max (set xs)"
    using assms by (cases xs rule: rev_cases) (auto simp: sorted_append intro!: Max_eqI [symmetric])
qed

lemma sorted_range:
  fixes f :: "nat \<Rightarrow> int"
  assumes "is \<noteq> []"
  shows "f (hd (sort_key f is)) = Min (f ` set is)" "f (last (sort_key f is)) = Max (f ` set is)"
proof -
  have ne: "sort_key f is \<noteq> []" using assms by (metis length_0_conv length_sort)
  have s: "sorted (map f (sort_key f is))" "map f (sort_key f is) \<noteq> []" using ne by simp_all
  from sorted_ends [OF this] ne show "f (hd (sort_key f is)) = Min (f ` set is)"
    "f (last (sort_key f is)) = Max (f ` set is)" by (simp_all add: hd_map last_map)
qed

lemma strip_name:
  assumes "\<not> has_digit nm"
  shows "lstrip_chars nm (nm @ py_str (int i)) = py_str (int i)"
proof -
  obtain c cs where c: "py_str (int i) = c # cs" "is_digit c"
    using nth_name_digits [of i] by (cases "py_str (int i)") auto
  with assms have "c \<notin> set nm" by (auto simp: has_digit_def)
  with c(1) show ?thesis by (simp add: lstrip_chars_def dropWhile_append2)
qed

lemma sorted_names:
  assumes "family_ok F"
  shows "sortedR (\<lambda>x. py_int 10 (lstrip_chars (fm_name F) x)) (map (fm_key F) (fm_nums F)) = Inr (map (fm_key F) (fm_nums F))"
proof -
  have "mapR (\<lambda>x. py_int 10 (lstrip_chars (fm_name F) x)) (map (fm_key F) is) = Inr (map int is)" for "is"
    using assms by (induction "is") (simp_all add: fm_key_def strip_name family_ok_def py_int_py_str)
  moreover have "sort_key int (fm_nums F) = fm_nums F"
    using assms by (intro sort_key_id_if_sorted) (simp add: family_ok_def sorted_map strict_sorted_imp_sorted)
  ultimately show ?thesis
    by (simp add: sortedR_def zip_map_map zip_same_conv_map sort_key_map comp_def)
qed

lemma first_last:
  "xs \<noteq> [] \<Longrightarrow> firstR xs = Inr (hd xs)" "xs \<noteq> [] \<Longrightarrow> lastR xs = Inr (last xs)"
  by (simp_all add: firstR_def lastR_def list.case_eq_if)

lemma range_key_name:
  assumes "family_ok F"
  shows "range_name (fm_name F) (map (\<lambda>i. py_str (int i)) (fm_nums F)) [] = Inr (range_key F)"
  using assms by (simp add: range_name_def first_last range_key_def family_ok_def hd_map last_map)

definition in_dict :: "(string \<times> yaml) list \<Rightarrow> family \<Rightarrow> bool" where
  "in_dict d F \<longleftrightarrow> map_of d (fm_key F (hd (fm_nums F))) = Some (YMap (fm_reg F (hd (fm_nums F))))"

lemma close_family:
  assumes "family_ok F" "in_dict d F"
  shows "close_regs d (inside Fs F (fm_nums F)) = (if 2 \<le> length (fm_nums F) then
    Inr ((inside Fs F (fm_nums F))\<lparr>
      f_regadress := map (\<lambda>i. py_hex (fm_addr F i)) (sort_key (fm_addr F) (fm_nums F)),
      f_new_regname := map range_key (Fs @ [F]), f_data := map closed_entry (Fs @ [F])\<rparr>)
    else Inl IndexError)"
proof -
  let ?is = "fm_nums F" and ?as = "sort_key (fm_addr F) (fm_nums F)"
  have ne: "?is \<noteq> []" using assms(1) by (simp add: family_ok_def)
  then have ne': "?as \<noteq> []" by (metis length_0_conv length_sort)
  note range = sorted_range [OF ne, of "fm_addr F", folded fm_addresses_def]
  have many: "tl ?is \<noteq> [] \<longleftrightarrow> 2 \<le> length ?is" by (cases ?is; cases "tl ?is") auto
  have "close_regs d (inside Fs F ?is) = rbind (firstR (map (\<lambda>i. YStr (fm_descr F i)) (tl ?is))) (\<lambda>desc.
    Inr ((inside Fs F ?is)\<lparr>f_regadress := map (\<lambda>i. py_hex (fm_addr F i)) ?as,
      f_new_regname := map range_key (Fs @ [F]), f_data := map closed_entry (Fs @ [F])\<rparr>))"
    using ne ne' assms(2) sorted_names [OF assms(1)] range_key_name [OF assms(1)] range
    by (simp add: close_regs_def inside_def fac_init_def sorted_addresses first_last hd_map last_map py_int_py_hex
      with_address_def in_dict_def dict_get_def as_dict_def closed_entry_def)
  then show ?thesis using many by (cases "tl ?is") (simp_all add: firstR_def)
qed

lemma step_next:
  assumes "family_ok F" "in_dict d F" "family_ok G" "i \<in> set (fm_nums G)" "fm_name F \<noteq> fm_name G"
  shows "fac_step d (inside Fs F (fm_nums F)) (fm_key G i, YMap (fm_reg G i)) =
    (if 2 \<le> length (fm_nums F) then Inr (inside (Fs @ [F]) G [i]) else Inl IndexError)"
proof -
  let ?s = "(inside Fs F (fm_nums F))\<lparr>f_key_to_remove := f_key_to_remove (inside Fs F (fm_nums F)) @ [fm_key G i]\<rparr>"
  have c: "close_regs d (s\<lparr>f_key_to_remove := ks\<rparr>) = rbind (close_regs d s) (\<lambda>s. ret (s\<lparr>f_key_to_remove := ks\<rparr>))" for s ks
    by (cases s) (simp add: close_regs_def rbind_assoc)
  have "close_regs d ?s = (if 2 \<le> length (fm_nums F) then
    Inr (?s\<lparr>f_regadress := map (\<lambda>i. py_hex (fm_addr F i)) (sort_key (fm_addr F) (fm_nums F)),
      f_new_regname := map range_key (Fs @ [F]), f_data := map closed_entry (Fs @ [F])\<rparr>)
    else Inl IndexError)"
    unfolding c close_family [OF assms(1,2)] by simp
  then show ?thesis
    unfolding fac_step_family [OF assms(3,4)]
    using assms(5) by (simp add: fac_match_def inside_def fac_init_def close_suffixes_def)
qed

lemma finish_family:
  assumes "family_ok F" "in_dict d F"
  shows "rbind (finish_regs d (inside Fs F (fm_nums F))) (finish_suffixes d) = (if 2 \<le> length (fm_nums F) then
    Inr ((inside Fs F (fm_nums F))\<lparr>f_new_regname := map range_key (Fs @ [F]),
      f_data := map closed_entry Fs @ [last_entry F],
      f_regname := [], f_regdescr := [], f_regadress := [], f_fieldname := []\<rparr>)
    else Inl IndexError)"
proof -
  let ?is = "fm_nums F"
  have ne: "?is \<noteq> []" using assms(1) by (simp add: family_ok_def)
  have many: "tl ?is \<noteq> [] \<longleftrightarrow> 2 \<le> length ?is" "tl ?is \<noteq> [] \<Longrightarrow> hd (tl ?is) = ?is ! 1"
    by (cases ?is; cases "tl ?is"; auto)+
  have f: "finish_regs d (inside Fs F ?is) = rbind (firstR (map (\<lambda>i. YStr (fm_descr F i)) (tl ?is))) (\<lambda>desc.
    Inr ((inside Fs F ?is)\<lparr>f_new_regname := map range_key (Fs @ [F]),
      f_data := map closed_entry Fs @ [YMap (AList.update ''address''
        (YStr (py_hex (fm_addr F (hd ?is)) @ ''-'' @ py_hex (fm_addr F (last ?is))))
        (with_description desc (fm_key F (hd ?is)) (fm_name F) (fm_reg F (hd ?is))))],
      f_regname := [], f_regdescr := [], f_regadress := [], f_fieldname := []\<rparr>))"
    using ne assms(2) range_key_name [OF assms(1)]
    by (simp add: finish_regs_def inside_def fac_init_def first_last hd_map last_map py_int_py_hex
      in_dict_def dict_get_def as_dict_def)
  show ?thesis
    unfolding f using many by (cases "tl ?is")
      (simp_all add: firstR_def last_entry_def finish_suffixes_def inside_def fac_init_def)
qed

lemma inside_run:
  assumes "family_ok F" "set is \<subseteq> set (fm_nums F)" "js \<noteq> []"
  shows "foldR (fac_step d) (inside Fs F js) (map (\<lambda>i. (fm_key F i, YMap (fm_reg F i))) is) = Inr (inside Fs F (js @ is))"
  using assms(2,3) by (induction "is" arbitrary: js) (simp_all add: step_inside [OF assms(1)])

lemma fm_items_Cons:
  "family_ok F \<Longrightarrow> fm_items F = (fm_key F (hd (fm_nums F)), YMap (fm_reg F (hd (fm_nums F))))
    # map (\<lambda>i. (fm_key F i, YMap (fm_reg F i))) (tl (fm_nums F))"
  by (cases "fm_nums F") (simp_all add: family_ok_def fm_items_def)

lemma family_run:
  assumes "family_ok F" "fac_step d s (fm_key F (hd (fm_nums F)), YMap (fm_reg F (hd (fm_nums F)))) = Inr (inside Fs F [hd (fm_nums F)])"
  shows "foldR (fac_step d) s (fm_items F) = Inr (inside Fs F (fm_nums F))"
proof -
  have "fm_nums F \<noteq> []" using assms(1) by (simp add: family_ok_def)
  then have "set (tl (fm_nums F)) \<subseteq> set (fm_nums F)" "[hd (fm_nums F)] @ tl (fm_nums F) = fm_nums F"
    by (cases "fm_nums F"; auto)+
  with inside_run [OF assms(1), of "tl (fm_nums F)" "[hd (fm_nums F)]" d Fs] show ?thesis
    by (simp add: fm_items_Cons [OF assms(1)] assms(2))
qed

text \<open>All families but the last are closed on the way.\<close>

lemma families_run:
  assumes "\<forall>F \<in> set (Gs @ [F]). family_ok F \<and> in_dict d F" "distinct (map fm_name (Gs @ [F]))"
  shows "foldR (fac_step d) fac_init (concat (map fm_items (Gs @ [F]))) =
    (if \<forall>G \<in> set Gs. 2 \<le> length (fm_nums G) then Inr (inside Gs F (fm_nums F)) else Inl IndexError)"
  using assms
proof (induction Gs arbitrary: F rule: rev_induct)
  case Nil
  then have "family_ok F" by simp
  moreover from this have "hd (fm_nums F) \<in> set (fm_nums F)" by (simp add: family_ok_def)
  ultimately show ?case using family_run [OF _ step_first] by simp
next
  case (snoc G Gs)
  have G: "family_ok G" "in_dict d G" and F: "family_ok F" "fm_name G \<noteq> fm_name F" using snoc.prems by auto
  have i: "hd (fm_nums F) \<in> set (fm_nums F)" using F(1) by (simp add: family_ok_def)
  have IH: "foldR (fac_step d) fac_init (concat (map fm_items (Gs @ [G]))) =
    (if \<forall>G \<in> set Gs. 2 \<le> length (fm_nums G) then Inr (inside Gs G (fm_nums G)) else Inl IndexError)"
    using snoc.prems by (intro snoc.IH) auto
  note follow = step_next [OF G F(1) i F(2), of Gs]
  have split: "foldR (fac_step d) fac_init (concat (map fm_items ((Gs @ [G]) @ [F]))) =
      rbind (foldR (fac_step d) fac_init (concat (map fm_items (Gs @ [G])))) (\<lambda>s. foldR (fac_step d) s (fm_items F))"
    by (simp add: foldR_append rbind_assoc)
  show ?case
  proof (cases "2 \<le> length (fm_nums G)")
    case True
    then have "foldR (fac_step d) (inside Gs G (fm_nums G)) (fm_items F) = Inr (inside (Gs @ [G]) F (fm_nums F))"
      using family_run [OF F(1)] follow by simp
    with True show ?thesis unfolding split IH by simp
  next
    case False
    then have "foldR (fac_step d) (inside Gs G (fm_nums G)) (fm_items F) = Inl IndexError"
      using follow by (simp add: fm_items_Cons [OF F(1)])
    with False show ?thesis unfolding split IH by simp
  qed
qed

text \<open>The new entries are added at the end, the numbered registers removed.\<close>

lemma update_fresh: "k \<notin> fst ` set d \<Longrightarrow> AList.update k v d = d @ [(k, v)]"
  by (induction d) auto

lemma add_fresh:
  assumes "length ks = length vs" "distinct ks" "set ks \<inter> fst ` set d = {}"
  shows "foldl (\<lambda>d (k, v). AList.update k v d) d (zip ks vs) = d @ zip ks vs"
  using assms
proof (induction ks vs arbitrary: d rule: list_induct2)
  case (Cons k ks v vs)
  then have "AList.update k v d = d @ [(k, v)]" by (intro update_fresh) auto
  moreover have "set ks \<inter> fst ` set (d @ [(k, v)]) = {}" using Cons.prems by auto
  ultimately show ?case using Cons.IH [of "d @ [(k, v)]"] Cons.prems(1) by simp
qed simp

lemma delete_keys_filter:
  assumes "distinct ks" "set ks \<subseteq> fst ` set d"
  shows "foldR dict_del d ks = Inr (filter (\<lambda>(k, v). k \<notin> set ks) d)"
  using assms
proof (induction ks arbitrary: d)
  case (Cons k ks)
  have e: "AList.delete k d = filter (\<lambda>(k', v). k' \<noteq> k) d" by (auto simp: AList.delete_eq intro!: filter_cong)
  have "set ks \<subseteq> fst ` set (AList.delete k d)" using Cons.prems unfolding e by force
  with Cons.IH [OF _ this] Cons.prems show ?case
    by (simp add: dict_del_def has_key_iff e conj_commute case_prod_unfold)
qed simp

lemma filter_other_keys: "\<forall>x \<in> set xs. fst x \<notin> K \<Longrightarrow> filter (\<lambda>(k, v). k \<notin> K) xs = xs"
  by (auto simp: filter_id_conv)

lemma range_key_inject:
  assumes "\<not> has_digit (fm_name F)" "\<not> has_digit (fm_name G)" "range_key F = range_key G"
  shows "fm_name F = fm_name G"
proof -
  have "takeWhile (\<lambda>c. \<not> is_digit c) (range_key H) = fm_name H @ ''[''" if "\<not> has_digit (fm_name H)" for H
  proof -
    obtain c cs where c: "py_str (int (hd (fm_nums H))) = c # cs" "is_digit c"
      using nth_name_digits [of "hd (fm_nums H)"] by (cases "py_str (int (hd (fm_nums H)))") auto
    moreover have "takeWhile (\<lambda>c. \<not> is_digit c) (fm_name H @ xs) = fm_name H @ takeWhile (\<lambda>c. \<not> is_digit c) xs" for xs
      using that by (intro takeWhile_append2) (auto simp: has_digit_def)
    moreover have "\<not> is_digit (CHR ''['')" by code_simp
    ultimately show ?thesis by (simp add: range_key_def)
  qed
  from this [OF assms(1)] this [OF assms(2)] assms(3) show ?thesis by simp
qed

lemma in_dict_intro:
  assumes "dict_ok d" "family_ok G" "set (fm_items G) \<subseteq> set d"
  shows "in_dict d G"
proof -
  have "(fm_key G (hd (fm_nums G)), YMap (fm_reg G (hd (fm_nums G)))) \<in> set d"
    using assms(2,3) fm_items_Cons [OF assms(2)] by auto
  with assms(1) show ?thesis by (simp add: in_dict_def dict_ok_def)
qed

text \<open>
  C20: A dictionary of registers in which the entries that are not passed over are those of one or
  more families, one after the other: registers of one name with increasing numbers (gaps allowed), accessible,
  of one kind, without a suffix. Each family becomes one entry under the name with the range of its numbers; they
  stand behind the entries passed over, which keep their values and order. The entry of a family that another one
  follows is a copy of its first register, its description included, with the least and the greatest address; the
  entry of the last family has the first and the last address, and the description of its second register in which
  the name of the first would be shortened. If a family has one register only, there is an IndexError, as no
  description is kept for it.
\<close>

theorem factorizer_family:
  assumes "dict_ok d" "filter (\<lambda>x. \<not> passed_over x) d = concat (map fm_items (Fs @ [F]))"
    and "\<forall>G \<in> set (Fs @ [F]). family_ok G \<and> range_key G \<notin> fst ` set d" "distinct (map fm_name (Fs @ [F]))"
  shows "factorizer d =
    (if \<forall>G \<in> set (Fs @ [F]). 2 \<le> length (fm_nums G)
     then Inr (filter passed_over d @ map (\<lambda>G. (range_key G, closed_entry G)) Fs @ [(range_key F, last_entry F)])
     else Inl IndexError)"
proof -
  have sub: "set (fm_items G) \<subseteq> set d" if "G \<in> set (Fs @ [F])" for G
    using that arg_cong [OF assms(2), of set] by auto
  have fams: "\<forall>G \<in> set (Fs @ [F]). family_ok G \<and> in_dict d G"
    using assms(3) in_dict_intro [OF assms(1)] sub by blast
  have run: "foldR (fac_step d) fac_init d =
    (if \<forall>G \<in> set Fs. 2 \<le> length (fm_nums G) then Inr (inside Fs F (fm_nums F)) else Inl IndexError)"
    unfolding skip_passed [of d fac_init d] assms(2) by (rule families_run [OF fams assms(4)])
  define tidy where "tidy = (\<lambda>s :: fac. let d' = foldl (\<lambda>d (reg, v). AList.update reg v d) d (zip (f_new_regname s) (f_data s))
     in foldR dict_del d' (f_key_to_remove s))"
  have fac: "factorizer d = rbind (foldR (fac_step d) fac_init d)
      (\<lambda>s. rbind (rbind (finish_regs d s) (finish_suffixes d)) tidy)"
    by (simp only: factorizer_def tidy_def rbind_assoc)
  let ?ks = "concat (map (\<lambda>F. map (fm_key F) (fm_nums F)) (Fs @ [F]))"
  let ?new = "map (\<lambda>G. (range_key G, closed_entry G)) Fs @ [(range_key F, last_entry F)]"
  have names: "?ks = map fst (filter (\<lambda>x. \<not> passed_over x) d)"
    unfolding assms(2) by (simp add: map_concat fm_items_def comp_def)
  have ks: "distinct ?ks" "set ?ks \<subseteq> fst ` set d"
    unfolding names using assms(1) by (auto simp: dict_ok_def distinct_map_filter)
  have "inj_on range_key (set (Fs @ [F]))"
  proof (rule inj_onI)
    fix G H assume G: "G \<in> set (Fs @ [F])" "H \<in> set (Fs @ [F])" "range_key G = range_key H"
    then have "fm_name G = fm_name H" using range_key_inject fams by (auto simp: family_ok_def)
    with G assms(4) show "G = H" by (metis distinct_map inj_onD)
  qed
  then have "distinct (map range_key (Fs @ [F]))" using assms(4) by (metis distinct_map)
  moreover have zip: "zip (map range_key (Fs @ [F])) (map closed_entry Fs @ [last_entry F]) = ?new"
    by (simp add: zip_map_map zip_same_conv_map)
  ultimately have added: "foldl (\<lambda>d (k, v). AList.update k v d) d (zip (map range_key (Fs @ [F])) (map closed_entry Fs @ [last_entry F])) = d @ ?new"
    using assms(3) by (subst add_fresh) (auto simp: zip)
  have kept: "filter (\<lambda>(k, v). k \<notin> set ?ks) (d @ ?new) = filter passed_over d @ ?new"
  proof -
    have "k \<notin> set ?ks \<longleftrightarrow> passed_over (k, v)" if "(k, v) \<in> set d" for k v
      using that assms(1) unfolding names dict_ok_def
      by (auto simp: image_iff) (metis eq_key_imp_eq_value)
    then have "filter (\<lambda>(k, v). k \<notin> set ?ks) d = filter passed_over d" by (intro filter_cong) auto
    moreover have "filter (\<lambda>(k, v). k \<notin> set ?ks) ?new = ?new"
    proof (rule filter_other_keys, intro ballI)
      fix x assume "x \<in> set ?new"
      then have "fst x \<in> range_key ` set (Fs @ [F])" by auto
      then obtain G where G: "fst x = range_key G" "G \<in> set (Fs @ [F])" by (rule imageE)
      from bspec [OF assms(3) G(2)] have "range_key G \<notin> fst ` set d" by simp
      then show "fst x \<notin> set ?ks" unfolding G(1) by (rule contra_subsetD [OF ks(2)])
    qed
    ultimately show ?thesis by simp
  qed
  have del: "foldR dict_del (d @ ?new) ?ks = Inr (filter passed_over d @ ?new)"
    unfolding kept [symmetric]
    by (rule delete_keys_filter [OF ks(1) order_trans [OF ks(2)]]) auto
  have F: "family_ok F" "in_dict d F" using fams by simp_all
  have tidied: "tidy ((inside Fs F (fm_nums F))\<lparr>f_new_regname := map range_key (Fs @ [F]),
      f_data := map closed_entry Fs @ [last_entry F],
      f_regname := [], f_regdescr := [], f_regadress := [], f_fieldname := []\<rparr>) = Inr (filter passed_over d @ ?new)"
    using added del by (simp add: tidy_def inside_def)
  show ?thesis
  proof (cases "\<forall>G \<in> set Fs. 2 \<le> length (fm_nums G)")
    case True
    then show ?thesis
      unfolding fac run using tidied by (simp add: finish_family [OF F])
  next
    case False
    then show ?thesis unfolding fac run by auto
  qed
qed

text \<open>
  Two families, the first with a gap, addresses out of order and a register without number inside: its entry keeps
  the description of \<open>p0\<close> and runs from the least to the greatest address; that of the second takes the description
  of \<open>e3\<close>.
\<close>

definition example_reg :: "int \<Rightarrow> string \<Rightarrow> (string \<times> yaml) list" where
  "example_reg addr descr = [(''address'', YInt addr), (''description'', YStr descr),
     (''rv32'', YMap [(''accessible'', YBool True)])]"

definition example_family :: "string \<Rightarrow> nat list \<Rightarrow> (nat \<Rightarrow> int) \<Rightarrow> family" where
  "example_family nm nums addr = \<lparr>fm_name = nm, fm_nums = nums, fm_reg = (\<lambda>i. example_reg (addr i) (nm @ py_str (int i))),
     fm_addr = addr, fm_descr = (\<lambda>i. nm @ py_str (int i)), fm_rv = (\<lambda>_. [(''accessible'', YBool True)]), fm_legal = LNone\<rparr>"

definition example_dict :: "(string \<times> yaml) list" where
  "example_dict = [(''p0'', YMap (example_reg 5 ''p0'')), (''mie'', YMap (example_reg 9 ''interrupts'')),
     (''p2'', YMap (example_reg 4 ''p2'')), (''p3'', YMap (example_reg 6 ''p3'')),
     (''e2'', YMap (example_reg 2 ''e2'')), (''e3'', YMap (example_reg 1 ''e3''))]"

theorem factorizer_family_witness:
  "\<exists>v w. factorizer example_dict = Inr [(''mie'', YMap (example_reg 9 ''interrupts'')), (''p[0-3]'', v), (''e[2-3]'', w)]
    \<and> y_index v ''address'' = Inr (YStr ''0x4-0x6'') \<and> y_index v ''description'' = Inr (YStr ''p0'')
    \<and> y_index w ''address'' = Inr (YStr ''0x2-0x1'') \<and> y_index w ''description'' = Inr (YStr ''e3'')"
proof -
  let ?p = "example_family ''p'' [0, 2, 3] (\<lambda>i. if i = 0 then 5 else if i = 2 then 4 else 6)"
  let ?e = "example_family ''e'' [2, 3] (\<lambda>i. if i = 2 then 2 else 1)"
  have n: "py_str 0 = ''0''" "py_str 1 = ''1''" "py_str 2 = ''2''" "py_str 3 = ''3''" "py_hex 1 = ''0x1''"
    "py_hex 2 = ''0x2''" "py_hex 4 = ''0x4''" "py_hex 6 = ''0x6''" by code_simp+
  have l: "legal_of (YMap [(''accessible'', YBool True)]) = Inr LNone" by code_simp
  note digits = is_digit_def has_digit_def
  have ok: "family_ok ?p" "family_ok ?e"
    by (simp_all add: family_ok_def example_family_def member_def example_reg_def l digits)
  have pass: "passed_over (k, YMap (example_reg a t)) \<longleftrightarrow> \<not> has_digit k" for k a t
    by (auto simp: passed_over_def example_reg_def l)
  have keys: "range_key ?p = ''p[0-3]''" "range_key ?e = ''e[2-3]''"
    by (simp_all add: range_key_def example_family_def n)
  have f: "filter (\<lambda>x. \<not> passed_over x) example_dict = concat (map fm_items ([?p] @ [?e]))"
    by (simp add: example_dict_def pass digits fm_items_def example_family_def fm_key_def n)
  have d: "dict_ok example_dict" by (simp add: dict_ok_def example_dict_def)
  have fresh: "\<forall>G \<in> set ([?p] @ [?e]). family_ok G \<and> range_key G \<notin> fst ` set example_dict"
    using ok by (simp add: keys) (simp add: example_dict_def)
  have names: "distinct (map fm_name ([?p] @ [?e]))" and many: "\<forall>G \<in> set ([?p] @ [?e]). 2 \<le> length (fm_nums G)"
    by (simp_all add: example_family_def)
  have passed: "filter passed_over example_dict = [(''mie'', YMap (example_reg 9 ''interrupts''))]"
    by (simp add: example_dict_def pass digits)
  have "factorizer example_dict = Inr [(''mie'', YMap (example_reg 9 ''interrupts'')), (''p[0-3]'', closed_entry ?p),
      (''e[2-3]'', last_entry ?e)]"
    using factorizer_family [OF d f fresh names, unfolded if_P [OF many] passed] by (simp add: keys)
  moreover have "y_index (closed_entry ?p) ''address'' = Inr (YStr ''0x4-0x6'')"
    "y_index (closed_entry ?p) ''description'' = Inr (YStr ''p0'')"
    by (simp_all add: closed_entry_def fm_addresses_def example_family_def example_reg_def dict_get_def n)
  moreover have "y_index (last_entry ?e) ''address'' = Inr (YStr ''0x2-0x1'')"
    "y_index (last_entry ?e) ''description'' = Inr (YStr ''e3'')"
    by (simp_all add: last_entry_def with_description_def fm_key_def example_family_def example_reg_def dict_get_def n
      replace_str_def)
  ultimately show ?thesis by blast
qed

end
