(* ===== verification/User_Config.thy ===== *)
theory User_Config
  imports Py_Regex Py_Dict
begin

text \<open>
  The user configuration editor \<open>util/user_config.py\<close>, which reads and changes the parameters of a
  SystemVerilog configuration package. A file is its text; \<open>localparam\<close> chains may be cyclic, so that
  following one may not end: the result is then None. Names and values are ASCII, and a new value has no
  backslash, which \<open>re.sub\<close> would interpret.
\<close>

section \<open>Statements\<close>

definition word_re :: re where "word_re = many1 (Sat is_word_char)"

definition param_re :: re where
  "param_re = seqs [Bol, Group 1 (seqs [spaces, lit ''localparam'', Wordb, lazy dot, Wordb]), Group 2 word_re,
     Group 3 (seqs [spaces, lit ''='', spaces]), Group 4 (many1 (Sat (\<lambda>c. c \<noteq> CHR '';''))),
     Group 5 (seqs [lit '';'', many dot]), Eol]"

definition cfg_re :: re where
  "cfg_re = seqs [Bol, Group 1 spaces, Group 2 word_re, Group 3 (seqs [spaces, lit '':'', spaces]),
     Group 4 (lazy dot), Group 5 (seqs [opt (lit '',''), spaces]), Eol]"

text \<open>Name and stripped value of a statement.\<close>

definition parse_statement :: "re \<Rightarrow> string \<Rightarrow> (string \<times> string) option" where
  "parse_statement r line = (case re_match r line of
     None \<Rightarrow> None
   | Some (x, g) \<Rightarrow> (case (match_group 2 g, match_group 4 g) of
       (Some name, Some value) \<Rightarrow> Some (name, strip value)
     | _ \<Rightarrow> None))"

definition parse_param :: "string \<Rightarrow> (string \<times> string) option" where
  "parse_param line = parse_statement param_re line"

definition parse_cfg :: "string \<Rightarrow> (string \<times> string) option" where
  "parse_cfg line = parse_statement cfg_re line"

definition group_text :: "nat \<Rightarrow> groups \<Rightarrow> string" where
  "group_text n g = (case match_group n g of None \<Rightarrow> [] | Some s \<Rightarrow> s)"

definition with_value :: "string \<Rightarrow> groups \<Rightarrow> string" where
  "with_value value g = group_text 1 g @ group_text 2 g @ group_text 3 g @ value @ group_text 5 g"

definition build_statement :: "re \<Rightarrow> string \<Rightarrow> string \<Rightarrow> string result" where
  "build_statement r line value =
     rbind (assertR (re_match r line \<noteq> None)) (\<lambda>_. ret (re_sub r (\<lambda>_. with_value value) line))"

definition build_param :: "string \<Rightarrow> string \<Rightarrow> string result" where
  "build_param line value = build_statement param_re line value"

definition build_cfg :: "string \<Rightarrow> string \<Rightarrow> string result" where
  "build_cfg line value = build_statement cfg_re line value"

section \<open>Parsing a package\<close>

text \<open>\<open>get_index\<close> chooses between the numbers of the lines and the values.\<close>

definition parse_package_line ::
  "(nat \<Rightarrow> string \<Rightarrow> 'v) \<Rightarrow> (string, 'v) dict \<times> (string, 'v) dict \<Rightarrow> nat \<times> string
    \<Rightarrow> (string, 'v) dict \<times> (string, 'v) dict" where
  "parse_package_line pick = (\<lambda>(params, config) (index, line).
     let params = (case parse_param line of None \<Rightarrow> params | Some (name, value) \<Rightarrow> AList.update name (pick index value) params);
         config = (case parse_cfg line of None \<Rightarrow> config | Some (name, value) \<Rightarrow> AList.update name (pick index value) config)
     in (params, config))"

definition parse_with :: "(nat \<Rightarrow> string \<Rightarrow> 'v) \<Rightarrow> string list \<Rightarrow> (string, 'v) dict \<times> (string, 'v) dict" where
  "parse_with pick lines = foldl (parse_package_line pick) ([], []) (zip [0..<length lines] lines)"

definition parse_values :: "string list \<Rightarrow> (string, string) dict \<times> (string, string) dict" where
  "parse_values lines = parse_with (\<lambda>index value. value) lines"

definition parse_indices :: "string list \<Rightarrow> (string, nat) dict \<times> (string, nat) dict" where
  "parse_indices lines = parse_with (\<lambda>index value. index) lines"

section \<open>Expressions\<close>

definition type_re :: re where
  "type_re = seqs [Bol, Group 1 word_re, spaces, lit [CHR 0x27, CHR ''(''], Group 2 (many dot), lit '')'', Eol]"

definition find_casting :: "string \<Rightarrow> string option \<times> string" where
  "find_casting value = (case re_match type_re (strip value) of
     None \<Rightarrow> (None, value)
   | Some (x, g) \<Rightarrow> (match_group 1 g, strip (group_text 2 g)))"

definition build_casting :: "string option \<Rightarrow> string \<Rightarrow> string" where
  "build_casting t value = (case t of
     None \<Rightarrow> value
   | Some t \<Rightarrow> if t = [] then value else t @ [CHR 0x27, CHR ''(''] @ value @ '')'')"

text \<open>Numbers keep their base; a list holds numbers or strings.\<close>

datatype sv_value =
    SvStr string
  | SvBool bool
  | SvInt int
  | SvBased int int  \<comment> \<open>value and base\<close>
  | SvList "sv_value list"

definition to_py_casting :: "string option \<Rightarrow> (string \<Rightarrow> sv_value result) option" where
  "to_py_casting t =
     (if t = Some ''bit'' then Some (\<lambda>x. rbind (py_int 10 x) (\<lambda>v. ret (SvBool (v \<noteq> 0))))
      else if t = Some ''unsigned'' then Some (\<lambda>x. rbind (py_int 10 x) (\<lambda>v. ret (SvInt v)))
      else None)"

definition number_re :: re where
  "number_re = seqs [Bol, many (Sat is_digit), lit [CHR 0x27], opt (lit ''s''), Group 1 dot, Group 2 (many dot), Eol]"

definition based_number :: "string \<Rightarrow> int \<Rightarrow> sv_value result" where
  "based_number ds base = rbind (py_int base ds) (\<lambda>v. ret (SvBased v base))"

definition based_repr :: "int \<Rightarrow> int \<Rightarrow> string" where
  "based_repr v base =
     (if base = 2 then signed_digits 2 ''0b'' v else if base = 8 then signed_digits 8 ''0o'' v
      else if base = 16 then py_hex v else py_str v)"

definition number :: "string \<Rightarrow> sv_value result" where
  "number value = (case re_match number_re value of
     None \<Rightarrow> ret (SvStr value)
   | Some (x, g) \<Rightarrow>
       let base = group_text 1 g; ds = group_text 2 g in
       if base = ''b'' then based_number ds 2
       else if base = ''o'' then based_number ds 8
       else if base = ''d'' then based_number ds 10
       else if base = ''h'' then based_number ds 16
       else raise (GenericException (''unknown base '' @ base)))"

definition repeat_re :: re where
  "repeat_re = seqs [Bol, lit ''{'', spaces, Group 1 digits, spaces, lit ''{'', Group 2 (many dot), lit ''}'',
     spaces, lit ''}'', Eol]"

definition array_re :: re where
  "array_re = seqs [Bol, lit ''{'', Group 1 (many dot), lit ''}'', Eol]"

definition array :: "string \<Rightarrow> sv_value result" where
  "array value = (case re_match repeat_re value of
     Some (x, g) \<Rightarrow>
       rbind (py_int 10 (group_text 1 g)) (\<lambda>times. rbind (number (strip (group_text 2 g))) (\<lambda>v.
       ret (SvList (replicate (nat times) v))))
   | None \<Rightarrow>
       (case re_match array_re value of
          Some (x, g) \<Rightarrow>
            rbind (mapR (\<lambda>v. number (strip v)) (split_char (CHR '','') (group_text 1 g))) (\<lambda>vs. ret (SvList vs))
        | None \<Rightarrow> ret (SvStr value)))"

section \<open>Following references\<close>

partial_function (option) root_loop :: "(string, string) dict \<Rightarrow> string \<Rightarrow> string \<Rightarrow> (string \<times> string) option" where
  "root_loop params name value =
     (case map_of params value of
        None \<Rightarrow> Some (name, value)
      | Some next_value \<Rightarrow> root_loop params value next_value)"

declare root_loop.simps [code]

text \<open>None: the loop does not end; Some None: the code's None.\<close>

definition find_root_def :: "string \<Rightarrow> (string, string) dict \<Rightarrow> (string \<times> string) option option" where
  "find_root_def name params =
     (case map_of params name of
        None \<Rightarrow> Some None
      | Some value \<Rightarrow> map_option Some (root_loop params name value))"

definition run_parser :: "(string \<Rightarrow> sv_value result) \<Rightarrow> sv_value \<Rightarrow> sv_value result" where
  "run_parser parser v = (case v of SvStr s \<Rightarrow> parser s | _ \<Rightarrow> ret v)"

definition evaluate :: "string \<Rightarrow> (string, string) dict \<Rightarrow> bool \<Rightarrow> sv_value result option" where
  "evaluate value params to_py =
     (let (t, value) = find_casting value in
      case find_root_def value params of
        None \<Rightarrow> None
      | Some root \<Rightarrow>
          let value = (case root of None \<Rightarrow> value | Some (name, v) \<Rightarrow> v) in
          Some (if to_py then
            rbind (case to_py_casting t of None \<Rightarrow> ret (SvStr value) | Some cast \<Rightarrow> cast value) (\<lambda>v.
            rbind (run_parser array v) (run_parser number))
          else ret (SvStr value)))"

definition get_config :: "string \<Rightarrow> bool \<Rightarrow> (string, sv_value) dict result option" where
  "get_config text to_py =
     (let (params, config) = parse_values (read_lines text) in
      ofold (\<lambda>d (k, v). obind (evaluate v params to_py) (\<lambda>x. Some (ret (AList.update k x d)))) [] config)"

section \<open>Changing a package\<close>

definition replace_cfg ::
  "string list \<Rightarrow> (string, string) dict \<Rightarrow> (string, nat) dict \<Rightarrow> string \<Rightarrow> string \<Rightarrow> string list result" where
  "replace_cfg lines config i_config name new_value =
     rbind (dict_get config name) (\<lambda>old.
     let value = build_casting (fst (find_casting old)) new_value in
     rbind (dict_get i_config name) (\<lambda>i.
     rbind (build_cfg (lines ! i) value) (\<lambda>line. ret (lines[i := line]))))"

definition replace_param ::
  "string list \<Rightarrow> (string, nat) dict \<Rightarrow> string \<Rightarrow> string \<Rightarrow> string list result" where
  "replace_param lines i_params name new_value =
     rbind (dict_get i_params name) (\<lambda>i.
     rbind (build_param (lines ! i) new_value) (\<lambda>line. ret (lines[i := line])))"

definition change ::
  "(string, string) dict \<times> (string, string) dict \<Rightarrow> (string, nat) dict \<times> (string, nat) dict
    \<Rightarrow> string list \<Rightarrow> string list \<Rightarrow> string list result option" where
  "change = (\<lambda>(params, config) (i_params, i_config) lines c.
     (case c of
        [name, new_value] \<Rightarrow>
          (case name of
             [] \<Rightarrow> Some (raise IndexError)
           | sign # rest \<Rightarrow>
               if sign = CHR ''*'' then Some (replace_cfg lines config i_config rest new_value)
               else if sign = CHR ''+'' then Some (replace_param lines i_params rest new_value)
               else obind (Some (dict_get config name)) (\<lambda>old.
                 case find_root_def (snd (find_casting old)) params of
                   None \<Rightarrow> None
                 | Some (Some (root, value)) \<Rightarrow> Some (replace_param lines i_params root new_value)
                 | Some None \<Rightarrow> Some (replace_cfg lines config i_config name new_value)))
      | _ \<Rightarrow> Some (raise ValueError)))"

text \<open>The changes are the parts of an argument around its equals signs; the result is the new file.\<close>

definition derive_config :: "string \<Rightarrow> string list list \<Rightarrow> string result option" where
  "derive_config text changes =
     (let lines = read_lines text in
      obind (ofold (change (parse_values lines) (parse_indices lines)) lines changes) (\<lambda>lines. Some (ret (concat lines))))"

definition parse_derive_args :: "string list \<Rightarrow> (string \<times> string list list) result" where
  "parse_derive_args argv = (case argv of
     [] \<Rightarrow> raise IndexError
   | base # args \<Rightarrow> ret (base, map (split_char (CHR ''='')) args))"

text \<open>The command line: the file of the base is read, the generated package written.\<close>

definition user_config_main :: "(string \<Rightarrow> string option) \<Rightarrow> string list \<Rightarrow> (string \<times> string) result option" where
  "user_config_main files argv =
     obind (Some (parse_derive_args argv)) (\<lambda>(base, changes).
     obind (Some (of_option FileNotFoundError (files (''core/include/'' @ base @ ''_config_pkg.sv'')))) (\<lambda>text.
     obind (derive_config text changes) (\<lambda>new.
     Some (ret (''core/include/gen_config_pkg.sv'', new)))))"

end
