(* ===== verification/User_Config_Facts.thy ===== *)
theory User_Config_Facts
  imports User_Config
begin

text \<open>
  The configuration editor: when following a reference ends, and what one change does to the package.
\<close>

section \<open>References\<close>

definition refers :: "(string, string) dict \<Rightarrow> (string \<times> string) set" where
  "refers params = {(v, w). map_of params v = Some w}"

lemma refers_single: "single_valued (refers params)"
  by (auto simp: refers_def intro: single_valuedI)

lemma refers_finite: "finite (refers params)"
  by (rule finite_subset [of _ "set params"]) (auto simp: refers_def dest: map_of_SomeD)

lemma root_loop_path:
  assumes "root_loop params name value = Some (root, v)" "map_of params name = Some value"
  shows "(name, root) \<in> (refers params)\<^sup>* \<and> map_of params root = Some v \<and> map_of params v = None"
proof -
  let ?P = "\<lambda>d n u res. map_of d n = Some u \<longrightarrow>
    (n, fst res) \<in> (refers d)\<^sup>* \<and> map_of d (fst res) = Some (snd res) \<and> map_of d (snd res) = None"
  have "?P params name value (root, v)"
    using assms(1)
  proof (rule root_loop.raw_induct [where P = ?P, rotated])
    fix loop d n u res
    assume IH: "\<And>d n u res. loop d n u = Some res \<Longrightarrow> ?P d n u res"
      and body: "(case map_of d u of None \<Rightarrow> Some (n, u) | Some w \<Rightarrow> loop d u w) = Some res"
    show "?P d n u res"
    proof (cases "map_of d u")
      case None
      with body show ?thesis by auto
    next
      case (Some w)
      with body IH [of d u w res] show ?thesis
        by (auto simp: refers_def intro: converse_rtrancl_into_rtrancl)
    qed
  qed
  with assms(2) show ?thesis by simp
qed

text \<open>The way from a name is unique, so an end and a cycle exclude each other.\<close>

lemma no_cycle_before_end:
  assumes "(name, e) \<in> (refers params)\<^sup>*" "map_of params e = None" "(name, v) \<in> (refers params)\<^sup>*"
  shows "(v, v) \<notin> (refers params)\<^sup>+"
proof
  let ?R = "refers params"
  assume cycle: "(v, v) \<in> ?R\<^sup>+"
  have ended: "x = e" if "(e, x) \<in> ?R\<^sup>*" for x
    using that assms(2) by (cases rule: converse_rtranclE) (auto simp: refers_def)
  have round: "(x, v) \<in> ?R\<^sup>+" if "(v, x) \<in> ?R\<^sup>*" for x
    using that
  proof (induction rule: rtrancl_induct)
    case (step y z)
    from step.IH obtain w where w: "(y, w) \<in> ?R" "(w, v) \<in> ?R\<^sup>*" by (auto dest: tranclD)
    with step.hyps(2) refers_single have "w = z" by (auto dest: single_valuedD)
    with w cycle show ?case by (meson rtrancl_trancl_trancl)
  qed (rule cycle)
  from single_valued_confluent [OF refers_single assms(1,3)]
  have "(v, e) \<in> ?R\<^sup>*"
  proof
    assume "(e, v) \<in> ?R\<^sup>*"
    from ended [OF this] show ?thesis by simp
  qed
  from round [OF this] obtain w where "(e, w) \<in> ?R" by (auto dest: tranclD)
  with assms(2) show False by (simp add: refers_def)
qed

lemma root_loop_ends:
  assumes "\<forall>v. (name, v) \<in> (refers params)\<^sup>* \<longrightarrow> (v, v) \<notin> (refers params)\<^sup>+" "map_of params name = Some value"
  shows "root_loop params name value \<noteq> None"
proof -
  let ?R = "refers params"
  define S where "S = {(x, y). (name, x) \<in> ?R\<^sup>* \<and> (x, y) \<in> ?R}"
  have sub: "S \<subseteq> ?R" by (auto simp: S_def)
  have "acyclic S"
    unfolding acyclic_def
  proof (intro allI notI)
    fix x assume x: "(x, x) \<in> S\<^sup>+"
    then obtain y where "(x, y) \<in> S" by (auto dest: tranclD)
    then have "(name, x) \<in> ?R\<^sup>*" by (simp add: S_def)
    moreover have "(x, x) \<in> ?R\<^sup>+" using trancl_mono [OF x sub] .
    ultimately show False using assms(1) by blast
  qed
  then have wf: "wf (S\<inverse>)" using finite_subset [OF sub refers_finite] by (rule finite_acyclic_wf_converse [rotated])
  have "\<forall>w. (name, x) \<in> ?R\<^sup>* \<longrightarrow> map_of params x = Some w \<longrightarrow> root_loop params x w \<noteq> None" for x
    using wf
  proof (induction x rule: wf_induct_rule)
    case (less x)
    show ?case
    proof (intro allI impI)
      fix w assume x: "(name, x) \<in> ?R\<^sup>*" "map_of params x = Some w"
      then have step: "(x, w) \<in> ?R" by (simp add: refers_def)
      show "root_loop params x w \<noteq> None"
      proof (cases "map_of params w")
        case None
        then show ?thesis by (subst root_loop.simps) simp
      next
        case (Some u)
        have "(w, x) \<in> S\<inverse>" using x(1) step by (simp add: S_def)
        moreover have "(name, w) \<in> ?R\<^sup>*" using x(1) step by (rule rtrancl_into_rtrancl)
        ultimately have "root_loop params w u \<noteq> None" using less.IH Some by blast
        then show ?thesis by (subst root_loop.simps) (simp add: Some)
      qed
    qed
  qed
  with assms(2) show ?thesis by blast
qed

lemma last_unique:
  assumes "(name, r) \<in> (refers params)\<^sup>*" "map_of params r = Some v" "map_of params v = None"
    "(name, s) \<in> (refers params)\<^sup>*" "map_of params s = Some w" "map_of params w = None"
  shows "s = r"
proof -
  have after: "y = x \<or> y = u" if "(x, y) \<in> (refers params)\<^sup>*" "map_of params x = Some u" "map_of params u = None" for x y u
    using that(1)
  proof (cases rule: converse_rtranclE)
    case (step z)
    then have "z = u" using that(2) by (simp add: refers_def)
    with step(2) that(3) show ?thesis by (cases rule: converse_rtranclE) (auto simp: refers_def)
  qed simp
  from single_valued_confluent [OF refers_single assms(1,4)] show ?thesis
    using after [of r s] after [of s r] assms by fastforce
qed

text \<open>
  C26: Following a reference ends exactly when no cycle of localparams is reachable from the name; a name
  that is no localparam has no definition, and otherwise the result is the last localparam on the way,
  with its value, which is no localparam. A cycle makes the editor loop forever.
\<close>

theorem reference_ends:
  "(find_root_def name params = None \<longleftrightarrow>
      (\<exists>v. (name, v) \<in> (refers params)\<^sup>* \<and> (v, v) \<in> (refers params)\<^sup>+))
    \<and> (find_root_def name params = Some None \<longleftrightarrow> map_of params name = None)
    \<and> (find_root_def name params = Some (Some (root, value)) \<longleftrightarrow>
         (name, root) \<in> (refers params)\<^sup>* \<and> map_of params root = Some value \<and> map_of params value = None)"
proof (cases "map_of params name")
  case None
  have only: "v = name" if "(name, v) \<in> (refers params)\<^sup>*" for v
    using that None by (cases rule: converse_rtranclE) (auto simp: refers_def)
  have "(name, name) \<notin> (refers params)\<^sup>+" using None by (auto dest: tranclD simp: refers_def)
  moreover have "\<not> ((name, root) \<in> (refers params)\<^sup>* \<and> map_of params root = Some value)" using None only by fastforce
  ultimately show ?thesis using None only by (auto simp: find_root_def_def)
next
  case (Some w)
  let ?R = "refers params"
  have step: "(name, w) \<in> ?R" using Some by (simp add: refers_def)
  have path: "(name, root) \<in> ?R\<^sup>* \<and> map_of params root = Some v \<and> map_of params v = None"
    if "root_loop params name w = Some (root, v)" for root v
    using root_loop_path [OF that Some] .
  have unique: "root_loop params name w = Some (root, value)"
    if r: "(name, root) \<in> ?R\<^sup>*" "map_of params root = Some value" "map_of params value = None"
  proof -
    have end1: "(name, value) \<in> ?R\<^sup>*" using r(1,2) by (auto simp: refers_def intro: rtrancl_into_rtrancl)
    have "\<forall>v. (name, v) \<in> ?R\<^sup>* \<longrightarrow> (v, v) \<notin> ?R\<^sup>+" using no_cycle_before_end [OF end1 r(3)] by blast
    from root_loop_ends [OF this Some] obtain root' v' where l: "root_loop params name w = Some (root', v')" by auto
    from path [OF l] have p: "(name, root') \<in> ?R\<^sup>*" "map_of params root' = Some v'" "map_of params v' = None" by auto
    have "root' = root" by (rule last_unique [OF r p])
    with p r l show ?thesis by simp
  qed
  have "root_loop params name w = None \<longleftrightarrow> (\<exists>v. (name, v) \<in> ?R\<^sup>* \<and> (v, v) \<in> ?R\<^sup>+)"
  proof
    assume "root_loop params name w = None"
    with root_loop_ends [OF _ Some] show "\<exists>v. (name, v) \<in> ?R\<^sup>* \<and> (v, v) \<in> ?R\<^sup>+" by blast
  next
    assume cycle: "\<exists>v. (name, v) \<in> ?R\<^sup>* \<and> (v, v) \<in> ?R\<^sup>+"
    show "root_loop params name w = None"
    proof (rule ccontr)
      assume "root_loop params name w \<noteq> None"
      then obtain root v where l: "root_loop params name w = Some (root, v)" by auto
      from path [OF l] have "(name, v) \<in> ?R\<^sup>*" "map_of params v = None"
        by (auto simp: refers_def intro: rtrancl_into_rtrancl)
      from no_cycle_before_end [OF this] cycle show False by blast
    qed
  qed
  with Some path unique show ?thesis by (auto simp: find_root_def_def)
qed

section \<open>Statements\<close>

text \<open>The shape both patterns have: five groups between the ends of the line.\<close>

definition five :: "re \<Rightarrow> re \<Rightarrow> re \<Rightarrow> re \<Rightarrow> re" where
  "five a c d e = seqs [Bol, Group 1 a, Group 2 word_re, Group 3 c, Group 4 d, Group 5 e, Eol]"

lemma group_step:
  assumes "(x, g) \<in> set (matches (seqs (Group n r # r' # rs)) p s)" "group_free r"
  shows "\<exists>x1 y h q t. x = x1 @ y \<and> g = (n, x1) # h \<and> (x1, []) \<in> set (matches r p s)
    \<and> (y, h) \<in> set (matches (seqs (r' # rs)) q t)"
proof -
  from assms(1) obtain x1 g1 y h q t where "x = x1 @ y" "g = g1 @ (n, x1) # h" "(x1, g1) \<in> set (matches r p s)"
    "(y, h) \<in> set (matches (seqs (r' # rs)) q t)" by auto
  with group_free_matches [OF this(3) assms(2)] show ?thesis by blast
qed

lemma bol_step: "(x, g) \<in> set (matches (seqs (Bol # r # rs)) p s) \<Longrightarrow> (x, g) \<in> set (matches (seqs (r # rs)) p s)"
  by (auto simp: before_def split: if_splits)

lemma five_match:
  assumes "group_free a" "group_free c" "group_free d" "group_free e" "re_match (five a c d e) line = Some (x, g)"
  shows "\<exists>x1 x2 x3 x4 x5 rest. line = x1 @ x2 @ x3 @ x4 @ x5 @ rest \<and> x = x1 @ x2 @ x3 @ x4 @ x5 \<and> x2 \<noteq> []
    \<and> g = [(1, x1), (2, x2), (3, x3), (4, x4), (5, x5)]"
proof -
  have word: "group_free word_re" by (simp add: word_re_def many1_def)
  from assms(5) have m: "(x, g) \<in> set (matches (five a c d e) None line)"
    by (auto simp: re_match_def split: list.splits)
  then have "(x, g) \<in> set (matches (seqs [Group 1 a, Group 2 word_re, Group 3 c, Group 4 d, Group 5 e, Eol]) None line)"
    unfolding five_def by (rule bol_step)
  from group_step [OF this assms(1)] obtain x1 y1 h1 q1 t1 where 1: "x = x1 @ y1" "g = (1, x1) # h1"
    "(y1, h1) \<in> set (matches (seqs [Group 2 word_re, Group 3 c, Group 4 d, Group 5 e, Eol]) q1 t1)" by blast
  from group_step [OF 1(3) word] obtain x2 y2 h2 q2 t2 where 2: "y1 = x2 @ y2" "h1 = (2, x2) # h2"
    "(x2, []) \<in> set (matches word_re q1 t1)" "(y2, h2) \<in> set (matches (seqs [Group 3 c, Group 4 d, Group 5 e, Eol]) q2 t2)"
    by blast
  from group_step [OF 2(4) assms(2)] obtain x3 y3 h3 q3 t3 where 3: "y2 = x3 @ y3" "h2 = (3, x3) # h3"
    "(y3, h3) \<in> set (matches (seqs [Group 4 d, Group 5 e, Eol]) q3 t3)" by blast
  from group_step [OF 3(3) assms(3)] obtain x4 y4 h4 q4 t4 where 4: "y3 = x4 @ y4" "h3 = (4, x4) # h4"
    "(y4, h4) \<in> set (matches (seqs [Group 5 e, Eol]) q4 t4)" by blast
  from group_step [OF 4(3) assms(4)] obtain x5 y5 h5 q5 t5 where 5: "y4 = x5 @ y5" "h4 = (5, x5) # h5"
    "(y5, h5) \<in> set (matches (seqs [Eol]) q5 t5)" by blast
  from 5(3) have e: "y5 = []" "h5 = []" by (auto split: if_splits)
  have "x2 \<noteq> []" using many1_sat [OF 2(3) [unfolded word_re_def]] by auto
  moreover obtain rest where "line = x @ rest" using matches_prefix [OF m] by blast
  ultimately show ?thesis
    by (intro exI [of _ x1] exI [of _ x2] exI [of _ x3] exI [of _ x4] exI [of _ x5] exI [of _ rest])
      (simp add: 1(1,2) 2(1,2) 3(1,2) 4(1,2) 5(1,2) e)
qed

lemma param_five:
  "param_re = five (seqs [spaces, lit ''localparam'', Wordb, lazy dot, Wordb])
     (seqs [spaces, lit ''='', spaces]) (many1 (Sat (\<lambda>c. c \<noteq> CHR '';''))) (seqs [lit '';'', many dot])"
  by (simp add: param_re_def five_def)

lemma cfg_five:
  "cfg_re = five spaces (seqs [spaces, lit '':'', spaces]) (lazy dot) (seqs [opt (lit '',''), spaces])"
  by (simp add: cfg_re_def five_def)

lemma group_free_parts:
  "group_free spaces" "group_free (lit w)" "group_free (lazy dot)" "group_free (many dot)" "group_free (opt r) = group_free r"
  "group_free (many1 (Sat f))"
  by (auto simp: spaces_def many_def lit_def lazy_def dot_def many1_def opt_def list_all_iff intro!: group_free_seqs)

lemma statement_groups:
  assumes "re_match r line = Some (x, g)" "r = param_re \<or> r = cfg_re"
  shows "\<exists>x1 x2 x3 x4 x5 rest. line = x1 @ x2 @ x3 @ x4 @ x5 @ rest \<and> x = x1 @ x2 @ x3 @ x4 @ x5 \<and> x2 \<noteq> []
    \<and> g = [(1, x1), (2, x2), (3, x3), (4, x4), (5, x5)]"
  using assms(2)
proof
  assume r: "r = param_re"
  show ?thesis by (rule five_match [OF _ _ _ _ assms(1) [unfolded r param_five]]) (simp_all add: group_free_parts)
next
  assume r: "r = cfg_re"
  show ?thesis by (rule five_match [OF _ _ _ _ assms(1) [unfolded r cfg_five]]) (simp_all add: group_free_parts)
qed

section \<open>Changes\<close>

definition statement_parts :: "re \<Rightarrow> string \<Rightarrow> string \<Rightarrow> string \<Rightarrow> string \<Rightarrow> string \<Rightarrow> string \<Rightarrow> bool" where
  "statement_parts r line a name b old c \<longleftrightarrow>
     line = a @ name @ b @ old @ c \<and> name \<noteq> [] \<and> parse_statement r line = Some (name, strip old)"

lemma build_edits:
  assumes "build_statement r line v = Inr line'" "r = param_re \<or> r = cfg_re"
  shows "\<exists>a name b old c. statement_parts r line a name b old c \<and> line' = a @ name @ b @ v @ c"
proof -
  from assms(1) obtain x g where m: "re_match r line = Some (x, g)"
    and l: "line' = re_sub r (\<lambda>_. with_value v) line" by (auto simp: build_statement_def)
  from statement_groups [OF m assms(2)] obtain x1 x2 x3 x4 x5 rest where
    p: "line = x1 @ x2 @ x3 @ x4 @ x5 @ rest" "x = x1 @ x2 @ x3 @ x4 @ x5" "x2 \<noteq> []"
      "g = [(1, x1), (2, x2), (3, x3), (4, x4), (5, x5)]" by blast
  have "\<exists>rs. r = seqs (Bol # rs)" using assms(2) unfolding param_re_def cfg_re_def by blast
  then obtain rs where r: "r = seqs (Bol # rs)" ..
  have "line' = with_value v g @ drop (length x) line"
    unfolding l r by (rule re_sub_anchored) (use m r p(2,3) in auto)
  then have "line' = x1 @ x2 @ x3 @ v @ x5 @ rest"
    by (simp add: p with_value_def group_text_def match_group_def)
  moreover have "statement_parts r line x1 x2 x3 x4 (x5 @ rest)"
    using m p by (simp add: statement_parts_def parse_statement_def match_group_def)
  ultimately show ?thesis by blast
qed

lemma parts_name: "statement_parts r line a name b old c \<Longrightarrow> parse_statement r line = Some (n, w) \<Longrightarrow> n = name \<and> w = strip old"
  by (simp add: statement_parts_def)

text \<open>The two readings of a package agree: the last statement of a name.\<close>

lemma parse_with_snoc:
  "parse_with pick (xs @ [x]) = parse_package_line pick (parse_with pick xs) (length xs, x)"
proof -
  have "zip [0..<length (xs @ [x])] (xs @ [x]) = zip [0..<length xs] xs @ [(length xs, x)]" by simp
  then show ?thesis by (simp add: parse_with_def)
qed

definition agrees :: "(string \<Rightarrow> (string \<times> string) option) \<Rightarrow> string list \<Rightarrow> (string, nat) dict \<Rightarrow> (string, string) dict \<Rightarrow> bool" where
  "agrees parse lines index vals \<longleftrightarrow> (\<forall>name i. map_of index name = Some i \<longrightarrow>
     i < length lines \<and> (\<exists>w. parse (lines ! i) = Some (name, w) \<and> map_of vals name = Some w))"

lemma agrees_step:
  assumes "agrees parse xs index vals"
  shows "agrees parse (xs @ [x])
    (case parse x of None \<Rightarrow> index | Some (n, w) \<Rightarrow> AList.update n (length xs) index)
    (case parse x of None \<Rightarrow> vals | Some (n, w) \<Rightarrow> AList.update n w vals)"
  using assms by (auto simp: agrees_def update_conv' nth_append less_Suc_eq split: option.split)

lemma parse_agrees:
  "agrees parse_param lines (fst (parse_indices lines)) (fst (parse_values lines))
    \<and> agrees parse_cfg lines (snd (parse_indices lines)) (snd (parse_values lines))"
proof (induction lines rule: rev_induct)
  case Nil
  show ?case by (simp add: agrees_def parse_indices_def parse_values_def parse_with_def)
next
  case (snoc x xs)
  obtain pi ci where i: "parse_with (\<lambda>index value. index) xs = (pi, ci)" by (cases "parse_with (\<lambda>index value. index) xs")
  obtain pv cv where v: "parse_with (\<lambda>index value. value) xs = (pv, cv)" by (cases "parse_with (\<lambda>index value. value) xs")
  from snoc have "agrees parse_param xs pi pv" "agrees parse_cfg xs ci cv"
    by (simp_all add: parse_indices_def parse_values_def i v)
  from agrees_step [OF this(1), of x] agrees_step [OF this(2), of x] show ?case
    by (simp add: parse_indices_def parse_values_def parse_with_snoc i v parse_package_line_def)
qed

text \<open>One statement gets a new value; the indentation, the name, the separator and the tail stay.\<close>

definition edits :: "re \<Rightarrow> string \<Rightarrow> string \<Rightarrow> string \<Rightarrow> string list \<Rightarrow> string list \<Rightarrow> bool" where
  "edits r name old new lines lines' \<longleftrightarrow> (\<exists>i a b c. i < length lines
     \<and> statement_parts r (lines ! i) a name b old c \<and> lines' = lines[i := a @ name @ b @ new @ c])"

lemma agreed_edit:
  assumes "agrees (parse_statement r) lines index vals" "map_of index name = Some i"
    "build_statement r (lines ! i) v = Inr line" "r = param_re \<or> r = cfg_re"
  shows "\<exists>old. map_of vals name = Some (strip old) \<and> edits r name old v lines (lines[i := line])"
proof -
  from assms(1,2) obtain w where w: "i < length lines" "parse_statement r (lines ! i) = Some (name, w)"
    "map_of vals name = Some w" unfolding agrees_def by blast
  from build_edits [OF assms(3,4)] obtain a n b old c where
    e: "statement_parts r (lines ! i) a n b old c" "line = a @ n @ b @ v @ c" by blast
  from parts_name [OF e(1) w(2)] w(1,3) e show ?thesis unfolding edits_def by blast
qed

lemma replace_param_edits:
  assumes "replace_param lines (fst (parse_indices lines)) name v = Inr lines'"
  shows "\<exists>old. map_of (fst (parse_values lines)) name = Some (strip old) \<and> edits param_re name old v lines lines'"
proof -
  from assms obtain i line where i: "map_of (fst (parse_indices lines)) name = Some i"
    "build_statement param_re (lines ! i) v = Inr line" "lines' = lines[i := line]"
    by (auto simp: replace_param_def dict_get_def build_param_def)
  have "agrees (parse_statement param_re) lines (fst (parse_indices lines)) (fst (parse_values lines))"
    using parse_agrees [of lines] by (simp add: agrees_def parse_param_def)
  from agreed_edit [OF this i(1,2)] show ?thesis by (simp add: i(3))
qed

lemma replace_cfg_edits:
  assumes "replace_cfg lines (snd (parse_values lines)) (snd (parse_indices lines)) name v = Inr lines'"
  shows "\<exists>old. map_of (snd (parse_values lines)) name = Some (strip old)
    \<and> edits cfg_re name old (build_casting (fst (find_casting (strip old))) v) lines lines'"
proof -
  from assms obtain i line w where i: "map_of (snd (parse_indices lines)) name = Some i"
    "map_of (snd (parse_values lines)) name = Some w"
    "build_statement cfg_re (lines ! i) (build_casting (fst (find_casting w)) v) = Inr line" "lines' = lines[i := line]"
    by (auto simp: replace_cfg_def dict_get_def build_cfg_def Let_def)
  have "agrees (parse_statement cfg_re) lines (snd (parse_indices lines)) (snd (parse_values lines))"
    using parse_agrees [of lines] by (simp add: agrees_def parse_cfg_def)
  from agreed_edit [OF this i(1,3)] i(2) show ?thesis by (auto simp: i(4))
qed

lemma find_root_value: "find_root_def name params = Some (Some (root, u)) \<Longrightarrow> map_of params root = Some u"
  using root_loop_path by (fastforce simp: find_root_def_def split: option.splits)

lemma change_cases:
  assumes "change (params, config) (i_params, i_config) ls [sel, v] = Some (Inr ls')"
  shows "(\<exists>name. sel = CHR ''*'' # name \<and> replace_cfg ls config i_config name v = Inr ls')
    \<or> (\<exists>name. sel = CHR ''+'' # name \<and> replace_param ls i_params name v = Inr ls')
    \<or> (\<exists>w. map_of config sel = Some w \<and> find_root_def (snd (find_casting w)) params = Some None
         \<and> replace_cfg ls config i_config sel v = Inr ls')
    \<or> (\<exists>w name u. map_of config sel = Some w \<and> find_root_def (snd (find_casting w)) params = Some (Some (name, u))
         \<and> replace_param ls i_params name v = Inr ls')"
proof -
  from assms obtain sign rest where sel: "sel = sign # rest" by (cases sel) (auto simp: change_def)
  show ?thesis
  proof (cases "sign = CHR ''*'' \<or> sign = CHR ''+''")
    case True
    with assms show ?thesis by (auto simp: change_def sel)
  next
    case False
    with assms have "obind (Some (dict_get config sel)) (\<lambda>old.
        case find_root_def (snd (find_casting old)) params of None \<Rightarrow> None
        | Some None \<Rightarrow> Some (replace_cfg ls config i_config sel v)
        | Some (Some (root, value)) \<Rightarrow> Some (replace_param ls i_params root v)) = Some (Inr ls')"
      unfolding change_def sel by simp
    then show ?thesis
      by (cases "map_of config sel") (auto simp: obind_def dict_get_def split: option.splits)
  qed
qed

text \<open>
  C25: One change edits the value of one statement and nothing else: with a plus sign that of the localparam
  named, with a star that of the field named, and otherwise that of the localparam the field leads to, or
  of the field itself if it leads to none. A field keeps its cast.
\<close>

theorem one_change:
  assumes "derive_config text [[sel, v]] = Some (Inr text')" "parse_values (read_lines text) = (params, config)"
  shows "\<exists>name old lines'. text' = concat lines' \<and>
    (edits param_re name old v (read_lines text) lines' \<and>
       (sel = ''+'' @ name \<or> (\<exists>field. map_of config sel = Some field
          \<and> find_root_def (snd (find_casting field)) params = Some (Some (name, strip old))))
     \<or> edits cfg_re name old (build_casting (fst (find_casting (strip old))) v) (read_lines text) lines' \<and>
       (sel = ''*'' @ name \<or> sel = name \<and> find_root_def (snd (find_casting (strip old))) params = Some None))"
proof -
  let ?ls = "read_lines text"
  obtain i_params i_config where iv: "parse_indices ?ls = (i_params, i_config)" by (cases "parse_indices ?ls")
  from assms obtain ls where ch: "change (params, config) (i_params, i_config) ?ls [sel, v] = Some (Inr ls)"
    and t': "text' = concat ls"
    by (auto simp: derive_config_def Let_def iv obind_def split: option.splits sum.splits)
  have param: "\<exists>old. map_of params name = Some (strip old) \<and> edits param_re name old v ?ls ls"
    if "replace_param ?ls i_params name v = Inr ls" for name
    using replace_param_edits [of ?ls name v ls] that by (simp add: assms(2) iv)
  have field: "\<exists>old. map_of config name = Some (strip old)
      \<and> edits cfg_re name old (build_casting (fst (find_casting (strip old))) v) ?ls ls"
    if "replace_cfg ?ls config i_config name v = Inr ls" for name
    using replace_cfg_edits [of ?ls name v ls] that by (simp add: assms(2) iv)
  from change_cases [OF ch] show ?thesis
  proof (elim disjE exE conjE)
    fix name assume "sel = CHR ''*'' # name" "replace_cfg ?ls config i_config name v = Inr ls"
    with field [of name] t' show ?thesis by auto
  next
    fix name assume "sel = CHR ''+'' # name" "replace_param ?ls i_params name v = Inr ls"
    with param [of name] t' show ?thesis by auto
  next
    fix w assume w: "map_of config sel = Some w" "find_root_def (snd (find_casting w)) params = Some None"
      and rep: "replace_cfg ?ls config i_config sel v = Inr ls"
    from field [OF rep] w t' show ?thesis by auto
  next
    fix w name u assume w: "map_of config sel = Some w" "find_root_def (snd (find_casting w)) params = Some (Some (name, u))"
      and rep: "replace_param ?ls i_params name v = Inr ls"
    from param [OF rep] w find_root_value [OF w(2)] t' show ?thesis by auto
  qed
qed

theorem one_change_witness:
  "\<exists>text'. derive_config ''XLEN: 32,'' [[''*XLEN'', ''64'']] = Some (Inr text') \<and> text' = ''XLEN: 64,''"
proof -
  have d: "derive_config ''XLEN: 32,'' [[''*XLEN'', ''64'']] = Some (Inr ''XLEN: 64,'')" by code_simp
  have p: "parse_values (read_lines ''XLEN: 32,'') = ([], [(''XLEN'', ''32'')])" by code_simp
  from one_change [OF d p] show ?thesis using d by blast
qed

end
