(* ===== verification/Boot_Rom.thy ===== *)
theory Boot_Rom
  imports Py_Str "HOL-Library.Word"
begin

text \<open>
  The boot ROM generator \<open>corev_apu/bootrom/gen_rom.py\<close>, which turns a binary image into a
  SystemVerilog module of 64-bit words and a C header of 32-bit words, and the reading function of its
  older copy under \<open>verif/tb\<close>. A byte is an \<open>8 word\<close>; a run of \<open>main\<close> gives the files it writes.
\<close>

section \<open>Templates of the string library\<close>

text \<open>The pieces of a \<open>string.Template\<close>; a lone dollar is an error when the template is used.\<close>

datatype piece = Plain char | Ident string | Stray

definition ident_start :: "string \<Rightarrow> bool" where
  "ident_start s = (case s of [] \<Rightarrow> False | c # _ \<Rightarrow> is_word_char c \<and> \<not> is_digit c)"

lemma shorter_dropWhile: "length (dropWhile f (tl s)) - Suc 0 < Suc (length s)"
  using length_dropWhile_le [of f "tl s"] by simp

function (sequential) pieces :: "string \<Rightarrow> piece list" where
  "pieces [] = []"
| "pieces (c # s) =
     (if c \<noteq> CHR ''$'' then Plain c # pieces s
      else if s \<noteq> [] \<and> hd s = CHR ''$'' then Plain (CHR ''$'') # pieces (tl s)
      else if ident_start s then Ident (takeWhile is_word_char s) # pieces (dropWhile is_word_char s)
      else if s \<noteq> [] \<and> hd s = CHR ''{'' \<and> ident_start (tl s)
        \<and> starts_with ''}'' (dropWhile is_word_char (tl s)) then
        Ident (takeWhile is_word_char (tl s)) # pieces (tl (dropWhile is_word_char (tl s)))
      else Stray # pieces s)"
  by pat_completeness auto
termination
  by (relation "measure length") (auto simp: le_imp_less_Suc length_dropWhile_le shorter_dropWhile)

definition put_piece :: "(string \<times> string) list \<Rightarrow> piece \<Rightarrow> string result" where
  "put_piece env p = (case p of
     Plain c \<Rightarrow> ret [c]
   | Ident v \<Rightarrow> of_option KeyError (map_of env v)
   | Stray \<Rightarrow> raise ValueError)"

definition substitute :: "string \<Rightarrow> (string \<times> string) list \<Rightarrow> string result" where
  "substitute template env = rbind (mapR (put_piece env) (pieces template)) (\<lambda>ss. ret (concat ss))"

definition text_lines :: "string list \<Rightarrow> string" where
  "text_lines ls = concat (map (\<lambda>l. l @ [newline]) ls)"

definition license_template :: string where
  "license_template = text_lines
    [''/* Copyright 2018 ETH Zurich and University of Bologna.'',
     '' * Copyright and related rights are licensed under the Solderpad Hardware'',
     '' * License, Version 0.51 (the \"License\"); you may not use this file except in'',
     '' * compliance with the License.  You may obtain a copy of the License at'',
     '' * http://solderpad.org/licenses/SHL-0.51. Unless required by applicable law'',
     '' * or agreed to in writing, software, hardware and materials distributed under'',
     '' * this License is distributed on an \"AS IS\" BASIS, WITHOUT WARRANTIES OR'',
     '' * CONDITIONS OF ANY KIND, either express or implied. See the License for the'',
     '' * specific language governing permissions and limitations under the License.'',
     '' *'',
     '' * File: $filename.v'',
     '' *'',
     '' * Description: Auto-generated bootrom'',
     '' */'',
     [],
     ''// Auto-generated code'']"

definition module_template :: string where
  "module_template = text_lines
    [''module $filename ('',
     ''   input  logic         clk_i,'',
     ''   input  logic         req_i,'',
     ''   input  logic [63:0]  addr_i,'',
     ''   output logic [63:0]  rdata_o'',
     '');'',
     ''    localparam int RomSize = $size;'',
     [],
     ''    const logic [RomSize-1:0][63:0] mem = {'',
     ''$content'',
     ''    };'',
     [],
     ''    logic [$$clog2(RomSize)-1:0] addr_q;'',
     [],
     ''    always_ff @(posedge clk_i) begin'',
     ''        if (req_i) begin'',
     ''            addr_q <= addr_i[$$clog2(RomSize)-1+3:3];'',
     ''        end'',
     ''    end'',
     [],
     ''    // this prevents spurious Xes from propagating into'',
     ''    // the speculative fetch stage of the core'',
     ''    assign rdata_o = (addr_q < RomSize) ? mem[addr_q] : '0;'',
     ''endmodule'']"

definition c_var :: string where
  "c_var = text_lines
    [''// Auto-generated code'',
     [],
     ''const int reset_vec_size = $size;'',
     [],
     ''uint32_t reset_vec[reset_vec_size] = {'',
     ''$content'',
     ''};'']"

section \<open>The generator\<close>

text \<open>\<open>bytes.hex\<close>\<close>

definition hex2 :: "8 word \<Rightarrow> string" where
  "hex2 b = [digit_char (unat b div 16), digit_char (unat b mod 16)]"

definition hex_bytes :: "8 word list \<Rightarrow> string" where
  "hex_bytes bs = concat (map hex2 bs)"

definition byte_slice :: "nat \<Rightarrow> nat \<Rightarrow> 'a list \<Rightarrow> 'a list" where
  "byte_slice a b xs = drop a (take b xs)"

text \<open>\<open>s[:-2]\<close>\<close>

definition drop_last2 :: "string \<Rightarrow> string" where
  "drop_last2 s = take (length s - 2) s"

text \<open>The root of \<open>os.path.splitext\<close>: dots that begin the last component are no extension.\<close>

definition splitext_root :: "string \<Rightarrow> string" where
  "splitext_root p =
     (let sep = rfind_char (CHR ''/'') p; d = rfind_char (CHR ''.'') p
      in if d > sep \<and> (\<exists>c \<in> set (byte_slice (nat (sep + 1)) (nat d) p). c \<noteq> CHR ''.'') then take (nat d) p else p)"

definition boot_parse :: "(string \<Rightarrow> 8 word list option) \<Rightarrow> string \<Rightarrow> string result" where
  "boot_parse files file = (if files file = None then raise (SystemExit 1) else ret (splitext_root file))"

text \<open>\<open>int((len + 7) / 8) * 8\<close>, for images shorter than \<open>2 ^ 53\<close> bytes (\<open>padding_exact\<close>).\<close>

definition read_bin :: "8 word list \<Rightarrow> 8 word list" where
  "read_bin rom =
     (let align = ((length rom + 7) div 8) * 8
      in foldl (\<lambda>rom i. rom @ [0]) rom [length rom..<align])"

definition h_content :: "8 word list \<Rightarrow> string" where
  "h_content rom = drop_last2 (foldl (\<lambda>s i.
     s @ ''    0x'' @ hex_bytes (rev (byte_slice (i * 4) (i * 4 + 4) rom)) @ '','' @ [newline])
     [] [0..<length rom div 4])"

definition generate_h :: "string \<Rightarrow> 8 word list \<Rightarrow> string result" where
  "generate_h filename rom =
     substitute c_var [(''filename'', filename), (''size'', py_str (int (length rom div 4))), (''content'', h_content rom)]"

definition sv_content :: "8 word list \<Rightarrow> string" where
  "sv_content rom0 =
     (let rom = rev rom0
      in drop_last2 (foldl (\<lambda>s i.
           s @ ''        64'h'' @ hex_bytes (byte_slice (i * 8) (i * 8 + 4) rom) @ ''_''
             @ hex_bytes (byte_slice (i * 8 + 4) (i * 8 + 8) rom) @ '','' @ [newline])
           [] [0..<length rom div 8]))"

definition generate_sv :: "string \<Rightarrow> 8 word list \<Rightarrow> string result" where
  "generate_sv filename rom =
     rbind (substitute module_template [(''filename'', filename), (''size'', py_str (int (length rom div 8))),
        (''content'', sv_content rom)]) (\<lambda>s. ret (license_template @ s))"

text \<open>The files written, in order.\<close>

definition boot_main :: "(string \<Rightarrow> 8 word list option) \<Rightarrow> string \<Rightarrow> (string \<times> string) list result" where
  "boot_main files file =
     rbind (boot_parse files file) (\<lambda>filename.
     rbind (of_option FileNotFoundError (files (filename @ ''.img''))) (\<lambda>img.
     let rom = read_bin img in
     rbind (generate_sv filename rom) (\<lambda>sv.
     rbind (generate_h filename rom) (\<lambda>h.
     ret [(filename @ ''.sv'', sv), (filename @ ''.h'', h)]))))"

text \<open>
  The copy under \<open>verif/tb\<close> turns the image into hexadecimal digits and then asks for the variable
  \<open>align\<close>, whose assignment is commented out.
\<close>

definition tb_read_bin :: "8 word list \<Rightarrow> string result" where
  "tb_read_bin img = (let rom = hex_bytes img in raise NameError)"

end
