(* ===== verification/Py_Float_Facts.thy ===== *)
theory Py_Float_Facts
  imports Py_Float "HOL-Library.Log_Nat" Complex_Main
begin

text \<open>
  Rounding is correct: the result is a double, no double is closer to the exact value, and a quotient of integers below
  \<open>2 ^ 53\<close> keeps its integer part.
\<close>

section \<open>Rounding to an integer\<close>

lemma abs_scale:
  fixes a x p :: real
  assumes "0 < p"
  shows "\<bar>a - x / p\<bar> * p = \<bar>a * p - x\<bar>"
proof -
  have "a * p - x = (a - x / p) * p" using assms by (simp add: field_simps)
  then show ?thesis using assms by (simp add: abs_mult)
qed

lemma two_to_pos [simp]: "0 < two_to e" "two_to e \<noteq> 0" "0 \<le> two_to e"
  by (simp_all add: two_to_def)

lemma half_even_error:
  assumes "0 < d"
  shows "\<bar>2 * (d * half_even n d - n)\<bar> \<le> d"
proof -
  define q r where "q = n div d" and "r = n mod d"
  then have n: "n = d * q + r" by simp
  have "0 \<le> r" "r < d" using assms by (simp_all add: r_def)
  then show ?thesis
    by (auto simp: half_even_def Let_def q_def [symmetric] r_def [symmetric]) (simp_all add: n algebra_simps)
qed

lemma nearest_integer_closest:
  fixes x :: real and m k :: int
  assumes "\<bar>real_of_int m - x\<bar> \<le> 1 / 2"
  shows "\<bar>real_of_int m - x\<bar> \<le> \<bar>real_of_int k - x\<bar>"
proof (cases "k = m")
  case False
  then have "1 \<le> \<bar>real_of_int k - real_of_int m\<bar>" by linarith
  with assms show ?thesis by linarith
qed simp

lemma two_to_quotient: "real_of_int (two_to e) / real_of_int (two_to (- e)) = 2 powi e"
  by (cases "0 \<le> e") (simp_all add: two_to_def power_int_def divide_simps)

lemma two_to_scale:
  "real_of_int (n * two_to (- e)) / real_of_int (d * two_to e) = real_of_int n / real_of_int d / 2 powi e"
  by (simp flip: two_to_quotient)

lemma half_even_near: "0 < d \<Longrightarrow> \<bar>real_of_int (half_even n d) - real_of_int n / real_of_int d\<bar> \<le> 1 / 2"
proof -
  assume d: "0 < d"
  define y where "y = real_of_int d * real_of_int (half_even n d) - real_of_int n"
  have "real_of_int \<bar>2 * (d * half_even n d - n)\<bar> \<le> real_of_int d"
    using half_even_error [OF d, of n] by (simp only: of_int_le_iff)
  also have "real_of_int \<bar>2 * (d * half_even n d - n)\<bar> = 2 * \<bar>y\<bar>"
    by (simp only: y_def of_int_abs of_int_mult of_int_diff abs_mult)
  finally have "2 * \<bar>y\<bar> \<le> real_of_int d" .
  moreover have "real_of_int (half_even n d) - real_of_int n / real_of_int d = y / real_of_int d"
    using d by (simp add: y_def field_simps)
  ultimately show ?thesis using d by (simp add: abs_divide field_simps)
qed

section \<open>The exponent of a quotient\<close>

lemma bit_length_eq: "bit_length n = bitlen n"
proof (induction n rule: bit_length.induct)
  case (1 n)
  then show ?case by (subst bit_length.simps, subst compute_bitlen) simp
qed

lemma bitlen_real: "0 < n \<Longrightarrow> 2 powi (bitlen n - 1) \<le> real_of_int n" "0 < n \<Longrightarrow> real_of_int n < 2 powi bitlen n"
proof -
  assume n: "0 < n"
  then have pos: "0 < bitlen n" using bitlen_nonneg [of n] bitlen_eq_zero_iff [of n] by linarith
  have "real_of_int (2 ^ nat (bitlen n - 1)) \<le> real_of_int n" "real_of_int n < real_of_int (2 ^ nat (bitlen n))"
    using bitlen_bounds [OF n] by (simp_all only: of_int_le_iff of_int_less_iff)
  with pos show "2 powi (bitlen n - 1) \<le> real_of_int n" "real_of_int n < 2 powi bitlen n"
    by (simp_all add: power_int_def)
qed

lemma binade:
  assumes "0 < n" "0 < d"
  shows "2 powi binade n d \<le> real_of_int n / real_of_int d" "real_of_int n / real_of_int d < 2 powi (binade n d + 1)"
proof -
  define k where "k = bitlen n - bitlen d"
  have test: "d * two_to k \<le> n * two_to (- k) \<longleftrightarrow> 2 powi k \<le> real_of_int n / real_of_int d"
  proof -
    have "d * two_to k \<le> n * two_to (- k) \<longleftrightarrow> real_of_int d * real_of_int (two_to k) \<le> real_of_int n * real_of_int (two_to (- k))"
      by (simp only: of_int_mult [symmetric] of_int_le_iff)
    also have "\<dots> \<longleftrightarrow> 2 powi k \<le> real_of_int n / real_of_int d"
      using assms(2) by (simp add: two_to_quotient [symmetric] field_simps)
    finally show ?thesis .
  qed
  have split: "2 powi k = 2 powi (bitlen n - 1) / (2 powi (bitlen d - 1) :: real)"
    "2 powi (k + 1) = 2 powi bitlen n / (2 powi (bitlen d - 1) :: real)"
    "2 powi (k - 1) = 2 powi (bitlen n - 1) / (2 powi bitlen d :: real)"
    by (simp_all add: k_def flip: power_int_diff) (simp_all add: algebra_simps)
  have lo: "2 powi (k - 1) \<le> real_of_int n / real_of_int d"
    unfolding split using bitlen_real [OF assms(1)] bitlen_real [OF assms(2)] assms by (intro frac_le) auto
  have hi: "real_of_int n / real_of_int d < 2 powi (k + 1)"
    unfolding split using bitlen_real [OF assms(1)] bitlen_real [OF assms(2)] assms
    by (intro frac_less) auto
  show "2 powi binade n d \<le> real_of_int n / real_of_int d" "real_of_int n / real_of_int d < 2 powi (binade n d + 1)"
    using lo hi test by (auto simp: binade_def bit_length_eq k_def [symmetric] Let_def)
qed

section \<open>Doubles\<close>

text \<open>The one form of a finite double.\<close>

fun is_double :: "pyfloat \<Rightarrow> bool" where
  "is_double (Fin s m e) \<longleftrightarrow>
     0 \<le> m \<and> m < 2 ^ 53 \<and> least_exponent \<le> e \<and> e \<le> greatest_exponent \<and> (2 ^ 52 \<le> m \<or> e = least_exponent)"
| "is_double _ \<longleftrightarrow> True"

fun value_of :: "pyfloat \<Rightarrow> real" where
  "value_of (Fin s m e) = (if s then - 1 else 1) * (real_of_int m * 2 powi e)"
| "value_of _ = 0"

fun is_finite :: "pyfloat \<Rightarrow> bool" where
  "is_finite (Fin s m e) \<longleftrightarrow> True"
| "is_finite _ \<longleftrightarrow> False"

lemma mantissa_near:
  assumes "0 \<le> n" "0 < d"
  shows "\<bar>real_of_int (mantissa_of n d) - real_of_int n / real_of_int d / 2 powi exponent_of n d\<bar> \<le> 1 / 2"
proof -
  have "0 < d * two_to (exponent_of n d)" using assms by (intro mult_pos_pos) simp_all
  from half_even_near [OF this] show ?thesis unfolding mantissa_of_def two_to_scale [symmetric] .
qed

text \<open>Above the least exponent the quotient has all of the 53 bits.\<close>

lemma exponent_bounds:
  assumes "0 < n" "0 < d"
  shows "real_of_int n / real_of_int d < 2 powi (exponent_of n d + 53)"
    "exponent_of n d = least_exponent \<or> 2 powi (exponent_of n d + 52) \<le> real_of_int n / real_of_int d"
proof -
  have "real_of_int n / real_of_int d < 2 powi (binade n d + 1)" by (rule binade(2) [OF assms])
  also have "\<dots> \<le> 2 powi (exponent_of n d + 53)"
    by (rule power_int_increasing) (simp_all add: exponent_of_def)
  finally show "real_of_int n / real_of_int d < 2 powi (exponent_of n d + 53)" .
  show "exponent_of n d = least_exponent \<or> 2 powi (exponent_of n d + 52) \<le> real_of_int n / real_of_int d"
    using binade(1) [OF assms] by (auto simp: exponent_of_def max_def)
qed

lemma mantissa_bounds:
  assumes "0 \<le> n" "0 < d"
  shows "0 \<le> mantissa_of n d" "mantissa_of n d \<le> 2 ^ 53"
    "exponent_of n d = least_exponent \<or> n = 0 \<or> 2 ^ 52 \<le> mantissa_of n d"
proof -
  define x where "x = real_of_int n / real_of_int d / 2 powi exponent_of n d"
  note near = mantissa_near [OF assms, folded x_def]
  have "0 \<le> x" using assms by (simp add: x_def)
  with near have "- 1 < real_of_int (mantissa_of n d)" by linarith
  then show "0 \<le> mantissa_of n d" by linarith
  show "mantissa_of n d \<le> 2 ^ 53"
  proof (cases "n = 0")
    case True
    then have "x = 0" by (simp add: x_def)
    with near have "real_of_int (mantissa_of n d) < real_of_int (2 ^ 53 + 1)" by simp
    then show ?thesis by linarith
  next
    case False
    with exponent_bounds(1) [of n d] assms have "x < 2 ^ 53"
      by (simp add: x_def power_int_add divide_less_eq mult.commute)
    with near have "real_of_int (mantissa_of n d) < real_of_int (2 ^ 53 + 1)" by (simp only: abs_le_iff) simp
    then show ?thesis by linarith
  qed
  show "exponent_of n d = least_exponent \<or> n = 0 \<or> 2 ^ 52 \<le> mantissa_of n d"
  proof (cases "exponent_of n d = least_exponent \<or> n = 0")
    case False
    with exponent_bounds(2) [of n d] assms have "2 ^ 52 \<le> x"
      by (auto simp: x_def power_int_add le_divide_eq mult.commute)
    with near have "real_of_int (2 ^ 52 - 1) < real_of_int (mantissa_of n d)" by (simp only: abs_le_iff) simp
    then show ?thesis by linarith
  qed auto
qed

lemma mantissa_zero: "0 < d \<Longrightarrow> mantissa_of 0 d = 0"
  by (simp add: mantissa_of_def half_even_def)

lemma nearest_is_double:
  assumes "0 \<le> n" "0 < d"
  shows "is_double (nearest s n d)"
proof -
  have least: "least_exponent \<le> exponent_of n d" by (simp add: exponent_of_def)
  with mantissa_bounds [OF assms] mantissa_zero [OF assms(2)] least show ?thesis
    by (auto simp: nearest_def Let_def least_exponent_def greatest_exponent_def)
qed

lemma nearest_value:
  assumes "is_finite (nearest s n d)"
  shows "value_of (nearest s n d) = (if s then - 1 else 1) * (real_of_int (mantissa_of n d) * 2 powi exponent_of n d)"
  using assms by (auto simp: nearest_def Let_def power_int_add split: if_splits)

lemma nearest_error:
  assumes "0 \<le> n" "0 < d" "is_finite (nearest False n d)"
  shows "\<bar>value_of (nearest False n d) - real_of_int n / real_of_int d\<bar> \<le> 2 powi (exponent_of n d - 1)"
proof -
  let ?p = "2 powi exponent_of n d :: real"
  have "\<bar>real_of_int (mantissa_of n d) - real_of_int n / real_of_int d / ?p\<bar> * ?p \<le> 1 / 2 * ?p"
    using mantissa_near [OF assms(1,2)] by (rule mult_right_mono) simp
  also have "\<bar>real_of_int (mantissa_of n d) - real_of_int n / real_of_int d / ?p\<bar> * ?p
      = \<bar>real_of_int (mantissa_of n d) * ?p - real_of_int n / real_of_int d\<bar>"
    by (rule abs_scale) simp
  finally show ?thesis using assms(3) by (simp add: nearest_value power_int_diff)
qed

section \<open>The nearest double\<close>

text \<open>A double with a smaller exponent lies at or below the power of two that begins the binade of the quotient.\<close>

lemma nearest_closest_pos:
  assumes "0 \<le> n" "0 < d" "is_finite (nearest False n d)" "is_double (Fin False m e)"
  shows "\<bar>value_of (nearest False n d) - real_of_int n / real_of_int d\<bar>
    \<le> \<bar>real_of_int m * 2 powi e - real_of_int n / real_of_int d\<bar>"
proof -
  define E where "E = exponent_of n d"
  define x where "x = real_of_int n / real_of_int d"
  have multiple: "\<bar>value_of (nearest False n d) - x\<bar> \<le> \<bar>real_of_int k * 2 powi E - x\<bar>" for k :: int
  proof -
    have "\<bar>real_of_int (mantissa_of n d) - x / 2 powi E\<bar> * 2 powi E \<le> \<bar>real_of_int k - x / 2 powi E\<bar> * 2 powi E"
      using nearest_integer_closest [OF mantissa_near [OF assms(1,2)], of k]
      by (intro mult_right_mono) (simp_all add: x_def E_def)
    then show ?thesis
      using assms(3) by (simp only: nearest_value abs_scale [of "2 powi E"] E_def [symmetric]) (simp add: abs_scale)
  qed
  show ?thesis
  proof (cases "E \<le> e \<or> n = 0")
    case True
    show ?thesis
    proof (cases "n = 0")
      case True
      then have "value_of (nearest False n d) = 0" using mantissa_zero [OF assms(2)] by (simp add: nearest_def)
      with True show ?thesis by simp
    next
      case False
      with True have "E \<le> e" by simp
      then have "real_of_int (two_to (e - E)) = 2 powi (e - E)" by (simp add: two_to_def power_int_def)
      then have "real_of_int m * 2 powi e = real_of_int (m * two_to (e - E)) * 2 powi E"
        by (simp flip: power_int_add)
      with multiple show ?thesis unfolding x_def by metis
    qed
  next
    case False
    with assms(4) have "E \<noteq> least_exponent" by auto
    with exponent_bounds(2) [of n d] assms(1,2) False have start: "2 powi (E + 52) \<le> x" by (simp add: E_def x_def)
    have "real_of_int m * 2 powi e \<le> 2 ^ 53 * 2 powi e"
      using assms(4) by (intro mult_right_mono) simp_all
    also have "\<dots> = 2 powi (e + 53)" by (simp add: power_int_add)
    also have "\<dots> \<le> 2 powi (E + 52)" using False by (intro power_int_increasing) simp_all
    finally have "real_of_int m * 2 powi e \<le> 2 powi (E + 52)" .
    moreover have "\<bar>value_of (nearest False n d) - x\<bar> \<le> x - 2 powi (E + 52)"
      using multiple [of "2 ^ 52"] start by (simp add: power_int_add mult.commute)
    ultimately show ?thesis using start unfolding x_def by linarith
  qed
qed

text \<open>No double of either sign is closer to the exact quotient.\<close>

lemma value_of_sign: "value_of (nearest s n d) = (if s then - 1 else 1) * value_of (nearest False n d)"
  by (simp add: nearest_def Let_def)

lemma finite_sign: "is_finite (nearest s n d) = is_finite (nearest False n d)"
  by (simp add: nearest_def Let_def)

lemma nearest_closest:
  assumes "0 \<le> n" "0 < d" "is_finite (nearest s n d)" "is_double g" "is_finite g"
  shows "\<bar>value_of (nearest s n d) - (if s then - 1 else 1) * (real_of_int n / real_of_int d)\<bar>
    \<le> \<bar>value_of g - (if s then - 1 else 1) * (real_of_int n / real_of_int d)\<bar>"
proof -
  obtain t m e where g: "g = Fin t m e" using assms(5) by (cases g) auto
  define x where "x = real_of_int n / real_of_int d"
  have fin: "is_finite (nearest False n d)" using assms(3) by (simp add: finite_sign [of s])
  have "is_double (Fin False m e)" using assms(4) by (simp add: g)
  from nearest_closest_pos [OF assms(1,2) fin this, folded x_def]
  have pos: "\<bar>value_of (nearest False n d) - x\<bar> \<le> \<bar>real_of_int m * 2 powi e - x\<bar>" .
  have "0 \<le> real_of_int m * 2 powi e" using assms(4) by (simp add: g)
  moreover have "0 \<le> x" using assms(1,2) by (simp add: x_def)
  ultimately have far: "\<bar>real_of_int m * 2 powi e - x\<bar> \<le> \<bar>- (real_of_int m * 2 powi e) - x\<bar>" by linarith
  show ?thesis
    unfolding value_of_sign [of s] g x_def [symmetric] using pos far by (cases s; cases t) simp_all
qed

section \<open>Quotients of integers\<close>

lemma int_of_finite: "int_of_float (Fin False m e) = ret \<lfloor>value_of (Fin False m e)\<rfloor>"
proof -
  have "real_of_int (numer m e) / real_of_int (denom e) = real_of_int m * 2 powi e"
    by (simp add: numer_def denom_def flip: two_to_quotient)
  then have "numer m e div denom e = \<lfloor>real_of_int m * 2 powi e\<rfloor>" by (metis floor_divide_of_int_eq)
  then show ?thesis by simp
qed

text \<open>
  The quotient is a double away from the next integer: half a unit in the last place is below one divided by the
  denominator.
\<close>

lemma quotient_below:
  assumes "0 < a" "a < 2 ^ 53" "0 < b" "is_finite (nearest False a b)"
  shows "value_of (nearest False a b) < real_of_int (a div b + 1)"
proof (rule ccontr)
  define f where "f = value_of (nearest False a b)"
  define x where "x = real_of_int a / real_of_int b"
  define E where "E = exponent_of a b"
  assume "\<not> value_of (nearest False a b) < real_of_int (a div b + 1)"
  then have above: "real_of_int (a div b + 1) \<le> f" by (simp add: f_def)
  have "a < (a div b + 1) * b" using assms(3)
    by (simp add: distrib_right) (metis add.commute add_less_cancel_right mult.commute mult_div_mod_eq pos_mod_bound)
  then have "real_of_int (a + 1) \<le> real_of_int ((a div b + 1) * b)" by (simp only: of_int_le_iff)
  then have gap: "x + 1 / real_of_int b \<le> real_of_int (a div b + 1)"
    using assms(3) by (simp add: x_def field_simps)
  have "f - x \<le> 2 powi (E - 1)" using nearest_error [of a b] assms by (simp add: f_def x_def E_def)
  with above gap have half: "1 / real_of_int b \<le> 2 powi (E - 1)" by linarith
  show False
  proof (cases "E = least_exponent")
    case True
    have "f \<le> 2 ^ 53 * 2 powi E"
      using mantissa_bounds(2) [of a b] assms
      by (simp add: f_def nearest_value E_def)
    also have "\<dots> = 2 powi (E + 53)" by (simp add: power_int_add)
    also have "\<dots> < 2 powi 0" using True by (intro power_int_strict_increasing) (simp_all add: least_exponent_def)
    finally have "f < 1" by simp
    moreover have "1 \<le> real_of_int (a div b + 1)" using assms by (simp add: pos_imp_zdiv_nonneg_iff)
    ultimately show False using above by linarith
  next
    case False
    with exponent_bounds(2) [of a b] assms have "2 powi (E + 52) \<le> x" by (simp add: E_def x_def)
    then have "2 powi (E - 1) * 2 ^ 53 \<le> x"
      by (simp add: power_int_add power_int_diff)
    with mult_right_mono [OF half, of "2 ^ 53"] have "1 / real_of_int b * 2 ^ 53 \<le> real_of_int a / real_of_int b"
      unfolding x_def by simp
    then have "2 ^ 53 \<le> real_of_int a" using assms(3) by (simp add: field_simps)
    then have "real_of_int (2 ^ 53) \<le> real_of_int a" by simp
    with assms(2) show False by linarith
  qed
qed

lemma integer_is_double:
  assumes "0 < k" "k < 2 ^ 53"
  obtains m e where "is_double (Fin False m e)" "value_of (Fin False m e) = real_of_int k"
proof -
  have len: "bitlen k \<le> 53" using assms by (simp add: bitlen_le_iff_power)
  have "2 ^ 52 \<le> k * 2 ^ nat (53 - bitlen k)" "k * 2 ^ nat (53 - bitlen k) < 2 ^ 53"
  proof -
    have pos: "0 < bitlen k" using assms bitlen_nonneg [of k] bitlen_eq_zero_iff [of k] by linarith
    have p: "(2::int) ^ nat (bitlen k - 1) * 2 ^ nat (53 - bitlen k) = 2 ^ 52" "(2::int) ^ nat (bitlen k) * 2 ^ nat (53 - bitlen k) = 2 ^ 53"
      unfolding power_add [symmetric] using len pos by (simp_all flip: nat_add_distrib)
    show "2 ^ 52 \<le> k * 2 ^ nat (53 - bitlen k)" "k * 2 ^ nat (53 - bitlen k) < 2 ^ 53"
      unfolding p [symmetric] using bitlen_bounds [OF assms(1)] by (simp_all add: mult_right_mono)
  qed
  then have "is_double (Fin False (k * 2 ^ nat (53 - bitlen k)) (bitlen k - 53))"
    using len assms(1) bitlen_nonneg [of k] by (simp add: least_exponent_def greatest_exponent_def)
  moreover have "value_of (Fin False (k * 2 ^ nat (53 - bitlen k)) (bitlen k - 53)) = real_of_int k"
  proof -
    have "(2::real) ^ nat (53 - bitlen k) * 2 powi (bitlen k - 53) = 1"
      using len by (cases "bitlen k = 53") (simp_all add: power_int_def divide_simps)
    then show ?thesis by simp
  qed
  ultimately show ?thesis by (rule that)
qed

text \<open>\<open>int(a / b)\<close> is the quotient of the integers while the numerator has 53 bits.\<close>

lemma quotient_finite:
  assumes "0 < a" "a < 2 ^ 53" "0 < b"
  shows "is_finite (nearest False a b)"
proof -
  have "exponent_of a b \<le> 0"
  proof (rule ccontr)
    assume "\<not> exponent_of a b \<le> 0"
    then have "2 powi 53 \<le> (2 powi (exponent_of a b + 52) :: real)" by (intro power_int_increasing) simp_all
    also have "\<dots> \<le> real_of_int a / real_of_int b"
      using exponent_bounds(2) [of a b] assms \<open>\<not> exponent_of a b \<le> 0\<close> by (auto simp: least_exponent_def)
    also have "\<dots> \<le> real_of_int a / 1" using assms by (intro divide_left_mono) simp_all
    finally have "real_of_int (2 ^ 53) \<le> real_of_int a" by simp
    with assms(2) show False by linarith
  qed
  then show ?thesis by (simp add: nearest_def Let_def greatest_exponent_def)
qed

lemma int_div_floor:
  assumes "0 \<le> a" "a < 2 ^ 53" "0 < b"
  shows "rbind (int_div a b) int_of_float = ret (a div b)"
proof (cases "a = 0")
  case True
  with assms show ?thesis
    by (simp add: int_div_def nearest_def mantissa_zero finite_or_overflow_def numer_def)
next
  case False
  with assms have pos: "0 < a" by simp
  note fin = quotient_finite [OF pos assms(2,3)]
  then obtain m e where f: "nearest False a b = Fin False m e" by (auto simp: nearest_def Let_def split: if_splits)
  have "real_of_int (a div b) \<le> value_of (Fin False m e)"
  proof (cases "a div b = 0")
    case True
    have "0 \<le> m" using nearest_is_double [of a b False] assms f by simp
    with True show ?thesis by simp
  next
    case False
    then have q: "0 < a div b" "a div b < 2 ^ 53"
      using assms pos_imp_zdiv_nonneg_iff [of b a] zdiv_mono2 [of a 1 b] by simp_all
    obtain m' e' where g: "is_double (Fin False m' e')" "value_of (Fin False m' e') = real_of_int (a div b)"
      by (rule integer_is_double [OF q])
    then have v: "real_of_int m' * 2 powi e' = real_of_int (a div b)" by simp
    from nearest_closest_pos [OF assms(1,3) fin g(1)]
    have "\<bar>value_of (Fin False m e) - real_of_int a / real_of_int b\<bar> \<le> \<bar>real_of_int (a div b) - real_of_int a / real_of_int b\<bar>"
      unfolding f v .
    moreover have "real_of_int (a div b) \<le> real_of_int a / real_of_int b" by (rule real_of_int_div4)
    ultimately show ?thesis by linarith
  qed
  moreover have "value_of (Fin False m e) < real_of_int (a div b) + 1"
    using quotient_below [OF pos assms(2,3) fin] by (simp add: f)
  ultimately have "\<lfloor>value_of (Fin False m e)\<rfloor> = a div b" by (simp only: floor_unique)
  then have "int_of_float (Fin False m e) = ret (a div b)" by (simp only: int_of_finite)
  then show ?thesis using assms f pos by (simp add: int_div_def finite_or_overflow_def del: int_of_float.simps)
qed

lemma int_div_self:
  assumes "0 < b"
  shows "rbind (int_div b b) int_of_float = ret 1"
proof -
  have e: "exponent_of b b = - 52" using assms by (simp add: exponent_of_def binade_def two_to_def least_exponent_def)
  have m: "mantissa_of b b = 2 ^ 52" using assms by (simp add: mantissa_of_def e two_to_def half_even_def)
  show ?thesis
    using assms by (simp add: int_div_def nearest_def e m greatest_exponent_def finite_or_overflow_def numer_def denom_def two_to_def)
qed

section \<open>Errors of a computation\<close>

text \<open>A bound for the error of one rounding: \<open>2 ^ -53\<close>, relative to the exact result and absolute near zero.\<close>

definition unit_roundoff :: real where "unit_roundoff = 2 powi - 53"

definition off_by :: "real \<Rightarrow> real \<Rightarrow> bool" where
  "off_by v x \<longleftrightarrow> \<bar>v - x\<bar> \<le> (x + 1) * unit_roundoff"

lemma nearest_off_by:
  assumes "0 \<le> n" "0 < d" "is_finite (nearest False n d)"
  shows "off_by (value_of (nearest False n d)) (real_of_int n / real_of_int d)"
proof (cases "n = 0")
  case True
  with assms(2) mantissa_zero show ?thesis by (simp add: nearest_def off_by_def unit_roundoff_def)
next
  case False
  define x where "x = real_of_int n / real_of_int d"
  have x: "0 \<le> x" using assms by (simp add: x_def)
  have "2 powi (exponent_of n d - 1) \<le> (x + 1) * unit_roundoff"
  proof (cases "exponent_of n d = least_exponent")
    case True
    then have "2 powi (exponent_of n d - 1) \<le> unit_roundoff"
      unfolding unit_roundoff_def by (intro power_int_increasing) (simp_all add: least_exponent_def)
    also have "\<dots> \<le> (x + 1) * unit_roundoff" using x by (simp add: distrib_right unit_roundoff_def)
    finally show ?thesis .
  next
    case False
    with exponent_bounds(2) [of n d] assms \<open>n \<noteq> 0\<close> have "2 powi (exponent_of n d + 52) \<le> x" by (simp add: x_def)
    then have "2 powi (exponent_of n d + 52) * unit_roundoff \<le> (x + 1) * unit_roundoff"
      by (intro mult_right_mono) (simp_all add: unit_roundoff_def)
    moreover have "2 powi (exponent_of n d + 52 + - 53) = 2 powi (exponent_of n d + 52) * unit_roundoff"
      unfolding unit_roundoff_def by (rule power_int_add) simp
    ultimately show ?thesis by simp
  qed
  with nearest_error [OF assms] show ?thesis by (simp add: off_by_def x_def)
qed

text \<open>A nonnegative finite double.\<close>

definition nonneg_double :: "pyfloat \<Rightarrow> bool" where
  "nonneg_double f \<longleftrightarrow> is_double f \<and> is_finite f \<and> (case f of Fin s m e \<Rightarrow> \<not> s | _ \<Rightarrow> False)"

lemma nonneg_doubleE:
  assumes "nonneg_double f"
  obtains m e where "f = Fin False m e" "0 \<le> m"
  using assms by (auto simp: nonneg_double_def split: pyfloat.splits)

lemma nonneg_value: "nonneg_double f \<Longrightarrow> 0 \<le> value_of f"
  by (erule nonneg_doubleE) simp

lemma nearest_shape: "nearest s n d = Infinite s \<or> (\<exists>m e. nearest s n d = Fin s m e)"
  by (simp add: nearest_def Let_def)

lemma nearest_nonneg: "0 \<le> n \<Longrightarrow> 0 < d \<Longrightarrow> is_finite (nearest False n d) \<Longrightarrow> nonneg_double (nearest False n d)"
  using nearest_is_double [of n d False] nearest_shape [of False n d] by (auto simp: nonneg_double_def)

lemma fraction_value: "real_of_int (numer m e) / real_of_int (denom e) = real_of_int m * 2 powi e"
  by (simp add: numer_def denom_def flip: two_to_quotient)

lemma denom_pos [simp]: "0 < denom e" "denom e \<noteq> 0"
  by (simp_all add: denom_def)

lemma quot_off_by:
  assumes "nonneg_double f" "nonneg_double g" "0 < value_of g" "is_finite (float_quot f g)"
  shows "off_by (value_of (float_quot f g)) (value_of f / value_of g)" "nonneg_double (float_quot f g)"
proof -
  obtain m e where f: "f = Fin False m e" "0 \<le> m" by (rule nonneg_doubleE [OF assms(1)])
  obtain m' e' where g: "g = Fin False m' e'" "0 \<le> m'" by (rule nonneg_doubleE [OF assms(2)])
  have m': "0 < m'" using assms(3) g by (cases "m' = 0") simp_all
  have q: "float_quot f g = nearest False (numer m e * denom e') (denom e * numer m' e')" by (simp add: f g)
  have pos: "0 \<le> numer m e * denom e'" "0 < denom e * numer m' e'"
    using f m' by (auto simp: numer_def intro!: mult_nonneg_nonneg mult_pos_pos less_imp_le [OF denom_pos(1)])
  have "real_of_int (numer m e * denom e') / real_of_int (denom e * numer m' e')
      = (real_of_int (numer m e) / real_of_int (denom e)) / (real_of_int (numer m' e') / real_of_int (denom e'))"
    by simp
  then have v: "real_of_int (numer m e * denom e') / real_of_int (denom e * numer m' e') = value_of f / value_of g"
    by (simp only: fraction_value) (simp add: f g)
  show "off_by (value_of (float_quot f g)) (value_of f / value_of g)" "nonneg_double (float_quot f g)"
    using nearest_off_by [OF pos] nearest_nonneg [OF pos] assms(4) by (simp_all only: q v)
qed

lemma mul_off_by:
  assumes "nonneg_double f" "nonneg_double g" "is_finite (float_mul f g)"
  shows "off_by (value_of (float_mul f g)) (value_of f * value_of g)" "nonneg_double (float_mul f g)"
proof -
  obtain m e where f: "f = Fin False m e" "0 \<le> m" by (rule nonneg_doubleE [OF assms(1)])
  obtain m' e' where g: "g = Fin False m' e'" "0 \<le> m'" by (rule nonneg_doubleE [OF assms(2)])
  have q: "float_mul f g = nearest False (numer m e * numer m' e') (denom e * denom e')" by (simp add: f g)
  have pos: "0 \<le> numer m e * numer m' e'" "0 < denom e * denom e'"
    using f g by (auto simp: numer_def intro!: mult_nonneg_nonneg mult_pos_pos)
  have "real_of_int (numer m e * numer m' e') / real_of_int (denom e * denom e')
      = (real_of_int (numer m e) / real_of_int (denom e)) * (real_of_int (numer m' e') / real_of_int (denom e'))"
    by simp
  then have v: "real_of_int (numer m e * numer m' e') / real_of_int (denom e * denom e') = value_of f * value_of g"
    by (simp only: fraction_value) (simp add: f g)
  show "off_by (value_of (float_mul f g)) (value_of f * value_of g)" "nonneg_double (float_mul f g)"
    using nearest_off_by [OF pos] nearest_nonneg [OF pos] assms(3) by (simp_all only: q v)
qed

lemma float_of_int_exact:
  assumes "0 < k" "k < 2 ^ 53"
  obtains f where "float_of_int k = Inr f" "nonneg_double f" "value_of f = real_of_int k"
proof -
  have fin: "is_finite (nearest False k 1)" by (rule quotient_finite) (use assms in simp_all)
  obtain m e where g: "is_double (Fin False m e)" "value_of (Fin False m e) = real_of_int k"
    by (rule integer_is_double [OF assms])
  from nearest_closest_pos [OF _ _ fin g(1)] assms g(2) have "value_of (nearest False k 1) = real_of_int k" by simp
  moreover have "float_of_int k = Inr (nearest False k 1)"
    using fin assms by (auto simp: float_of_int_def finite_or_overflow_def split: pyfloat.splits)
  moreover have "nonneg_double (nearest False k 1)" using fin assms by (intro nearest_nonneg) simp_all
  ultimately show ?thesis by (intro that)
qed

lemma int_of_nonneg: "nonneg_double f \<Longrightarrow> int_of_float f = ret \<lfloor>value_of f\<rfloor>"
  by (erule nonneg_doubleE) (simp only: int_of_finite)

section \<open>Reading\<close>

lemma parse_digits_nonneg: "parse_digits b acc need s = Some v \<Longrightarrow> 0 \<le> b \<Longrightarrow> 0 \<le> acc \<Longrightarrow> 0 \<le> v"
proof (induction b acc need s rule: parse_digits.induct)
  case (2 b acc need c cs)
  have "0 \<le> d" if "digit_val c = Some d" for d
    using that by (auto simp: digit_val_def is_digit_def is_lower_def is_upper_def split: if_splits)
  with 2 show ?case by (auto split: if_splits option.splits)
qed (auto split: if_splits)

lemma read_fraction_sign: "read_fraction u = Some (n, d) \<Longrightarrow> 0 \<le> n \<and> 0 < d"
  by (auto simp: read_fraction_def Let_def opt_digits_def split: prod.splits if_splits option.splits list.splits
      dest!: parse_digits_nonneg intro!: mult_nonneg_nonneg add_nonneg_nonneg)

text \<open>The exact value of a text without a sign.\<close>

definition exact_value :: "string \<Rightarrow> (int \<times> int) option" where
  "exact_value t = (let (s, u) = read_sign (strip t) in if s then None else read_fraction u)"

lemma read_fraction_word: "read_fraction u = Some x \<Longrightarrow> lower u \<notin> {''inf'', ''infinity'', ''nan''}"
proof -
  have "read_fraction u = None" if "to_lower c \<in> {CHR ''i'', CHR ''n''}" "u = c # cs" for c cs
  proof -
    have "\<not> is_digit c" "c \<noteq> CHR ''_''" "c \<noteq> CHR ''.''"
      using that(1) by (auto simp: to_lower_def is_digit_def is_upper_def split: if_splits)
    with that(2) show ?thesis by (simp add: read_fraction_def span_digits_def)
  qed
  then show "read_fraction u = Some x \<Longrightarrow> ?thesis" by (cases u) (auto simp: lower_def)
qed

lemma py_float_exact:
  assumes "exact_value t = Some (n, d)"
  shows "py_float t = Inr (nearest False n d)" "0 \<le> n" "0 < d"
proof -
  obtain u where u: "read_sign (strip t) = (False, u)" "read_fraction u = Some (n, d)"
    using assms by (auto simp: exact_value_def split: prod.splits if_splits)
  with read_fraction_word [OF u(2)] show "py_float t = Inr (nearest False n d)" by (simp add: py_float_def)
  show "0 \<le> n" "0 < d" using read_fraction_sign [OF u(2)] by simp_all
qed

end
