(* ===== verification/Boot_Facts.thy ===== *)
theory Boot_Facts
  imports Boot_Rom Py_Float_Facts
begin

text \<open>
  What the two files of the boot ROM generator say: the same memory, word by word, as a C compiler and
  as a SystemVerilog tool read them.
\<close>

section \<open>Padding\<close>

text \<open>The script computes \<open>int((len + 7) / 8)\<close> with floating point numbers, which is the integer quotient of the model.\<close>

lemma padding_exact:
  assumes "int (length rom) + 7 < 2 ^ 53"
  shows "rbind (int_div (int (length rom) + 7) 8) int_of_float = Inr (int ((length rom + 7) div 8))"
proof -
  have "int ((length rom + 7) div 8) = (int (length rom) + 7) div 8" by (simp add: zdiv_int)
  with int_div_floor [OF _ assms, of 8] show ?thesis by simp
qed

section \<open>Hexadecimal text\<close>

abbreviation big_endian :: "int \<Rightarrow> 8 word list \<Rightarrow> int" where
  "big_endian acc bs \<equiv> foldl (\<lambda>a b. a * 256 + uint b) acc bs"

lemma big_endian_rev: "big_endian acc (rev bs) = acc * 256 ^ length bs + horner_sum uint 256 bs"
  by (induction bs arbitrary: acc) (simp_all add: algebra_simps)

lemma unat_byte: "unat (b :: 8 word) div 16 < 16"
  using unsigned_less [of b, where ?'a = nat] by simp

lemma parse_hex2:
  "parse_digits 16 acc need (hex2 b @ rest) = parse_digits 16 (acc * 256 + uint b) False rest"
proof -
  have "int (unat b div 16) * 16 + int (unat b mod 16) = uint b"
    by (metis div_mult_mod_eq of_nat_add of_nat_mult of_nat_numeral uint_nat)
  then have v: "(acc * 16 + int (unat b div 16)) * 16 + int (unat b mod 16) = acc * 256 + uint b" by simp
  have "int (unat b div 16) < 16" "int (unat b mod 16) < 16" using unat_byte [of b] by linarith+
  then show ?thesis
    unfolding v [symmetric] using unat_byte [of b]
    by (simp add: hex2_def digit_val_digit_char digit_char_plain)
qed

lemma parse_hex_bytes:
  "bs \<noteq> [] \<or> \<not> need \<Longrightarrow>
    parse_digits 16 acc need (hex_bytes bs @ rest) = parse_digits 16 (big_endian acc bs) False rest"
proof (induction bs arbitrary: acc need)
  case (Cons b bs)
  then show ?case by (simp add: hex_bytes_def parse_hex2 del: append_assoc) (simp add: parse_hex2)
qed (simp add: hex_bytes_def)

definition hex_char :: "char \<Rightarrow> bool" where
  "hex_char c \<longleftrightarrow> (\<exists>d<16. c = digit_char d)"

lemma hex_char_plain:
  assumes "hex_char c"
  shows "c \<noteq> CHR ''_''" "c \<noteq> CHR ''-''" "c \<noteq> CHR ''+''" "c \<noteq> CHR ''x''" "c \<noteq> CHR ''X''" "\<not> is_space c"
    "c \<noteq> newline" "c \<noteq> CHR '',''"
proof -
  from assms obtain d where d: "d < 16" "c = digit_char d" by (auto simp: hex_char_def)
  have "is_space newline" "digit_val (CHR '','') = None" by code_simp+
  with digit_char_plain(6) [OF d(1)] digit_val_digit_char [OF d(1)] have "c \<noteq> newline" "c \<noteq> CHR '',''"
    by (auto simp: d(2) [symmetric])
  then show "c \<noteq> CHR ''_''" "c \<noteq> CHR ''-''" "c \<noteq> CHR ''+''" "c \<noteq> CHR ''x''" "c \<noteq> CHR ''X''" "\<not> is_space c"
    "c \<noteq> newline" "c \<noteq> CHR '',''"
    using digit_char_plain [OF d(1)] by (simp_all add: d(2))
qed

lemma hex_char_digit: "d < 16 \<Longrightarrow> hex_char (digit_char d)"
  by (auto simp: hex_char_def)

lemma hex_bytes_chars: "c \<in> set (hex_bytes bs) \<Longrightarrow> hex_char c"
proof -
  assume "c \<in> set (hex_bytes bs)"
  then obtain b :: "8 word" where "c = digit_char (unat b div 16) \<or> c = digit_char (unat b mod 16)"
    by (auto simp: hex_bytes_def hex2_def)
  moreover have "unat b mod 16 < 16" by simp
  ultimately show ?thesis using unat_byte [of b] hex_char_digit by blast
qed

lemma hex_bytes_shape:
  assumes "bs \<noteq> []"
  shows "\<exists>c d s. hex_bytes bs = c # d # s \<and> hex_char c \<and> hex_char d \<and> hex_char (last (c # d # s))"
proof -
  obtain c d s where s: "hex_bytes bs = c # d # s" using assms by (cases bs) (simp_all add: hex_bytes_def hex2_def)
  have "hex_char x" if "x \<in> set (c # d # s)" for x using hex_bytes_chars [of x bs] that s by simp
  moreover have "last (c # d # s) \<in> set (c # d # s)" by (rule last_in_set) simp
  ultimately show ?thesis using s by (metis list.set_intros)
qed

section \<open>Reading the arrays\<close>

text \<open>The initialisers of an array: the lines without their commas.\<close>

definition entries :: "string \<Rightarrow> string list" where
  "entries s = (if s = [] then [] else map (rstrip_chars '','') (split_char newline s))"

text \<open>A C compiler reads \<open>0x\<close> and digits; a SystemVerilog tool a width, a base and digits with underscores.\<close>

definition read_c :: "string \<Rightarrow> int result" where
  "read_c s = py_int 16 s"

definition read_sv :: "string \<Rightarrow> int result" where
  "read_sv s = (if starts_with ''64'h'' (strip s) then py_int 16 (drop 4 (strip s)) else raise ValueError)"

section \<open>The lines of the arrays\<close>

lemma foldl_add: "foldl (\<lambda>s i. s @ f i) a xs = a @ concat (map f xs)"
  by (induction xs arbitrary: a) simp_all

lemma drop_last_separator: "drop_last2 (concat (map (\<lambda>i. f i @ [a, b]) xs)) = join [a, b] (map f xs)"
proof -
  have "concat (map (\<lambda>i. f i @ [a, b]) xs) = (if xs = [] then [] else join [a, b] (map f xs) @ [a, b])"
    by (induction xs) (simp_all add: join_Cons)
  then show ?thesis by (simp add: drop_last2_def)
qed

definition plain_entry :: "string \<Rightarrow> bool" where
  "plain_entry w \<longleftrightarrow> w \<noteq> [] \<and> newline \<notin> set w \<and> last w \<noteq> CHR '',''"

lemma strip_comma: "plain_entry w \<Longrightarrow> rstrip_chars '','' w = w" "plain_entry w \<Longrightarrow> rstrip_chars '','' (w @ '','') = w"
  by (cases w rule: rev_cases; simp add: plain_entry_def rstrip_chars_def)+

lemma entries_join:
  assumes "\<forall>w \<in> set ws. plain_entry w"
  shows "entries (join [CHR '','', newline] ws) = ws"
proof -
  have nl: "CHR '','' \<noteq> newline" by code_simp
  have "ws \<noteq> [] \<Longrightarrow> map (rstrip_chars '','') (split_char newline (join [CHR '','', newline] ws)) = ws"
    using assms
  proof (induction "[CHR '','', newline]" ws rule: join.induct)
    case (2 w)
    then show ?case by (simp add: split_char_no plain_entry_def) (simp add: strip_comma(1) plain_entry_def)
  next
    case (3 w v ws)
    then have "newline \<notin> set (w @ '','')" using nl by (auto simp: plain_entry_def)
    from split_char_append [OF this] have "split_char newline (w @ [CHR '','', newline] @ rest) = (w @ '','') # split_char newline rest"
      for rest by simp
    with 3 show ?case by (simp add: strip_comma)
  qed simp
  moreover have "join [CHR '','', newline] ws = [] \<longleftrightarrow> ws = []"
    using assms by (cases ws; cases "tl ws") (auto simp: plain_entry_def)
  ultimately show ?thesis by (simp add: entries_def)
qed

section \<open>The words\<close>

lemma hex_plain:
  assumes "bs \<noteq> []" "newline \<notin> set p"
  shows "plain_entry (p @ hex_bytes bs)"
proof -
  from hex_bytes_shape [OF assms(1)] obtain c d s where
    s: "hex_bytes bs = c # d # s" "hex_char (last (c # d # s))" by blast
  have "newline \<notin> set (hex_bytes bs)" using hex_bytes_chars hex_char_plain(7) by blast
  with s assms(2) hex_char_plain(8) [OF s(2)] show ?thesis by (auto simp: plain_entry_def)
qed

lemma lstrip_space: "strip (CHR '' '' # s) = strip s"
  by (simp add: strip_def lstrip_def is_space_def)

lemma read_c_entry:
  assumes "bs \<noteq> []"
  shows "read_c (''    0x'' @ hex_bytes (rev bs)) = Inr (horner_sum uint 256 bs)"
proof -
  from hex_bytes_shape [of "rev bs"] assms obtain c d s where
    s: "hex_bytes (rev bs) = c # d # s" "hex_char c" "hex_char (last (c # d # s))" by auto
  have "strip (''    0x'' @ hex_bytes (rev bs)) = ''0x'' @ hex_bytes (rev bs)"
    unfolding append_Cons append_Nil lstrip_space
    by (rule strip_id) (use s hex_char_plain(6) [OF s(3)] in simp_all)
  moreover have "parse_magnitude 16 (''0x'' @ hex_bytes (rev bs)) = parse_digits 16 0 True (hex_bytes (rev bs) @ [])"
    using s hex_char_plain(1) [OF s(2)] by (simp add: parse_magnitude_def prefix_chars_def)
  moreover have "\<dots> = Some (horner_sum uint 256 bs)"
    using assms by (subst parse_hex_bytes) (simp_all add: big_endian_rev)
  ultimately show ?thesis by (simp add: read_c_def py_int_def)
qed

lemma read_sv_entry:
  assumes "bs \<noteq> []" "cs \<noteq> []"
  shows "read_sv (''        64'h'' @ hex_bytes (rev cs) @ ''_'' @ hex_bytes (rev bs)) = Inr (horner_sum uint 256 (bs @ cs))"
proof -
  let ?x = "hex_bytes (rev cs) @ ''_'' @ hex_bytes (rev bs)"
  from hex_bytes_shape [of "rev cs"] assms obtain c d s where
    c: "hex_bytes (rev cs) = c # d # s" "hex_char c" "hex_char d" by auto
  from hex_bytes_shape [of "rev bs"] assms obtain c' d' s' where
    b: "hex_bytes (rev bs) = c' # d' # s'" "hex_char (last (c' # d' # s'))" by auto
  have "\<not> is_space (CHR ''6'')" by code_simp
  then have st: "strip (''        64'h'' @ ?x) = ''64'h'' @ ?x"
    unfolding append_Cons append_Nil lstrip_space
    by (intro strip_id) (use b hex_char_plain(6) [OF b(2)] in simp_all)
  have x: "strip ?x = ?x"
    by (rule strip_id) (use b c hex_char_plain(6) [OF b(2)] hex_char_plain(6) [OF c(2)] in simp_all)
  have "parse_magnitude 16 ?x = parse_digits 16 0 True ?x"
    using hex_char_plain [OF c(3)] by (simp add: c(1) parse_magnitude_def prefix_chars_def)
  also have "\<dots> = parse_digits 16 (big_endian 0 (rev cs)) True (hex_bytes (rev bs) @ [])"
    using assms by (subst parse_hex_bytes) simp_all
  also have "\<dots> = Some (big_endian (big_endian 0 (rev cs)) (rev bs))"
    using assms by (subst parse_hex_bytes) simp_all
  also have "big_endian (big_endian 0 (rev cs)) (rev bs) = horner_sum uint 256 (bs @ cs)"
    by (simp only: big_endian_rev horner_sum_append) simp
  finally have "py_int 16 ?x = Inr (horner_sum uint 256 (bs @ cs))"
    using hex_char_plain [OF c(2)] x by (simp add: py_int_def c(1))
  then show ?thesis unfolding read_sv_def st by simp
qed

lemma read_bin_pads: "read_bin img = img @ replicate (((length img + 7) div 8) * 8 - length img) 0"
proof -
  have "foldl (\<lambda>rom i. rom @ [0]) img xs = img @ replicate (length xs) 0" for xs :: "nat list"
    by (induction xs arbitrary: img) (simp_all add: replicate_append_same [symmetric])
  then show ?thesis by (simp add: read_bin_def Let_def)
qed

lemma slice_rev:
  assumes "a \<le> b" "b \<le> length xs"
  shows "byte_slice a b (rev xs) = rev (take (b - a) (drop (length xs - b) xs))"
  using assms by (simp add: byte_slice_def take_rev drop_rev)

lemma slice_take: "byte_slice a b xs = take (b - a) (drop a xs)"
  by (simp add: byte_slice_def drop_take)

lemma rev_map_upt: "rev (map f [0..<n]) = map (\<lambda>i. f (n - 1 - i)) [0..<n]"
  by (rule nth_equalityI) (simp_all add: rev_nth)

definition le_value :: "8 word list \<Rightarrow> int" where
  "le_value bs = horner_sum uint 256 bs"

lemma h_words:
  assumes "length rom = 8 * n"
  shows "mapR read_c (entries (h_content rom)) = Inr (map (\<lambda>i. le_value (take 4 (drop (4 * i) rom))) [0..<2 * n])"
proof -
  let ?item = "\<lambda>i. ''    0x'' @ hex_bytes (rev (take 4 (drop (4 * i) rom)))"
  have ne: "take 4 (drop (4 * i) rom) \<noteq> []" if "i < 2 * n" for i using that assms by simp
  have "newline \<notin> set ''    0x''" by code_simp
  then have plain: "\<forall>w \<in> set (map ?item [0..<2 * n]). plain_entry w"
    using ne by (auto intro!: hex_plain simp del: append_Cons)
  have "h_content rom = join [CHR '','', newline] (map ?item [0..<2 * n])"
    using drop_last_separator [of ?item "CHR '',''" newline "[0..<2 * n]"] assms
    by (simp add: h_content_def foldl_add slice_take mult.commute)
  then show ?thesis
    unfolding le_value_def using plain ne
    by (simp only: entries_join) (rule mapR_map_total, simp add: read_c_entry del: append_Cons)
qed

lemma sv_words:
  assumes "length rom = 8 * n"
  shows "mapR read_sv (entries (sv_content rom)) = Inr (rev (map (\<lambda>i. le_value (take 8 (drop (8 * i) rom))) [0..<n]))"
proof -
  let ?lo = "\<lambda>k. take 4 (drop (8 * k) rom)" and ?hi = "\<lambda>k. take 4 (drop (8 * k + 4) rom)"
  have both: "?lo k @ ?hi k = take 8 (drop (8 * k) rom)" for k
    using take_add [of 4 4 "drop (8 * k) rom"] by (simp add: add.commute)
  let ?item = "\<lambda>i. ''        64'h'' @ hex_bytes (rev (?hi (n - 1 - i))) @ ''_'' @ hex_bytes (rev (?lo (n - 1 - i)))"
  have ne: "?lo (n - 1 - i) \<noteq> []" "?hi (n - 1 - i) \<noteq> []" if "i < n" for i using that assms by auto
  have sl: "byte_slice (i * 8) (i * 8 + 4) (rev rom) = rev (?hi (n - 1 - i))"
    "byte_slice (i * 8 + 4) (i * 8 + 8) (rev rom) = rev (?lo (n - 1 - i))" if "i < n" for i
  proof -
    have "8 * n - (i * 8 + 4) = 8 * (n - 1 - i) + 4" "8 * n - (i * 8 + 8) = 8 * (n - 1 - i)" using that by auto
    then show "byte_slice (i * 8) (i * 8 + 4) (rev rom) = rev (?hi (n - 1 - i))"
      "byte_slice (i * 8 + 4) (i * 8 + 8) (rev rom) = rev (?lo (n - 1 - i))"
      using that assms by (simp_all add: slice_rev)
  qed
  have "plain_entry ((''        64'h'' @ hex_bytes (rev cs) @ ''_'') @ hex_bytes (rev bs))" if "bs \<noteq> []" for bs cs
  proof (rule hex_plain)
    have "newline \<notin> set ''        64'h''" "newline \<notin> set ''_''" by code_simp+
    then show "newline \<notin> set (''        64'h'' @ hex_bytes (rev cs) @ ''_'')"
      using hex_bytes_chars hex_char_plain(7) unfolding set_append by blast
  qed (use that in simp)
  then have plain: "\<forall>w \<in> set (map ?item [0..<n]). plain_entry w"
    using ne by (auto simp del: append_Cons)
  have "sv_content rom = drop_last2 (concat (map (\<lambda>i. ?item i @ [CHR '','', newline]) [0..<n]))"
    unfolding sv_content_def Let_def foldl_add append_Nil length_rev assms
    by (intro arg_cong [of _ _ drop_last2] arg_cong [of _ _ concat]) (simp add: sl append_assoc del: append_Cons)
  then have "sv_content rom = join [CHR '','', newline] (map ?item [0..<n])"
    by (simp only: drop_last_separator)
  then have "mapR read_sv (entries (sv_content rom)) = mapR read_sv (map ?item [0..<n])"
    using plain by (simp only: entries_join)
  also have "\<dots> = Inr (map (\<lambda>i. le_value (?lo (n - 1 - i) @ ?hi (n - 1 - i))) [0..<n])"
    unfolding le_value_def using ne by (intro mapR_map_total read_sv_entry) simp_all
  finally show ?thesis unfolding both rev_map_upt .
qed

lemma le_halves:
  "le_value (take 8 (drop (8 * i) rom)) =
    le_value (take 4 (drop (4 * (2 * i)) rom)) + 2 ^ 32 * le_value (take 4 (drop (4 * (2 * i + 1)) rom))"
  if "8 * i + 8 \<le> length rom"
proof -
  have "take 8 (drop (8 * i) rom) = take 4 (drop (8 * i) rom) @ take 4 (drop (8 * i + 4) rom)"
    using take_add [of 4 4 "drop (8 * i) rom"] by (simp add: add.commute)
  then show ?thesis using that by (simp add: le_value_def horner_sum_append add.commute)
qed

lemma mapR_append: "mapR f (xs @ ys) = rbind (mapR f xs) (\<lambda>a. rbind (mapR f ys) (\<lambda>b. ret (a @ b)))"
  by (induction xs) (auto simp: rbind_assoc)

section \<open>The files\<close>

definition fills :: "string list \<Rightarrow> piece list \<Rightarrow> bool" where
  "fills vs ps = list_all (\<lambda>p. case p of Plain c \<Rightarrow> True | Ident v \<Rightarrow> v \<in> set vs | Stray \<Rightarrow> False) ps"

lemma fills_mapR: "fills (map fst env) ps \<Longrightarrow> \<exists>ss. mapR (put_piece env) ps = Inr ss"
proof (induction ps)
  case (Cons p ps)
  then obtain ss where "mapR (put_piece env) ps = Inr ss" by (auto simp: fills_def)
  moreover have "\<exists>s. put_piece env p = Inr s"
    using Cons.prems by (cases p) (auto simp: fills_def put_piece_def dest!: weak_map_of_SomeI)
  ultimately show ?case by auto
qed simp

lemma substitute_around:
  assumes "fills (map fst env) (pieces t)" "Ident v \<in> set (pieces t)" "map_of env v = Some x"
  shows "\<exists>a b. substitute t env = Inr (a @ x @ b)"
proof -
  from assms(2) obtain p q where pq: "pieces t = p @ Ident v # q" by (auto dest: split_list)
  with assms(1) have "fills (map fst env) p" "fills (map fst env) q" by (simp_all add: fills_def)
  then obtain a b where "mapR (put_piece env) p = Inr a" "mapR (put_piece env) q = Inr b"
    using fills_mapR by blast
  then have "substitute t env = Inr (concat a @ x @ concat b)"
    using assms(3) by (simp add: substitute_def pq put_piece_def mapR_append)
  then show ?thesis by blast
qed

lemma templates_filled:
  "fills [''filename'', ''size'', ''content''] (pieces module_template)" "Ident ''content'' \<in> set (pieces module_template)"
  "fills [''filename'', ''size'', ''content''] (pieces c_var)" "Ident ''content'' \<in> set (pieces c_var)"
  by code_simp+

lemma generated:
  "\<exists>a b. generate_sv filename rom = Inr (a @ sv_content rom @ b)"
  "\<exists>a b. generate_h filename rom = Inr (a @ h_content rom @ b)"
proof -
  let ?env = "\<lambda>k c. [(''filename'', filename), (''size'', py_str (int (length rom div k))), (''content'', c)]"
  have keys: "map fst (?env k c) = [''filename'', ''size'', ''content'']" for k c by simp
  from substitute_around [of "?env 8 (sv_content rom)" module_template, unfolded keys, OF templates_filled(1,2)]
  show "\<exists>a b. generate_sv filename rom = Inr (a @ sv_content rom @ b)"
    by (auto simp: generate_sv_def) (metis append_assoc)
  from substitute_around [of "?env 4 (h_content rom)" c_var, unfolded keys, OF templates_filled(3,4)]
  show "\<exists>a b. generate_h filename rom = Inr (a @ h_content rom @ b)"
    by (simp add: generate_h_def)
qed

text \<open>
  C27: Both files of a run hold the image, filled with zeros to whole 64-bit words, and they agree: the array
  of the C header is the list of its little-endian 32-bit words, and the array of the SystemVerilog
  module, whose first initialiser is the highest word, is the list of the pairs of these.
\<close>

theorem boot_files_agree:
  assumes "boot_main files file = Inr out"
  shows "\<exists>img hs a b c d. files (splitext_root file @ ''.img'') = Some img
    \<and> read_bin img = img @ replicate (8 * ((length img + 7) div 8) - length img) 0
    \<and> out = [(splitext_root file @ ''.sv'', a @ sv_content (read_bin img) @ b),
             (splitext_root file @ ''.h'', c @ h_content (read_bin img) @ d)]
    \<and> hs = map (\<lambda>i. le_value (take 4 (drop (4 * i) (read_bin img)))) [0..<2 * ((length img + 7) div 8)]
    \<and> mapR read_c (entries (h_content (read_bin img))) = Inr hs
    \<and> mapR read_sv (entries (sv_content (read_bin img))) =
        Inr (rev (map (\<lambda>i. hs ! (2 * i) + 2 ^ 32 * hs ! (2 * i + 1)) [0..<(length img + 7) div 8]))"
proof -
  let ?root = "splitext_root file"
  from assms obtain img sv h where run: "files (?root @ ''.img'') = Some img"
    "generate_sv ?root (read_bin img) = Inr sv" "generate_h ?root (read_bin img) = Inr h"
    "out = [(?root @ ''.sv'', sv), (?root @ ''.h'', h)]"
    by (auto simp: boot_main_def boot_parse_def Let_def split: if_splits)
  obtain a b c d where files: "sv = a @ sv_content (read_bin img) @ b" "h = c @ h_content (read_bin img) @ d"
    using generated [of ?root "read_bin img"] run(2,3) by auto
  define n where "n = (length img + 7) div 8"
  have rom: "read_bin img = img @ replicate (8 * n - length img) 0" by (simp add: read_bin_pads n_def mult.commute)
  have "length img \<le> 8 * n" by (simp add: n_def)
  then have len: "length (read_bin img) = 8 * n" by (simp add: rom)
  let ?hs = "map (\<lambda>i. le_value (take 4 (drop (4 * i) (read_bin img)))) [0..<2 * n]"
  have "map (\<lambda>i. le_value (take 8 (drop (8 * i) (read_bin img)))) [0..<n] =
      map (\<lambda>i. ?hs ! (2 * i) + 2 ^ 32 * ?hs ! (2 * i + 1)) [0..<n]"
    using len by (intro map_cong) (simp_all add: le_halves)
  then have "mapR read_sv (entries (sv_content (read_bin img))) =
      Inr (rev (map (\<lambda>i. ?hs ! (2 * i) + 2 ^ 32 * ?hs ! (2 * i + 1)) [0..<n]))"
    by (simp only: sv_words [OF len])
  note sv = this [unfolded n_def]
  show ?thesis
    unfolding run(4) files
    by (rule exI [of _ img], rule exI [of _ "map (\<lambda>i. le_value (take 4 (drop (4 * i) (read_bin img))))
        [0..<2 * ((length img + 7) div 8)]"], rule exI [of _ a], rule exI [of _ b], rule exI [of _ c],
        rule exI [of _ d], intro conjI)
      (rule run(1) rom [unfolded n_def] h_words [OF len, unfolded n_def] sv refl)+
qed

theorem boot_files_agree_witness:
  "\<exists>out. boot_main [''rom.img'' \<mapsto> [0x13, 0x05, 0x10, 0x00, 0x67], ''rom.elf'' \<mapsto> []] ''rom.elf'' = Inr out
    \<and> map fst out = [''rom.sv'', ''rom.h'']
    \<and> mapR read_c (entries (h_content [0x13, 0x05, 0x10, 0x00, 0x67, 0, 0, 0])) = Inr [0x00100513, 0x67]"
proof -
  let ?img = "[0x13, 0x05, 0x10, 0x00, 0x67] :: 8 word list"
  let ?files = "[''rom.img'' \<mapsto> ?img, ''rom.elf'' \<mapsto> []] :: string \<Rightarrow> 8 word list option"
  have root: "splitext_root ''rom.elf'' = ''rom''" by code_simp
  obtain sv h where "generate_sv ''rom'' (read_bin ?img) = Inr sv" "generate_h ''rom'' (read_bin ?img) = Inr h"
    using generated by blast
  then obtain out where out: "boot_main ?files ''rom.elf'' = Inr out"
    by (simp add: boot_main_def boot_parse_def root Let_def)
  have rb: "read_bin ?img = [0x13, 0x05, 0x10, 0x00, 0x67, 0, 0, 0]" by code_simp
  have hs: "map (\<lambda>i. le_value (take 4 (drop (4 * i) (read_bin ?img)))) [0..<2 * ((length ?img + 7) div 8)] = [0x00100513, 0x67]"
    by code_simp
  from boot_files_agree [OF out] show ?thesis
  proof (elim exE conjE)
    fix img hs' a b c d
    assume img: "?files (splitext_root ''rom.elf'' @ ''.img'') = Some img"
      and o: "out = [(splitext_root ''rom.elf'' @ ''.sv'', a @ sv_content (read_bin img) @ b),
               (splitext_root ''rom.elf'' @ ''.h'', c @ h_content (read_bin img) @ d)]"
      and h: "hs' = map (\<lambda>i. le_value (take 4 (drop (4 * i) (read_bin img)))) [0..<2 * ((length img + 7) div 8)]"
      and r: "mapR read_c (entries (h_content (read_bin img))) = Inr hs'"
    from img have i: "img = ?img" by (simp add: root)
    from r have "mapR read_c (entries (h_content [0x13, 0x05, 0x10, 0x00, 0x67, 0, 0, 0])) = Inr [0x00100513, 0x67]"
      unfolding h i hs unfolding rb .
    moreover have "map fst out = [''rom.sv'', ''rom.h'']" using o by (simp add: root)
    ultimately show ?thesis by (intro exI [of _ out] conjI out)
  qed
qed

end
