(* ===== verification/Trace_Convert.thy ===== *)
theory Trace_Convert
  imports Py_Regex
begin

text \<open>
  The converters of simulator logs to instruction traces, \<open>verif/sim/cva6_spike_log_to_trace_csv.py\<close> and
  \<open>verif/sim/verilator_log_to_trace_csv.py\<close>. They differ in three patterns, in the treatment of the
  operands and in the lines they skip. The modules \<open>riscv_trace_csv\<close> and \<open>lib\<close> are not in the
  repository: the fresh entry, the expansion of pseudo instructions and the names of the registers are
  parameters, and the CSV file is the list of the entries written to it. Logs are ASCII.
\<close>

record trace_entry =
  te_pc :: string
  te_instr_str :: string
  te_binary :: string
  te_instr :: string
  te_operand :: string
  te_gpr :: "string list"
  te_mode :: string

record externals =
  x_fresh :: trace_entry
  x_convert :: "string \<Rightarrow> string \<Rightarrow> string \<Rightarrow> (string \<times> string) result"
  x_abi :: "string \<Rightarrow> string result"

text \<open>Groups 1 to 5: \<open>pri\<close>, \<open>addr\<close>, \<open>bin\<close>, \<open>reg\<close> and \<open>val\<close>, or \<open>addr\<close>, \<open>bin\<close> and \<open>instr\<close>.\<close>

definition lhex :: re where "lhex = Sat is_lhex"

definition reg_re :: re where
  "reg_re = seqs [Sat (\<lambda>c. c \<in> set ''xf''), spaces, lazy (Sat is_digit)]"

definition spike_rd_re :: re where
  "spike_rd_re = seqs [opt (seqs [lit ''core'', spaces1, digits, lit '':'', spaces1]), Group 1 (Sat is_digit), lit '' 0x'',
     Group 2 (lazy1 lhex), lit '' ('', Group 3 (lazy dot), lit '')'',
     many (seqs [lit '' c'', many (Sat (\<lambda>c. \<not> is_space c)), lit '' 0x'', many1 lhex]), lit '' '',
     Group 4 reg_re, spaces, lit ''0x'', Group 5 (many1 lhex)]"

definition spike_core_re :: re where
  "spike_core_re = seqs [lit ''core'', spaces1, digits, lit '':'', spaces1, lit ''0x'', Group 1 (lazy1 lhex), lit '' (0x'',
     Group 2 (lazy dot), lit '') '', Group 3 (lazy dot), Eol]"

definition addr_re :: re where
  "addr_re = seqs [Group 1 (lazy1 (Sat (\<lambda>c. is_lower c \<or> is_digit c))), lit '','',
     Group 2 (lazy1 (Sat (\<lambda>c. c = CHR ''-'' \<or> is_digit c))), lit ''('',
     Group 3 (many1 (Sat (\<lambda>c. is_lower c \<or> is_digit c))), lit '')'']"

definition verilator_rd_re :: re where
  "verilator_rd_re = seqs [Group 1 (Sat is_digit), lit '' 0x'', Group 2 (lazy1 lhex), lit '' ('', Group 3 (lazy dot),
     lit '') '', Group 4 reg_re, lit '' 0x'', Group 5 (many1 lhex)]"

definition verilator_core_re :: re where
  "verilator_core_re = seqs [lit ''core'', many dot, lit ''0x'', Group 1 (lazy1 lhex), lit '' (0x'', Group 2 (lazy dot),
     lit '') '', Group 3 (lazy dot), Eol]"

definition group_or_empty :: "nat \<Rightarrow> groups \<Rightarrow> string" where
  "group_or_empty n g = (case match_group n g of None \<Rightarrow> [] | Some s \<Rightarrow> s)"

section \<open>Instructions\<close>

text \<open>Spike prints the offset of \<open>jal\<close> in hexadecimal, after the last comma.\<close>

definition jal_offset :: "trace_entry \<Rightarrow> trace_entry result" where
  "jal_offset t =
     (if te_instr t = ''jal'' then
        let idx = nat (rfind_char (CHR '','') (te_operand t) + 1);
            imm = drop idx (te_operand t)
        in case imm of
             [] \<Rightarrow> raise IndexError
           | c # cs \<Rightarrow>
               rbind (if c = CHR ''-'' then rbind (py_int 16 cs) (\<lambda>v. ret (''-'' @ py_str v))
                      else rbind (py_int 16 imm) (\<lambda>v. ret (py_str v))) (\<lambda>s.
               ret (t\<lparr>te_operand := take idx (te_operand t) @ s\<rparr>))
      else ret t)"

definition spike_process :: "trace_entry \<Rightarrow> trace_entry result" where
  "spike_process t = rbind (jal_offset t) (\<lambda>t.
     ret (case re_search addr_re (te_operand t) of
       None \<Rightarrow> t
     | Some (pre, m, g) \<Rightarrow>
         t\<lparr>te_operand := group_or_empty 1 g @ '','' @ group_or_empty 3 g @ '','' @ group_or_empty 2 g\<rparr>))"

definition verilator_process :: "trace_entry \<Rightarrow> trace_entry result" where
  "verilator_process t = rbind (jal_offset t) (\<lambda>t.
     ret (t\<lparr>te_operand := replace_str '')'' [] (replace_str ''('' '','' (te_operand t))\<rparr>))"

record dialect =
  d_core :: re
  d_commit :: re
  d_process :: "trace_entry \<Rightarrow> trace_entry result"

definition spike_dialect :: dialect where
  "spike_dialect = \<lparr>d_core = spike_core_re, d_commit = spike_rd_re, d_process = spike_process\<rparr>"

definition verilator_dialect :: dialect where
  "verilator_dialect = \<lparr>d_core = verilator_core_re, d_commit = verilator_rd_re, d_process = verilator_process\<rparr>"

definition disasm :: "groups \<Rightarrow> string" where
  "disasm g = replace_str ''pc - '' ''-'' (replace_str ''pc + '' [] (group_or_empty 3 g))"

definition read_instr :: "externals \<Rightarrow> dialect \<Rightarrow> bool \<Rightarrow> groups \<Rightarrow> trace_entry result" where
  "read_instr x d full_trace g =
     (let instr = (x_fresh x)\<lparr>te_pc := group_or_empty 1 g, te_instr_str := disasm g, te_binary := group_or_empty 2 g\<rparr>
      in if full_trace then
           let opcode = hd (split_char (CHR '' '') (disasm g));
               operand = remove_char (CHR '' '') (drop (length opcode) (disasm g))
           in rbind (x_convert x opcode operand (te_binary instr)) (\<lambda>(opname, opargs).
              d_process d (instr\<lparr>te_instr := opname, te_operand := opargs\<rparr>))
         else ret instr)"

section \<open>The reader\<close>

text \<open>The instruction in hand, the entries yielded (with the flag of an illegal instruction), and the break.\<close>

record reader =
  r_instr :: "trace_entry option"
  r_out :: "(trace_entry \<times> bool) list"
  r_done :: bool

definition reader_init :: reader where
  "reader_init = \<lparr>r_instr = None, r_out = [], r_done = False\<rparr>"

definition add_commit :: "externals \<Rightarrow> groups \<Rightarrow> trace_entry \<Rightarrow> trace_entry result" where
  "add_commit x g instr = rbind (x_abi x (remove_char (CHR '' '') (group_or_empty 4 g))) (\<lambda>reg.
     ret (instr\<lparr>te_gpr := te_gpr instr @ [reg @ '':'' @ group_or_empty 5 g], te_mode := group_or_empty 1 g\<rparr>))"

definition take_instr :: "externals \<Rightarrow> dialect \<Rightarrow> bool \<Rightarrow> groups \<Rightarrow> reader \<Rightarrow> reader result" where
  "take_instr x d full_trace g s =
     rbind (read_instr x d full_trace g) (\<lambda>instr.
     ret (s\<lparr>r_instr := Some instr, r_done := (te_instr_str instr = ''ecall'')\<rparr>))"

definition read_line :: "externals \<Rightarrow> dialect \<Rightarrow> bool \<Rightarrow> reader \<Rightarrow> string \<Rightarrow> reader result" where
  "read_line x d full_trace s line =
     (case r_instr s of
        None \<Rightarrow>
          (case re_match (d_core d) line of
             None \<Rightarrow> ret s
           | Some (m, g) \<Rightarrow> take_instr x d full_trace g s)
      | Some instr \<Rightarrow>
          (case re_match (d_core d) line of
             Some (m, g) \<Rightarrow> take_instr x d full_trace g (s\<lparr>r_out := r_out s @ [(instr, False)]\<rparr>)
           | None \<Rightarrow>
               if contains ''trap_illegal_instruction'' line then
                 ret (s\<lparr>r_out := r_out s @ [(instr, True)], r_instr := None\<rparr>)
               else (case re_match (d_commit d) line of
                 None \<Rightarrow> ret s
               | Some (m, g) \<Rightarrow> rbind (add_commit x g instr) (\<lambda>instr. ret (s\<lparr>r_instr := Some instr\<rparr>)))))"

definition reader_end :: "reader \<Rightarrow> (trace_entry \<times> bool) list" where
  "reader_end s = r_out s @ (case r_instr s of None \<Rightarrow> [] | Some instr \<Rightarrow> [(instr, False)])"

section \<open>The lines that are skipped\<close>

text \<open>A gate maps its state and a line to its next state, and whether the line is read.\<close>

definition core_at :: "string \<Rightarrow> string \<Rightarrow> bool" where
  "core_at pc line = (re_match (seqs [lit ''core'', many dot, lit '': 0x'', many (lit ''0''), lit pc]) line \<noteq> None)"

definition spike_gate :: "bool \<Rightarrow> string \<Rightarrow> bool \<times> bool" where
  "spike_gate in_trampoline line =
     (if in_trampoline then (\<not> core_at ''10010 '' line, False)
      else if core_at ''10000 '' line then (True, False)
      else (False, True))"

definition core_at_exactly :: "string \<Rightarrow> string \<Rightarrow> bool" where
  "core_at_exactly pc line = (re_match (seqs [lit ''core'', many dot, lit '': 0x'', lit pc]) line \<noteq> None)"

definition verilator_gate :: "bool \<times> bool \<Rightarrow> string \<Rightarrow> (bool \<times> bool) \<times> bool" where
  "verilator_gate = (\<lambda>(in_trampoline, in_debug) line.
     if in_trampoline \<and> \<not> core_at_exactly ''0000000080000000 '' line then ((True, in_debug), False)
     else if in_debug then ((False, \<not> core_at_exactly ''0000000000000890 '' line), False)
     else if core_at_exactly ''0000000000000800 '' line then ((False, True), False)
     else ((False, False), True))"

definition gated_line ::
  "externals \<Rightarrow> dialect \<Rightarrow> bool \<Rightarrow> ('k \<Rightarrow> string \<Rightarrow> 'k \<times> bool) \<Rightarrow> 'k \<times> reader \<Rightarrow> string \<Rightarrow> ('k \<times> reader) result" where
  "gated_line x d full_trace gate = (\<lambda>(k, s) line.
     if r_done s then ret (k, s)
     else let (k', visible) = gate k line in
       if visible then rbind (read_line x d full_trace s line) (\<lambda>s. ret (k', s)) else ret (k', s))"

definition read_trace ::
  "externals \<Rightarrow> dialect \<Rightarrow> bool \<Rightarrow> ('k \<Rightarrow> string \<Rightarrow> 'k \<times> bool) \<Rightarrow> 'k \<Rightarrow> string list \<Rightarrow> (trace_entry \<times> bool) list result" where
  "read_trace x d full_trace gate k lines =
     rbind (foldR (gated_line x d full_trace gate) (k, reader_init) lines) (\<lambda>(k, s). ret (reader_end s))"

definition read_spike_trace :: "externals \<Rightarrow> bool \<Rightarrow> string list \<Rightarrow> (trace_entry \<times> bool) list result" where
  "read_spike_trace x full_trace lines = read_trace x spike_dialect full_trace spike_gate False lines"

definition read_verilator_trace :: "externals \<Rightarrow> bool \<Rightarrow> string list \<Rightarrow> (trace_entry \<times> bool) list result" where
  "read_verilator_trace x full_trace lines = read_trace x verilator_dialect full_trace verilator_gate (True, False) lines"

section \<open>The CSV file\<close>

definition written :: "bool \<Rightarrow> trace_entry \<times> bool \<Rightarrow> bool" where
  "written full_trace = (\<lambda>(entry, illegal).
     full_trace \<or> te_gpr entry \<noteq> [] \<or> te_instr_str entry \<in> {''wfi'', ''ecall''})"

text \<open>The entries written, and their number.\<close>

definition csv_of :: "bool \<Rightarrow> (trace_entry \<times> bool) list \<Rightarrow> trace_entry list \<times> nat" where
  "csv_of full_trace entries =
     foldl (\<lambda>(csv, instrs_out) e. if written full_trace e then (csv @ [fst e], instrs_out + 1) else (csv, instrs_out))
       ([], 0) entries"

definition process_spike_sim_log :: "externals \<Rightarrow> bool \<Rightarrow> string \<Rightarrow> (trace_entry list \<times> nat) result" where
  "process_spike_sim_log x full_trace text =
     rbind (read_spike_trace x full_trace (read_lines text)) (\<lambda>entries. ret (csv_of full_trace entries))"

definition process_verilator_sim_log :: "externals \<Rightarrow> bool \<Rightarrow> string \<Rightarrow> (trace_entry list \<times> nat) result" where
  "process_verilator_sim_log x full_trace text =
     rbind (read_verilator_trace x full_trace (read_lines text)) (\<lambda>entries. ret (csv_of full_trace entries))"

end
