(* ===== verification/Convert_Facts.thy ===== *)
theory Convert_Facts
  imports Trace_Convert
begin

text \<open>
  What the log converters read: the log without its skipped parts, cut into one segment per instruction.
\<close>

section \<open>The specification\<close>

datatype log_event = Core groups | Illegal | Commit groups | Noise

definition classify :: "dialect \<Rightarrow> string \<Rightarrow> log_event" where
  "classify d line = (case re_match (d_core d) line of
     Some (m, g) \<Rightarrow> Core g
   | None \<Rightarrow>
       if contains ''trap_illegal_instruction'' line then Illegal
       else case re_match (d_commit d) line of Some (m, g) \<Rightarrow> Commit g | None \<Rightarrow> Noise)"

text \<open>The log ends with the first \<open>ecall\<close>.\<close>

fun upto_ecall :: "log_event list \<Rightarrow> log_event list" where
  "upto_ecall [] = []"
| "upto_ecall (Core g # es) = Core g # (if disasm g = ''ecall'' then [] else upto_ecall es)"
| "upto_ecall (e # es) = e # upto_ecall es"

fun is_core :: "log_event \<Rightarrow> bool" where
  "is_core (Core g) = True"
| "is_core e = False"

function (sequential) segments :: "log_event list \<Rightarrow> (groups \<times> log_event list) list" where
  "segments [] = []"
| "segments (Core g # es) = (g, takeWhile (\<lambda>e. \<not> is_core e) es) # segments (dropWhile (\<lambda>e. \<not> is_core e) es)"
| "segments (e # es) = segments es"
  by pat_completeness auto
termination
  by (relation "measure length") (auto simp: le_imp_less_Suc length_dropWhile_le)

fun apply_commit :: "externals \<Rightarrow> trace_entry \<Rightarrow> log_event \<Rightarrow> trace_entry result" where
  "apply_commit x t (Commit g) = add_commit x g t"
| "apply_commit x t e = ret t"

text \<open>The commits count up to the report of an illegal instruction.\<close>

definition commits :: "externals \<Rightarrow> trace_entry \<Rightarrow> log_event list \<Rightarrow> (trace_entry \<times> bool) result" where
  "commits x t es = rbind (foldR (apply_commit x) t (takeWhile (\<lambda>e. e \<noteq> Illegal) es)) (\<lambda>t. ret (t, Illegal \<in> set es))"

definition segment_entry :: "externals \<Rightarrow> dialect \<Rightarrow> bool \<Rightarrow> groups \<times> log_event list \<Rightarrow> (trace_entry \<times> bool) result" where
  "segment_entry x d full_trace = (\<lambda>(g, es). rbind (read_instr x d full_trace g) (\<lambda>t. commits x t es))"

fun visible :: "('k \<Rightarrow> string \<Rightarrow> 'k \<times> bool) \<Rightarrow> 'k \<Rightarrow> string list \<Rightarrow> string list" where
  "visible gate k [] = []"
| "visible gate k (l # ls) = (if snd (gate k l) then l # visible gate (fst (gate k l)) ls else visible gate (fst (gate k l)) ls)"

definition log_entries ::
  "externals \<Rightarrow> dialect \<Rightarrow> bool \<Rightarrow> string list \<Rightarrow> (trace_entry \<times> bool) list result" where
  "log_entries x d full_trace lines =
     mapR (segment_entry x d full_trace) (segments (upto_ecall (map (classify d) lines)))"

section \<open>The reader implements it\<close>

lemma segments_prefix: "segments (dropWhile (\<lambda>e. \<not> is_core e) es) = segments es"
proof (induction es)
  case (Cons e es)
  then show ?case by (cases e) simp_all
qed simp

lemma segments_skip: "\<not> is_core e \<Longrightarrow> segments (upto_ecall (e # es)) = segments (upto_ecall es)"
  by (cases e) simp_all

text \<open>A dialect may change the operands of an instruction, not its text.\<close>

locale dialect_laws =
  fixes d :: dialect
  assumes process_text: "d_process d t = Inr t' \<Longrightarrow> te_instr_str t' = te_instr_str t"
begin

lemma read_text: "read_instr x d full_trace g = Inr t \<Longrightarrow> te_instr_str t = disasm g"
  by (auto simp: read_instr_def Let_def split: if_splits dest: process_text)

text \<open>The rest of a log from a state of the reader, without gates.\<close>

definition rest :: "externals \<Rightarrow> bool \<Rightarrow> reader \<Rightarrow> string list \<Rightarrow> (trace_entry \<times> bool) list result" where
  "rest x full_trace s lines =
     rbind (foldR (\<lambda>s line. if r_done s then ret s else read_line x d full_trace s line) s lines) (\<lambda>s. ret (reader_end s))"

lemma rest_Nil: "rest x full_trace s [] = ret (reader_end s)"
  by (simp add: rest_def)

lemma rest_Cons: "\<not> r_done s \<Longrightarrow> rest x full_trace s (l # ls) = rbind (read_line x d full_trace s l) (\<lambda>s. rest x full_trace s ls)"
  by (simp add: rest_def rbind_assoc)

lemma rest_done: "r_done s \<Longrightarrow> rest x full_trace s ls = ret (reader_end s)"
  by (induction ls) (simp_all add: rest_def)

text \<open>What an instruction in hand and the events after it come to.\<close>

definition in_hand :: "externals \<Rightarrow> bool \<Rightarrow> trace_entry \<Rightarrow> log_event list \<Rightarrow> (trace_entry \<times> bool) list result" where
  "in_hand x full_trace t es =
     rbind (commits x t (takeWhile (\<lambda>e. \<not> is_core e) es)) (\<lambda>r.
     rbind (mapR (segment_entry x d full_trace) (segments es)) (\<lambda>rs. ret (r # rs)))"

lemma in_hand_simps:
  "in_hand x full_trace t [] = ret [(t, False)]"
  "in_hand x full_trace t (Noise # es) = in_hand x full_trace t es"
  "in_hand x full_trace t (Commit g # es) = rbind (add_commit x g t) (\<lambda>t. in_hand x full_trace t es)"
  "in_hand x full_trace t (Illegal # es) =
     rbind (mapR (segment_entry x d full_trace) (segments es)) (\<lambda>rs. ret ((t, True) # rs))"
  "in_hand x full_trace t (Core g # es) =
     rbind (read_instr x d full_trace g) (\<lambda>t'. rbind (in_hand x full_trace t' es) (\<lambda>rs. ret ((t, False) # rs)))"
  by (simp_all add: in_hand_def commits_def rbind_assoc segment_entry_def segments_prefix)

lemma rest_spec:
  "\<not> r_done s \<Longrightarrow> rest x full_trace s ls =
    rbind (case r_instr s of
        None \<Rightarrow> log_entries x d full_trace ls
      | Some t \<Rightarrow> in_hand x full_trace t (upto_ecall (map (classify d) ls)))
      (\<lambda>rs. ret (r_out s @ rs))"
proof (induction ls arbitrary: s)
  case Nil
  then show ?case by (simp add: rest_Nil reader_end_def log_entries_def in_hand_simps split: option.split)
next
  case (Cons l ls)
  let ?es = "upto_ecall (map (classify d) ls)"
  have take: "rest x full_trace (s\<lparr>r_out := out, r_instr := Some t, r_done := (te_instr_str t = ''ecall'')\<rparr>) ls =
      rbind (in_hand x full_trace t (if disasm g = ''ecall'' then [] else ?es)) (\<lambda>rs. ret (out @ rs))"
    if "read_instr x d full_trace g = Inr t" for out g t
    using read_text [OF that] Cons.IH [of "s\<lparr>r_out := out, r_instr := Some t, r_done := False\<rparr>"]
    by (simp add: rest_done reader_end_def in_hand_simps)
  show ?case
  proof (cases "r_instr s")
    case None
    show ?thesis
    proof (cases "re_match (d_core d) l")
      case None
      then have "\<not> is_core (classify d l)" by (auto simp: classify_def split: option.splits)
      then have "segments (upto_ecall (classify d l # map (classify d) ls)) = segments ?es"
        by (rule segments_skip)
      with Cons None \<open>r_instr s = None\<close> show ?thesis
        by (simp add: rest_Cons read_line_def log_entries_def)
    next
      case (Some m)
      obtain w g where m: "m = (w, g)" by (cases m)
      have "rest x full_trace s (l # ls) = rbind (read_instr x d full_trace g) (\<lambda>t.
          rest x full_trace (s\<lparr>r_out := r_out s, r_instr := Some t, r_done := (te_instr_str t = ''ecall'')\<rparr>) ls)"
        using Cons.prems None Some m by (simp add: rest_Cons read_line_def take_instr_def rbind_assoc)
      also have "\<dots> = rbind (read_instr x d full_trace g) (\<lambda>t.
          rbind (in_hand x full_trace t (if disasm g = ''ecall'' then [] else ?es)) (\<lambda>rs. ret (r_out s @ rs)))"
        by (rule rbind_cong [OF refl]) (rule take)
      also have "\<dots> = rbind (log_entries x d full_trace (l # ls)) (\<lambda>rs. ret (r_out s @ rs))"
        using Some m by (simp add: log_entries_def classify_def segment_entry_def in_hand_def rbind_assoc segments_prefix)
      finally show ?thesis by (simp add: None)
    qed
  next
    case hand: (Some t0)
    show ?thesis
    proof (cases "re_match (d_core d) l")
      case None
      then show ?thesis
        using Cons.prems hand Cons.IH [of "s\<lparr>r_out := r_out s @ [(t0, True)], r_instr := None\<rparr>"] Cons.IH [of s]
          Cons.IH [of "s\<lparr>r_instr := Some t\<rparr>" for t]
        by (auto simp: rest_Cons read_line_def classify_def in_hand_simps log_entries_def rbind_assoc
            intro!: rbind_cong split: option.split)
    next
      case (Some m)
      obtain w g where m: "m = (w, g)" by (cases m)
      have "rest x full_trace s (l # ls) = rbind (read_instr x d full_trace g) (\<lambda>t. rest x full_trace
          (s\<lparr>r_out := r_out s @ [(t0, False)], r_instr := Some t, r_done := (te_instr_str t = ''ecall'')\<rparr>) ls)"
        using Cons.prems hand Some m by (simp add: rest_Cons read_line_def take_instr_def rbind_assoc)
      also have "\<dots> = rbind (read_instr x d full_trace g) (\<lambda>t.
          rbind (in_hand x full_trace t (if disasm g = ''ecall'' then [] else ?es)) (\<lambda>rs. ret ((r_out s @ [(t0, False)]) @ rs)))"
        by (rule rbind_cong [OF refl]) (rule take)
      also have "\<dots> = rbind (in_hand x full_trace t0 (upto_ecall (map (classify d) (l # ls)))) (\<lambda>rs. ret (r_out s @ rs))"
        using Some m by (simp add: classify_def in_hand_simps rbind_assoc)
      finally show ?thesis by (simp add: hand)
    qed
  qed
qed

lemma gated:
  "rbind (foldR (gated_line x d full_trace gate) (k, s) ls) (\<lambda>(k, s). ret (reader_end s))
    = rest x full_trace s (visible gate k ls)"
proof (induction ls arbitrary: k s)
  case (Cons l ls)
  show ?case
  proof (cases "r_done s")
    case True
    with Cons [of k s] show ?thesis by (simp add: gated_line_def rest_done)
  next
    case False
    with Cons show ?thesis
      by (simp add: gated_line_def case_prod_beta rest_Cons rbind_assoc)
  qed
qed (simp add: rest_Nil)

lemma reads: "read_trace x d full_trace gate k lines = log_entries x d full_trace (visible gate k lines)"
  using rest_spec [of reader_init] by (simp add: read_trace_def gated) (simp add: reader_init_def)

end

lemma jal_offset_text: "jal_offset t = Inr t' \<Longrightarrow> te_instr_str t' = te_instr_str t"
  by (auto simp: jal_offset_def Let_def split: if_splits list.splits)

interpretation spike_log: dialect_laws spike_dialect
  by unfold_locales (auto simp: spike_dialect_def spike_process_def jal_offset_text split: option.splits)

interpretation verilator_log: dialect_laws verilator_dialect
  by unfold_locales (auto simp: verilator_dialect_def verilator_process_def jal_offset_text)

text \<open>
  C24: Both converters read the same thing: from the lines that are not skipped (the boot trampoline, and for
  Verilator the debug routine), up to the first \<open>ecall\<close>, one entry for every instruction line, with the
  register updates of the lines after it, as far as the first report of an illegal instruction, which
  marks the entry. Lines before the first instruction and all others have no effect, and an error of the
  conversion is the first one in this order.
\<close>

theorem logs_segmented:
  "read_spike_trace x full_trace lines = log_entries x spike_dialect full_trace (visible spike_gate False lines)
    \<and> read_verilator_trace x full_trace lines =
        log_entries x verilator_dialect full_trace (visible verilator_gate (True, False) lines)"
  by (simp add: read_spike_trace_def read_verilator_trace_def spike_log.reads verilator_log.reads)

end
