(* ===== verification/Spec_Builder.thy ===== *)
theory Spec_Builder
  imports User_Config Yaml
begin

text \<open>
  The specification builder under \<open>docs/scripts\<close>: \<open>parameters_extractor.py\<close> reads the parameters of the user
  configuration from \<open>config_pkg.sv\<close> and their values from a configuration package, \<open>define_blacklist.py\<close> says
  which ports a configuration ties, and \<open>spec_builder.py\<close> writes the tables of parameters and of the ports of
  each module. A file is its text, a written file a pair of path and text; parameters, black list
  and variables of the document are dictionaries.
\<close>

section \<open>Parameters\<close>

record parameter =
  pm_datatype :: string
  pm_description :: string
  pm_value :: sv_value

type_synonym parameters = "(string, parameter) dict"

definition non_space :: re where "non_space = Sat (\<lambda>c. \<not> is_space c)"

text \<open>A field of the structure, and a comment line.\<close>

definition field_re :: re where
  "field_re = seqs [Bol, many (lit '' ''), Group 1 (many dot), lit '' '', Group 2 (many non_space), lit '';'',
     lit [newline]]"

definition remark_re :: re where
  "remark_re = seqs [Bol, many (lit '' ''), lit ''// '', Group 1 (many dot), lit [newline]]"

definition to_be_completed :: string where "to_be_completed = ''TO_BE_COMPLETED''"

record extractor =
  ex_enable :: bool
  ex_descript :: string
  ex_params :: parameters

definition extractor_init :: extractor where
  "extractor_init = \<lparr>ex_enable = False, ex_descript = to_be_completed, ex_params = []\<rparr>"

definition read_remark :: "string \<Rightarrow> extractor \<Rightarrow> extractor" where
  "read_remark line s = (case re_match remark_re line of
     None \<Rightarrow> s
   | Some (m, g) \<Rightarrow> if ex_enable s then s\<lparr>ex_descript := group_text 1 g\<rparr> else s)"

definition read_field :: "string \<Rightarrow> extractor \<Rightarrow> extractor" where
  "read_field line s = (case re_match field_re line of
     None \<Rightarrow> s
   | Some (m, g) \<Rightarrow>
       if ex_enable s then
         s\<lparr>ex_params := AList.update (group_text 2 g)
             \<lparr>pm_datatype = group_text 1 g, pm_description = ex_descript s, pm_value = SvStr to_be_completed\<rparr>
             (ex_params s),
           ex_descript := to_be_completed\<rparr>
       else s)"

text \<open>The loop over the lines ends at the name of the structure.\<close>

fun extract_lines :: "extractor \<Rightarrow> string list \<Rightarrow> parameters" where
  "extract_lines s [] = ex_params s"
| "extract_lines s (line # lines) =
     (let s = (if contains ''typedef struct packed'' line then s\<lparr>ex_enable := True\<rparr> else s) in
      if contains ''cva6_user_cfg_t'' line then ex_params s
      else extract_lines (read_field line (read_remark line s)) lines)"

definition set_value :: "(string, sv_value) dict \<Rightarrow> string \<times> parameter \<Rightarrow> (string \<times> parameter) result" where
  "set_value config = (\<lambda>(name, p). rbind (dict_get config name) (\<lambda>v. ret (name, p\<lparr>pm_value := v\<rparr>)))"

definition parameters_extractor :: "(string \<Rightarrow> string option) \<Rightarrow> string \<Rightarrow> parameters result option" where
  "parameters_extractor files target =
     obind (Some (of_option FileNotFoundError (files ''../core/include/config_pkg.sv''))) (\<lambda>text.
     let parameters = extract_lines extractor_init (read_lines text) in
     obind (Some (of_option FileNotFoundError (files (''../core/include/'' @ target @ ''_config_pkg.sv'')))) (\<lambda>package.
     obind (get_config package True) (\<lambda>config.
     Some (mapR (set_value config) parameters))))"

section \<open>Printed values\<close>

fun sv_repr :: "sv_value \<Rightarrow> string"
  and sv_reprs :: "sv_value list \<Rightarrow> string list" where
  "sv_repr (SvStr s) = py_repr s"
| "sv_repr (SvBool b) = (if b then ''True'' else ''False'')"
| "sv_repr (SvInt i) = py_str i"
| "sv_repr (SvBased v base) = based_repr v base"
| "sv_repr (SvList vs) = ''['' @ join '', '' (sv_reprs vs) @ '']''"
| "sv_reprs [] = []"
| "sv_reprs (v # vs) = sv_repr v # sv_reprs vs"

text \<open>\<open>str(x)\<close>, and \<open>x == False\<close>.\<close>

definition sv_str :: "sv_value \<Rightarrow> string" where
  "sv_str v = (case v of SvStr s \<Rightarrow> s | _ \<Rightarrow> sv_repr v)"

definition is_false :: "sv_value \<Rightarrow> bool" where
  "is_false v = (case v of SvBool b \<Rightarrow> \<not> b | SvInt i \<Rightarrow> i = 0 | SvBased i base \<Rightarrow> i = 0 | _ \<Rightarrow> False)"

section \<open>The black list\<close>

type_synonym blacklist = "(string, string \<times> string) dict"

definition fixed_ports :: "(string \<times> string) list" where
  "fixed_ports = [
     (''flush_bp_i'', ''0''), (''dtlb_hit_i'', ''1''), (''hwpf_base_set_i'', ''0''), (''hwpf_base_i'', ''0''),
     (''hwpf_base_o'', ''0''), (''hwpf_param_set_i'', ''0''), (''hwpf_param_i'', ''0''),
     (''hwpf_param_o'', ''0''), (''hwpf_throttle_set_i'', ''0''), (''hwpf_throttle_i'', ''0''),
     (''hwpf_throttle_o'', ''0''), (''hwpf_status_o'', ''0''), (''dcache_cmo_req_i'', ''0''),
     (''dcache_cmo_resp_o'', ''open'')]"

definition rvfi_ports :: "string list" where
  "rvfi_ports = [
     ''RVFI'']"

definition debug_ports :: "string list" where
  "debug_ports = [
     ''set_debug_pc_o'', ''set_debug_pc_i'', ''debug_mode_o'', ''debug_mode_i'', ''debug_req_i'',
     ''single_step_o'', ''single_step_i'']"

definition hypervisor_ports :: "string list" where
  "hypervisor_ports = [
     ''v_i'', ''v_o'', ''vfs_o'', ''vfs_i'', ''hfence_vvma_o'', ''hfence_gvma_o'', ''flush_tlb_vvma_i'',
     ''flush_tlb_gvma_i'', ''flush_tlb_vvma_o'', ''flush_tlb_gvma_o'', ''en_g_translation_o'',
     ''enable_g_translation_i'', ''en_ld_st_g_translation_o'', ''en_ld_st_g_translation_i'', ''ld_st_v_o'',
     ''ld_st_v_i'', ''csr_hs_ld_st_inst_i'', ''csr_hs_ld_st_inst_o'', ''vs_sum_i'', ''vs_sum_o'', ''vmxr_o'',
     ''vmxr_i'', ''vsatp_ppn_o'', ''vsatp_ppn_i'', ''vs_asid_o'', ''vs_asid_i'', ''hgatp_ppn_o'',
     ''hgatp_ppn_i'', ''vmid_o'', ''vmid_i'', ''vtw_o'', ''vtw_i'', ''hu_o'', ''hu_i'', ''ld_st_v_i'',
     ''tinst_i'', ''tinst_o'', ''csr_hs_ld_st_inst_o'', ''exception_gpaddr_i'', ''exception_tinst_i'',
     ''exception_gva_i'', ''hs_ld_st_inst_o'', ''hlvx_inst_o'', ''hfence_vvma_i'', ''hfence_gvma_i'',
     ''vmid_to_be_flushed_i'', ''gpaddr_to_be_flushed_i'']"

definition vector_ports :: "string list" where
  "vector_ports = [
     ''vs_i'', ''vs_o'']"

definition supervisor_ports :: "string list" where
  "supervisor_ports = [
     ''en_translation_o'', ''enable_translation_o'', ''enable_translation_i'', ''en_ld_st_translation_o'',
     ''en_ld_st_translation_i'', ''sum_o'', ''sum_i'', ''satp_ppn_o'', ''satp_ppn_i'',
     ''vaddr_to_be_flushed_o'', ''vaddr_to_be_flushed_i'', ''asid_to_be_flushed_o'', ''asid_to_be_flushed_i'',
     ''mxr_o'', ''mxr_i'', ''asid_o'', ''asid_i'', ''sfence_vma_o'', ''sfence_vma_i'']"

definition accelerator_ports :: "string list" where
  "accelerator_ports = [
     ''ACC_DISPATCHER'']"

definition float_ports :: "string list" where
  "float_ports = [
     ''fs_o'', ''fs_i'', ''frm_o'', ''frm_i'', ''fpu_valid_o'', ''fpu_ready_o'', ''fpu_ready_i'',
     ''fpu_fmt_o'', ''fpu_rm_o'', ''fpu_valid_i'', ''fpu_fmt_i'', ''fpu_rm_i'', ''fpu_frm_i'', ''fpu_prec_i'',
     ''fpu_trans_id_o'', ''fpu_result_o'', ''fpu_exception_o'', ''csr_write_fflags_i'', ''fflags_o'',
     ''csr_write_fflags_o'', ''fprec_o'', ''dirty_fp_state_i'', ''dirty_fp_state_o'', ''we_fpr_i'']"

definition atomic_ports :: "string list" where
  "atomic_ports = [
     ''amo_req_o'', ''amo_resp_i'', ''amo_valid_commit_o'', ''amo_valid_commit_i'']"

definition privilege_ports :: "(string \<times> string) list" where
  "privilege_ports = [
     (''ld_st_priv_lvl_o'', ''MAchineMode''), (''ld_st_priv_lvl_i'', ''MAchineMode''),
     (''priv_lvl_o'', ''MachineMode''), (''priv_lvl_i'', ''MachineMode''), (''tvm_o'', ''0''),
     (''tvm_i'', ''0''), (''tw_o'', ''0''), (''tw_i'', ''0''), (''tsr_o'', ''0''), (''tsr_i'', ''0'')]"

definition counter_ports :: "string list" where
  "counter_ports = [
     ''PERF_COUNTERS'']"

definition fence_ports :: "string list" where
  "fence_ports = [
     ''fence_i_o'', ''fence_i_i'', ''fence_o'', ''fence_i'']"

definition mmu_ports :: "string list" where
  "mmu_ports = [
     ''flush_tlb_i'', ''flush_tlb_o'', ''dtlb_ppn_i'']"

definition zeros :: "string list \<Rightarrow> (string \<times> string) list" where
  "zeros ports = map (\<lambda>port. (port, ''0'')) ports"

definition tie :: "string \<Rightarrow> (string \<times> string) list \<Rightarrow> blacklist \<Rightarrow> blacklist" where
  "tie reason ports bl = foldl (\<lambda>bl (port, level). AList.update port (reason, level) bl) bl ports"

definition as_reason :: "string \<Rightarrow> string \<Rightarrow> string" where
  "as_reason param v = ''As '' @ param @ '' = '' @ v"

text \<open>A parameter the script reads, and one whose value it fixes.\<close>

definition tie_if_false :: "parameters \<Rightarrow> string \<Rightarrow> string list \<Rightarrow> blacklist \<Rightarrow> blacklist result" where
  "tie_if_false parameters param ports bl = rbind (dict_get parameters param) (\<lambda>p.
     ret (if is_false (pm_value p) then tie (as_reason param (sv_str (pm_value p))) (zeros ports) bl else bl))"

definition fixed_reason :: string where "fixed_reason = ''For any HW configuration''"

definition define_blacklist :: "parameters \<Rightarrow> blacklist result" where
  "define_blacklist parameters =
     (let bl = tie fixed_reason fixed_ports [];
          bl = tie (as_reason ''IsRVFI'' ''0'') (zeros rvfi_ports) bl in
      rbind (tie_if_false parameters ''DebugEn'' debug_ports bl) (\<lambda>bl.
      rbind (tie_if_false parameters ''RVH'' hypervisor_ports bl) (\<lambda>bl.
      rbind (tie_if_false parameters ''RVV'' vector_ports bl) (\<lambda>bl.
      rbind (tie_if_false parameters ''RVS'' supervisor_ports bl) (\<lambda>bl.
      let bl = tie (as_reason ''EnableAccelerator'' ''0'') (zeros accelerator_ports) bl;
          bl = tie (as_reason ''RVF'' ''0'') (zeros float_ports) bl in
      rbind (tie_if_false parameters ''RVA'' atomic_ports bl) (\<lambda>bl.
      let bl = tie (as_reason ''PRIV'' ''MachineOnly'') privilege_ports bl;
          bl = tie (as_reason ''PerfCounterEn'' ''0'') (zeros counter_ports) bl;
          bl = tie (as_reason ''FenceEn'' ''0'') (zeros fence_ports) bl;
          bl = tie (as_reason ''MMUPresent'' ''0'') (zeros mmu_ports) bl in
      ret bl))))))"

section \<open>Ports\<close>

record port_io =
  po_name :: string
  po_direction :: string
  po_data_type :: string
  po_description :: string
  po_connexion :: string

definition blanks :: re where "blanks = many (lit '' '')"
definition blanks1 :: re where "blanks1 = many1 (lit '' '')"

definition port_re :: re where
  "port_re = seqs [Bol, blanks1, Group 1 (Alt (lit ''in'') (lit ''out'')), lit ''put'', blanks1,
     Group 2 (seqs [many non_space, Alt (seqs [blanks1, many dot, blanks]) Empty]), lit '' '',
     Group 3 (many non_space), lit [newline]]"

definition note_re :: re where
  "note_re = seqs [Bol, blanks1, lit ''// '', Group 1 (many dot), lit '' - '', Group 2 (many non_space), lit [newline]]"

text \<open>The comments: for each reason the text on the ports it ties.\<close>

type_synonym comments = "(string \<times> string) list"

record scan =
  sc_ports :: "port_io list"
  sc_comments :: comments
  sc_description :: string
  sc_connexion :: string

definition scan_init :: scan where
  "scan_init = \<lparr>sc_ports = [], sc_comments = [], sc_description = ''none'', sc_connexion = ''none''\<rparr>"

definition next_comment :: string where "next_comment = newline # ''|   ''"

fun add_comment :: "string \<Rightarrow> string \<Rightarrow> comments \<Rightarrow> comments" where
  "add_comment reason t [] = [(reason, t)]"
| "add_comment reason t ((r, u) # cs) =
     (if reason = r then (r, u @ next_comment @ t) # cs else (r, u) # add_comment reason t cs)"

definition tied_text :: "port_io \<Rightarrow> string \<Rightarrow> string" where
  "tied_text p level = ''``'' @ po_name p @ ''`` '' @ po_direction p @ ''put is tied to '' @ level"

definition place_port :: "blacklist \<Rightarrow> port_io \<Rightarrow> scan \<Rightarrow> scan" where
  "place_port bl p s = (case map_of bl (po_connexion p) of
     Some (reason, level) \<Rightarrow> s\<lparr>sc_comments := add_comment reason (tied_text p level) (sc_comments s)\<rparr>
   | None \<Rightarrow> (case map_of bl (po_name p) of
       Some (reason, level) \<Rightarrow> s\<lparr>sc_comments := add_comment reason (tied_text p level) (sc_comments s)\<rparr>
     | None \<Rightarrow> s\<lparr>sc_ports := sc_ports s @ [p]\<rparr>))"

definition port_of :: "groups \<Rightarrow> string \<Rightarrow> string \<Rightarrow> port_io" where
  "port_of g description connexion =
     \<lparr>po_name = remove_char (CHR '','') (group_text 3 g), po_direction = group_text 1 g,
      po_data_type = remove_char (CHR '' '') (group_text 2 g), po_description = description, po_connexion = connexion\<rparr>"

definition scan_line :: "blacklist \<Rightarrow> scan \<Rightarrow> string \<Rightarrow> scan" where
  "scan_line bl s line =
     (let s = (case re_match note_re line of
         None \<Rightarrow> s
       | Some (m, g) \<Rightarrow> s\<lparr>sc_description := group_text 1 g, sc_connexion := group_text 2 g\<rparr>) in
      case re_match port_re line of
        None \<Rightarrow> s
      | Some (m, g) \<Rightarrow>
          (place_port bl (port_of g (sc_description s) (sc_connexion s)) s)
            \<lparr>sc_description := ''none'', sc_connexion := ''none''\<rparr>)"

definition scan_module :: "blacklist \<Rightarrow> string list \<Rightarrow> port_io list \<times> comments" where
  "scan_module bl lines = (let s = foldl (scan_line bl) scan_init lines in (sc_ports s, sc_comments s))"

section \<open>Documents\<close>

definition text_lines :: "string list \<Rightarrow> string" where
  "text_lines ls = concat (map (\<lambda>l. l @ [newline]) ls)"

definition quoted :: "string \<Rightarrow> string" where "quoted s = ''``'' @ s @ ''``''"

definition license_lines :: "string list" where
  \<open>license_lines = [
     ''   Copyright 2024 Thales DIS France SAS'',
     ''   Licensed under the Solderpad Hardware License, Version 2.1 (the "License");'',
     ''   you may not use this file except in compliance with the License.'',
     ''   SPDX-License-Identifier: Apache-2.0 WITH SHL-2.1'',
     ''   You may obtain a copy of the License at https://solderpad.org/licenses/'',
     [],
     ''   Original Author: Jean-Roch COULON - Thales'']\<close>

definition header_rst :: string where
  "header_rst = text_lines ([''..''] @ license_lines @ [[]])"

definition header_adoc :: string where
  "header_adoc = text_lines ([''////''] @ license_lines @ [''////'', []])"

definition tied_intro :: "string \<Rightarrow> string" where
  "tied_intro target = ''Due to '' @ target @ '' configuration, some ports are tied to a static value. These ports do not appear in the above table, they are listed below''"

definition rst_port :: "port_io \<Rightarrow> string list" where
  "rst_port p = [[], ''   * - '' @ quoted (po_name p), ''     - '' @ po_direction p, ''     - '' @ po_description p,
     ''     - '' @ po_connexion p, ''     - '' @ po_data_type p]"

definition print_to_rst :: "string \<Rightarrow> string \<Rightarrow> string \<Rightarrow> port_io list \<Rightarrow> comments \<Rightarrow> string \<times> string" where
  "print_to_rst pathout target module ports comments =
     (pathout @ ''/port_'' @ module @ ''.rst'',
      header_rst @ text_lines (
        [''.. _CVA6_'' @ module @ ''_ports:'', [], ''.. list-table:: **'' @ module @ '' module** IO ports'',
         ''   :header-rows: 1'', [], ''   * - Signal'', ''     - IO'', ''     - Description'', ''     - connexion'',
         ''     - Type'']
        @ concat (map rst_port ports) @ [[]]
        @ (if comments = [] then []
           else [tied_intro target, []] @ concat (map (\<lambda>(reason, t). [''| '' @ reason @ '','', ''|   '' @ t]) comments))
        @ [[]]))"

definition adoc_text :: "string \<Rightarrow> string" where
  "adoc_text s = replace_str ''|'' ''*'' (replace_str ''``'' ''`'' s)"

definition adoc_port :: "port_io \<Rightarrow> string list" where
  "adoc_port p = [''|`'' @ po_name p @ ''` | '' @ po_direction p @ '' | '' @ po_description p @ '' | ''
     @ po_connexion p @ '' | '' @ po_data_type p, []]"

definition print_to_adoc :: "string \<Rightarrow> string \<Rightarrow> string \<Rightarrow> port_io list \<Rightarrow> comments \<Rightarrow> string \<times> string" where
  "print_to_adoc pathout target module ports comments =
     (let comments = map (\<lambda>(reason, t). (adoc_text reason, adoc_text t)) comments in
      (pathout @ ''/port_'' @ module @ ''.adoc'',
       header_adoc @ text_lines (
         [''[[_CVA6_'' @ module @ ''_ports]]'', [], ''.*'' @ module @ '' module* IO ports'', ''|==='',
          ''|Signal | IO | Description | connexion | Type'', []]
         @ concat (map adoc_port ports) @ [''|==='']
         @ (if comments = [] then []
            else [tied_intro target, []] @ concat (map (\<lambda>(reason, t). [reason @ '',::'', ''*   '' @ t]) comments))
         @ [[]])))"

definition writeout_parameter_table :: "parameters \<Rightarrow> string \<Rightarrow> string" where
  "writeout_parameter_table parameters module =
     header_rst @ text_lines (
       [''.. _'' @ module @ ''_PARAMETERS:'', [], ''.. list-table:: '' @ module @ '' parameter configuration'',
        ''   :header-rows: 1'', [], ''   * - Name'', ''     - description'', ''     - Value'']
       @ concat (map (\<lambda>(name, p). [[], ''   * - '' @ name, ''     - '' @ pm_description p,
           ''     - '' @ sv_str (pm_value p)]) parameters))"

definition writeout_parameter_table_adoc :: "parameters \<Rightarrow> string \<Rightarrow> string" where
  "writeout_parameter_table_adoc parameters module =
     header_adoc @ text_lines (
       [''[['' @ module @ ''_PARAMETERS]]'', [], ''.'' @ module @ '' parameter configuration'', ''|==='',
        ''|Name | description | description'', []]
       @ map (\<lambda>(name, p). ''|'' @ name @ '' | '' @ pm_description p @ '' | '' @ sv_str (pm_value p)) parameters
       @ [''|===''])"

definition format_parameter_adoc :: "string \<Rightarrow> sv_value \<Rightarrow> string" where
  "format_parameter_adoc name v =
     text_lines ['':'' @ name @ '': '' @ (case v of SvBool b \<Rightarrow> lower (sv_str v) | _ \<Rightarrow> sv_str v)]"

definition export_user_cfg_doc :: "parameters \<Rightarrow> string" where
  "export_user_cfg_doc params =
     header_rst @ text_lines (
       [''.. _cva6_user_cfg_doc:'', [], ''.. list-table:: ``cva6_user_cfg_t`` parameters'', ''   :header-rows: 1'', [],
        ''   * - Name'', ''     - Type'', ''     - Description'']
       @ concat (map (\<lambda>(name, p). [[], ''   * - '' @ quoted name, ''     - '' @ quoted (strip (pm_datatype p)),
           ''     - '' @ pm_description p]) params))"

section \<open>The command\<close>

definition default_params :: "(string \<times> sv_value) list" where
  "default_params = map (\<lambda>name. (name, SvBool False)) [
     ''RVE'', ''RVQ'', ''RVZabha'', ''RVZacas'', ''RVZawrs'', ''RVZcmop'', ''RVZfa'', ''RVZfbf-RZvfbf'', ''RVZfh'',
     ''RVZfinx'', ''RVZicbo'', ''RVZicfilp'', ''RVZifencei'', ''RVZihintntl'', ''RVZihintpause'', ''RVZimop'', ''RVZk'',
     ''RVZpm'', ''RVZsmcdeleg'', ''RVZsmcntrpmf'', ''RVZsmcsrind-RVZsscsrind'', ''RVZsmctr'', ''RVZsmdbltrp'',
     ''RVZsmepmp'', ''RVZsmmpm'', ''RVZsmrnmi'', ''RVZsmstateen'', ''RVZsscofpmf'', ''RVZssdbltrp'', ''RVZsstc'',
     ''RVZtso'', ''RVZvk''] @ [(''SV'', SvStr ''SV0'')]"

definition config_doc :: "string \<Rightarrow> parameters \<Rightarrow> string" where
  "config_doc target parameters =
     text_lines ['':ohg-config: '' @ upper target]
     @ concat (map (\<lambda>(name, v). format_parameter_adoc name v) default_params)
     @ concat (map (\<lambda>(name, p). format_parameter_adoc name (pm_value p)) parameters)"

definition port_files :: "string list" where
  "port_files = map (\<lambda>f. ''../core/'' @ f) [
     ''cva6.sv'', ''frontend/frontend.sv'', ''frontend/bht.sv'', ''frontend/bht2lvl.sv'', ''frontend/btb.sv'',
     ''frontend/ras.sv'', ''frontend/instr_queue.sv'', ''frontend/instr_scan.sv'', ''instr_realign.sv'', ''id_stage.sv'',
     ''issue_stage.sv'', ''ex_stage.sv'', ''commit_stage.sv'', ''controller.sv'', ''csr_regfile.sv'', ''decoder.sv'',
     ''compressed_decoder.sv'', ''scoreboard.sv'', ''issue_read_operands.sv'', ''alu.sv'', ''branch_unit.sv'',
     ''csr_buffer.sv'', ''mult.sv'', ''multiplier.sv'', ''serdiv.sv'', ''load_store_unit.sv'', ''load_unit.sv'',
     ''store_unit.sv'', ''lsu_bypass.sv'', ''cvxif_fu.sv'', ''cache_subsystem/cva6_hpdcache_subsystem.sv'']"

definition module_re :: re where
  "module_re = seqs [many dot, lit ''/'', Group 1 (many dot), dot, lit ''sv'']"

definition module_doc ::
  "(string \<Rightarrow> string option) \<Rightarrow> string \<Rightarrow> string \<Rightarrow> blacklist \<Rightarrow> string \<Rightarrow> (string \<times> string) result" where
  "module_doc files folder target bl filein =
     rbind (of_option AttributeError (re_match module_re filein)) (\<lambda>(m, g).
     rbind (of_option FileNotFoundError (files filein)) (\<lambda>text.
     let (ports, comments) = scan_module bl (read_lines text) in
     ret (print_to_adoc folder target (group_text 1 g) ports comments)))"

text \<open>\<open>os.makedirs(os.path.dirname(path), exist_ok=True)\<close> refuses the empty name.\<close>

definition make_dirs :: "string \<Rightarrow> unit result" where
  "make_dirs path = (if CHR ''/'' \<in> set path then ret () else raise FileNotFoundError)"

definition write_option :: "string option \<Rightarrow> string \<Rightarrow> (string \<times> string) list result" where
  "write_option p content = (case p of
     None \<Rightarrow> ret []
   | Some path \<Rightarrow> rbind (make_dirs path) (\<lambda>_. ret [(path, content)]))"

text \<open>The options of the command, and the files written in order.\<close>

record builder_args =
  a_target :: string
  a_gen_config :: "string option"
  a_gen_parameters :: "string option"
  a_gen_ports_folder :: "string option"

definition ports_docs ::
  "(string \<Rightarrow> string option) \<Rightarrow> string \<Rightarrow> parameters \<Rightarrow> string option \<Rightarrow> (string \<times> string) list result" where
  "ports_docs files target parameters folder = (case folder of
     None \<Rightarrow> ret []
   | Some folder \<Rightarrow> rbind (define_blacklist parameters) (\<lambda>bl. mapR (module_doc files folder target bl) port_files))"

definition builder_main :: "(string \<Rightarrow> string option) \<Rightarrow> builder_args \<Rightarrow> (string \<times> string) list result option" where
  "builder_main files a =
     obind (parameters_extractor files (a_target a)) (\<lambda>parameters.
     let user_doc = [(''01_cva6_user/user_cfg_doc.rst'', export_user_cfg_doc parameters)] in
     Some (rbind (write_option (a_gen_parameters a) (writeout_parameter_table_adoc parameters (a_target a))) (\<lambda>table.
       rbind (write_option (a_gen_config a) (config_doc (a_target a) parameters)) (\<lambda>config.
       rbind (ports_docs files (a_target a) parameters (a_gen_ports_folder a)) (\<lambda>docs.
       ret (user_doc @ table @ config @ docs))))))"

end
