(* ===== verification/Spec_Builder_Facts.thy ===== *)
theory Spec_Builder_Facts
  imports Spec_Builder
begin

text \<open>
  The specification builder: the ports of a module are partitioned between the table and the comments, and the ports
  that the comments name are the ones the values of the configuration package tie.
\<close>

section \<open>Ports and comments\<close>

text \<open>
  The declared ports, whatever is tied: the description and the connexion of a port are those of the last remark since
  the port before.
\<close>

definition last_note :: "string \<Rightarrow> string \<times> string \<Rightarrow> string \<times> string" where
  "last_note line dc = (case re_match note_re line of None \<Rightarrow> dc | Some (m, g) \<Rightarrow> (group_text 1 g, group_text 2 g))"

fun declared_from :: "string \<times> string \<Rightarrow> string list \<Rightarrow> port_io list" where
  "declared_from dc [] = []"
| "declared_from dc (line # lines) =
     (let dc = last_note line dc in
      case re_match port_re line of
        None \<Rightarrow> declared_from dc lines
      | Some (m, g) \<Rightarrow> port_of g (fst dc) (snd dc) # declared_from (''none'', ''none'') lines)"

definition declared_ports :: "string list \<Rightarrow> port_io list" where
  "declared_ports lines = declared_from (''none'', ''none'') lines"

text \<open>What ties a port: the entry of its connexion before that of its name.\<close>

definition tied_by :: "blacklist \<Rightarrow> port_io \<Rightarrow> (string \<times> string) option" where
  "tied_by bl p = (case map_of bl (po_connexion p) of Some e \<Rightarrow> Some e | None \<Rightarrow> map_of bl (po_name p))"

definition tied_notes :: "blacklist \<Rightarrow> port_io list \<Rightarrow> (string \<times> string) list" where
  "tied_notes bl ps = concat (map (\<lambda>p. case tied_by bl p of
     None \<Rightarrow> [] | Some (reason, level) \<Rightarrow> [(reason, tied_text p level)]) ps)"

text \<open>Elements in the order of their first occurrence.\<close>

definition first_seen :: "'a list \<Rightarrow> 'a list" where
  "first_seen xs = rev (remdups (rev xs))"

definition comments_of :: "(string \<times> string) list \<Rightarrow> comments" where
  "comments_of ns = map (\<lambda>r. (r, join next_comment (map snd (filter (\<lambda>n. fst n = r) ns))))
     (first_seen (map fst ns))"

lemma key_mem: "(a, b) \<in> S \<Longrightarrow> a \<in> fst ` S"
  by force

lemma key_filter: "filter (\<lambda>n. fst n = k) xs = [] \<longleftrightarrow> k \<notin> fst ` set xs"
  by (auto simp: filter_empty_conv)

lemma set_first_seen [simp]: "set (first_seen xs) = set xs"
  by (simp add: first_seen_def)

lemma distinct_first_seen [simp]: "distinct (first_seen xs)"
  by (simp add: first_seen_def)

lemma first_seen_snoc: "first_seen (xs @ [x]) = (if x \<in> set xs then first_seen xs else first_seen xs @ [x])"
  by (simp add: first_seen_def)

lemma join_snoc: "xs \<noteq> [] \<Longrightarrow> join sep (xs @ [x]) = join sep xs @ sep @ x"
  by (induction sep xs rule: join.induct) (auto simp: join_Cons)

lemma add_comment_new: "reason \<notin> fst ` set cs \<Longrightarrow> add_comment reason t cs = cs @ [(reason, t)]"
  by (induction reason t cs rule: add_comment.induct) auto

lemma add_comment_old:
  "distinct rs \<Longrightarrow> reason \<in> set rs \<Longrightarrow> add_comment reason t (map (\<lambda>r. (r, f r)) rs)
     = map (\<lambda>r. (r, if r = reason then f r @ next_comment @ t else f r)) rs"
  by (induction rs) auto

lemma add_comment_comments_of: "add_comment reason t (comments_of ns) = comments_of (ns @ [(reason, t)])"
proof (cases "reason \<in> fst ` set ns")
  case True
  let ?f = "\<lambda>r. join next_comment (map snd (filter (\<lambda>n. fst n = r) ns))"
  have "filter (\<lambda>n. fst n = reason) ns \<noteq> []" using True by (simp add: key_filter)
  then have j: "join next_comment (map snd (filter (\<lambda>n. fst n = r) (ns @ [(reason, t)])))
    = (if r = reason then ?f r @ next_comment @ t else ?f r)" for r
    by (auto simp: join_snoc)
  show ?thesis
    using add_comment_old [of "first_seen (map fst ns)" reason t ?f] True
    unfolding comments_of_def j by (simp add: first_seen_snoc)
next
  case False
  then have "filter (\<lambda>n. fst n = reason) ns = []" by (simp add: key_filter)
  moreover have "comments_of ns = map (\<lambda>r. (r, join next_comment
      (map snd (filter (\<lambda>n. fst n = r) (ns @ [(reason, t)]))))) (first_seen (map fst ns))"
    unfolding comments_of_def using False by (intro map_cong refl) (use key_mem in fastforce)
  moreover have "add_comment reason t (comments_of ns) = comments_of ns @ [(reason, t)]"
    by (rule add_comment_new) (simp add: comments_of_def image_image False)
  ultimately show ?thesis
    using False unfolding comments_of_def by (simp add: first_seen_snoc)
qed

lemma place_port_split:
  "place_port bl p s = (case tied_by bl p of
     None \<Rightarrow> s\<lparr>sc_ports := sc_ports s @ [p]\<rparr>
   | Some (reason, level) \<Rightarrow> s\<lparr>sc_comments := add_comment reason (tied_text p level) (sc_comments s)\<rparr>)"
  by (simp add: place_port_def tied_by_def split: option.splits)

lemma scan_line_split:
  "scan_line bl s line =
     (let dc = last_note line (sc_description s, sc_connexion s) in
      case re_match port_re line of
        None \<Rightarrow> s\<lparr>sc_description := fst dc, sc_connexion := snd dc\<rparr>
      | Some (m, g) \<Rightarrow> (place_port bl (port_of g (fst dc) (snd dc)) s)\<lparr>sc_description := ''none'', sc_connexion := ''none''\<rparr>)"
  unfolding scan_line_def last_note_def Let_def place_port_split by (auto split: option.splits prod.splits)

lemma scan_fold:
  assumes "sc_comments s = comments_of ns"
  shows "sc_ports (foldl (scan_line bl) s lines)
      = sc_ports s @ filter (\<lambda>p. tied_by bl p = None) (declared_from (sc_description s, sc_connexion s) lines)
    \<and> sc_comments (foldl (scan_line bl) s lines)
      = comments_of (ns @ tied_notes bl (declared_from (sc_description s, sc_connexion s) lines))"
  using assms
proof (induction lines arbitrary: s ns)
  case (Cons line lines)
  let ?dc = "last_note line (sc_description s, sc_connexion s)"
  show ?case
  proof (cases "re_match port_re line")
    case None
    then show ?thesis using Cons.IH [of "scan_line bl s line" ns] Cons.prems by (simp add: scan_line_split Let_def)
  next
    case (Some mg)
    obtain m g where mg: "mg = (m, g)" by (cases mg)
    let ?p = "port_of g (fst ?dc) (snd ?dc)"
    show ?thesis
    proof (cases "tied_by bl ?p")
      case None
      then show ?thesis using Cons.IH [of "scan_line bl s line" ns] Cons.prems Some mg
        by (simp add: scan_line_split Let_def place_port_split tied_notes_def)
    next
      case tied: (Some e)
      obtain r v where e: "e = (r, v)" by (cases e)
      then show ?thesis
        using Cons.IH [of "scan_line bl s line" "ns @ [(r, tied_text ?p v)]"] Cons.prems Some mg tied
        by (simp add: scan_line_split Let_def place_port_split tied_notes_def add_comment_comments_of)
    qed
  qed
qed (simp_all add: tied_notes_def)

text \<open>
  C38: Every declared port of a module is in the table or in a comment, never in both: the table has the ports the black
  list does not tie, in the order of the file; the comments have, for each reason in the order of its first use,
  the tied ports with that reason, in order, with the level of the entry that ties them.
\<close>

theorem ports_partitioned:
  "scan_module bl lines =
     (filter (\<lambda>p. tied_by bl p = None) (declared_ports lines), comments_of (tied_notes bl (declared_ports lines)))"
  using scan_fold [of scan_init "[]" bl lines]
  by (simp add: scan_module_def scan_init_def declared_ports_def comments_of_def first_seen_def Let_def)

section \<open>The black list\<close>

text \<open>
  Which rule ties a port: the parameter that has to be false (None for a rule that always holds), and else
  the reason and the level.
\<close>

datatype tie_rule = Always string string | Unless string

definition rules :: "(string \<times> tie_rule) list" where
  "rules = map (\<lambda>(n, v). (n, Always fixed_reason v)) fixed_ports
     @ map (\<lambda>n. (n, Always (as_reason ''IsRVFI'' ''0'') ''0'')) rvfi_ports
     @ map (\<lambda>n. (n, Unless ''DebugEn'')) debug_ports
     @ map (\<lambda>n. (n, Unless ''RVH'')) hypervisor_ports
     @ map (\<lambda>n. (n, Unless ''RVV'')) vector_ports
     @ map (\<lambda>n. (n, Unless ''RVS'')) supervisor_ports
     @ map (\<lambda>n. (n, Always (as_reason ''EnableAccelerator'' ''0'') ''0'')) accelerator_ports
     @ map (\<lambda>n. (n, Always (as_reason ''RVF'' ''0'') ''0'')) float_ports
     @ map (\<lambda>n. (n, Unless ''RVA'')) atomic_ports
     @ map (\<lambda>(n, v). (n, Always (as_reason ''PRIV'' ''MachineOnly'') v)) privilege_ports
     @ map (\<lambda>n. (n, Always (as_reason ''PerfCounterEn'' ''0'') ''0'')) counter_ports
     @ map (\<lambda>n. (n, Always (as_reason ''FenceEn'' ''0'') ''0'')) fence_ports
     @ map (\<lambda>n. (n, Always (as_reason ''MMUPresent'' ''0'') ''0'')) mmu_ports"

text \<open>The entry a rule gives under the values of a configuration.\<close>

definition apply_rule :: "(string \<Rightarrow> sv_value) \<Rightarrow> tie_rule \<Rightarrow> (string \<times> string) option" where
  "apply_rule val r = (case r of
     Always reason level \<Rightarrow> Some (reason, level)
   | Unless param \<Rightarrow> if is_false (val param) then Some (as_reason param (sv_str (val param)), ''0'') else None)"

lemmas port_lists = fixed_ports_def rvfi_ports_def debug_ports_def hypervisor_ports_def vector_ports_def
  supervisor_ports_def accelerator_ports_def float_ports_def atomic_ports_def privilege_ports_def counter_ports_def
  fence_ports_def mmu_ports_def

definition entries :: "(string \<Rightarrow> sv_value) \<Rightarrow> (string \<times> tie_rule) list \<Rightarrow> (string \<times> string \<times> string) list" where
  "entries val rs = concat (map (\<lambda>(n, r). case apply_rule val r of None \<Rightarrow> [] | Some e \<Rightarrow> [(n, e)]) rs)"

lemma entries_append: "entries val (rs @ ss) = entries val rs @ entries val ss"
  by (simp add: entries_def)

lemma in_entries: "(n, e) \<in> set (entries val rs) \<longleftrightarrow> (\<exists>r. (n, r) \<in> set rs \<and> apply_rule val r = Some e)"
  unfolding entries_def by (auto split: option.splits) (metis prod.collapse)

lemma map_of_entries:
  assumes functional: "\<And>n r. (n, r) \<in> set rs \<Longrightarrow> map_of rs n = Some r"
  shows "map_of (rev (entries val rs)) n = Option.bind (map_of rs n) (apply_rule val)"
proof (cases "map_of (rev (entries val rs)) n")
  case None
  then have "(n, e) \<notin> set (entries val rs)" for e by (auto simp: map_of_eq_None_iff dest: key_mem)
  then have "apply_rule val r = None" if "map_of rs n = Some r" for r
    using map_of_SomeD [OF that] in_entries [of n _ val rs] by fastforce
  with None show ?thesis by (cases "map_of rs n") auto
next
  case (Some e)
  from map_of_SomeD [OF Some] have "(n, e) \<in> set (entries val rs)" by simp
  then obtain r where "(n, r) \<in> set rs" "apply_rule val r = Some e" using in_entries by blast
  with functional Some show ?thesis by simp
qed

lemma update_all_append: "dict_update_all (dict_update_all d e) f = dict_update_all d (e @ f)"
  by (simp add: dict_update_all_def)

lemma tie_entries: "tie reason ports bl = dict_update_all bl (entries val (map (\<lambda>(n, v). (n, Always reason v)) ports))"
  unfolding tie_def dict_update_all_def
  by (induction ports arbitrary: bl) (auto simp: entries_def apply_rule_def)

lemma tie_zeros: "tie reason (zeros ports) bl = dict_update_all bl (entries val (map (\<lambda>n. (n, Always reason ''0'')) ports))"
  by (simp add: tie_entries [of _ _ _ val] zeros_def comp_def)

lemma entries_unless:
  "entries val (map (\<lambda>n. (n, Unless param)) ports)
    = (if is_false (val param) then entries val (map (\<lambda>n. (n, Always (as_reason param (sv_str (val param))) ''0'')) ports)
       else [])"
  by (induction ports) (auto simp: entries_def apply_rule_def)

lemma tie_if_false_entries:
  "tie_if_false ps param ports bl = (if has_key ps param
     then ret (dict_update_all bl (entries (\<lambda>param. pm_value (the (map_of ps param))) (map (\<lambda>n. (n, Unless param)) ports)))
     else raise KeyError)"
proof (cases "map_of ps param")
  case (Some p)
  let ?val = "\<lambda>param. pm_value (the (map_of ps param))"
  have "tie_if_false ps param ports bl
      = Inr (if is_false (?val param) then tie (as_reason param (sv_str (?val param))) (zeros ports) bl else bl)"
    by (simp add: tie_if_false_def dict_get_def Some)
  also have "\<dots> = Inr (dict_update_all bl (entries ?val (map (\<lambda>n. (n, Unless param)) ports)))"
    by (simp only: entries_unless tie_zeros [of _ ports bl ?val]) (simp add: dict_update_all_def)
  finally show ?thesis using Some by (simp add: has_key_def)
qed (simp add: tie_if_false_def dict_get_def has_key_def)

lemma rbind_if_raise: "rbind (if c then ret x else raise e) f = (if c then f x else raise e)"
  by simp

lemma if_raise_Inr: "(if c then m else raise e) = Inr y \<longleftrightarrow> c \<and> m = Inr y"
  by simp

text \<open>No port has two rules.\<close>

definition one_rule :: "(string \<times> 'a) list \<Rightarrow> bool" where
  "one_rule rs \<longleftrightarrow> (\<forall>(n, r) \<in> set rs. map_of rs n = Some r)"

lemma one_rule_append:
  "one_rule rs \<Longrightarrow> one_rule ss \<Longrightarrow> fst ` set rs \<inter> fst ` set ss = {} \<Longrightarrow> one_rule (rs @ ss)"
    unfolding one_rule_def
proof (intro ballI, clarify)
  fix n r
  assume "\<forall>(n, r)\<in>set rs. map_of rs n = Some r" "\<forall>(n, r)\<in>set ss. map_of ss n = Some r"
    and "fst ` set rs \<inter> fst ` set ss = {}" "(n, r) \<in> set (rs @ ss)"
  note a = this
  show "map_of (rs @ ss) n = Some r"
  proof (cases "(n, r) \<in> set rs")
    case True
    with a(1) have "map_of rs n = Some r" by blast
    moreover have "map_of ss n = None" using a(3) key_mem [OF True] by (auto simp: map_of_eq_None_iff)
    ultimately show ?thesis by (simp add: map_add_def)
  next
    case False
    with a(4) have m: "(n, r) \<in> set ss" by simp
    with a(2) have "map_of ss n = Some r" by blast
    moreover have "map_of rs n = None" using a(3) key_mem [OF m] by (auto simp: map_of_eq_None_iff)
    ultimately show ?thesis by (simp add: map_add_def)
  qed
qed

lemma one_rule_all: "one_rule (map (\<lambda>n. (n, r)) ns)"
  by (induction ns) (auto simp: one_rule_def)

lemma one_rule_levels: "one_rule ps \<Longrightarrow> one_rule (map (\<lambda>(n, v). (n, Always reason v)) ps)"
proof -
  have "map_of (map (\<lambda>(n, v). (n, Always reason v)) ps) n = map_option (Always reason) (map_of ps n)" for n
    by (induction ps) auto
  then show "one_rule ps \<Longrightarrow> one_rule (map (\<lambda>(n, v). (n, Always reason v)) ps)"
    by (auto simp: one_rule_def)
qed

fun disjoint_lists :: "string list list \<Rightarrow> bool" where
  "disjoint_lists [] = True"
| "disjoint_lists (xs # xss) = (list_all (\<lambda>n. list_all (\<lambda>ys. n \<notin> set ys) xss) xs \<and> disjoint_lists xss)"

lemma disjoint_lists_Cons: "disjoint_lists (xs # xss) \<longleftrightarrow> set xs \<inter> \<Union> (set ` set xss) = {} \<and> disjoint_lists xss"
  by (auto simp: list_all_iff)

definition port_names :: "string list list" where
  "port_names = [map fst fixed_ports, rvfi_ports, debug_ports, hypervisor_ports, vector_ports, supervisor_ports,
     accelerator_ports, float_ports, atomic_ports, map fst privilege_ports, counter_ports, fence_ports, mmu_ports]"

lemma port_names_disjoint: "disjoint_lists port_names"
  by code_simp

lemma levels_one_rule: "one_rule fixed_ports" "one_rule privilege_ports"
  by (simp_all add: one_rule_def fixed_ports_def privilege_ports_def)

lemma keys_levels: "fst ` set (map (\<lambda>(n, v). (n, f v)) ps) = set (map fst ps)"
  "fst ` set (map (\<lambda>n. (n, r)) ns) = set ns"
  by force+

lemma one_rule_rules: "one_rule rules"
  unfolding rules_def using port_names_disjoint
  by (intro one_rule_append one_rule_all one_rule_levels levels_one_rule)
    (simp_all only: port_names_def disjoint_lists_Cons set_append image_Un keys_levels list.set image_insert
      image_empty Union_insert Union_empty Un_empty_right)

lemma rules_functional: "(n, r) \<in> set rules \<Longrightarrow> map_of rules n = Some r"
  using one_rule_rules by (auto simp: one_rule_def)

lemma define_blacklist_entries:
  "define_blacklist ps = Inr bl \<longleftrightarrow>
     (has_key ps ''DebugEn'' \<and> has_key ps ''RVH'' \<and> has_key ps ''RVV'' \<and> has_key ps ''RVS'' \<and> has_key ps ''RVA'')
     \<and> dict_update_all [] (entries (\<lambda>param. pm_value (the (map_of ps param))) rules) = bl"
  unfolding define_blacklist_def Let_def tie_entries [of _ fixed_ports _ "\<lambda>param. pm_value (the (map_of ps param))"]
    tie_entries [of _ privilege_ports _ "\<lambda>param. pm_value (the (map_of ps param))"]
    tie_zeros [of _ _ _ "\<lambda>param. pm_value (the (map_of ps param))"]
  apply (simp only: tie_if_false_entries)
  apply (simp only: rbind_if_raise)
  apply (simp only: if_raise_Inr sum.inject)
  apply (simp only: rules_def entries_append)
  apply (simp only: update_all_append append_assoc)
  apply (simp only: conj_assoc)
  done

lemma blacklist_lookup:
  assumes "define_blacklist ps = Inr bl"
  shows "map_of bl n = Option.bind (map_of rules n) (apply_rule (\<lambda>param. pm_value (the (map_of ps param))))"
proof -
  have "bl = dict_update_all [] (entries (\<lambda>param. pm_value (the (map_of ps param))) rules)"
    using assms by (simp add: define_blacklist_entries)
  then show ?thesis using map_of_entries [OF rules_functional] by (simp add: map_of_update_all)
qed

section \<open>From the configuration package to the documents\<close>

lemma mapR_set_value:
  "mapR (set_value config) ps = Inr qs \<Longrightarrow> map fst qs = map fst ps
     \<and> (\<forall>n p. map_of qs n = Some p \<longrightarrow> map_of config n = Some (pm_value p))"
proof (induction ps arbitrary: qs)
  case (Cons np ps)
  obtain n p where np: "np = (n, p)" by (cases np)
  with Cons.prems obtain v rest where q: "map_of config n = Some v" "mapR (set_value config) ps = Inr rest"
    "qs = (n, p\<lparr>pm_value := v\<rparr>) # rest"
    by (auto simp: set_value_def dict_get_def)
  with Cons.IH [OF q(2)] np show ?case by simp
qed simp

lemma parameters_extracted:
  assumes "files ''../core/include/config_pkg.sv'' = Some text"
    and "files (''../core/include/'' @ target @ ''_config_pkg.sv'') = Some package"
    and "get_config package True = Some (Inr config)"
  shows "parameters_extractor files target = Some (mapR (set_value config) (extract_lines extractor_init (read_lines text)))"
  using assms by (simp add: parameters_extractor_def obind_def Let_def)

lemma rules_unless: "map_of rules n = Some (Unless param) \<Longrightarrow> param \<in> {''DebugEn'', ''RVH'', ''RVV'', ''RVS'', ''RVA''}"
  by (drule map_of_SomeD) (auto simp: rules_def)

lemma extracted_value:
  assumes "mapR (set_value config) ps = Inr qs" "has_key qs param"
  shows "pm_value (the (map_of qs param)) = the (map_of config param)"
  using mapR_set_value [OF assms(1)] assms(2) by (auto simp: has_key_def)

lemma mapR_set_value_total:
  "mapR (set_value config) ps =
     (if fst ` set ps \<subseteq> dom (map_of config) then ret (map (\<lambda>(n, p). (n, p\<lparr>pm_value := the (map_of config n)\<rparr>)) ps)
      else raise KeyError)"
proof (induction ps)
  case (Cons np ps)
  then show ?case by (cases np; cases "map_of config (fst np)") (auto simp: set_value_def dict_get_def)
qed simp

definition rule_params :: "string list" where
  "rule_params = [''DebugEn'', ''RVH'', ''RVV'', ''RVS'', ''RVA'']"

lemma define_blacklist_cases:
  "define_blacklist ps = (if \<forall>param \<in> set rule_params. has_key ps param
     then ret (dict_update_all [] (entries (\<lambda>param. pm_value (the (map_of ps param))) rules)) else raise KeyError)"
proof (cases "define_blacklist ps")
  case (Inr bl)
  then show ?thesis by (simp add: define_blacklist_entries rule_params_def)
next
  case (Inl e)
  then have "e = KeyError"
    unfolding define_blacklist_def Let_def
    by (simp only: tie_if_false_entries rbind_if_raise split: if_splits) simp_all
  moreover have "\<not> (\<forall>param \<in> set rule_params. has_key ps param)"
    using define_blacklist_entries [of ps] Inl by (auto simp: rule_params_def)
  ultimately show ?thesis using Inl by simp
qed

text \<open>
  When the builder gets its black list: the package has a value for every parameter declared and the five that the
  rules read are declared; else it stops with a KeyError.
\<close>

lemma blacklist_obtained:
  assumes "files ''../core/include/config_pkg.sv'' = Some text"
    and "files (''../core/include/'' @ target @ ''_config_pkg.sv'') = Some package"
    and "get_config package True = Some (Inr config)"
    and "declared = fst ` set (extract_lines extractor_init (read_lines text))"
  shows "(let known = declared \<subseteq> dom (map_of config) \<and> set rule_params \<subseteq> declared in
    case obind (parameters_extractor files target) (\<lambda>ps. Some (define_blacklist ps)) of
      Some (Inr bl) \<Rightarrow> known \<and>
        (\<forall>n. map_of bl n = Option.bind (map_of rules n) (apply_rule (\<lambda>param. the (map_of config param))))
    | Some (Inl e) \<Rightarrow> \<not> known \<and> e = KeyError
    | None \<Rightarrow> False)"
proof -
  let ?ps = "extract_lines extractor_init (read_lines text)"
  let ?qs = "map (\<lambda>(n, p). (n, p\<lparr>pm_value := the (map_of config n)\<rparr>)) ?ps"
  have x: "parameters_extractor files target = Some (mapR (set_value config) ?ps)"
    by (rule parameters_extracted [OF assms(1-3)])
  show ?thesis
  proof (cases "declared \<subseteq> dom (map_of config)")
    case False
    then show ?thesis using x assms(4) by (simp add: mapR_set_value_total obind_def)
  next
    case True
    then have m: "mapR (set_value config) ?ps = Inr ?qs" using assms(4) by (simp add: mapR_set_value_total)
    have k: "has_key ?qs param \<longleftrightarrow> param \<in> declared" for param
      by (simp add: has_key_iff assms(4) image_image case_prod_unfold)
    show ?thesis
    proof (cases "set rule_params \<subseteq> declared")
      case False
      then have "define_blacklist ?qs = Inl KeyError" using k by (auto simp: define_blacklist_cases)
      with False x m show ?thesis by (simp add: obind_def)
    next
      case known: True
      then have "\<forall>param \<in> set rule_params. has_key ?qs param" using k by blast
      then obtain bl where bl: "define_blacklist ?qs = Inr bl" unfolding define_blacklist_cases by simp
      have "pm_value (the (map_of ?qs param)) = the (map_of config param)"
        if "map_of rules n = Some (Unless param)" for n param
        using rules_unless [OF that] extracted_value [OF m] k known by (auto simp: rule_params_def)
      then have "map_of bl n = Option.bind (map_of rules n) (apply_rule (\<lambda>param. the (map_of config param)))" for n
        unfolding blacklist_lookup [OF bl]
        by (cases "map_of rules n") (auto simp: apply_rule_def split: tie_rule.splits)
      with True known x m bl show ?thesis by (simp add: obind_def)
    qed
  qed
qed

section \<open>What a package can change\<close>

text \<open>The values a target's package gives, the black list the builder makes of it, and the ports listed for a reason.\<close>

definition package_values :: "(string \<Rightarrow> string option) \<Rightarrow> string \<Rightarrow> (string \<rightharpoonup> sv_value) option" where
  "package_values files target =
     (case files (''../core/include/'' @ target @ ''_config_pkg.sv'') of
        None \<Rightarrow> None
      | Some package \<Rightarrow> (case get_config package True of Some (Inr config) \<Rightarrow> Some (map_of config) | _ \<Rightarrow> None))"

definition blacklist_of :: "(string \<Rightarrow> string option) \<Rightarrow> string \<Rightarrow> blacklist result option" where
  "blacklist_of files target = obind (parameters_extractor files target) (\<lambda>ps. Some (define_blacklist ps))"

definition listed_because :: "blacklist \<Rightarrow> string \<Rightarrow> string set" where
  "listed_because bl reason = {n. \<exists>level. map_of bl n = Some (reason, level)}"

text \<open>The parameters read, and those whose value is written in the script, each with the number of its ports.\<close>

definition switches :: "(string \<times> nat) list" where
  "switches = [(''DebugEn'', 7), (''RVH'', 45), (''RVV'', 2), (''RVS'', 19), (''RVA'', 4)]"

definition wired :: "(string \<times> string \<times> nat) list" where
  "wired = [(''IsRVFI'', ''0'', 1), (''EnableAccelerator'', ''0'', 1), (''RVF'', ''0'', 24),
     (''PRIV'', ''MachineOnly'', 10), (''PerfCounterEn'', ''0'', 1), (''FenceEn'', ''0'', 4), (''MMUPresent'', ''0'', 3)]"

definition switch_entry :: "(string \<rightharpoonup> sv_value) \<Rightarrow> string \<Rightarrow> (string \<times> string) option" where
  "switch_entry values param = (let v = the (values param) in
     if is_false v then Some (as_reason param (sv_str v), ''0'') else None)"

lemma blacklist_of_lookup:
  assumes "package_values files target = Some values" "blacklist_of files target = Some (Inr bl)"
  shows "map_of bl n = Option.bind (map_of rules n) (apply_rule (\<lambda>param. the (values param)))"
proof -
  obtain package config where p: "files (''../core/include/'' @ target @ ''_config_pkg.sv'') = Some package"
    "get_config package True = Some (Inr config)" "values = map_of config"
    using assms(1) by (auto simp: package_values_def split: option.splits sum.splits)
  obtain sv where t: "files ''../core/include/config_pkg.sv'' = Some sv"
    using assms(2) by (cases "files ''../core/include/config_pkg.sv''")
      (auto simp: blacklist_of_def parameters_extractor_def obind_def)
  from blacklist_obtained [OF t p(1,2) refl] assms(2) p(3) show ?thesis
    by (simp add: blacklist_of_def Let_def)
qed

lemma as_reason_inject:
  assumes "CHR '' '' \<notin> set p" "CHR '' '' \<notin> set q" "as_reason p v = as_reason q w"
  shows "p = q"
proof -
  have "takeWhile (\<lambda>c. c \<noteq> CHR '' '') (drop 3 (as_reason r u)) = r" if "CHR '' '' \<notin> set r" for r u
    using that by (simp add: as_reason_def takeWhile_append takeWhile_eq_all_conv [THEN iffD2])
  with assms show ?thesis by metis
qed

text \<open>The rules by reason.\<close>

definition ruled :: "(tie_rule \<Rightarrow> bool) \<Rightarrow> string list" where
  "ruled P = remdups (map fst (filter (\<lambda>(n, r). P r) rules))"

lemma map_of_rules: "map_of rules n = Some r \<longleftrightarrow> (n, r) \<in> set rules"
  using map_of_SomeD rules_functional by metis

lemma set_ruled: "set (ruled P) = {n. \<exists>r. map_of rules n = Some r \<and> P r}"
  by (force simp: ruled_def map_of_rules)

lemma rules_counted:
  "list_all (\<lambda>(p, k). length (ruled (\<lambda>r. r = Unless p)) = k) switches"
  "list_all (\<lambda>(p, v, k). length (ruled (\<lambda>r. case r of Always reason _ \<Rightarrow> reason = as_reason p v | _ \<Rightarrow> False)) = k) wired"
  "length (ruled (\<lambda>r. case r of Always reason _ \<Rightarrow> reason = fixed_reason | _ \<Rightarrow> False)) = 14"
  by code_simp+

lemma rules_known:
  "list_all (\<lambda>(n, r). case r of
      Always reason _ \<Rightarrow> reason = fixed_reason \<or> reason \<in> set (map (\<lambda>(p, v, k). as_reason p v) wired)
    | Unless p \<Rightarrow> p \<in> set (map fst switches)) rules"
  by code_simp

lemma wired_not_switch:
  assumes "(p, v, k) \<in> set wired" "q \<in> set (map fst switches)"
  shows "as_reason p v \<noteq> as_reason q w"
proof -
  have "list_all (\<lambda>(p, v, k). list_all (\<lambda>q. p \<noteq> q \<and> CHR '' '' \<notin> set p \<and> CHR '' '' \<notin> set q) (map fst switches)) wired"
    by code_simp
  with assms show ?thesis using as_reason_inject by (fastforce simp: list_all_iff)
qed

lemma fixed_not_as: "fixed_reason \<noteq> as_reason q w"
  by (simp add: fixed_reason_def as_reason_def)

lemma switch_reasons:
  assumes "p \<in> set (map fst switches)" "q \<in> set (map fst switches)" "as_reason p v = as_reason q w"
  shows "p = q"
proof -
  have "list_all (\<lambda>q. CHR '' '' \<notin> set q) (map fst switches)" by code_simp
  with assms as_reason_inject show ?thesis by (metis list_all_iff)
qed

lemma rule_cases:
  assumes "map_of rules n = Some r"
  obtains (fixed) l where "r = Always fixed_reason l"
    | (wired) l p v k where "r = Always (as_reason p v) l" "(p, v, k) \<in> set wired"
    | (switch) p where "r = Unless p" "p \<in> set (map fst switches)"
proof -
  have r: "case r of
      Always reason _ \<Rightarrow> reason = fixed_reason \<or> reason \<in> set (map (\<lambda>(p, v, k). as_reason p v) wired)
    | Unless p \<Rightarrow> p \<in> set (map fst switches)"
    using rules_known map_of_SomeD [OF assms] unfolding list_all_iff by blast
  show ?thesis
  proof (cases r)
    case (Always reason l)
    with r have "reason = fixed_reason \<or> reason \<in> set (map (\<lambda>(p, v, k). as_reason p v) wired)"
      by (simp only: tie_rule.case)
    then show ?thesis
    proof
      assume "reason = fixed_reason"
      with Always fixed show ?thesis by blast
    next
      assume "reason \<in> set (map (\<lambda>(p, v, k). as_reason p v) wired)"
      then obtain p v k where "reason = as_reason p v" "(p, v, k) \<in> set wired" unfolding set_map image_iff by force
      with Always wired show ?thesis by blast
    qed
  next
    case (Unless p)
    with r switch show ?thesis by simp
  qed
qed

lemma listed_iff:
  assumes "package_values files target = Some values" "blacklist_of files target = Some (Inr bl)"
  shows "n \<in> listed_because bl reason \<longleftrightarrow>
    (\<exists>l. map_of rules n = Some (Always reason l)) \<or>
    (\<exists>p. map_of rules n = Some (Unless p) \<and> is_false (the (values p)) \<and> reason = as_reason p (sv_str (the (values p))))"
  unfolding listed_because_def blacklist_of_lookup [OF assms]
  by (cases "map_of rules n") (auto simp: apply_rule_def split: tie_rule.split)

lemma card_ruled: "card (set (ruled P)) = length (ruled P)"
  by (simp add: ruled_def length_remdups_card_conv)

lemma listed_by_switch:
  assumes "package_values files target = Some values" "blacklist_of files target = Some (Inr bl)"
    and p: "(p, k) \<in> set switches"
  shows "card (listed_because bl (as_reason p (sv_str (the (values p))))) = (if is_false (the (values p)) then k else 0)"
proof -
  let ?why = "as_reason p (sv_str (the (values p)))"
  have s: "p \<in> set (map fst switches)" using p by force
  have "map_of rules n \<noteq> Some (Always ?why l)" for n l
  proof
    assume "map_of rules n = Some (Always ?why l)"
    then show False
    proof (cases rule: rule_cases)
      case fixed
      then show ?thesis using fixed_not_as by (metis tie_rule.inject(1))
    next
      case wired
      then show ?thesis using wired_not_switch [OF _ s] by (metis tie_rule.inject(1))
    qed simp
  qed
  moreover have "map_of rules n = Some (Unless q) \<and> is_false (the (values q)) \<and> ?why = as_reason q (sv_str (the (values q)))
      \<longleftrightarrow> map_of rules n = Some (Unless q) \<and> q = p \<and> is_false (the (values p))" for n q
  proof (cases "map_of rules n = Some (Unless q)")
    case True
    then have "q \<in> set (map fst switches)" by (cases rule: rule_cases) simp_all
    with s switch_reasons show ?thesis by blast
  qed simp
  ultimately have "n \<in> listed_because bl ?why \<longleftrightarrow> map_of rules n = Some (Unless p) \<and> is_false (the (values p))" for n
    unfolding listed_iff [OF assms(1,2)] by metis
  then have "listed_because bl ?why =
      (if is_false (the (values p)) then set (ruled (\<lambda>r. r = Unless p)) else {})"
    by (auto simp: set_ruled)
  then show ?thesis using rules_counted(1) p by (auto simp: card_ruled list_all_iff)
qed

lemma listed_by_rule:
  assumes "package_values files target = Some values" "blacklist_of files target = Some (Inr bl)"
    and "\<And>q w. q \<in> set (map fst switches) \<Longrightarrow> why \<noteq> as_reason q w"
  shows "card (listed_because bl why) = length (ruled (\<lambda>r. case r of Always reason _ \<Rightarrow> reason = why | _ \<Rightarrow> False))"
proof -
  have "map_of rules n = Some (Unless q) \<Longrightarrow> why \<noteq> as_reason q w" for n q w
    using assms(3) by (metis rule_cases tie_rule.distinct(1) tie_rule.inject(2))
  then have "n \<in> listed_because bl why \<longleftrightarrow> (\<exists>l. map_of rules n = Some (Always why l))" for n
    unfolding listed_iff [OF assms(1,2)] by metis
  moreover have "(case r of Always reason _ \<Rightarrow> reason = why | _ \<Rightarrow> False) \<longleftrightarrow> (\<exists>l. r = Always why l)" for r
    by (cases r) auto
  ultimately have "listed_because bl why = set (ruled (\<lambda>r. case r of Always reason _ \<Rightarrow> reason = why | _ \<Rightarrow> False))"
    by (auto simp: set_ruled)
  then show ?thesis by (simp add: card_ruled)
qed

lemma listed_by_wired:
  assumes "package_values files target = Some values" "blacklist_of files target = Some (Inr bl)" "(p, v, k) \<in> set wired"
  shows "card (listed_because bl (as_reason p v)) = k"
  using listed_by_rule [OF assms(1,2) wired_not_switch [OF assms(3)]] rules_counted(2) assms(3)
  by (auto simp: list_all_iff)

lemma listed_fixed:
  assumes "package_values files target = Some values" "blacklist_of files target = Some (Inr bl)"
  shows "card (listed_because bl fixed_reason) = 14"
  using listed_by_rule [OF assms fixed_not_as] rules_counted(3) by simp

text \<open>
  C39: What a package decides of the black list, and what it does not. Between the lists of two packages a port either
  keeps its entry, which is then one for any configuration or one for a value written in the script, or it is one of
  the ports of a single parameter among the five that are read, and has an entry in each list exactly when that
  package sets the parameter to false, with the value printed. DebugEn, RVH, RVV, RVS and RVA have 7, 45, 2, 19 and 4
  ports. The other 58 ports are listed whatever the package says: 14 for any configuration, and 44 with a reason that
  names a parameter (IsRVFI, EnableAccelerator, RVF, PRIV, PerfCounterEn, FenceEn, MMUPresent) that is not read.
\<close>

theorem blacklist_follows_package:
  assumes "package_values files A = Some valuesA" "blacklist_of files A = Some (Inr blA)"
    and "package_values files B = Some valuesB" "blacklist_of files B = Some (Inr blB)"
  shows "(\<forall>n. (map_of blA n = map_of blB n \<and> map_of blA n = None)
      \<or> (\<exists>reason level. map_of blA n = Some (reason, level) \<and> map_of blB n = Some (reason, level)
          \<and> (reason = fixed_reason \<or> (\<exists>(p, v, k) \<in> set wired. reason = as_reason p v)))
      \<or> (\<exists>(p, k) \<in> set switches. map_of blA n = switch_entry valuesA p \<and> map_of blB n = switch_entry valuesB p))
    \<and> (\<forall>(p, k) \<in> set switches. card (listed_because blA (as_reason p (sv_str (the (valuesA p)))))
        = (if is_false (the (valuesA p)) then k else 0))
    \<and> (\<forall>(p, v, k) \<in> set wired. card (listed_because blA (as_reason p v)) = k)
    \<and> card (listed_because blA fixed_reason) = 14"
  (is "?entries \<and> ?switched \<and> ?wired \<and> ?fixed")
proof (intro conjI)
  show ?entries
  proof
    fix n
    note look = blacklist_of_lookup [OF assms(1,2)] blacklist_of_lookup [OF assms(3,4)]
    show "(map_of blA n = map_of blB n \<and> map_of blA n = None)
      \<or> (\<exists>reason level. map_of blA n = Some (reason, level) \<and> map_of blB n = Some (reason, level)
          \<and> (reason = fixed_reason \<or> (\<exists>(p, v, k) \<in> set wired. reason = as_reason p v)))
      \<or> (\<exists>(p, k) \<in> set switches. map_of blA n = switch_entry valuesA p \<and> map_of blB n = switch_entry valuesB p)"
    proof (cases "map_of rules n")
      case None
      then show ?thesis by (simp add: look)
    next
      case (Some r)
      then show ?thesis
      proof (cases rule: rule_cases)
        case (fixed l)
        with Some show ?thesis by (simp add: look apply_rule_def)
      next
        case (wired l p v k)
        with Some have "map_of blA n = Some (as_reason p v, l)" "map_of blB n = Some (as_reason p v, l)"
          by (simp_all add: look apply_rule_def)
        with wired(2) show ?thesis by blast
      next
        case (switch p)
        then obtain k where "(p, k) \<in> set switches" by auto
        moreover have "map_of blA n = switch_entry valuesA p" "map_of blB n = switch_entry valuesB p"
          using Some switch(1) by (simp_all add: look apply_rule_def switch_entry_def Let_def)
        ultimately show ?thesis by blast
      qed
    qed
  qed
  show ?switched using listed_by_switch [OF assms(1,2)] by blast
  show ?wired using listed_by_wired [OF assms(1,2)] by blast
  show ?fixed using listed_fixed [OF assms(1,2)] .
qed

text \<open>A declaration with the five parameters, and two packages that differ in the debug mode.\<close>

definition example_lines :: "string list" where
  "example_lines = [''typedef struct packed {'', '' bit RVH;'', '' bit DebugEn;'', '' bit RVV;'', '' bit RVS;'', '' bit RVA;'',
     ''} cva6_user_cfg_t;'']"

definition example_package :: "string \<Rightarrow> string list" where
  "example_package debug = [''DebugEn: bit'' @ [CHR 0x27] @ ''('' @ debug @ ''),'', ''RVH: 1,'', ''RVV: 1,'', ''RVS: 1,'',
     ''RVA: 1'']"

definition example_files :: "string \<Rightarrow> string option" where
  "example_files path =
     (if path = ''../core/include/config_pkg.sv'' then Some (text_lines example_lines)
      else if path = ''../core/include/x_config_pkg.sv'' then Some (text_lines (example_package ''0''))
      else if path = ''../core/include/y_config_pkg.sv'' then Some (text_lines (example_package ''1'')) else None)"

definition example_config :: "bool \<Rightarrow> (string, sv_value) dict" where
  "example_config debug = [(''DebugEn'', SvBool debug), (''RVH'', SvStr ''1''), (''RVV'', SvStr ''1''),
     (''RVS'', SvStr ''1''), (''RVA'', SvStr ''1'')]"

lemma example_evaluated:
  "get_config (text_lines (example_package ''0'')) True = Some (Inr (example_config False))"
  "get_config (text_lines (example_package ''1'')) True = Some (Inr (example_config True))"
  "map fst (extract_lines extractor_init (read_lines (text_lines example_lines)))
     = [''RVH'', ''DebugEn'', ''RVV'', ''RVS'', ''RVA'']"
  by code_simp+

lemma example_lists:
  shows "package_values example_files ''x'' = Some (map_of (example_config False))"
    and "package_values example_files ''y'' = Some (map_of (example_config True))"
    and "\<exists>bl. blacklist_of example_files ''x'' = Some (Inr bl)"
    and "\<exists>bl. blacklist_of example_files ''y'' = Some (Inr bl)"
proof -
  have f: "example_files ''../core/include/config_pkg.sv'' = Some (text_lines example_lines)"
    "example_files (''../core/include/'' @ ''x'' @ ''_config_pkg.sv'') = Some (text_lines (example_package ''0''))"
    "example_files (''../core/include/'' @ ''y'' @ ''_config_pkg.sv'') = Some (text_lines (example_package ''1''))"
    by (simp_all add: example_files_def)
  show "package_values example_files ''x'' = Some (map_of (example_config False))"
    "package_values example_files ''y'' = Some (map_of (example_config True))"
    unfolding package_values_def f option.case example_evaluated by simp_all
  have d: "fst ` set (extract_lines extractor_init (read_lines (text_lines example_lines))) = set rule_params"
    using arg_cong [OF example_evaluated(3), of set] by (auto simp: rule_params_def)
  have dom: "dom (map_of (example_config debug)) = set rule_params" for debug
    by (simp add: dom_map_of_conv_image_fst example_config_def rule_params_def insert_commute)
  show "\<exists>bl. blacklist_of example_files ''x'' = Some (Inr bl)"
    using blacklist_obtained [OF f(1,2) example_evaluated(1) refl, unfolded Let_def d dom]
    unfolding blacklist_of_def by (auto split: option.splits sum.splits)
  show "\<exists>bl. blacklist_of example_files ''y'' = Some (Inr bl)"
    using blacklist_obtained [OF f(1,3) example_evaluated(2) refl, unfolded Let_def d dom]
    unfolding blacklist_of_def by (auto split: option.splits sum.splits)
qed

theorem blacklist_follows_package_witness:
  "\<exists>bl. blacklist_of example_files ''x'' = Some (Inr bl)
     \<and> card (listed_because bl ''As DebugEn = False'') = 7 \<and> card (listed_because bl ''As RVH = 1'') = 0
     \<and> card (listed_because bl ''As RVF = 0'') = 24"
proof -
  obtain blx bly where bl: "blacklist_of example_files ''x'' = Some (Inr blx)"
    "blacklist_of example_files ''y'' = Some (Inr bly)" using example_lists(3,4) by blast
  note claim = blacklist_follows_package [OF example_lists(1) bl(1) example_lists(2) bl(2)]
  have "card (listed_because blx ''As DebugEn = False'') = 7" "card (listed_because blx ''As RVH = 1'') = 0"
    "card (listed_because blx ''As RVF = 0'') = 24"
    using claim by (simp_all add: switches_def wired_def example_config_def is_false_def as_reason_def sv_str_def)
  with bl(1) show ?thesis by blast
qed

end
