(* ===== verification/Report.thy ===== *)
theory Report
  imports Py_Regex Yaml
begin

text \<open>
  The helpers of the reports of the continuous integration, \<open>.gitlab-ci/scripts/report_builder.py\<close>. The classes of
  metrics are records that extend the base class; the cells of their tables are a parameter, since some scripts
  put numbers and others text. The environment is a partial function; the clock is a record of parameters.
\<close>

section \<open>Metrics\<close>

record metric =
  m_name :: string
  m_sort_index :: "int option"
  m_failed :: bool

record 'c log_metric = metric +
  lm_values :: "'c list"

record 'c table_metric = metric +
  tm_values :: "'c list list"

text \<open>Columns are a title and a type; a row is its status, its label and its cells.\<close>

record 'c status_metric = metric +
  sm_values :: "(string \<times> string \<times> 'c list) list"
  sm_columns :: "(string \<times> string) list"

definition log_metric :: "string \<Rightarrow> 'c log_metric" where
  "log_metric name = \<lparr>m_name = name, m_sort_index = None, m_failed = False, lm_values = []\<rparr>"

definition table_metric :: "string \<Rightarrow> 'c table_metric" where
  "table_metric name = \<lparr>m_name = name, m_sort_index = None, m_failed = False, tm_values = []\<rparr>"

definition status_metric :: "string \<Rightarrow> 'c status_metric" where
  "status_metric name = \<lparr>m_name = name, m_sort_index = None, m_failed = False, sm_values = [], sm_columns = []\<rparr>"

definition metric_fail :: "'a metric_scheme \<Rightarrow> 'a metric_scheme" where
  "metric_fail m = m\<lparr>m_failed := True\<rparr>"

definition log_add_value :: "'c \<Rightarrow> 'c log_metric \<Rightarrow> 'c log_metric" where
  "log_add_value line m = m\<lparr>lm_values := lm_values m @ [line]\<rparr>"

definition table_add_value :: "'c list \<Rightarrow> 'c table_metric \<Rightarrow> 'c table_metric" where
  "table_add_value col m = m\<lparr>tm_values := tm_values m @ [col]\<rparr>"

definition add_column :: "string \<Rightarrow> string \<Rightarrow> 'c status_metric \<Rightarrow> 'c status_metric" where
  "add_column title col_type m = m\<lparr>sm_columns := sm_columns m @ [(title, col_type)]\<rparr>"

definition status_add_value :: "string \<Rightarrow> string \<Rightarrow> 'c list \<Rightarrow> 'c status_metric \<Rightarrow> 'c status_metric" where
  "status_add_value status label col m = m\<lparr>sm_values := sm_values m @ [(status, label, col)]\<rparr>"

definition add_pass_label :: "string \<Rightarrow> 'c list \<Rightarrow> 'c status_metric \<Rightarrow> 'c status_metric" where
  "add_pass_label label col m = status_add_value ''pass'' label col m"

definition add_fail_label :: "string \<Rightarrow> 'c list \<Rightarrow> 'c status_metric \<Rightarrow> 'c status_metric" where
  "add_fail_label label col m = metric_fail (status_add_value ''fail'' label col m)"

definition add_pass :: "'c list \<Rightarrow> 'c status_metric \<Rightarrow> 'c status_metric" where
  "add_pass col m = add_pass_label ''PASS'' col m"

definition add_fail :: "'c list \<Rightarrow> 'c status_metric \<Rightarrow> 'c status_metric" where
  "add_fail col m = add_fail_label ''FAIL'' col m"

section \<open>Documents\<close>

datatype 'c doc =
    DNone
  | DStr string
  | DInt int
  | DCell 'c
  | DList "'c doc list"
  | DMap "(string \<times> 'c doc) list"

datatype 'c any_metric =
    LogM "'c log_metric"
  | TableM "'c table_metric"
  | StatusM "'c status_metric"

fun base_of :: "'c any_metric \<Rightarrow> metric" where
  "base_of (LogM m) = metric.truncate m"
| "base_of (TableM m) = metric.truncate m"
| "base_of (StatusM m) = metric.truncate m"

fun set_index :: "int \<Rightarrow> 'c any_metric \<Rightarrow> 'c any_metric" where
  "set_index i (LogM m) = LogM (m\<lparr>m_sort_index := Some i\<rparr>)"
| "set_index i (TableM m) = TableM (m\<lparr>m_sort_index := Some i\<rparr>)"
| "set_index i (StatusM m) = StatusM (m\<lparr>m_sort_index := Some i\<rparr>)"

fun metric_type :: "'c any_metric \<Rightarrow> string" where
  "metric_type (LogM m) = ''log''"
| "metric_type (TableM m) = ''table''"
| "metric_type (StatusM m) = ''table_status''"

definition cells_doc :: "'c list \<Rightarrow> 'c doc" where
  "cells_doc col = DList (map DCell col)"

fun values_to_doc :: "'c any_metric \<Rightarrow> 'c doc" where
  "values_to_doc (LogM m) = cells_doc (lm_values m)"
| "values_to_doc (TableM m) = DList (map (\<lambda>v. DMap [(''col'', cells_doc v)]) (tm_values m))"
| "values_to_doc (StatusM m) = DList (map (\<lambda>(s, l, c).
     DMap [(''status'', DStr s), (''label'', DStr l), (''col'', cells_doc c)]) (sm_values m))"

fun columns_doc :: "'c any_metric \<Rightarrow> (string \<times> 'c doc) list" where
  "columns_doc (StatusM m) = (if sm_columns m = [] then []
     else [(''columns'', DList (map (\<lambda>(title, col_type).
       DMap [(''title'', DStr title), (''col_type'', DStr col_type)]) (sm_columns m)))])"
| "columns_doc _ = []"

definition status_of :: "bool \<Rightarrow> string" where
  "status_of failed = (if failed then ''fail'' else ''pass'')"

definition metric_to_doc :: "'c any_metric \<Rightarrow> 'c doc" where
  "metric_to_doc m = DMap ([
     (''display_name'', DStr (m_name (base_of m))),
     (''sort_index'', case m_sort_index (base_of m) of None \<Rightarrow> DNone | Some i \<Rightarrow> DInt i),
     (''type'', DStr (metric_type m)),
     (''status'', DStr (status_of (m_failed (base_of m)))),
     (''value'', values_to_doc m)] @ columns_doc m)"

section \<open>Reports\<close>

record 'c report =
  rp_label :: "string option"
  rp_failed :: bool
  rp_metrics :: "'c any_metric list"

definition new_report :: "string option \<Rightarrow> 'c report" where
  "new_report label = \<lparr>rp_label = label, rp_failed = False, rp_metrics = []\<rparr>"

definition report_fail :: "'c report \<Rightarrow> 'c report" where
  "report_fail r = r\<lparr>rp_failed := True\<rparr>"

text \<open>The index after that of the last metric; None has no successor.\<close>

definition next_index :: "'c report \<Rightarrow> int result" where
  "next_index r =
     (if rp_metrics r = [] then ret 1
      else rbind (of_option TypeError (m_sort_index (base_of (last (rp_metrics r))))) (\<lambda>i. ret (i + 1)))"

definition add_metric1 :: "'c report \<Rightarrow> 'c any_metric \<Rightarrow> 'c report result" where
  "add_metric1 r m =
     rbind (case m_sort_index (base_of m) of
         None \<Rightarrow> rbind (next_index r) (\<lambda>i. ret (set_index i m))
       | Some _ \<Rightarrow> ret m) (\<lambda>m.
     let r = r\<lparr>rp_metrics := rp_metrics r @ [m]\<rparr> in
     ret (if m_failed (base_of m) then report_fail r else r))"

definition add_metric :: "'c any_metric list \<Rightarrow> 'c report \<Rightarrow> 'c report result" where
  "add_metric ms r = foldR add_metric1 r ms"

type_synonym environ = "string \<Rightarrow> string option"

definition env_get :: "environ \<Rightarrow> string \<Rightarrow> string result" where
  "env_get env k = of_option KeyError (env k)"

text \<open>\<open>strptime(...).timestamp()\<close> as an integer, the present time, and its digits.\<close>

record clock =
  ck_timestamp :: "string \<Rightarrow> int result"
  ck_now :: int
  ck_digits :: string

definition report_to_doc :: "environ \<Rightarrow> clock \<Rightarrow> 'c report \<Rightarrow> 'c doc result" where
  "report_to_doc env clock r =
     rbind (assertR (rp_metrics r \<noteq> [])) (\<lambda>_.
     rbind (env_get env ''CI_JOB_STARTED_AT'') (\<lambda>start.
     rbind (ck_timestamp clock start) (\<lambda>start.
     let label = (case rp_label r of None \<Rightarrow> (if rp_failed r then ''FAIL'' else ''PASS'') | Some l \<Rightarrow> l) in
     rbind (env_get env ''DASHBOARD_JOB_TITLE'') (\<lambda>title.
     rbind (env_get env ''DASHBOARD_JOB_DESCRIPTION'') (\<lambda>description.
     rbind (env_get env ''DASHBOARD_JOB_CATEGORY'') (\<lambda>category.
     rbind (env_get env ''DASHBOARD_SORT_INDEX'') (\<lambda>index.
     rbind (env_get env ''CI_JOB_ID'') (\<lambda>job_id.
     rbind (env_get env ''CI_JOB_URL'') (\<lambda>job_url.
     rbind (env_get env ''CI_JOB_STAGE'') (\<lambda>stage.
     ret (DMap [
       (''title'', DStr title), (''description'', DStr description), (''category'', DStr category),
       (''sort_index'', DStr index), (''job_id'', DStr job_id), (''job_url'', DStr job_url),
       (''job_stage_name'', DStr stage), (''job_started_at'', DInt start), (''job_end_at'', DInt (ck_now clock)),
       (''token'', DStr (''YC'' @ ck_digits clock)),
       (''status'', DStr (status_of (rp_failed r))),
       (''metrics'', DList (map metric_to_doc (rp_metrics r))),
       (''label'', DStr label)])))))))))))"

definition file_char :: "char \<Rightarrow> bool" where
  "file_char c \<longleftrightarrow> is_word_char c \<or> c = CHR ''.'' \<or> c = CHR 0x5C \<or> c = CHR ''/''"

text \<open>The file written, if any: its path and the document dumped into it.\<close>

definition report_dump :: "environ \<Rightarrow> clock \<Rightarrow> string option \<Rightarrow> 'c report \<Rightarrow> (string \<times> 'c doc) option result" where
  "report_dump env clock path r =
     (let path = (case path of
          Some p \<Rightarrow> Some p
        | None \<Rightarrow> map_option (\<lambda>ci_job_name. ''artifacts/reports/''
            @ re_sub (Sat (\<lambda>c. \<not> file_char c)) (\<lambda>_ _. ''_'') ci_job_name @ ''.yml'') (env ''CI_JOB_NAME'')) in
      case path of
        None \<Rightarrow> ret None
      | Some path \<Rightarrow> rbind (report_to_doc env clock r) (\<lambda>d. ret (Some (path, d))))"

end
