(* ===== verification/Job_Reports.thy ===== *)
theory Job_Reports
  imports Report Py_Float
begin

text \<open>
  The scripts that report on a job of the continuous integration, \<open>.gitlab-ci/scripts/report_*.py\<close>, those of coverage and
  synthesis excepted (\<open>Score_Reports\<close>). Each builds its
  metrics from logs, dumps a report, and some exit with 1 when the report has failed: a job is its report,
  the file written and the exit code. Logs are texts; the tandem reports come as loaded YAML.
\<close>

record 'c job =
  jb_report :: "'c report"
  jb_file :: "(string \<times> 'c doc) option"
  jb_exit :: int

text \<open>\<open>report.dump()\<close>, then \<open>sys.exit(1)\<close> for a failed report where the script has it.\<close>

definition finish :: "environ \<Rightarrow> clock \<Rightarrow> bool \<Rightarrow> 'c report \<Rightarrow> 'c job result" where
  "finish env clock exits r = rbind (report_dump env clock None r) (\<lambda>file.
     ret \<lparr>jb_report = r, jb_file = file, jb_exit = (if exits \<and> rp_failed r then 1 else 0)\<rparr>)"

definition one_metric :: "environ \<Rightarrow> clock \<Rightarrow> bool \<Rightarrow> string option \<Rightarrow> 'c any_metric \<Rightarrow> 'c job result" where
  "one_metric env clock exits label m = rbind (add_metric [m] (new_report label)) (finish env clock exits)"

section \<open>Fixed reports\<close>

definition report_pass_main :: "environ \<Rightarrow> clock \<Rightarrow> string job result" where
  "report_pass_main env clock = one_metric env clock False None (StatusM (add_pass
     [''Job completed without error. No metric extraction is configured''] (status_metric [])))"

definition report_fail_main :: "environ \<Rightarrow> clock \<Rightarrow> string job result" where
  "report_fail_main env clock = one_metric env clock False None (StatusM (add_fail
     [''Job has failed before end of script''] (status_metric [])))"

definition report_envfail_main :: "environ \<Rightarrow> clock \<Rightarrow> string job result" where
  "report_envfail_main env clock = one_metric env clock False None (StatusM (add_fail
     [''Environment failure detected. Some reports might be missing''] (status_metric [])))"

section \<open>FPGA boot\<close>

definition report_fpga_boot :: "environ \<Rightarrow> clock \<Rightarrow> string \<Rightarrow> string job result" where
  "report_fpga_boot env clock log =
     (let lines = read_lines log in
      if lines = [] then raise IndexError
      else let lastline = last lines; metric = status_metric ''Linux boot log'' in
        one_metric env clock False None (StatusM
          (if \<not> (contains ''Linux buildroot'' lastline \<and> contains ''riscv'' lastline)
           then add_fail [lastline] metric else add_pass [lastline] metric)))"

section \<open>Simulations\<close>

definition anything :: re where "anything = lazy (Sat (\<lambda>c. True))"

definition simu_re :: re where
  "simu_re = seqs [many dot, lit ''Compiling test: '', Group 1 (many dot), LineEnd, anything,
     LineStart, many dot, lit ''Target: '', Group 2 (many dot), LineEnd, LineEnd, anything,
     LineStart, many dot, lit ''ISA '', Group 3 (many dot), LineEnd, anything,
     LineStart, many dot, lit ''Found matching ISS: '', Group 4 (many dot), LineEnd, anything,
     LineStart, many dot, lit ''['', Group 5 (Alt (lit ''PASSED'') (lit ''FAILED'')), lit '']'', many dot, LineEnd]"

definition capture :: "nat \<Rightarrow> groups \<Rightarrow> string" where
  "capture n g = (case match_group n g of None \<Rightarrow> [] | Some s \<Rightarrow> s)"

definition job_logs :: "environ \<Rightarrow> string result" where
  "job_logs env = rbind (of_option TypeError (env ''CI_JOB_ID'')) (\<lambda>i. ret (''logs/'' @ i @ ''/artifacts/logs/''))"

definition with_logs :: "environ \<Rightarrow> bool" where
  "with_logs env \<longleftrightarrow> env ''COLLECT_SIMU_LOGS'' \<noteq> None"

definition simu_columns :: "bool \<Rightarrow> string status_metric" where
  "simu_columns logs =
     (let m = add_column ''TEST'' ''text'' (add_column ''ISA'' ''text'' (add_column ''TARGET'' ''text'' (status_metric [])))
      in if logs then add_column ''DISASSEMBLY'' ''log'' (add_column ''TB LOGS'' ''log'' (add_column ''OUTPUT'' ''log'' m))
         else m)"

definition simu_cells :: "environ \<Rightarrow> groups \<Rightarrow> string list result" where
  "simu_cells env g =
     (let test = capture 1 g; target = capture 2 g; isa = capture 3 g in
      if with_logs env then
        rbind (job_logs env) (\<lambda>logsPath.
        ret [target, isa, test, logsPath @ ''logfile.log'', logsPath @ test @ ''.'' @ target @ ''.log.iss'',
          logsPath @ test @ ''.'' @ target @ ''.csv''])
      else ret [target, isa, test])"

definition simu_test ::
  "environ \<Rightarrow> string status_metric \<times> int \<times> int \<Rightarrow> groups \<Rightarrow> (string status_metric \<times> int \<times> int) result" where
  "simu_test env = (\<lambda>(m, job_test_pass, job_test_total) g.
     rbind (simu_cells env g) (\<lambda>col.
     ret (if capture 5 g = ''PASSED'' then (add_pass col m, job_test_pass + 1, job_test_total + 1)
          else (add_fail col m, job_test_pass, job_test_total + 1))))"

definition report_simu :: "environ \<Rightarrow> clock \<Rightarrow> string \<Rightarrow> string job result" where
  "report_simu env clock log =
     rbind (foldR (simu_test env) (simu_columns (with_logs env), 0, 0) (re_findall simu_re log)) (\<lambda>(m, passed, total).
     let m = (if re_search (lit ''ERROR'') log \<noteq> None \<or> total = 0 then metric_fail m else m) in
     one_metric env clock True (Some (py_str passed @ ''/'' @ py_str total)) (StatusM m))"

section \<open>Tandem simulations\<close>

definition yaml_cat :: "string \<Rightarrow> yaml \<Rightarrow> string result" where
  "yaml_cat s y = rbind (as_str y) (\<lambda>t. ret (s @ t))"

definition tandem_columns :: "bool \<Rightarrow> yaml status_metric \<Rightarrow> yaml status_metric" where
  "tandem_columns logs m =
     (let m = foldl (\<lambda>m title. add_column title ''text'' m) m
        [''TARGET'', ''ISA'', ''TEST'', ''TEST LIST'', ''SIMULATOR'', ''MISMATCHES'']
      in if logs then foldl (\<lambda>m title. add_column title ''log'' m) m
           [''OUTPUT'', ''TANDEM REPORT'', ''TB LOGS'', ''DISASSEMBLY'']
         else m)"

definition log_prefix :: "string \<Rightarrow> (string \<times> yaml) list \<Rightarrow> string result" where
  "log_prefix logs_path report =
     rbind (dict_get report ''test'') (\<lambda>test. rbind (yaml_cat logs_path test) (\<lambda>p.
     if has_key report ''iteration'' then
       rbind (dict_get report ''iteration'') (\<lambda>iteration.
       rbind (dict_get report ''target'') (\<lambda>target.
       yaml_cat (p @ ''_'' @ y_str iteration @ ''.'') target))
     else rbind (dict_get report ''target'') (\<lambda>target. yaml_cat (p @ ''.'') target)))"

definition tandem_cells :: "environ \<Rightarrow> (string \<times> yaml) list \<Rightarrow> yaml list result" where
  "tandem_cells env report =
     (let mismatches = (case map_of report ''mismatches_count'' of None \<Rightarrow> ''Not found'' | Some v \<Rightarrow> y_str v) in
      rbind (mapR (dict_get report) [''target'', ''isa'', ''test'', ''testlist'', ''simulator'']) (\<lambda>row.
      let row = row @ [YStr mismatches] in
      if with_logs env then
        rbind (job_logs env) (\<lambda>logs_path.
        rbind (log_prefix logs_path report) (\<lambda>prefix.
        ret (row @ [YStr (logs_path @ ''logfile.log''), YStr (prefix @ ''.log.yaml''), YStr (prefix @ ''.log.iss''),
          YStr (prefix @ ''.log.csv'')])))
      else ret row))"

definition test_succeeded :: "(string \<times> yaml) list \<Rightarrow> bool result" where
  "test_succeeded report =
     rbind (dict_get report ''exit_cause'') (\<lambda>cause.
     if y_eq cause (YStr ''SUCCESS'') then
       rbind (dict_get report ''exit_code'') (\<lambda>exit_code. ret (y_eq exit_code (YInt 0)))
     else ret False)"

text \<open>A report that is no dictionary raises a TypeError; \<open>sys.exit\<close> with a text is exit code 1.\<close>

definition tandem_row :: "environ \<Rightarrow> yaml \<Rightarrow> yaml status_metric \<Rightarrow> (yaml status_metric \<times> int) result" where
  "tandem_row env y m = (case y of
     YMap report \<Rightarrow>
       rbind (tandem_cells env report) (\<lambda>row.
       rbind (test_succeeded report) (\<lambda>success.
       ret (if success then (add_pass row m, 1) else (add_fail row m, 0))))
   | _ \<Rightarrow> raise TypeError)"

definition add_test_row :: "environ \<Rightarrow> yaml \<Rightarrow> yaml status_metric \<Rightarrow> (yaml status_metric \<times> int) result" where
  "add_test_row env y m = (case tandem_row env y m of
     Inl e \<Rightarrow> raise (if e = TypeError \<or> e = KeyError then SystemExit 1 else e)
   | Inr r \<Rightarrow> ret r)"

definition tandem_step ::
  "environ \<Rightarrow> yaml status_metric \<times> int \<times> int \<Rightarrow> yaml \<Rightarrow> (yaml status_metric \<times> int \<times> int) result" where
  "tandem_step env = (\<lambda>(m, test_passed, test_count) y.
     rbind (add_test_row env y m) (\<lambda>(m, n). ret (m, test_passed + n, test_count + 1)))"

definition fill_table :: "environ \<Rightarrow> yaml list \<Rightarrow> yaml status_metric \<Rightarrow> (yaml status_metric \<times> int \<times> int) result" where
  "fill_table env reports m =
     rbind (foldR (tandem_step env) (m, 0, 0) reports) (\<lambda>(m, test_passed, test_count).
     ret (if test_passed \<noteq> test_count then metric_fail m else m, test_passed, test_count))"

text \<open>The arguments after the name of the script; \<open>dir\<close> gives the reports of a directory that exists.\<close>

definition report_tandem ::
  "environ \<Rightarrow> clock \<Rightarrow> (string \<Rightarrow> yaml list option) \<Rightarrow> string list \<Rightarrow> yaml job result" where
  "report_tandem env clock dir argv = (case argv of
     [path] \<Rightarrow>
       (case dir path of
          None \<Rightarrow> raise (SystemExit 1)
        | Some reports \<Rightarrow>
            if reports = [] then raise (SystemExit 1)
            else rbind (fill_table env reports (tandem_columns (with_logs env) (status_metric []))) (\<lambda>(m, passed, total).
              one_metric env clock True (Some (py_str passed @ ''/'' @ py_str total)) (StatusM m)))
   | _ \<Rightarrow> raise (SystemExit 1))"

section \<open>Lint\<close>

text \<open>Severity, rule, count and help, all text.\<close>

type_synonym lint_info = "string \<times> string \<times> string \<times> string"

definition lint_re :: re where
  "lint_re = seqs [Group 1 (Alt (lit ''WARNING'') (Alt (lit ''ERROR'') (lit ''INFO''))), spaces1,
     Group 2 (many1 (Sat (\<lambda>c. \<not> is_space c))), spaces1, Group 3 digits, spaces1, Group 4 (many1 dot), Eol]"

definition continuation_re :: re where
  "continuation_re = seqs [Bol, many1 (lit '' ''), Group 1 (many dot)]"

definition lint_continue :: "string \<Rightarrow> lint_info list \<Rightarrow> lint_info list result" where
  "lint_continue line infos = (case re_match continuation_re line of
     None \<Rightarrow> ret infos
   | Some (m, g) \<Rightarrow>
       if infos = [] then raise IndexError
       else let (severity, rule_name, count, short_help) = last infos in
         ret (butlast infos @ [(severity, rule_name, count, short_help @ '' '' @ capture 1 g)]))"

definition lint_line :: "lint_info list \<Rightarrow> string \<Rightarrow> lint_info list result" where
  "lint_line infos line = rbind (lint_continue line infos) (\<lambda>infos.
     ret (case re_match lint_re line of
       None \<Rightarrow> infos
     | Some (m, g) \<Rightarrow> infos @ [(capture 1 g, capture 2 g, capture 3 g, capture 4 g)]))"

definition extract_info :: "string \<Rightarrow> lint_info list result" where
  "extract_info text = foldR lint_line [] (read_lines text)"

type_synonym lint_key = "string \<times> string"

text \<open>A result: the key, count and help, whether it passes, and the message.\<close>

type_synonym lint_result = "lint_key \<times> (string \<times> string) \<times> bool \<times> string"

definition lint_dict :: "lint_info list \<Rightarrow> (lint_key, string \<times> string) dict" where
  "lint_dict infos = foldl (\<lambda>d (severity, rule_name, count, short_help).
     AList.update (severity, rule_name) (count, short_help) d) [] infos"

definition compare_new :: "(lint_key, string \<times> string) dict \<Rightarrow> lint_key \<times> string \<times> string \<Rightarrow> lint_result" where
  "compare_new baseline = (\<lambda>(key, count, short_help).
     case map_of baseline key of
       None \<Rightarrow> (key, (count, short_help), False, ''NEW'')
     | Some (old, _) \<Rightarrow>
         if count = old then (key, (count, short_help), True, ''SAME'')
         else (key, (count, short_help), \<not> (fst key = ''ERROR'' \<and> str_greater count old),
           ''Count changed from '' @ old @ '' to '' @ count))"

definition severity_order :: "(string, nat) dict" where
  "severity_order = [(''ERROR'', 1), (''WARNING'', 2), (''INFO'', 3)]"

definition compare_summaries :: "lint_info list \<Rightarrow> lint_info list \<Rightarrow> lint_result list result" where
  "compare_summaries baseline_info new_info =
     (let baseline = lint_dict baseline_info; new = lint_dict new_info;
          results = map (\<lambda>(key, v). (key, v, True, ''Deleted'')) (filter (\<lambda>(key, v). \<not> has_key new key) baseline)
            @ map (compare_new baseline) new in
      rbind (mapR (\<lambda>x. dict_get severity_order (fst (fst x))) results) (\<lambda>_.
      ret (sort_key (\<lambda>x. the (map_of severity_order (fst (fst x)))) results)))"

definition lint_row :: "lint_result \<Rightarrow> string status_metric \<Rightarrow> string status_metric" where
  "lint_row = (\<lambda>((severity, rule_name), (count, short_help), pass, message) m.
     let line = [severity, rule_name, count, short_help, message] in
     if pass then add_pass line m else add_fail line m)"

definition lint_report :: "lint_result list \<Rightarrow> string report result" where
  "lint_report results =
     (let m = foldl (\<lambda>m title. add_column title ''text'' m) (status_metric [])
        [''SEVERITY'', ''RULE NAME'', ''COUNT'', ''SHORT HELP'', ''DIFF''] in
      add_metric [StatusM (foldl (\<lambda>m r. lint_row r m) m results)] (new_report None))"

definition report_spyglass :: "environ \<Rightarrow> clock \<Rightarrow> string \<Rightarrow> string \<Rightarrow> string job result" where
  "report_spyglass env clock ref rpt =
     rbind (extract_info ref) (\<lambda>baseline.
     rbind (extract_info rpt) (\<lambda>new.
     rbind (compare_summaries baseline new) (\<lambda>results.
     rbind (lint_report results) (finish env clock True))))"

section \<open>Benchmarks\<close>

text \<open>Cells of the tables of scores.\<close>

datatype score = ScStr string | ScInt int | ScFloat pyfloat

definition valid_cycles :: "(string, int) dict" where
  "valid_cycles = [(''dhrystone_dual'', 16379), (''dhrystone_single'', 22256), (''coremark_dual'', 940954),
     (''coremark_single'', 1294524), (''dhrystone_cv32a65x'', 28478), (''dhrystone_cv32a60x'', 36629)]"

text \<open>\<open>path\<close>, \<open>mode\<close> and \<open>iterations\<close>.\<close>

type_synonym bench_args = "string option \<times> string option \<times> int option"

definition bench_arg :: "bench_args \<Rightarrow> string \<Rightarrow> bench_args" where
  "bench_arg = (\<lambda>(path, mode, iterations) arg.
     if contains ''--dhrystone'' arg \<or> contains ''--coremark'' arg then
       (path, Some (remove_char (CHR ''-'') arg), Some (if contains ''--dhrystone'' arg then 50 else 4))
     else (Some arg, mode, iterations))"

text \<open>\<open>words[-1]\<close> and \<open>words[-2]\<close>.\<close>

definition word_from_end :: "nat \<Rightarrow> string list \<Rightarrow> string result" where
  "word_from_end n ws = (if n \<le> length ws then ret (ws ! (length ws - n)) else raise IndexError)"

definition reads_mcycle :: "string \<Rightarrow> bool result" where
  "reads_mcycle line = rbind (word_from_end 1 (split_ws line)) (\<lambda>w.
     if w = ''mcycle'' then ret True
     else rbind (word_from_end 2 (split_ws line)) (\<lambda>w. ret (w = ''mcycle,'')))"

definition stop_step :: "string list \<Rightarrow> int list \<Rightarrow> nat \<Rightarrow> int list result" where
  "stop_step log stopwatch index = rbind (reads_mcycle (log ! index)) (\<lambda>b.
     if b then
       if Suc index < length log then
         rbind (word_from_end 1 (split_ws (log ! Suc index))) (\<lambda>w. rbind (py_int 16 w) (\<lambda>v. ret (stopwatch @ [v])))
       else raise IndexError
     else ret stopwatch)"

definition stopwatch_of :: "string list \<Rightarrow> int list result" where
  "stopwatch_of log = foldR (stop_step log) [] [0..<length log]"

text \<open>With no reading, \<open>stopwatch[0]\<close> is an IndexError.\<close>

definition centre_cycles :: "int list \<Rightarrow> int result" where
  "centre_cycles stopwatch =
     (let n = length stopwatch in
      rbind (assertR (n mod 2 = 0)) (\<lambda>_.
      if n = 0 then raise IndexError else ret (stopwatch ! (n div 2) - stopwatch ! (n div 2 - 1))))"

definition score_rows :: "string \<Rightarrow> int option \<Rightarrow> int \<Rightarrow> score list list result" where
  "score_rows mode iterations cycles = (case iterations of
     None \<Rightarrow> ret []
   | Some iterations \<Rightarrow>
       rbind (int_div (iterations * 1000000) cycles) (\<lambda>ipmhz.
       rbind (if contains ''dhrystone'' mode then
           rbind (float_div_int ipmhz 1757) (\<lambda>dmips.
           ret [[ScStr ''Dhrystone/MHz'', ScFloat ipmhz], [ScStr ''DMIPS/MHz'', ScFloat dmips]])
         else ret []) (\<lambda>rows.
       ret (rows @ (if contains ''coremark'' mode then [[ScStr ''CoreMark/MHz'', ScFloat ipmhz]] else [])))))"

definition bench_metric :: "int \<Rightarrow> int \<Rightarrow> score list list \<Rightarrow> score table_metric" where
  "bench_metric cycles valid rows =
     (let m = foldl (\<lambda>m row. table_add_value row m) (table_metric ''Performance results'')
        ([ScStr ''cycles'', ScInt cycles] # rows)
      in if cycles - valid \<noteq> 0 then table_add_value [ScStr ''Cycles diff'', ScInt (cycles - valid)] (metric_fail m)
         else m)"

definition report_benchmark :: "environ \<Rightarrow> clock \<Rightarrow> (string \<Rightarrow> string option) \<Rightarrow> string list \<Rightarrow> score job result" where
  "report_benchmark env clock files argv =
     (let (path, mode, iterations) = foldl bench_arg (None, None, None) argv in
      rbind (of_option AssertionError mode) (\<lambda>mode.
      rbind (of_option TypeError path) (\<lambda>path.
      rbind (of_option FileNotFoundError (files path)) (\<lambda>text.
      rbind (stopwatch_of (map strip (read_lines text))) (\<lambda>stopwatch.
      rbind (centre_cycles stopwatch) (\<lambda>cycles.
      rbind (score_rows mode iterations cycles) (\<lambda>rows.
      rbind (dict_get valid_cycles mode) (\<lambda>valid.
      one_metric env clock True (Some (py_str (cycles div 1000) @ '' kCycles''))
        (TableM (bench_metric cycles valid rows))))))))))"

section \<open>FPGA utilization\<close>

definition cell_name :: re where
  "cell_name = many1 (Sat (\<lambda>c. is_word_char c \<or> c \<in> set ''()[].''))"

definition fpga_re :: re where
  "fpga_re = seqs ([lit ''|'', Group 1 (many1 (lit '' '')), Group 2 cell_name, many1 (lit '' ''), lit ''|'',
     many1 (lit '' ''), Group 3 cell_name, lit '' |'']
     @ concat (map (\<lambda>n. [many1 (lit '' ''), Group n digits, lit '' |'']) [4..<12]))"

definition fpga_rows :: "groups list \<Rightarrow> groups list" where
  "fpga_rows ms = takeWhile (\<lambda>g. capture 2 g \<noteq> ''i_ariane_peripherals'') ms"

definition fpga_cells :: "groups \<Rightarrow> string list" where
  "fpga_cells g = [capture 2 g, capture 3 g] @ map (\<lambda>(n, u). capture n g @ u) [(4, '' TotalLUTs''), (5, '' LogicLUTs''),
     (6, '' LUTRAMs''), (7, '' SRLs''), (8, '' FFs''), (9, '' RAMB36''), (10, '' RAMB18''), (11, '' DSP48Blocks'')]"

definition fpga_row ::
  "string table_metric \<times> string report \<Rightarrow> groups \<Rightarrow> (string table_metric \<times> string report) result" where
  "fpga_row = (\<lambda>(m, r) g.
     if count_char (CHR '' '') (capture 1 g) < 10 then
       rbind (if capture 2 g = ''ariane_xilinx'' then
           rbind (py_int 10 (capture 4 g)) (\<lambda>n. ret (r\<lparr>rp_label := Some (py_str (n div 1000) @ '' kLUTs'')\<rparr>))
         else ret r) (\<lambda>r.
       ret (table_add_value (fpga_cells g) m, r))
     else ret (m, r))"

definition report_fpga :: "environ \<Rightarrow> clock \<Rightarrow> string \<Rightarrow> string job result" where
  "report_fpga env clock log =
     rbind (foldR fpga_row (table_metric ''Utilization Results'', new_report None) (fpga_rows (re_findall fpga_re log)))
       (\<lambda>(m, r). rbind (add_metric [TableM m] r) (finish env clock False))"

end
