(* ===== verification/Pipeline.thy ===== *)
theory Pipeline
  imports Report
begin

text \<open>
  The report on a pipeline: \<open>merge_job_reports.py\<close> collects the job reports, writes the document of the pipeline,
  pushes it with a shell script and tells GitHub, through \<open>github_integration.py\<close>, about the pull request. The job
  reports are loaded YAML, in the order of the directory; the HTTP client is a parameter, and a request is a value.
\<close>

section \<open>GitHub\<close>

definition api_url :: "string \<Rightarrow> string \<Rightarrow> string" where
  "api_url owner repo = ''https://api.github.com/repos/'' @ owner @ ''/'' @ repo"

type_synonym headers = "(string \<times> string) list"

text \<open>The HTTP client: the status and the JSON body for a URL and headers.\<close>

type_synonym http_get = "string \<Rightarrow> headers \<Rightarrow> int \<times> yaml"

definition pulls :: "environ \<Rightarrow> http_get \<Rightarrow> string \<Rightarrow> string \<Rightarrow> yaml result" where
  "pulls env get owner repo =
     (let url = api_url owner repo @ ''/pulls'';
          headers = (case env ''GH_TOKEN'' of None \<Rightarrow> [] | Some token \<Rightarrow> [(''Authorization'', ''Token '' @ token)]);
          (status_code, body) = get url headers in
      rbind (assertR (status_code = 200)) (\<lambda>_. ret body))"

record workflow =
  wf_url :: string
  wf_ref :: yaml

definition new_workflow :: "string \<Rightarrow> string \<Rightarrow> string \<Rightarrow> yaml \<Rightarrow> workflow" where
  "new_workflow owner repo workflow_id ref =
     \<lparr>wf_url = api_url owner repo @ ''/actions/workflows/'' @ workflow_id @ ''/dispatches'', wf_ref = ref\<rparr>"

record request =
  rq_url :: string
  rq_json :: yaml
  rq_headers :: headers

definition wf_trigger :: "environ \<Rightarrow> workflow \<Rightarrow> yaml \<Rightarrow> request result" where
  "wf_trigger env w inputs = rbind (env_get env ''GH_TOKEN'') (\<lambda>token.
     ret \<lparr>rq_url = wf_url w, rq_json = YMap [(''ref'', wf_ref w), (''inputs'', inputs)],
       rq_headers = [(''Accept'', ''application/vnd.github+json''), (''Authorization'', ''Bearer '' @ token),
         (''X-GitHub-Api-Version'', ''2022-11-28'')]\<rparr>)"

definition dashboard_done :: "string \<Rightarrow> string \<Rightarrow> yaml \<Rightarrow> workflow" where
  "dashboard_done owner repo ref = new_workflow owner repo ''dashboard-done.yml'' ref"

definition send_done :: "environ \<Rightarrow> workflow \<Rightarrow> yaml \<Rightarrow> bool \<Rightarrow> request result" where
  "send_done env w pr success =
     wf_trigger env w (YMap [(''pr_number'', YStr (y_str pr)), (''success'', YBool success)])"

definition send_success :: "environ \<Rightarrow> workflow \<Rightarrow> yaml \<Rightarrow> request result" where
  "send_success env w pr = send_done env w pr True"

definition send_failure :: "environ \<Rightarrow> workflow \<Rightarrow> yaml \<Rightarrow> request result" where
  "send_failure env w pr = send_done env w pr False"

section \<open>The pipeline\<close>

definition quotes :: string where "quotes = [CHR 0x27, CHR 0x22]"

definition env_strip :: "environ \<Rightarrow> string \<Rightarrow> string result" where
  "env_strip env k = rbind (env_get env k) (\<lambda>v. ret (strip_chars quotes v))"

record origin =
  o_uid :: string
  o_repo :: string
  o_subject :: string
  o_author :: string
  o_cvv_branch :: string
  o_cvv_sha :: string
  o_cva6_branch :: string
  o_cva6_sha :: string

definition workflow_type :: "environ \<Rightarrow> string" where
  "workflow_type env = (case env ''WORKFLOW_TYPE'' of None \<Rightarrow> ''gitlab'' | Some t \<Rightarrow> strip_chars quotes t)"

definition origin_of :: "environ \<Rightarrow> origin result" where
  "origin_of env =
     (if workflow_type env = ''github'' then
        rbind (env_strip env ''WORKFLOW_RUN_ID'') (\<lambda>uid.
        rbind (env_strip env ''WORKFLOW_REPO_OWNER'') (\<lambda>owner.
        rbind (env_strip env ''WORKFLOW_REPO'') (\<lambda>repo.
        rbind (env_strip env ''WORKFLOW_COMMIT_MESSAGE'') (\<lambda>subject.
        rbind (env_strip env ''WORKFLOW_COMMIT_AUTHOR'') (\<lambda>author.
        rbind (env_strip env ''CORE_V_VERIF_BRANCH'') (\<lambda>cvv_branch.
        rbind (env_strip env ''CORE_V_VERIF_HASH'') (\<lambda>cvv_sha.
        rbind (env_strip env ''CVA6_BRANCH'') (\<lambda>cva6_branch.
        rbind (env_strip env ''CVA6_HASH'') (\<lambda>cva6_sha.
        ret \<lparr>o_uid = uid, o_repo = repo, o_subject = subject, o_author = author, o_cvv_branch = cvv_branch,
          o_cvv_sha = cvv_sha, o_cva6_branch = cva6_branch, o_cva6_sha = cva6_sha\<rparr>)))))))))
      else
        rbind (env_strip env ''CI_PIPELINE_ID'') (\<lambda>uid.
        rbind (env_strip env ''CI_COMMIT_REF_NAME'') (\<lambda>cva6_branch.
        rbind (env_strip env ''CI_COMMIT_SHA'') (\<lambda>cva6_sha.
        rbind (env_strip env ''CI_COMMIT_MESSAGE'') (\<lambda>subject.
        rbind (env_strip env ''CI_COMMIT_AUTHOR'') (\<lambda>author.
        ret \<lparr>o_uid = uid, o_repo = ''cva6'', o_subject = subject, o_author = author, o_cvv_branch = ''none'',
          o_cvv_sha = ''0000000'', o_cva6_branch = cva6_branch, o_cva6_sha = cva6_sha\<rparr>))))))"

definition title_of :: "string \<Rightarrow> string" where
  "title_of subject =
     (let title = (if length subject > 60 then take 60 subject @ ''...'' else subject) in
      re_sub (many (Sat (\<lambda>c. c = CHR ''<'' \<or> c = CHR ''>'' \<or> c = newline))) (\<lambda>_ _. []) title)"

definition ref_of :: "origin \<Rightarrow> string \<times> string" where
  "ref_of o' = (if o_repo o' = ''cva6'' then (o_cva6_branch o', o_cva6_sha o') else (o_cvv_branch o', o_cvv_sha o'))"

record pipeline =
  p_fields :: "(string \<times> yaml) list"
  p_title :: string
  p_status :: string
  p_label :: string
  p_jobs :: "yaml list"

definition pipeline_fields :: "environ \<Rightarrow> clock \<Rightarrow> origin \<Rightarrow> int \<Rightarrow> string \<Rightarrow> string \<Rightarrow> (string \<times> yaml) list" where
  "pipeline_fields env clock o' created action url = [
     (''token'', YStr (''YC'' @ remove_char (CHR ''.'') (py_str created))), (''pipeline_url'', YStr url),
     (''timestamp'', YInt created), (''runtime'', YInt (ck_now clock - created)), (''workflow_action'', YStr action),
     (''workflow_uid'', YStr (o_uid o')), (''workflow_repo'', YStr (o_repo o')), (''title'', YStr (title_of (o_subject o'))),
     (''description'', YStr []), (''ref_name'', YStr (fst (ref_of o'))), (''author'', YStr (o_author o')),
     (''sha'', YStr (snd (ref_of o'))),
     (''env'', YMap [
        (''cva6'', YMap [(''sha'', YStr (o_cva6_sha o')), (''branch'', YStr (o_cva6_branch o'))]),
        (''core-v-verif'', YMap [(''sha'', YStr (o_cvv_sha o')), (''branch'', YStr (o_cvv_branch o'))])])]"

definition pipeline_doc :: "pipeline \<Rightarrow> yaml" where
  "pipeline_doc p = YMap (p_fields p @
     [(''status'', YStr (p_status p)), (''label'', YStr (p_label p)), (''jobs'', YList (p_jobs p))])"

text \<open>One job: the pipeline and the variable \<open>success\<close>.\<close>

definition add_job :: "pipeline \<times> bool \<Rightarrow> yaml \<Rightarrow> (pipeline \<times> bool) result" where
  "add_job = (\<lambda>(p, success) report.
     let p = p\<lparr>p_jobs := p_jobs p @ [report]\<rparr> in
     rbind (y_index report ''status'') (\<lambda>status.
     ret (if y_eq status (YStr ''pass'') then (p, success)
          else (p\<lparr>p_status := ''fail'', p_label := ''FAIL''\<rparr>, False))))"

definition merge_jobs :: "pipeline \<Rightarrow> yaml list \<Rightarrow> (pipeline \<times> bool) result" where
  "merge_jobs p reports = foldR add_job (p, True) reports"

section \<open>The shell script\<close>

definition shell_quote :: "string \<Rightarrow> string" where
  "shell_quote s = [CHR 0x27]
     @ replace_str [CHR 0x27] [CHR 0x27, CHR 0x22, CHR 0x27, CHR 0x22, CHR 0x27] s @ [CHR 0x27]"

definition commit_line :: "string \<Rightarrow> string \<Rightarrow> string" where
  \<open>commit_line repo title = ''git commit -m  '' @ [CHR 0x27] @ repo @ '': '' @ [CHR 0x27] @ shell_quote title
     @ '' || echo "commit fail"''\<close>

definition push_script :: "string \<Rightarrow> string \<Rightarrow> string \<Rightarrow> string \<Rightarrow> string \<Rightarrow> string \<Rightarrow> string \<Rightarrow> string list" where
  \<open>push_script url email name repo dir filename title = [
     [], ''rm -r .gitlab-ci/dashboard_tmp || echo "nothing to do"'',
     ''git clone '' @ url @ '' .gitlab-ci/dashboard_tmp'',
     ''mkdir -p .gitlab-ci/dashboard_tmp/pipelines_'' @ repo,
     ''ls -al '' @ dir,
     ''cp '' @ dir @ ''/'' @ filename @ '' .gitlab-ci/dashboard_tmp/pipelines_'' @ repo @ ''/'',
     ''cd .gitlab-ci/dashboard_tmp'',
     ''git config user.email '' @ email,
     ''git config user.name '' @ name,
     ''git add pipelines_'' @ repo @ ''/'' @ filename,
     commit_line repo title,
     ''git push'',
     ''cd -'']\<close>

section \<open>The pull request\<close>

definition is_alnum :: "char \<Rightarrow> bool" where
  "is_alnum c \<longleftrightarrow> is_lower c \<or> is_upper c \<or> is_digit c"

fun at_most :: "nat \<Rightarrow> re \<Rightarrow> re" where
  "at_most 0 r = Empty"
| "at_most (Suc n) r = opt (Seq r (at_most n r))"

definition pr_branch_re :: re where
  "pr_branch_re = seqs [Group 1 (many dot), lit ''_PR_'', Group 2 (Seq (Sat is_alnum)
     (at_most 38 (Alt (Sat is_alnum) (Seq (Sat (\<lambda>c. c = CHR ''-'' \<or> c = CHR ''_'')) (Look (Sat is_alnum))))))]"

definition head_label :: "yaml \<Rightarrow> yaml result" where
  "head_label pr = rbind (y_index pr ''head'') (\<lambda>h. y_index h ''label'')"

fun first_pr :: "string \<Rightarrow> yaml list \<Rightarrow> yaml option result" where
  "first_pr label [] = ret None"
| "first_pr label (pr # prs) = rbind (head_label pr) (\<lambda>l.
     if y_eq l (YStr label) then ret (Some pr) else first_pr label prs)"

definition find_pr :: "string \<Rightarrow> yaml \<Rightarrow> yaml option result" where
  "find_pr branch prs = (case re_search pr_branch_re branch of
     None \<Rightarrow> ret None
   | Some (pre, m, g) \<Rightarrow>
       let group = (\<lambda>n. case match_group n g of None \<Rightarrow> [] | Some s \<Rightarrow> s) in
       rbind (y_iter prs) (first_pr (group 2 @ '':'' @ group 1)))"

section \<open>The script\<close>

record merge =
  mg_file :: "string \<times> yaml"
  mg_script :: "string list"
  mg_request :: "request option"

definition notify :: "environ \<Rightarrow> http_get \<Rightarrow> origin \<Rightarrow> bool \<Rightarrow> request option result" where
  "notify env get o' success =
     rbind (pulls env get ''openhwgroup'' (o_repo o')) (\<lambda>prs.
     rbind (find_pr (fst (ref_of o')) prs) (\<lambda>pr.
     case pr of
       None \<Rightarrow> ret None
     | Some pr \<Rightarrow>
         rbind (y_index pr ''base'') (\<lambda>b. rbind (y_index b ''ref'') (\<lambda>ref_branch.
         rbind (y_index pr ''number'') (\<lambda>number.
         rbind (send_done env (dashboard_done ''openhwgroup'' (o_repo o') ref_branch) number success) (\<lambda>r.
         ret (Some r)))))))"

text \<open>The arguments are the directory and the name of the output; a name keeps word characters and dots.\<close>

definition merge_main :: "environ \<Rightarrow> clock \<Rightarrow> http_get \<Rightarrow> string \<Rightarrow> string \<Rightarrow> yaml list \<Rightarrow> merge result" where
  "merge_main env clock get dir output reports =
     rbind (env_get env ''DASHBOARD_URL'') (\<lambda>dashboard_url.
     rbind (env_get env ''DASHBOARD_USER_EMAIL'') (\<lambda>git_email.
     rbind (env_get env ''DASHBOARD_USER_NAME'') (\<lambda>git_name.
     rbind (env_get env ''CI_PIPELINE_CREATED_AT'') (\<lambda>created.
     rbind (ck_timestamp clock created) (\<lambda>created.
     rbind (env_strip env ''CI_PIPELINE_SOURCE'') (\<lambda>action.
     rbind (origin_of env) (\<lambda>o'.
     rbind (env_get env ''CI_PIPELINE_URL'') (\<lambda>url.
     let p = \<lparr>p_fields = pipeline_fields env clock o' created action url, p_title = title_of (o_subject o'),
                p_status = ''pass'', p_label = ''PASS'', p_jobs = []\<rparr> in
     rbind (merge_jobs p reports) (\<lambda>(p, success).
     let filename = re_sub (Sat (\<lambda>c. \<not> (is_word_char c \<or> c = CHR ''.''))) (\<lambda>_ _. []) output in
     rbind (notify env get o' success) (\<lambda>r.
     ret \<lparr>mg_file = (dir @ ''/'' @ filename, pipeline_doc p),
       mg_script = push_script dashboard_url git_email git_name (o_repo o') dir filename (p_title p),
       mg_request = r\<rparr>))))))))))"

end
