(* ===== verification/Report_Facts.thy ===== *)
theory Report_Facts
  imports Job_Reports Pipeline "HOL-Library.Multiset"
begin

text \<open>
  The reports of the continuous integration: how the failure of a row reaches the metric, the report, the exit
  code of the job and the pipeline, and what the lint comparison lets through.
\<close>

section \<open>Metrics and reports\<close>

lemma base_set_index [simp]: "m_failed (base_of (set_index i m)) = m_failed (base_of m)"
  "m_sort_index (base_of (set_index i m)) = Some i"
  by (cases m; simp add: metric.truncate_def)+

lemma failed_rows [simp]:
  "m_failed (add_pass col m) = m_failed m" "m_failed (add_fail col m)"
  "m_sort_index (add_pass col m) = m_sort_index m" "m_sort_index (add_fail col m) = m_sort_index m"
  "sm_values (add_pass col m) = sm_values m @ [(''pass'', ''PASS'', col)]"
  "sm_values (add_fail col m) = sm_values m @ [(''fail'', ''FAIL'', col)]"
  "m_failed (add_column title t m) = m_failed m" "m_sort_index (add_column title t m) = m_sort_index m"
  "sm_values (add_column title t m) = sm_values m"
  by (simp_all add: add_pass_def add_pass_label_def add_fail_def add_fail_label_def status_add_value_def metric_fail_def
      add_column_def)

lemma new_status_metric [simp]:
  "\<not> m_failed (status_metric name)" "m_sort_index (status_metric name) = None" "sm_values (status_metric name) = []"
  by (simp_all add: status_metric_def)

lemma metric_fail_simps [simp]:
  "m_failed (metric_fail m)" "m_sort_index (metric_fail m) = m_sort_index m"
  by (simp_all add: metric_fail_def)

lemma sm_values_fail [simp]: "sm_values (metric_fail m) = sm_values m"
  by (simp add: metric_fail_def)

lemma base_of_status [simp]:
  "m_failed (base_of (StatusM m)) = m_failed m" "m_sort_index (base_of (StatusM m)) = m_sort_index m"
  by (simp_all add: metric.truncate_def)

declare base_of.simps [simp del]

text \<open>A report whose metrics are numbered; fresh metrics get the numbers that follow.\<close>

definition numbered :: "'c report \<Rightarrow> bool" where
  "numbered r \<longleftrightarrow> map (\<lambda>m. m_sort_index (base_of m)) (rp_metrics r) = map (\<lambda>i. Some (int i)) [1..<Suc (length (rp_metrics r))]"

lemma next_index_numbered: "numbered r \<Longrightarrow> next_index r = Inr (int (length (rp_metrics r)) + 1)"
proof (cases "rp_metrics r" rule: rev_cases)
  case (snoc ms m)
  assume "numbered r"
  then have "m_sort_index (base_of m) = Some (int (Suc (length ms)))"
    by (simp add: numbered_def snoc)
  then show ?thesis by (simp add: next_index_def snoc)
qed (simp add: next_index_def)

lemma add_fresh_metrics:
  assumes "numbered r" "list_all (\<lambda>m. m_sort_index (base_of m) = None) ms"
  shows "\<exists>r'. add_metric ms r = Inr r' \<and> numbered r' \<and> rp_label r' = rp_label r
    \<and> rp_failed r' = (rp_failed r \<or> list_ex (\<lambda>m. m_failed (base_of m)) ms)
    \<and> rp_metrics r' = rp_metrics r @ map (\<lambda>(i, m). set_index (int i) m)
        (zip [Suc (length (rp_metrics r))..<Suc (length (rp_metrics r) + length ms)] ms)"
  using assms unfolding add_metric_def
proof (induction ms arbitrary: r)
  case (Cons m ms)
  let ?n = "length (rp_metrics r)"
  let ?m = "set_index (int (Suc ?n)) m"
  let ?r = "if m_failed (base_of m) then report_fail (r\<lparr>rp_metrics := rp_metrics r @ [?m]\<rparr>)
    else r\<lparr>rp_metrics := rp_metrics r @ [?m]\<rparr>"
  have a: "add_metric1 r m = Inr ?r"
    using Cons.prems next_index_numbered [OF Cons.prems(1)] by (simp add: add_metric1_def Let_def add.commute)
  have r: "rp_metrics ?r = rp_metrics r @ [?m]" "rp_label ?r = rp_label r"
    "rp_failed ?r = (rp_failed r \<or> m_failed (base_of m))"
    by (simp_all add: report_fail_def)
  have "numbered ?r" using Cons.prems(1) r(1) by (simp add: numbered_def)
  from Cons.IH [OF this] Cons.prems(2) obtain r' where r': "foldR add_metric1 ?r ms = Inr r'" "numbered r'"
    "rp_label r' = rp_label ?r" "rp_failed r' = (rp_failed ?r \<or> list_ex (\<lambda>m. m_failed (base_of m)) ms)"
    "rp_metrics r' = rp_metrics ?r @ map (\<lambda>(i, m). set_index (int i) m)
        (zip [Suc (length (rp_metrics ?r))..<Suc (length (rp_metrics ?r) + length ms)] ms)"
    by auto
  have u: "[Suc ?n..<Suc (?n + length (m # ms))] = Suc ?n # [Suc (Suc ?n)..<Suc (Suc ?n + length ms)]"
    by (simp add: upt_rec)
  show ?case
    by (intro exI [of _ r']) (use a r r' u in \<open>auto simp del: upt_Suc\<close>)
qed simp

lemma numbered_new [simp]: "numbered (new_report label)"
  by (simp add: numbered_def new_report_def)

lemma add_one_metric:
  "m_sort_index (base_of m) = None \<Longrightarrow> add_metric [m] (new_report label)
     = Inr \<lparr>rp_label = label, rp_failed = m_failed (base_of m), rp_metrics = [set_index 1 m]\<rparr>"
  by (simp add: add_metric_def add_metric1_def next_index_def new_report_def report_fail_def Let_def)

lemma one_metric_Inr:
  assumes "one_metric env clock exits label m = Inr job" "m_sort_index (base_of m) = None"
  shows "jb_report job = \<lparr>rp_label = label, rp_failed = m_failed (base_of m), rp_metrics = [set_index 1 m]\<rparr>"
    "jb_exit job = (if exits \<and> m_failed (base_of m) then 1 else 0)"
  using assms by (auto simp: one_metric_def add_one_metric finish_def)

section \<open>Simulations\<close>

definition simu_passed :: "groups \<Rightarrow> bool" where
  "simu_passed g \<longleftrightarrow> capture 5 g = ''PASSED''"

lemma simu_fold:
  assumes "foldR (simu_test env) (m, p, t) gs = Inr (m', p', t')"
  shows "m_sort_index m' = m_sort_index m" "m_failed m' = (m_failed m \<or> \<not> list_all simu_passed gs)"
    "p' = p + int (length (filter simu_passed gs))" "t' = t + int (length gs)"
    "map fst (sm_values m') = map fst (sm_values m) @ map (\<lambda>g. if simu_passed g then ''pass'' else ''fail'') gs"
    "map (take 3 \<circ> snd \<circ> snd) (sm_values m') = map (take 3 \<circ> snd \<circ> snd) (sm_values m)
       @ map (\<lambda>g. [capture 2 g, capture 3 g, capture 1 g]) gs"
proof -
  have "m_sort_index m' = m_sort_index m \<and> m_failed m' = (m_failed m \<or> \<not> list_all simu_passed gs)
    \<and> p' = p + int (length (filter simu_passed gs)) \<and> t' = t + int (length gs)
    \<and> map fst (sm_values m') = map fst (sm_values m) @ map (\<lambda>g. if simu_passed g then ''pass'' else ''fail'') gs
    \<and> map (take 3 \<circ> snd \<circ> snd) (sm_values m') = map (take 3 \<circ> snd \<circ> snd) (sm_values m)
       @ map (\<lambda>g. [capture 2 g, capture 3 g, capture 1 g]) gs"
    using assms
  proof (induction gs arbitrary: m p t)
    case (Cons g gs)
    then obtain col where col: "simu_cells env g = Inr col"
      "foldR (simu_test env) (if capture 5 g = ''PASSED'' then (add_pass col m, p + 1, t + 1) else (add_fail col m, p, t + 1)) gs
         = Inr (m', p', t')"
      by (auto simp: simu_test_def)
    have take: "take 3 col = [capture 2 g, capture 3 g, capture 1 g]"
      using col(1) by (auto simp: simu_cells_def Let_def split: if_splits)
    show ?case
    proof (cases "capture 5 g = ''PASSED''")
      case True
      with col(2) have "foldR (simu_test env) (add_pass col m, p + 1, t + 1) gs = Inr (m', p', t')" by simp
      from Cons.IH [OF this] show ?thesis using True take by (simp add: simu_passed_def)
    next
      case False
      with col(2) have "foldR (simu_test env) (add_fail col m, p, t + 1) gs = Inr (m', p', t')" by simp
      from Cons.IH [OF this] show ?thesis using False take by (simp add: simu_passed_def)
    qed
  qed simp
  then show "m_sort_index m' = m_sort_index m" "m_failed m' = (m_failed m \<or> \<not> list_all simu_passed gs)"
    "p' = p + int (length (filter simu_passed gs))" "t' = t + int (length gs)"
    "map fst (sm_values m') = map fst (sm_values m) @ map (\<lambda>g. if simu_passed g then ''pass'' else ''fail'') gs"
    "map (take 3 \<circ> snd \<circ> snd) (sm_values m') = map (take 3 \<circ> snd \<circ> snd) (sm_values m)
       @ map (\<lambda>g. [capture 2 g, capture 3 g, capture 1 g]) gs"
    by simp_all
qed

lemma simu_columns_fresh [simp]:
  "\<not> m_failed (simu_columns b)" "m_sort_index (simu_columns b) = None" "sm_values (simu_columns b) = []"
  by (simp_all add: simu_columns_def Let_def)

text \<open>
  C34: The report on simulations lets a log pass, with exit code 0, exactly when the log has a test, every test has
  passed and nothing in the log says ERROR; its label counts the tests passed and all tests; its only metric
  has one row per test, in the order of the log, with target, ISA and name of the test.
\<close>

theorem simulation_gate:
  "case report_simu env clock log of
     Inl _ \<Rightarrow> True
   | Inr job \<Rightarrow>
       let tests = re_findall simu_re log;
           good = (tests \<noteq> [] \<and> list_all simu_passed tests \<and> re_search (lit ''ERROR'') log = None)
       in jb_exit job = (if good then 0 else 1) \<and> rp_failed (jb_report job) = (\<not> good)
        \<and> rp_label (jb_report job) = Some (py_str (int (length (filter simu_passed tests))) @ ''/'' @ py_str (int (length tests)))
        \<and> (\<exists>m. rp_metrics (jb_report job) = [StatusM m]
             \<and> map fst (sm_values m) = map (\<lambda>g. if simu_passed g then ''pass'' else ''fail'') tests
             \<and> map (take 3 \<circ> snd \<circ> snd) (sm_values m) = map (\<lambda>g. [capture 2 g, capture 3 g, capture 1 g]) tests)"
proof (cases "report_simu env clock log")
  case (Inr job)
  let ?tests = "re_findall simu_re log"
  from Inr obtain m p t where f: "foldR (simu_test env) (simu_columns (with_logs env), 0, 0) ?tests = Inr (m, p, t)"
    "one_metric env clock True (Some (py_str p @ ''/'' @ py_str t))
       (StatusM (if re_search (lit ''ERROR'') log \<noteq> None \<or> t = 0 then metric_fail m else m)) = Inr job"
    by (auto simp: report_simu_def Let_def)
  let ?m = "if re_search (lit ''ERROR'') log \<noteq> None \<or> t = 0 then metric_fail m else m"
  note m = simu_fold [OF f(1)]
  have "m_sort_index (base_of (StatusM ?m)) = None" using m(1) by simp
  from one_metric_Inr [OF f(2) this] show ?thesis
    using Inr m by (auto simp: Let_def)
qed simp

section \<open>Tandem simulations and benchmarks\<close>

definition tandem_passed :: "yaml \<Rightarrow> bool" where
  "tandem_passed y = (case y of YMap report \<Rightarrow> test_succeeded report = Inr True | _ \<Rightarrow> False)"

lemma tandem_row_Inr:
  assumes "add_test_row env y m = Inr (m', n)"
  shows "m_sort_index m' = m_sort_index m" "m_failed m' = (m_failed m \<or> \<not> tandem_passed y)"
    "n = (if tandem_passed y then 1 else 0)"
  using assms
  by (auto simp: add_test_row_def tandem_row_def tandem_passed_def split: sum.splits yaml.splits if_splits)

lemma tandem_fold:
  "foldR (tandem_step env) (m, p, t) ys = Inr (m', p', t') \<Longrightarrow>
     m_sort_index m' = m_sort_index m \<and> m_failed m' = (m_failed m \<or> \<not> list_all tandem_passed ys)
     \<and> p' = p + int (length (filter tandem_passed ys)) \<and> t' = t + int (length ys)"
proof (induction ys arbitrary: m p t)
  case (Cons y ys)
  then obtain m1 n where s: "add_test_row env y m = Inr (m1, n)" "foldR (tandem_step env) (m1, p + n, t + 1) ys = Inr (m', p', t')"
    by (auto simp: tandem_step_def)
  from Cons.IH [OF s(2)] tandem_row_Inr [OF s(1)] show ?case by auto
qed simp

lemma tandem_columns_fresh [simp]:
  "m_failed (tandem_columns b m) = m_failed m" "m_sort_index (tandem_columns b m) = m_sort_index m"
  by (simp_all add: tandem_columns_def Let_def)

text \<open>The tandem job passes exactly when each report of the directory says so; no report at all is an error.\<close>

lemma tandem_gate:
  assumes "report_tandem env clock dir argv = Inr job"
  shows "\<exists>path reports. argv = [path] \<and> dir path = Some reports \<and> reports \<noteq> []
    \<and> jb_exit job = (if list_all tandem_passed reports then 0 else 1)
    \<and> rp_label (jb_report job) = Some (py_str (int (length (filter tandem_passed reports))) @ ''/'' @ py_str (int (length reports)))"
proof -
  from assms obtain path reports m p t where r: "argv = [path]" "dir path = Some reports" "reports \<noteq> []"
    "fill_table env reports (tandem_columns (with_logs env) (status_metric [])) = Inr (m, p, t)"
    "one_metric env clock True (Some (py_str p @ ''/'' @ py_str t)) (StatusM m) = Inr job"
    by (auto simp: report_tandem_def split: list.splits option.splits if_splits)
  from r(4) obtain m1 where f: "foldR (tandem_step env) (tandem_columns (with_logs env) (status_metric []), 0, 0) reports = Inr (m1, p, t)"
    "m = (if p \<noteq> t then metric_fail m1 else m1)"
    by (auto simp: fill_table_def)
  note t = tandem_fold [OF f(1)]
  have len: "length (filter tandem_passed reports) = length reports \<longleftrightarrow> list_all tandem_passed reports"
    by (metis filter_id_conv filter_True length_filter_less less_irrefl list_all_iff)
  have "m_sort_index (base_of (StatusM m)) = None" using t f(2) by simp
  from one_metric_Inr [OF r(5) this] show ?thesis using r(1-3) t f(2) len by auto
qed

lemma table_simps [simp]:
  "m_sort_index (table_metric n) = None" "\<not> m_failed (table_metric n)"
  "m_sort_index (table_add_value c t) = m_sort_index t" "m_failed (table_add_value c t) = m_failed t"
  by (simp_all add: table_metric_def table_add_value_def)

lemma base_of_table [simp]:
  "m_failed (base_of (TableM m)) = m_failed m" "m_sort_index (base_of (TableM m)) = m_sort_index m"
  by (simp_all add: base_of.simps metric.truncate_def)

lemma table_rows [simp]:
  "m_sort_index (foldl (\<lambda>m row. table_add_value row m) t rows) = m_sort_index t"
  "m_failed (foldl (\<lambda>m row. table_add_value row m) t rows) = m_failed t"
  by (induction rows arbitrary: t) auto

text \<open>A benchmark passes exactly when the cycles between the two central readings are those expected of its mode.\<close>

lemma benchmark_gate:
  assumes "report_benchmark env clock files argv = Inr job"
  shows "\<exists>path mode text stopwatch cycles valid. files path = Some text
    \<and> stopwatch_of (map strip (read_lines text)) = Inr stopwatch \<and> centre_cycles stopwatch = Inr cycles
    \<and> map_of valid_cycles mode = Some valid \<and> jb_exit job = (if cycles = valid then 0 else 1)"
proof -
  obtain path0 mode0 iterations where a: "foldl bench_arg (None, None, None) argv = (path0, mode0, iterations)"
    by (cases "foldl bench_arg (None, None, None) argv") auto
  from assms obtain path mode log stopwatch cycles rows valid where r: "path0 = Some path" "mode0 = Some mode"
    "files path = Some log" "stopwatch_of (map strip (read_lines log)) = Inr stopwatch"
    "centre_cycles stopwatch = Inr cycles" "score_rows mode iterations cycles = Inr rows" "map_of valid_cycles mode = Some valid"
    "one_metric env clock True (Some (py_str (cycles div 1000) @ '' kCycles'')) (TableM (bench_metric cycles valid rows)) = Inr job"
    by (auto simp: report_benchmark_def a Let_def dict_get_def)
  have "jb_exit job = (if cycles = valid then 0 else 1)"
    by (subst one_metric_Inr(2) [OF r(8)]) (auto simp: bench_metric_def Let_def)
  then show ?thesis using r by blast
qed

section \<open>Lint\<close>

lemma lint_dict_ok: "dict_ok (lint_dict infos)"
proof -
  have "dict_ok d \<Longrightarrow> dict_ok (foldl (\<lambda>d (severity, rule_name, count, short_help).
      AList.update (severity, rule_name) (count, short_help) d) d infos)" for d
    by (induction infos arbitrary: d) (auto simp: split_beta)
  then show ?thesis by (simp add: lint_dict_def)
qed

text \<open>What the script calls a regression: a message that is new, or more errors, where counts are compared as text.\<close>

definition lint_regression :: "lint_info list \<Rightarrow> lint_info list \<Rightarrow> bool" where
  "lint_regression baseline new \<longleftrightarrow> list_ex (\<lambda>(key, count, _). case map_of (lint_dict baseline) key of
       None \<Rightarrow> True
     | Some (old, _) \<Rightarrow> fst key = ''ERROR'' \<and> str_greater count old) (lint_dict new)"

definition severity_rank :: "lint_result \<Rightarrow> nat" where
  "severity_rank x = the (map_of severity_order (fst (fst x)))"

definition lint_pass :: "lint_result \<Rightarrow> bool" where
  "lint_pass = (\<lambda>(key, v, pass, t). pass)"

lemma lint_pass_simp [simp]: "lint_pass (key, v, pass, t) = pass"
  by (simp add: lint_pass_def)

lemma str_greater_irrefl: "\<not> str_greater s s"
  by (induction s) auto

lemma lint_rows:
  "m_sort_index (foldl (\<lambda>m r. lint_row r m) m rs) = m_sort_index m"
  "m_failed (foldl (\<lambda>m r. lint_row r m) m rs) = (m_failed m \<or> \<not> list_all lint_pass rs)"
  "sm_values (foldl (\<lambda>m r. lint_row r m) m rs) = sm_values m
     @ map (\<lambda>((sev, name), (count, help), pass, t). (if pass then ''pass'' else ''fail'', if pass then ''PASS'' else ''FAIL'',
         [sev, name, count, help, t])) rs"
  by (induction rs arbitrary: m) (auto simp: lint_row_def Let_def split: prod.splits)

lemma compare_new_key [simp]: "fst (compare_new baseline x) = fst x"
  by (auto simp: compare_new_def split: prod.splits option.splits)

lemma compare_new_passes:
  "lint_pass (compare_new (lint_dict baseline) (key, cnt, help)) \<longleftrightarrow>
     \<not> (case map_of (lint_dict baseline) key of None \<Rightarrow> True | Some (old, _) \<Rightarrow> fst key = ''ERROR'' \<and> str_greater cnt old)"
  by (auto simp: compare_new_def str_greater_irrefl split: option.splits)

lemma compare_summaries_props:
  assumes "compare_summaries baseline new = Inr results"
  shows "list_all lint_pass results \<longleftrightarrow> \<not> lint_regression baseline new"
    "distinct (map fst results)"
    "set (map fst results) = fst ` set (lint_dict baseline) \<union> fst ` set (lint_dict new)"
    "sorted (map severity_rank results)"
proof -
  let ?b = "lint_dict baseline" and ?n = "lint_dict new"
  let ?gone = "filter (\<lambda>(key, v). \<not> has_key ?n key) ?b"
  let ?rs = "map (\<lambda>(key, v). (key, v, True, ''Deleted'')) ?gone @ map (compare_new ?b) ?n"
  have r: "results = sort_key severity_rank ?rs"
    using assms by (auto simp: compare_summaries_def Let_def severity_rank_def [abs_def])
  have "list_all lint_pass results \<longleftrightarrow> list_all lint_pass ?rs"
    unfolding r list_all_iff by (simp only: set_sort)
  also have "\<dots> \<longleftrightarrow> list_all (\<lambda>x. lint_pass (compare_new ?b x)) ?n"
    by (simp add: list_all_iff ball_Un)
  also have "\<dots> \<longleftrightarrow> \<not> lint_regression baseline new"
  proof -
    have "lint_pass (compare_new ?b x) \<longleftrightarrow> \<not> (\<lambda>(key, count, _). case map_of ?b key of
        None \<Rightarrow> True | Some (old, _) \<Rightarrow> fst key = ''ERROR'' \<and> str_greater count old) x" for x
      using compare_new_passes by (cases x) auto
    then show ?thesis by (simp add: lint_regression_def list_all_iff list_ex_iff)
  qed
  finally show "list_all lint_pass results \<longleftrightarrow> \<not> lint_regression baseline new" .
  have keys: "map fst ?rs = map fst ?gone @ map fst ?n"
    by (simp add: comp_def case_prod_unfold)
  have "distinct (map fst ?b)" "distinct (map fst ?n)" using lint_dict_ok by (auto simp: dict_ok_def)
  moreover have "set (map fst ?gone) \<inter> set (map fst ?n) = {}"
    by (auto simp: has_key_iff) (metis fst_conv imageI)
  ultimately have "distinct (map fst ?rs)" unfolding keys by (simp add: distinct_map_filter)
  moreover have "mset (map fst results) = mset (map fst ?rs)" unfolding r by (simp only: mset_map mset_sort)
  ultimately show "distinct (map fst results)" by (metis mset_eq_imp_distinct_iff)
  have "set (map fst results) = set (map fst ?rs)" unfolding r by (simp only: set_map set_sort)
  also have "\<dots> = fst ` set ?b \<union> fst ` set ?n" unfolding keys by (force simp: has_key_iff)
  finally show "set (map fst results) = fst ` set ?b \<union> fst ` set ?n" .
  show "sorted (map severity_rank results)" unfolding r by simp
qed

text \<open>
  The lint job compares two summaries: it exits with 0 exactly when no message is new and no count of errors
  is greater, as text, than before. Its table has one row for each message of either summary, the errors
  first; the rows that fail are those of the regressions.
\<close>

lemma lint_gate:
  "case report_spyglass env clock ref rpt of
     Inl _ \<Rightarrow> True
   | Inr job \<Rightarrow> \<exists>baseline new results m.
       extract_info ref = Inr baseline \<and> extract_info rpt = Inr new \<and> compare_summaries baseline new = Inr results
       \<and> jb_exit job = (if lint_regression baseline new then 1 else 0)
       \<and> rp_metrics (jb_report job) = [StatusM m]
       \<and> map (\<lambda>(s, l, row). (s, row ! 0, row ! 1)) (sm_values m)
           = map (\<lambda>(key, v, pass, t). (if pass then ''pass'' else ''fail'', fst key, snd key)) results
       \<and> distinct (map fst results) \<and> sorted (map severity_rank results)
       \<and> set (map fst results) = fst ` set (lint_dict baseline) \<union> fst ` set (lint_dict new)"
proof (cases "report_spyglass env clock ref rpt")
  case (Inr job)
  then obtain baseline new results r where f: "extract_info ref = Inr baseline" "extract_info rpt = Inr new"
    "compare_summaries baseline new = Inr results" "lint_report results = Inr r" "finish env clock True r = Inr job"
    by (auto simp: report_spyglass_def)
  let ?m = "foldl (\<lambda>m r. lint_row r m) (foldl (\<lambda>m title. add_column title ''text'' m) (status_metric [])
      [''SEVERITY'', ''RULE NAME'', ''COUNT'', ''SHORT HELP'', ''DIFF'']) results"
  note p = compare_summaries_props [OF f(3)]
  have m: "m_sort_index ?m = None" "m_failed ?m = lint_regression baseline new"
    "sm_values ?m = map (\<lambda>((sev, name), (count, help), pass, t). (if pass then ''pass'' else ''fail'',
       if pass then ''PASS'' else ''FAIL'', [sev, name, count, help, t])) results"
    using p(1) by (simp_all add: lint_rows)
  from f(4) m(1) have r: "r = \<lparr>rp_label = None, rp_failed = m_failed ?m, rp_metrics = [set_index 1 (StatusM ?m)]\<rparr>"
    by (simp add: lint_report_def Let_def add_one_metric)
  from f(5) have "jb_report job = r" "jb_exit job = (if rp_failed r then 1 else 0)" by (auto simp: finish_def)
  then have "jb_exit job = (if lint_regression baseline new then 1 else 0)"
    "rp_metrics (jb_report job) = [StatusM (?m\<lparr>m_sort_index := Some 1\<rparr>)]"
    using r m(2) by simp_all
  moreover have "map (\<lambda>(s, l, row). (s, row ! 0, row ! 1)) (sm_values (?m\<lparr>m_sort_index := Some 1\<rparr>))
    = map (\<lambda>(key, v, pass, t). (if pass then ''pass'' else ''fail'', fst key, snd key)) results"
  proof -
    have "sm_values (?m\<lparr>m_sort_index := Some 1\<rparr>) = sm_values ?m" by simp
    then show ?thesis unfolding m(3) by (simp only: m(3)) (auto split: prod.splits)
  qed
  ultimately show ?thesis using Inr f(1-3) p by auto
qed simp

text \<open>More errors than before, and the comparison of the texts does not see it.\<close>

lemma lint_ten_after_nine:
  "\<not> lint_regression [(''ERROR'', ''rule'', ''9'', ''help'')] [(''ERROR'', ''rule'', ''10'', ''help'')]"
  by code_simp

section \<open>The pipeline\<close>

definition doc_status :: "'c doc \<Rightarrow> string option" where
  "doc_status d = (case d of
     DMap kvs \<Rightarrow> (case map_of kvs ''status'' of Some (DStr s) \<Rightarrow> Some s | _ \<Rightarrow> None)
   | _ \<Rightarrow> None)"

lemma report_doc_status: "report_to_doc env clock r = Inr d \<Longrightarrow> doc_status d = Some (status_of (rp_failed r))"
  by (auto simp: report_to_doc_def Let_def doc_status_def)

lemma merge_jobs_status:
  assumes "list_all2 (\<lambda>y failed. y_index y ''status'' = Inr (YStr (status_of failed))) ys fs"
  shows "foldR add_job (p, b) ys = Inr (p\<lparr>p_jobs := p_jobs p @ ys,
      p_status := (if list_ex id fs then ''fail'' else p_status p),
      p_label := (if list_ex id fs then ''FAIL'' else p_label p)\<rparr>, b \<and> \<not> list_ex id fs)"
  using assms
proof (induction ys fs arbitrary: p b rule: list_all2_induct)
  case (Cons y ys failed fs)
  show ?case
    using Cons.IH [of "p\<lparr>p_jobs := p_jobs p @ [y]\<rparr>" b]
      Cons.IH [of "p\<lparr>p_jobs := p_jobs p @ [y], p_status := ''fail'', p_label := ''FAIL''\<rparr>" False] Cons.hyps
    by (cases failed) (simp_all add: add_job_def status_of_def Let_def)
qed simp

text \<open>The title of a commit: three dots after sixty characters, and none of the characters the code fears.\<close>

lemma sub_from_delete: "sub_from (many (Sat f)) (\<lambda>_ _. []) p s = filter (\<lambda>c. \<not> f c) s"
proof (induction "length s" arbitrary: p s rule: less_induct)
  case less
  from star_takeWhile [of f p s] obtain ms where ms: "matches (many (Sat f)) p s = (takeWhile f s, []) # ms"
    by (auto simp: many_def)
  show ?case
  proof (cases s)
    case Nil
    with ms show ?thesis by (subst sub_from.simps) simp
  next
    case (Cons c cs)
    show ?thesis
    proof (cases "f c")
      case True
      have l: "length (dropWhile f cs) < length s" using Cons by (simp add: length_dropWhile_le le_imp_less_Suc)
      have d: "drop (length (takeWhile f s)) s = dropWhile f cs"
        using Cons True by (simp add: dropWhile_eq_drop)
      have "filter (\<lambda>c. \<not> f c) (dropWhile f cs) = filter (\<lambda>c. \<not> f c) cs"
        by (induction cs) auto
      then show ?thesis
        using less [OF l] ms Cons True d by (subst sub_from.simps) simp
    next
      case False
      then show ?thesis using less [of cs "Some c"] ms Cons by (subst sub_from.simps) simp
    qed
  qed
qed

lemma title_filter:
  "title_of subject = filter (\<lambda>c. \<not> (c = CHR ''<'' \<or> c = CHR ''>'' \<or> c = newline))
     (if length subject > 60 then take 60 subject @ ''...'' else subject)"
  by (simp add: title_of_def re_sub_def sub_from_delete)

lemma merge_main_parts:
  assumes "merge_main env clock get dir output ys = Inr mg"
  shows "\<exists>o' fields p success filename.
    merge_jobs \<lparr>p_fields = fields, p_title = title_of (o_subject o'), p_status = ''pass'', p_label = ''PASS'', p_jobs = []\<rparr> ys
      = Inr (p, success)
    \<and> origin_of env = Inr o' \<and> notify env get o' success = Inr (mg_request mg)
    \<and> mg_file mg = (dir @ ''/'' @ filename, pipeline_doc p)"
  using assms by (fastforce simp: merge_main_def Let_def)

lemma notify_success:
  "notify env get o' success = Inr (Some rq) \<Longrightarrow> \<exists>number ref.
     rq_json rq = YMap [(''ref'', ref), (''inputs'', YMap [(''pr_number'', YStr number), (''success'', YBool success)])]"
  by (auto simp: notify_def send_done_def wf_trigger_def split: option.splits)

definition key_of :: "yaml \<Rightarrow> string \<Rightarrow> yaml option" where
  "key_of y k = (case y of YMap d \<Rightarrow> map_of (rev d) k | _ \<Rightarrow> None)"

lemma pipeline_keys:
  "key_of (pipeline_doc p) ''status'' = Some (YStr (p_status p))"
  "key_of (pipeline_doc p) ''label'' = Some (YStr (p_label p))"
  "key_of (pipeline_doc p) ''jobs'' = Some (YList (p_jobs p))"
  by (simp_all add: key_of_def pipeline_doc_def)

text \<open>
  C36: A pipeline passes exactly when no job report has failed. The job reports are dumped by the builder and
  loaded by the script (the loader keeps the status of a dumped document): the document of the pipeline then
  has status and label by whether a report has failed, and all the jobs in order; and a request to GitHub, when one is
  sent, says the same.
\<close>

theorem pipeline_gate:
  fixes jobs :: "(environ \<times> clock \<times> 'c report) list"
  assumes load_keeps: "\<And>d s. doc_status d = Some s \<Longrightarrow> y_index (load d) ''status'' = Inr (YStr s)"
    and dumped: "mapR (\<lambda>(env, clock, r). report_to_doc env clock r) jobs = Inr docs"
    and merged: "merge_main env clock get dir output (map load docs) = Inr mg"
  shows "\<exists>failed. failed = list_ex (\<lambda>(env, clock, r). rp_failed r) jobs
    \<and> key_of (snd (mg_file mg)) ''status'' = Some (YStr (if failed then ''fail'' else ''pass''))
    \<and> key_of (snd (mg_file mg)) ''label'' = Some (YStr (if failed then ''FAIL'' else ''PASS''))
    \<and> key_of (snd (mg_file mg)) ''jobs'' = Some (YList (map load docs))
    \<and> (case mg_request mg of
         None \<Rightarrow> True
       | Some rq \<Rightarrow> \<exists>number ref. rq_json rq = YMap [(''ref'', ref),
           (''inputs'', YMap [(''pr_number'', YStr number), (''success'', YBool (\<not> failed))])])"
proof -
  let ?fs = "map (\<lambda>(env, clock, r). rp_failed r) jobs"
  have "list_all2 (\<lambda>job d. doc_status d = Some (status_of (rp_failed (snd (snd job))))) jobs docs"
    using dumped unfolding mapR_Inr_iff
    by (rule list_all2_mono) (auto dest: report_doc_status)
  then have s: "list_all2 (\<lambda>y failed. y_index y ''status'' = Inr (YStr (status_of failed))) (map load docs) ?fs"
    by (auto simp: list_all2_conv_all_nth case_prod_unfold intro: load_keeps)
  have f: "list_ex id ?fs = list_ex (\<lambda>(env, clock, r). rp_failed r) jobs"
    by (simp add: list_ex_iff case_prod_unfold)
  from merge_main_parts [OF merged] obtain o' fields p success filename where m:
    "merge_jobs \<lparr>p_fields = fields, p_title = title_of (o_subject o'), p_status = ''pass'', p_label = ''PASS'', p_jobs = []\<rparr>
       (map load docs) = Inr (p, success)"
    "notify env get o' success = Inr (mg_request mg)" "mg_file mg = (dir @ ''/'' @ filename, pipeline_doc p)"
    by blast
  from m(1) have "p_status p = (if list_ex id ?fs then ''fail'' else ''pass'')"
    "p_label p = (if list_ex id ?fs then ''FAIL'' else ''PASS'')" "p_jobs p = map load docs" "success = (\<not> list_ex id ?fs)"
    unfolding merge_jobs_def merge_jobs_status [OF s] by auto
  then show ?thesis
    using m(2,3) notify_success [of env get o' success] unfolding f
    by (cases "mg_request mg") (auto simp: pipeline_keys)
qed

text \<open>One failed job, in a pipeline of a branch with a pull request.\<close>

definition example_env :: environ where
  "example_env k = Some (if k = ''CI_COMMIT_REF_NAME'' then ''a_PR_b'' else ''x'')"

definition example_clock :: clock where
  "example_clock = \<lparr>ck_timestamp = (\<lambda>_. ret 5), ck_now = 9, ck_digits = ''9''\<rparr>"

definition example_load :: "string doc \<Rightarrow> yaml" where
  "example_load d = (case doc_status d of None \<Rightarrow> YNone | Some s \<Rightarrow> YMap [(''status'', YStr s)])"

definition example_get :: http_get where
  "example_get url h = (200, YList [YMap [(''head'', YMap [(''label'', YStr ''b:a'')]),
     (''base'', YMap [(''ref'', YStr ''master'')]), (''number'', YInt 7)]])"

definition example_report :: "string report" where
  "example_report = \<lparr>rp_label = None, rp_failed = True,
     rp_metrics = [StatusM (add_fail [''boot''] (status_metric ''Linux''))]\<rparr>"

theorem pipeline_gate_witness:
  "\<exists>docs mg rq number ref. merge_main example_env example_clock example_get ''d'' ''o.yml'' (map example_load docs) = Inr mg
    \<and> key_of (snd (mg_file mg)) ''status'' = Some (YStr ''fail'') \<and> mg_request mg = Some rq
    \<and> rq_json rq = YMap [(''ref'', ref), (''inputs'', YMap [(''pr_number'', YStr number), (''success'', YBool False)])]"
proof -
  have load: "doc_status d = Some s \<Longrightarrow> y_index (example_load d) ''status'' = Inr (YStr s)" for d s
    by (simp add: example_load_def dict_get_def)
  let ?jobs = "[(example_env, example_clock, example_report)]"
  have "case report_to_doc example_env example_clock example_report of Inl _ \<Rightarrow> False | Inr d \<Rightarrow>
      (case merge_main example_env example_clock example_get ''d'' ''o.yml'' [example_load d] of
         Inl _ \<Rightarrow> False | Inr mg \<Rightarrow> mg_request mg \<noteq> None)"
    by code_simp
  then obtain d mg rq where r: "report_to_doc example_env example_clock example_report = Inr d"
    "merge_main example_env example_clock example_get ''d'' ''o.yml'' [example_load d] = Inr mg" "mg_request mg = Some rq"
    by (auto split: sum.splits)
  have docs: "mapR (\<lambda>(env, clock, r). report_to_doc env clock r) ?jobs = Inr [d]" using r(1) by simp
  have "merge_main example_env example_clock example_get ''d'' ''o.yml'' (map example_load [d]) = Inr mg"
    using r(2) by simp
  from pipeline_gate [OF load docs this] r(2,3) show ?thesis
    by (intro exI [of _ "[d]"] exI [of _ mg] exI [of _ rq]) (auto simp: example_report_def)
qed

section \<open>The commit message in the shell\<close>

text \<open>
  How a POSIX shell reads one word: characters between single quotes stand for themselves, those between double quotes
  too unless they are special there, and an unquoted space or operator ends the word. None: the word is not closed, or
  would be expanded.
\<close>

definition shell_special :: "char \<Rightarrow> bool" where
  "shell_special c \<longleftrightarrow> c \<in> {CHR ''$'', CHR 0x60, CHR 0x5C}"

fun sh_word :: "string \<Rightarrow> (string \<times> string) option"
  and sh_single :: "string \<Rightarrow> (string \<times> string) option"
  and sh_double :: "string \<Rightarrow> (string \<times> string) option" where
  "sh_word [] = Some ([], [])"
| "sh_word (c # cs) =
     (if c = CHR 0x27 then sh_single cs
      else if c = CHR 0x22 then sh_double cs
      else if is_space c \<or> c \<in> set '';&|<>()'' then Some ([], c # cs)
      else if shell_special c \<or> c \<in> set ''*?[#~'' then None
      else map_option (\<lambda>(w, rest). (c # w, rest)) (sh_word cs))"
| "sh_single [] = None"
| "sh_single (c # cs) = (if c = CHR 0x27 then sh_word cs else map_option (\<lambda>(w, rest). (c # w, rest)) (sh_single cs))"
| "sh_double [] = None"
| "sh_double (c # cs) =
     (if c = CHR 0x22 then sh_word cs else if shell_special c then None
      else map_option (\<lambda>(w, rest). (c # w, rest)) (sh_double cs))"

lemma sh_single_plain:
  "CHR 0x27 \<notin> set w \<Longrightarrow> sh_single (w @ CHR 0x27 # rest) = map_option (\<lambda>(v, r). (w @ v, r)) (sh_word rest)"
  by (cases "sh_word rest"; induction w) auto

lemma sh_single_quoted:
  "sh_single (replace_str [CHR 0x27] [CHR 0x27, CHR 0x22, CHR 0x27, CHR 0x22, CHR 0x27] s @ CHR 0x27 # rest)
     = map_option (\<lambda>(v, r). (s @ v, r)) (sh_word rest)"
  unfolding replace_str_def
  by (cases "sh_word rest"; induction s) (auto simp: shell_special_def)

text \<open>
  C37: The shell reads the message of the commit as one word, with the title as its text whatever the title holds
  (quotes, dollars, semicolons): nothing of a commit message is executed. It needs the name of the repository
  to have no quote.
\<close>

theorem commit_message_is_one_word:
  assumes "CHR 0x27 \<notin> set repo"
  shows "\<exists>rest. commit_line repo title = ''git commit -m  '' @ rest
    \<and> sh_word rest = Some (repo @ '': '' @ title, '' || echo '' @ [CHR 0x22] @ ''commit fail'' @ [CHR 0x22])"
proof -
  let ?tail = "'' || echo '' @ [CHR 0x22] @ ''commit fail'' @ [CHR 0x22]"
  let ?quoted = "replace_str [CHR 0x27] [CHR 0x27, CHR 0x22, CHR 0x27, CHR 0x22, CHR 0x27] title"
  have e: "sh_word ?tail = Some ([], ?tail)" by (simp add: is_space_def)
  have "sh_word (CHR 0x27 # (repo @ '': '') @ CHR 0x27 # CHR 0x27 # ?quoted @ CHR 0x27 # ?tail)
    = Some (repo @ '': '' @ title, ?tail)"
    using assms sh_single_plain [of "repo @ '': ''" "CHR 0x27 # ?quoted @ CHR 0x27 # ?tail"]
      sh_single_quoted [of title ?tail] e
    by simp
  then show ?thesis by (auto simp: commit_line_def shell_quote_def)
qed

theorem commit_message_is_one_word_witness:
  "\<exists>rest. commit_line ''cva6'' ([CHR 0x27] @ ''; rm -r *'') = ''git commit -m  '' @ rest
    \<and> sh_word rest = Some (''cva6: '' @ [CHR 0x27] @ ''; rm -r *'', '' || echo '' @ [CHR 0x22] @ ''commit fail'' @ [CHR 0x22])"
  using commit_message_is_one_word [of "''cva6''" "[CHR 0x27] @ ''; rm -r *''"] by simp

end
