(* ===== verification/Flist.thy ===== *)
theory Flist
  imports Py_Regex
begin

text \<open>
  \<open>util/flist_flattener.py\<close>: a file list is printed with its environment variables expanded and its includes replaced
  by their contents. The file system is a partial function from names to texts, the output the text written. Includes
  may be cyclic: the recursion is a partial function, and None means that it does not end (Python gives up at
  its recursion limit).
\<close>

section \<open>Lines\<close>

text \<open>\<open>os.path.expandvars\<close>: an unknown variable stays as it is.\<close>

definition var_re :: re where
  "var_re = seqs [lit ''$'', Group 1 (Alt (many1 (Sat is_word_char))
     (seqs [lit ''{'', many (Sat (\<lambda>c. c \<noteq> CHR ''}'')), lit ''}'']))]"

definition var_name :: "string \<Rightarrow> string" where
  "var_name v = (if starts_with ''{'' v \<and> ends_with ''}'' v then butlast (tl v) else v)"

definition expandvars :: "(string \<Rightarrow> string option) \<Rightarrow> string \<Rightarrow> string" where
  "expandvars env s = re_sub var_re (\<lambda>x g. case match_group 1 g of
     None \<Rightarrow> x
   | Some v \<Rightarrow> (case env (var_name v) of None \<Rightarrow> x | Some val \<Rightarrow> val)) s"

datatype flist_line = Skipped | Incdir string | Included string | Item string

definition classify :: "(string \<Rightarrow> string option) \<Rightarrow> string \<Rightarrow> flist_line" where
  "classify env line =
     (let line = strip line in
      if starts_with ''#'' line \<or> starts_with ''//'' line \<or> starts_with ''/*'' line then Skipped
      else let line = expandvars env line in
        if starts_with ''+incdir+'' line then Incdir line
        else if starts_with ''-F'' line then Included (strip (lstrip_chars ''-F'' line))
        else if line \<noteq> [] then Item line
        else Skipped)"

section \<open>Flattening\<close>

record flist_options =
  fl_files :: "string \<Rightarrow> string option"
  fl_env :: "string \<Rightarrow> string option"
  fl_incdir :: bool
  fl_newline :: bool

definition print_line :: "flist_options \<Rightarrow> string \<Rightarrow> string" where
  "print_line o' line = (if fl_newline o' then line @ [newline] else line @ '' '')"

text \<open>What a line that is no include prints.\<close>

definition printed :: "flist_options \<Rightarrow> flist_line \<Rightarrow> string" where
  "printed o' l = (case l of
     Incdir line \<Rightarrow> if fl_incdir o' then print_line o' line else []
   | Item line \<Rightarrow> print_line o' line
   | _ \<Rightarrow> [])"

definition prepend :: "string \<Rightarrow> string result \<Rightarrow> string result" where
  "prepend out r = rbind r (\<lambda>rest. ret (out @ rest))"

partial_function (option) flist_lines :: "flist_options \<Rightarrow> string list \<Rightarrow> string result option" where
  "flist_lines o' lines = (case lines of
     [] \<Rightarrow> Some (ret [])
   | line # rest \<Rightarrow>
       (case classify (fl_env o') line of
          Included name \<Rightarrow>
            (case fl_files o' name of
               None \<Rightarrow> Some (raise RuntimeError)
             | Some content \<Rightarrow>
                 Option.bind (flist_lines o' (splitlines content)) (\<lambda>r. case r of
                     Inl e \<Rightarrow> Some (raise e)
                   | Inr out \<Rightarrow> Option.bind (flist_lines o' rest) (\<lambda>r. Some (prepend out r))))
        | l \<Rightarrow> Option.bind (flist_lines o' rest) (\<lambda>r. Some (prepend (printed o' l) r))))"

declare flist_lines.simps [code]

definition parse_flist :: "flist_options \<Rightarrow> string \<Rightarrow> string result option" where
  "parse_flist o' content = flist_lines o' (splitlines content)"

end
