(* ===== verification/Flist_Facts.thy ===== *)
theory Flist_Facts
  imports Flist
begin

text \<open>
  The flattener: an include stands for the lines of its file, and a text comes out exactly when every file included,
  directly or not, exists and no chain of includes goes on for ever.
\<close>

definition included_in :: "flist_options \<Rightarrow> string list \<Rightarrow> string list" where
  "included_in o' lines = concat (map (\<lambda>line. case classify (fl_env o') line of Included f \<Rightarrow> [f] | _ \<Rightarrow> []) lines)"

definition file_includes :: "flist_options \<Rightarrow> string \<Rightarrow> string list" where
  "file_includes o' f = (case fl_files o' f of None \<Rightarrow> [] | Some content \<Rightarrow> included_in o' (splitlines content))"

lemma included_simps [simp]:
  "included_in o' [] = []"
  "included_in o' (line # lines) = (case classify (fl_env o') line of Included f \<Rightarrow> f # included_in o' lines | _ \<Rightarrow> included_in o' lines)"
  by (auto simp: included_in_def split: flist_line.split)

lemma parse_lines_Nil [simp]: "flist_lines o' [] = Some (Inr [])"
  by (simp add: flist_lines.simps)

lemma parse_lines_other:
  "(\<And>f. classify (fl_env o') line \<noteq> Included f) \<Longrightarrow>
     flist_lines o' (line # rest) = map_option (prepend (printed o' (classify (fl_env o') line))) (flist_lines o' rest)"
  by (subst flist_lines.simps) (cases "flist_lines o' rest"; auto split: flist_line.split)

text \<open>Parsing in sequence.\<close>

definition followed_by :: "string result option \<Rightarrow> string result option \<Rightarrow> string result option" where
  "followed_by p q = (case p of
     None \<Rightarrow> None
   | Some (Inl e) \<Rightarrow> Some (Inl e)
   | Some (Inr out) \<Rightarrow> map_option (prepend out) q)"

lemma prepend_prepend: "prepend a (prepend b r) = prepend (a @ b) r"
  by (cases r) (auto simp: prepend_def)

lemma followed_by_assoc: "followed_by (followed_by p q) r = followed_by p (followed_by q r)"
proof -
  have "followed_by (map_option (prepend a) q) r = map_option (prepend a) (followed_by q r)" for a
    by (cases q; cases "the q"; cases r) (auto simp: followed_by_def prepend_prepend, simp_all add: prepend_def)
  then show ?thesis by (cases p; cases "the p") (auto simp: followed_by_def)
qed

lemma parse_lines_include:
  "classify (fl_env o') line = Included f \<Longrightarrow> fl_files o' f = Some content \<Longrightarrow>
     flist_lines o' (line # rest) = followed_by (flist_lines o' (splitlines content)) (flist_lines o' rest)"
  by (subst flist_lines.simps)
    (auto simp: followed_by_def Option.bind_eq_Some_conv map_option_case split: option.split sum.split)

lemma parse_lines_missing:
  "classify (fl_env o') line = Included f \<Longrightarrow> fl_files o' f = None \<Longrightarrow>
     flist_lines o' (line # rest) = Some (Inl RuntimeError)"
  by (subst flist_lines.simps) simp

lemma parse_lines_append: "flist_lines o' (xs @ ys) = followed_by (flist_lines o' xs) (flist_lines o' ys)"
proof (induction xs)
  case Nil
  then show ?case by (cases "flist_lines o' ys"; cases "the (flist_lines o' ys)") (auto simp: followed_by_def prepend_def)
next
  case (Cons x xs)
  show ?case
  proof (cases "\<exists>f. classify (fl_env o') x = Included f")
    case False
    then have "flist_lines o' (x # zs) = followed_by (Some (Inr (printed o' (classify (fl_env o') x)))) (flist_lines o' zs)" for zs
      by (simp add: parse_lines_other followed_by_def)
    with Cons show ?thesis by (simp add: followed_by_assoc)
  next
    case True
    then obtain f where f: "classify (fl_env o') x = Included f" by blast
    show ?thesis
    proof (cases "fl_files o' f")
      case None
      with f show ?thesis by (simp add: parse_lines_missing followed_by_def)
    next
      case (Some content)
      with f Cons show ?thesis by (simp add: parse_lines_include followed_by_assoc)
    qed
  qed
qed

text \<open>The include of a file may be replaced by its lines.\<close>

lemma include_unrolled:
  assumes "classify (fl_env o') line = Included f" "fl_files o' f = Some content"
  shows "flist_lines o' (xs @ line # ys) = flist_lines o' (xs @ splitlines content @ ys)"
  using assms by (simp add: parse_lines_append parse_lines_include)

section \<open>Termination\<close>

abbreviation grounded :: "flist_options \<Rightarrow> string \<Rightarrow> bool" where
  "grounded o' \<equiv> Wellfounded.accp (\<lambda>g f. g \<in> set (file_includes o' f))"

lemma returns_if_includes_return:
  "(\<And>f content. f \<in> set (included_in o' lines) \<Longrightarrow> fl_files o' f = Some content \<Longrightarrow> flist_lines o' (splitlines content) \<noteq> None)
    \<Longrightarrow> flist_lines o' lines \<noteq> None"
proof (induction lines)
  case (Cons line lines)
  show ?case
  proof (cases "\<exists>f. classify (fl_env o') line = Included f")
    case False
    then have "included_in o' (line # lines) = included_in o' lines" by (auto split: flist_line.split)
    with Cons have "flist_lines o' lines \<noteq> None" by simp
    with False show ?thesis by (simp add: parse_lines_other)
  next
    case True
    then obtain f where f: "classify (fl_env o') line = Included f" by blast
    have r: "flist_lines o' lines \<noteq> None" by (rule Cons.IH) (use Cons.prems f in auto)
    show ?thesis
    proof (cases "fl_files o' f")
      case None
      with f show ?thesis by (simp add: parse_lines_missing)
    next
      case (Some content)
      have "flist_lines o' (splitlines content) \<noteq> None" by (rule Cons.prems [OF _ Some]) (use f in simp)
      with r f Some show ?thesis by (auto simp: parse_lines_include followed_by_def split: sum.split)
    qed
  qed
qed simp

lemma grounded_returns: "grounded o' f \<Longrightarrow> fl_files o' f = Some content \<Longrightarrow> flist_lines o' (splitlines content) \<noteq> None"
proof (induction f arbitrary: content rule: accp.induct)
  case (accI f)
  show ?case
    by (rule returns_if_includes_return) (use accI in \<open>auto simp: file_includes_def\<close>)
qed

inductive reaches :: "flist_options \<Rightarrow> string list \<Rightarrow> string \<Rightarrow> bool" for o' where
  direct: "f \<in> set (included_in o' lines) \<Longrightarrow> reaches o' lines f"
| through: "f \<in> set (included_in o' lines) \<Longrightarrow> fl_files o' f = Some content \<Longrightarrow> reaches o' (splitlines content) g \<Longrightarrow> reaches o' lines g"

lemma reaches_sub:
  assumes "reaches o' lines g" "set (included_in o' lines) \<subseteq> set (included_in o' lines')"
  shows "reaches o' lines' g"
  using assms(1)
proof cases
  case direct
  with assms(2) show ?thesis by (intro reaches.direct) blast
next
  case (through f content)
  from through(1) assms(2) have "f \<in> set (included_in o' lines')" by blast
  from reaches.through [OF this through(2,3)] show ?thesis .
qed

text \<open>A text comes out: every include is there, and grounded.\<close>

definition sound_includes :: "flist_options \<Rightarrow> string list \<Rightarrow> bool" where
  "sound_includes o' lines \<longleftrightarrow>
     (\<forall>f \<in> set (included_in o' lines). grounded o' f) \<and> (\<forall>g. reaches o' lines g \<longrightarrow> fl_files o' g \<noteq> None)"

lemma sound_Nil: "sound_includes o' []"
  by (auto simp: sound_includes_def elim: reaches.cases)

lemma sound_other:
  "(\<And>f. classify (fl_env o') line \<noteq> Included f) \<Longrightarrow> sound_includes o' rest \<Longrightarrow> sound_includes o' (line # rest)"
proof -
  assume a: "\<And>f. classify (fl_env o') line \<noteq> Included f" "sound_includes o' rest"
  then have "included_in o' (line # rest) = included_in o' rest" by (auto split: flist_line.split)
  with a(2) show ?thesis using reaches_sub [of o' "line # rest" _ rest] by (simp add: sound_includes_def)
qed

lemma sound_include:
  assumes "classify (fl_env o') line = Included f" "fl_files o' f = Some content"
    and c: "sound_includes o' (splitlines content)" and r: "sound_includes o' rest"
  shows "sound_includes o' (line # rest)"
proof -
  have "grounded o' f"
  proof (rule accpI)
    fix g
    assume "g \<in> set (file_includes o' f)"
    then show "grounded o' g" using c assms(2) by (simp add: sound_includes_def file_includes_def)
  qed
  moreover have "fl_files o' g \<noteq> None" if "reaches o' (line # rest) g" for g
    using that
  proof cases
    case direct
    then consider "g = f" | "g \<in> set (included_in o' rest)" using assms(1) by auto
    then show ?thesis using assms(2) r by cases (auto simp: sound_includes_def intro: reaches.direct)
  next
    case (through h inner)
    then consider "h = f" | "h \<in> set (included_in o' rest)" using assms(1) by auto
    then show ?thesis
    proof cases
      case 1
      with through assms(2) c show ?thesis by (simp add: sound_includes_def)
    next
      case 2
      with through r show ?thesis by (auto simp: sound_includes_def intro: reaches.through)
    qed
  qed
  ultimately show ?thesis using assms(1) r by (auto simp: sound_includes_def)
qed

lemma prepend_Inr: "prepend a r = Inr out \<Longrightarrow> \<exists>b. r = Inr b"
  by (auto simp: prepend_def)

lemma output_sound: "flist_lines o' lines = Some (Inr out) \<Longrightarrow> sound_includes o' lines"
proof -
  assume run: "flist_lines o' lines = Some (Inr out)"
  have "\<forall>out'. (Inr out :: string result) = Inr out' \<longrightarrow> sound_includes o' lines"
    using run
  proof (rule flist_lines.raw_induct [where P = "\<lambda>o' lines r. \<forall>out. r = Inr out \<longrightarrow> sound_includes o' lines", rotated])
    fix go o' lines r
    assume IH: "\<And>o' lines r. go o' lines = Some r \<Longrightarrow> \<forall>out. r = Inr out \<longrightarrow> sound_includes o' lines"
      and body: "(case lines of [] \<Rightarrow> Some (ret [])
       | line # rest \<Rightarrow> (case classify (fl_env o') line of
           Included name \<Rightarrow> (case fl_files o' name of
               None \<Rightarrow> Some (raise RuntimeError)
             | Some content \<Rightarrow> Option.bind (go o' (splitlines content)) (\<lambda>r. case r of
                   Inl e \<Rightarrow> Some (raise e)
                 | Inr out \<Rightarrow> Option.bind (go o' rest) (\<lambda>r. Some (prepend out r))))
         | l \<Rightarrow> Option.bind (go o' rest) (\<lambda>r. Some (prepend (printed o' l) r)))) = Some r"
    show "\<forall>out. r = Inr out \<longrightarrow> sound_includes o' lines"
    proof (intro allI impI)
      fix out
      assume r: "r = Inr out"
      show "sound_includes o' lines"
      proof (cases lines)
        case Nil
        then show ?thesis by (simp add: sound_Nil)
      next
        case (Cons line rest)
        show ?thesis
        proof (cases "\<exists>f. classify (fl_env o') line = Included f")
          case False
          with body r Cons obtain q where "go o' rest = Some q" "prepend (printed o' (classify (fl_env o') line)) q = Inr out"
            by (auto simp: Option.bind_eq_Some_conv split: flist_line.splits)
          with IH [of o' rest q] prepend_Inr have "sound_includes o' rest" by blast
          with False Cons show ?thesis by (simp add: sound_other)
        next
          case True
          then obtain f where f: "classify (fl_env o') line = Included f" by blast
          with body r Cons obtain content where content: "fl_files o' f = Some content"
            by (auto split: option.splits)
          with body r Cons f obtain t where t: "go o' (splitlines content) = Some t"
            "(case t of Inl e \<Rightarrow> Some (raise e) | Inr b \<Rightarrow> Option.bind (go o' rest) (\<lambda>q. Some (prepend b q))) = Some (Inr out)"
            by (auto simp: Option.bind_eq_Some_conv)
          then obtain b where b: "t = Inr b" by (cases t) auto
          with t obtain q where q: "go o' (splitlines content) = Some (Inr b)" "go o' rest = Some q"
            "prepend b q = Inr out"
            by (auto simp: Option.bind_eq_Some_conv)
          have "sound_includes o' (splitlines content)" using IH [OF q(1)] by blast
          moreover have "sound_includes o' rest" using IH [OF q(2)] prepend_Inr [OF q(3)] by blast
          ultimately show ?thesis using sound_include [OF f content] Cons by simp
        qed
      qed
    qed
  qed
  then show "sound_includes o' lines" by blast
qed

text \<open>Missing files are the only errors.\<close>

lemma complete_no_error:
  assumes "\<And>g. reaches o' lines g \<Longrightarrow> fl_files o' g \<noteq> None" "\<And>f. f \<in> set (included_in o' lines) \<Longrightarrow> grounded o' f"
  shows "\<exists>out. flist_lines o' lines = Some (Inr out)"
proof -
  have step: "\<exists>out. flist_lines o' lines = Some (Inr out)"
    if "\<And>f. f \<in> set (included_in o' lines) \<Longrightarrow> \<exists>content out. fl_files o' f = Some content
      \<and> flist_lines o' (splitlines content) = Some (Inr out)" for lines
    using that
  proof (induction lines)
    case (Cons line rest)
    show ?case
    proof (cases "\<exists>f. classify (fl_env o') line = Included f")
      case False
      then have "included_in o' (line # rest) = included_in o' rest" by (auto split: flist_line.split)
      with Cons obtain out where "flist_lines o' rest = Some (Inr out)" by auto
      with False show ?thesis by (simp add: parse_lines_other prepend_def)
    next
      case True
      then obtain f where f: "classify (fl_env o') line = Included f" by blast
      obtain rest_out where r: "flist_lines o' rest = Some (Inr rest_out)"
        using Cons.IH Cons.prems f by auto
      obtain content out where "fl_files o' f = Some content" "flist_lines o' (splitlines content) = Some (Inr out)"
        using Cons.prems [of f] f by auto
      with r f show ?thesis by (simp add: parse_lines_include followed_by_def prepend_def)
    qed
  qed simp
  have one_file: "\<exists>content out. fl_files o' f = Some content \<and> flist_lines o' (splitlines content) = Some (Inr out)"
    if "grounded o' f" "fl_files o' f \<noteq> None"
      "\<And>content g. fl_files o' f = Some content \<Longrightarrow> reaches o' (splitlines content) g \<Longrightarrow> fl_files o' g \<noteq> None" for f
    using that
  proof (induction f rule: accp.induct)
    case (accI f)
    then obtain content where content: "fl_files o' f = Some content" by blast
    have "\<exists>out. flist_lines o' (splitlines content) = Some (Inr out)"
    proof (rule step)
      fix g
      assume g: "g \<in> set (included_in o' (splitlines content))"
      show "\<exists>content out. fl_files o' g = Some content \<and> flist_lines o' (splitlines content) = Some (Inr out)"
      proof (rule accI(2))
        show "g \<in> set (file_includes o' f)" using g content by (simp add: file_includes_def)
        show "fl_files o' g \<noteq> None" using accI(4) [OF content reaches.direct [OF g]] .
        show "fl_files o' h \<noteq> None" if "fl_files o' g = Some inner" "reaches o' (splitlines inner) h" for inner h
          using accI(4) [OF content reaches.through [OF g that]] .
      qed
    qed
    with content show ?case by blast
  qed
  show ?thesis
  proof (rule step)
    fix f
    assume f: "f \<in> set (included_in o' lines)"
    show "\<exists>content out. fl_files o' f = Some content \<and> flist_lines o' (splitlines content) = Some (Inr out)"
      by (rule one_file) (use assms f in \<open>auto intro: reaches.intros\<close>)
  qed
qed

text \<open>A chain of includes that goes on for ever.\<close>

definition endless :: "flist_options \<Rightarrow> string list \<Rightarrow> (nat \<Rightarrow> string) \<Rightarrow> bool" where
  "endless o' lines c \<longleftrightarrow> c 0 \<in> set (included_in o' lines) \<and> (\<forall>i. c (Suc i) \<in> set (file_includes o' (c i)))"

lemma not_grounded_endless: "\<not> grounded o' f \<Longrightarrow> \<exists>c. c 0 = f \<and> (\<forall>i. c (Suc i) \<in> set (file_includes o' (c i)))"
proof -
  assume f: "\<not> grounded o' f"
  let ?P = "\<lambda>n g. \<not> grounded o' g \<and> (n = 0 \<longrightarrow> g = f)"
  have "\<exists>c. \<forall>n. ?P n (c n) \<and> c (Suc n) \<in> set (file_includes o' (c n))"
  proof (rule dependent_nat_choice [where P = ?P and Q = "\<lambda>n g h. h \<in> set (file_includes o' g)"])
    show "\<exists>g. ?P 0 g" using f by blast
    fix g and n :: nat
    assume "?P n g"
    then obtain h where "h \<in> set (file_includes o' g)" "\<not> grounded o' h" by (meson not_accp_down)
    then show "\<exists>h. ?P (Suc n) h \<and> h \<in> set (file_includes o' g)" by blast
  qed
  then show ?thesis by blast
qed

lemma grounded_no_chain:
  "grounded o' f \<Longrightarrow> c 0 = f \<Longrightarrow> \<exists>i. c (Suc i) \<notin> set (file_includes o' (c i))"
proof (induction f arbitrary: c rule: accp.induct)
  case (accI f)
  show ?case
  proof (cases "c (Suc 0) \<in> set (file_includes o' (c 0))")
    case True
    with accI(3) have "c (Suc 0) \<in> set (file_includes o' f)" by simp
    from accI(2) [OF this, of "\<lambda>i. c (Suc i)"] show ?thesis by auto
  qed blast
qed

lemma grounded_iff_no_chain:
  "(\<nexists>c. endless o' lines c) \<longleftrightarrow> (\<forall>f \<in> set (included_in o' lines). grounded o' f)"
proof
  assume none: "\<nexists>c. endless o' lines c"
  show "\<forall>f \<in> set (included_in o' lines). grounded o' f"
  proof
    fix f
    assume f: "f \<in> set (included_in o' lines)"
    show "grounded o' f"
      by (rule ccontr) (use not_grounded_endless [of o' f] none f in \<open>auto simp: endless_def\<close>)
  qed
next
  assume "\<forall>f \<in> set (included_in o' lines). grounded o' f"
  then show "\<nexists>c. endless o' lines c" using grounded_no_chain by (auto simp: endless_def)
qed

section \<open>The walk\<close>

text \<open>
  The flattener goes through the includes in order, so that it opens a file only when all that stands before its
  include comes out. \<open>complete\<close> says so of lines, without the flattener; \<open>opens\<close> is one step of the walk.
\<close>

definition complete :: "flist_options \<Rightarrow> string list \<Rightarrow> bool" where
  "complete o' lines \<longleftrightarrow>
     (\<nexists>g. reaches o' lines g \<and> fl_files o' g = None) \<and> (\<nexists>c. endless o' lines c)"

definition opens :: "flist_options \<Rightarrow> string list \<Rightarrow> string \<Rightarrow> bool" where
  "opens o' lines f \<longleftrightarrow> (\<exists>before line after. lines = before @ line # after
     \<and> complete o' before \<and> classify (fl_env o') line = Included f)"

definition walks_on :: "flist_options \<Rightarrow> string list \<Rightarrow> (nat \<Rightarrow> string) \<Rightarrow> bool" where
  "walks_on o' lines c \<longleftrightarrow> opens o' lines (c 0) \<and>
     (\<forall>i. \<exists>content. fl_files o' (c i) = Some content \<and> opens o' (splitlines content) (c (Suc i)))"

lemma complete_iff_sound: "complete o' lines \<longleftrightarrow> sound_includes o' lines"
  unfolding complete_def sound_includes_def grounded_iff_no_chain by auto

lemma complete_iff_text: "complete o' lines \<longleftrightarrow> (\<exists>out. flist_lines o' lines = Some (Inr out))"
  using output_sound [of o' lines] complete_no_error [of o' lines]
  unfolding complete_iff_sound sound_includes_def by blast

lemma prepend_is_Inr: "(\<exists>out. prepend a r = Inr out) \<longleftrightarrow> (\<exists>b. r = Inr b)"
  by (cases r) (simp_all add: prepend_def)

lemma complete_Nil: "complete o' []"
  by (simp add: complete_iff_text)

lemma complete_other:
  "(\<And>f. classify (fl_env o') line \<noteq> Included f) \<Longrightarrow> complete o' (line # rest) \<longleftrightarrow> complete o' rest"
  by (cases "flist_lines o' rest") (simp_all add: complete_iff_text parse_lines_other prepend_is_Inr)

lemma complete_include:
  assumes "classify (fl_env o') line = Included f"
  shows "complete o' (line # rest) \<longleftrightarrow>
    (\<exists>content. fl_files o' f = Some content \<and> complete o' (splitlines content)) \<and> complete o' rest"
proof (cases "fl_files o' f")
  case None
  with assms show ?thesis by (simp add: complete_iff_text parse_lines_missing)
next
  case (Some content)
  with assms show ?thesis
    by (cases "flist_lines o' rest"; cases "flist_lines o' (splitlines content)"; cases "the (flist_lines o' (splitlines content))")
      (auto simp: complete_iff_text parse_lines_include followed_by_def prepend_is_Inr)
qed

lemma opens_Nil: "\<not> opens o' [] f"
  by (simp add: opens_def)

lemma opens_Cons:
  "opens o' (line # rest) f \<longleftrightarrow> classify (fl_env o') line = Included f \<or>
    (\<exists>before l after. rest = before @ l # after \<and> complete o' (line # before) \<and> classify (fl_env o') l = Included f)"
  (is "_ \<longleftrightarrow> ?here \<or> ?later")
proof
  assume "opens o' (line # rest) f"
  then obtain before l after where "line # rest = before @ l # after" "complete o' before"
    "classify (fl_env o') l = Included f" by (auto simp: opens_def)
  then show "?here \<or> ?later" by (cases before) auto
next
  assume "?here \<or> ?later"
  then show "opens o' (line # rest) f"
  proof
    assume ?here
    then have "line # rest = [] @ line # rest" "complete o' []" by (simp_all add: complete_Nil)
    with \<open>?here\<close> show ?thesis unfolding opens_def by blast
  next
    assume ?later
    then obtain before l after where "line # rest = (line # before) @ l # after" "complete o' (line # before)"
      "classify (fl_env o') l = Included f" by auto
    then show ?thesis unfolding opens_def by blast
  qed
qed

lemma opens_other:
  "(\<And>f. classify (fl_env o') line \<noteq> Included f) \<Longrightarrow> opens o' (line # rest) g \<longleftrightarrow> opens o' rest g"
  by (simp add: opens_Cons complete_other) (auto simp: opens_def)

lemma opens_include:
  "classify (fl_env o') line = Included f \<Longrightarrow> opens o' (line # rest) g \<longleftrightarrow>
    g = f \<or> ((\<exists>content. fl_files o' f = Some content \<and> complete o' (splitlines content)) \<and> opens o' rest g)"
  by (simp add: opens_Cons complete_include) (auto simp: opens_def)

lemma never_returns_opens:
  "flist_lines o' lines = None \<Longrightarrow>
    \<exists>f content. opens o' lines f \<and> fl_files o' f = Some content \<and> flist_lines o' (splitlines content) = None"
proof (induction lines)
  case (Cons line rest)
  show ?case
  proof (cases "\<exists>f. classify (fl_env o') line = Included f")
    case False
    with Cons show ?thesis by (simp add: parse_lines_other opens_other)
  next
    case True
    then obtain g where g: "classify (fl_env o') line = Included g" by blast
    obtain inner where inner: "fl_files o' g = Some inner"
      using Cons.prems g by (cases "fl_files o' g") (auto simp: parse_lines_missing)
    show ?thesis
    proof (cases "flist_lines o' (splitlines inner)")
      case None
      with g inner show ?thesis by (auto simp: opens_include)
    next
      case (Some t)
      with Cons.prems g inner obtain out where t: "t = Inr out" and r: "flist_lines o' rest = None"
        by (cases t) (auto simp: parse_lines_include followed_by_def)
      with Some have "complete o' (splitlines inner)" by (simp add: complete_iff_text)
      with Cons.IH [OF r] g inner show ?thesis by (auto simp: opens_include)
    qed
  qed
qed simp

lemma never_returns_walks_on: "flist_lines o' lines = None \<Longrightarrow> \<exists>c. walks_on o' lines c"
proof -
  assume none: "flist_lines o' lines = None"
  let ?N = "\<lambda>f. \<exists>content. fl_files o' f = Some content \<and> flist_lines o' (splitlines content) = None"
  have "\<exists>c. \<forall>n. (?N (c n) \<and> (n = 0 \<longrightarrow> opens o' lines (c n))) \<and>
      (\<exists>content. fl_files o' (c n) = Some content \<and> opens o' (splitlines content) (c (Suc n)))"
  proof (rule dependent_nat_choice)
    show "\<exists>f. ?N f \<and> (0 = (0 :: nat) \<longrightarrow> opens o' lines f)" using never_returns_opens [OF none] by blast
    fix f and n :: nat
    assume "?N f \<and> (n = 0 \<longrightarrow> opens o' lines f)"
    then show "\<exists>g. (?N g \<and> (Suc n = 0 \<longrightarrow> opens o' lines g)) \<and>
      (\<exists>content. fl_files o' f = Some content \<and> opens o' (splitlines content) g)"
      using never_returns_opens by blast
  qed
  then show ?thesis unfolding walks_on_def by blast
qed

lemma walks_on_shift:
  "walks_on o' lines c \<Longrightarrow> \<exists>content. fl_files o' (c 0) = Some content \<and> walks_on o' (splitlines content) (\<lambda>i. c (Suc i))"
  by (force simp: walks_on_def)

lemma prepend_is_Inl: "prepend a r = Inl e \<longleftrightarrow> r = Inl e"
  by (cases r) (simp_all add: prepend_def)

text \<open>A call that returns has not walked for ever, and its only error is that of a missing file.\<close>

lemma when_it_returns:
  assumes "flist_lines o' lines = Some r"
  shows "\<not> walks_on o' lines c" "r = Inl e \<Longrightarrow> e = RuntimeError"
proof -
  let ?P = "\<lambda>o' lines r. flist_lines o' lines = Some r \<and> (\<forall>c. \<not> walks_on o' lines c)
    \<and> (\<forall>e. r = Inl e \<longrightarrow> e = RuntimeError)"
  have "?P o' lines r"
    using assms
  proof (rule flist_lines.raw_induct [where P = ?P, rotated])
    fix go o' lines r
    assume IH: "\<And>o' lines r. go o' lines = Some r \<Longrightarrow> ?P o' lines r"
      and body: "(case lines of [] \<Rightarrow> Some (ret [])
       | line # rest \<Rightarrow> (case classify (fl_env o') line of
           Included name \<Rightarrow> (case fl_files o' name of
               None \<Rightarrow> Some (raise RuntimeError)
             | Some content \<Rightarrow> Option.bind (go o' (splitlines content)) (\<lambda>r. case r of
                   Inl e \<Rightarrow> Some (raise e)
                 | Inr out \<Rightarrow> Option.bind (go o' rest) (\<lambda>r. Some (prepend out r))))
         | l \<Rightarrow> Option.bind (go o' rest) (\<lambda>r. Some (prepend (printed o' l) r)))) = Some r"
    show "?P o' lines r"
    proof (cases lines)
      case Nil
      with body show ?thesis by (auto simp: walks_on_def opens_Nil)
    next
      case (Cons line rest)
      show ?thesis
      proof (cases "\<exists>f. classify (fl_env o') line = Included f")
        case False
        with body Cons obtain q where q: "go o' rest = Some q" "r = prepend (printed o' (classify (fl_env o') line)) q"
          by (auto simp: Option.bind_eq_Some_conv split: flist_line.splits)
        with IH [OF q(1)] False Cons show ?thesis
          by (simp add: parse_lines_other walks_on_def opens_other prepend_is_Inl)
      next
        case True
        then obtain f where f: "classify (fl_env o') line = Included f" by blast
        show ?thesis
        proof (cases "fl_files o' f")
          case None
          with f body Cons have "r = Inl RuntimeError" by simp
          moreover have "\<not> walks_on o' lines c" for c
            using None f Cons walks_on_shift [of o' lines c] by (auto simp: walks_on_def opens_include)
          ultimately show ?thesis using None f Cons by (simp add: parse_lines_missing)
        next
          case (Some content)
          with f body Cons obtain t where t: "go o' (splitlines content) = Some t"
            "(case t of Inl e \<Rightarrow> Some (raise e) | Inr b \<Rightarrow> Option.bind (go o' rest) (\<lambda>q. Some (prepend b q))) = Some r"
            by (auto simp: Option.bind_eq_Some_conv)
          note inner = IH [OF t(1)]
          have first: "c 0 \<noteq> f" if "walks_on o' lines c" for c
            using walks_on_shift [OF that] Some inner by auto
          show ?thesis
          proof (cases t)
            case (Inl e)
            with t inner have "\<not> complete o' (splitlines content)" by (auto simp: complete_iff_text)
            then have "\<not> walks_on o' lines c" for c
              using first [of c] f Some Cons by (auto simp: walks_on_def opens_include)
            with Inl t inner f Some Cons show ?thesis by (auto simp: parse_lines_include followed_by_def)
          next
            case (Inr b)
            with t obtain q where q: "go o' rest = Some q" "r = prepend b q"
              by (auto simp: Option.bind_eq_Some_conv)
            have "\<not> walks_on o' lines c" for c
              using first [of c] IH [OF q(1)] f Cons by (auto simp: walks_on_def opens_include)
            with Inr q IH [OF q(1)] inner f Some Cons show ?thesis
              by (simp add: parse_lines_include followed_by_def prepend_is_Inl)
          qed
        qed
      qed
    qed
  qed
  then show "\<not> walks_on o' lines c" "r = Inl e \<Longrightarrow> e = RuntimeError" by blast+
qed

text \<open>
  C40: What becomes of a file list, exactly. Flattening writes a text when every file included, directly or through
  others, exists and no chain of includes is endless. It never returns when the walk, which opens the includes of a
  file in order and only while everything before them comes out, finds a file to open in every file it opens, for
  ever (Python then stops at its recursion limit). In every other case it ends with the error of a missing file. A cycle that lies behind a missing file is never
  reached.
\<close>

theorem flatten_returns:
  "((\<exists>out. parse_flist o' content = Some (Inr out)) \<longleftrightarrow>
     (\<nexists>g. reaches o' (splitlines content) g \<and> fl_files o' g = None) \<and> (\<nexists>c. endless o' (splitlines content) c))
   \<and> (parse_flist o' content = None \<longleftrightarrow> (\<exists>c. walks_on o' (splitlines content) c))
   \<and> (parse_flist o' content = Some (Inl RuntimeError) \<longleftrightarrow>
     \<not> complete o' (splitlines content) \<and> (\<nexists>c. walks_on o' (splitlines content) c))"
proof -
  let ?lines = "splitlines content"
  have t: "(\<exists>out. parse_flist o' content = Some (Inr out)) \<longleftrightarrow> complete o' ?lines"
    by (simp add: parse_flist_def complete_iff_text)
  have n: "parse_flist o' content = None \<longleftrightarrow> (\<exists>c. walks_on o' ?lines c)"
    using never_returns_walks_on [of o' ?lines] when_it_returns(1) [of o' ?lines] unfolding parse_flist_def by fastforce
  have "parse_flist o' content = Some (Inl RuntimeError) \<longleftrightarrow>
      parse_flist o' content \<noteq> None \<and> \<not> (\<exists>out. parse_flist o' content = Some (Inr out))"
    using when_it_returns(2) [of o' ?lines] unfolding parse_flist_def
    by (cases "flist_lines o' ?lines"; cases "the (flist_lines o' ?lines)") auto
  with t n show ?thesis unfolding complete_def by auto
qed

end
