(* ===== verification/Py_IO.thy ===== *)
theory Py_IO
  imports Py_Str
begin

text \<open>
  Scripts that run commands and change files: a program maps the effects done so far to a result and all the
  effects. What the outside answers may depend on everything done before, so an answer is a function of
  the effects so far. Paths of \<open>pathlib\<close> and \<open>os.path.normpath\<close> are here too.
\<close>

section \<open>Programs with effects\<close>

type_synonym ('e, 'a) io = "'e list \<Rightarrow> 'a result \<times> 'e list"

definition io_ret :: "'a \<Rightarrow> ('e, 'a) io" where
  "io_ret x = (\<lambda>t. (Inr x, t))"

definition io_raise :: "py_error \<Rightarrow> ('e, 'a) io" where
  "io_raise e = (\<lambda>t. (Inl e, t))"

definition io_lift :: "'a result \<Rightarrow> ('e, 'a) io" where
  "io_lift r = (\<lambda>t. (r, t))"

definition io_ask :: "('e list \<Rightarrow> 'a) \<Rightarrow> ('e, 'a) io" where
  "io_ask f = (\<lambda>t. (Inr (f t), t))"

definition io_do :: "'e \<Rightarrow> ('e, unit) io" where
  "io_do e = (\<lambda>t. (Inr (), t @ [e]))"

definition io_bind :: "('e, 'a) io \<Rightarrow> ('a \<Rightarrow> ('e, 'b) io) \<Rightarrow> ('e, 'b) io" where
  "io_bind m f = (\<lambda>t. case m t of (Inl e, t) \<Rightarrow> (Inl e, t) | (Inr x, t) \<Rightarrow> f x t)"

abbreviation io_seq :: "('e, unit) io \<Rightarrow> ('e, 'b) io \<Rightarrow> ('e, 'b) io" where
  "io_seq m n \<equiv> io_bind m (\<lambda>_. n)"

definition io_when :: "bool \<Rightarrow> ('e, unit) io \<Rightarrow> ('e, unit) io" where
  "io_when b m = (if b then m else io_ret ())"

fun io_for :: "('a \<Rightarrow> ('e, unit) io) \<Rightarrow> 'a list \<Rightarrow> ('e, unit) io" where
  "io_for f [] = io_ret ()"
| "io_for f (x # xs) = io_seq (f x) (io_for f xs)"

text \<open>A loop with local variables.\<close>

fun io_fold :: "('s \<Rightarrow> 'a \<Rightarrow> ('e, 's) io) \<Rightarrow> 's \<Rightarrow> 'a list \<Rightarrow> ('e, 's) io" where
  "io_fold f s [] = io_ret s"
| "io_fold f s (x # xs) = io_bind (f s x) (\<lambda>s. io_fold f s xs)"

text \<open>\<open>try: m\<close> with a handler for some exceptions.\<close>

definition io_catch :: "('e, 'a) io \<Rightarrow> (py_error \<Rightarrow> ('e, 'a) io option) \<Rightarrow> ('e, 'a) io" where
  "io_catch m h = (\<lambda>t. case m t of
     (Inr x, t) \<Rightarrow> (Inr x, t)
   | (Inl e, t) \<Rightarrow> (case h e of None \<Rightarrow> (Inl e, t) | Some n \<Rightarrow> n t))"

subsection \<open>Which effects a program may have\<close>

definition emits :: "('e \<Rightarrow> bool) \<Rightarrow> ('e, 'a) io \<Rightarrow> bool" where
  "emits P m \<longleftrightarrow> (\<forall>t. \<exists>es. snd (m t) = t @ es \<and> list_all P es)"

named_theorems emitting \<open>which effects a program may have\<close>

lemma emitsI: "(\<And>t. \<exists>es. snd (m t) = t @ es \<and> list_all P es) \<Longrightarrow> emits P m"
  by (simp add: emits_def)

lemma emits_pure [emitting]:
  "emits P (io_ret x)" "emits P (io_raise e)" "emits P (io_lift r)" "emits P (io_ask f)"
  by (simp_all add: emits_def io_ret_def io_raise_def io_lift_def io_ask_def)

lemma emits_trace: "emits P m \<Longrightarrow> m t = (r, t') \<Longrightarrow> \<exists>es. t' = t @ es \<and> list_all P es"
  unfolding emits_def by (metis snd_conv)

lemma emits_do: "P e \<Longrightarrow> emits P (io_do e)"
  by (simp add: emits_def io_do_def)

lemma emits_bind [emitting]: "emits P m \<Longrightarrow> (\<And>x. emits P (f x)) \<Longrightarrow> emits P (io_bind m f)"
proof (rule emitsI)
  fix t
  assume m: "emits P m" and f: "\<And>x. emits P (f x)"
  obtain r t1 where r: "m t = (r, t1)" by (cases "m t")
  with m obtain es where es: "t1 = t @ es" "list_all P es" by (auto simp: emits_def dest: spec [of _ t])
  show "\<exists>es. snd (io_bind m f t) = t @ es \<and> list_all P es"
  proof (cases r)
    case (Inr x)
    from f [of x] obtain fs where "snd (f x t1) = t1 @ fs" "list_all P fs" by (auto simp: emits_def)
    with r es Inr show ?thesis by (intro exI [of _ "es @ fs"]) (simp add: io_bind_def)
  qed (use r es in \<open>auto simp: io_bind_def\<close>)
qed

lemma emits_when [emitting]: "(b \<Longrightarrow> emits P m) \<Longrightarrow> emits P (io_when b m)"
  by (simp add: io_when_def emits_pure)

lemma emits_if [emitting]: "(b \<Longrightarrow> emits P m) \<Longrightarrow> (\<not> b \<Longrightarrow> emits P n) \<Longrightarrow> emits P (if b then m else n)"
  by simp

lemma emits_for [emitting]: "(\<And>x. x \<in> set xs \<Longrightarrow> emits P (f x)) \<Longrightarrow> emits P (io_for f xs)"
  by (induction xs) (auto intro: emitting)

lemma emits_fold [emitting]: "(\<And>s x. x \<in> set xs \<Longrightarrow> emits P (f s x)) \<Longrightarrow> emits P (io_fold f s xs)"
  by (induction xs arbitrary: s) (auto intro: emitting)

lemma emits_option [emitting]:
  "(x = None \<Longrightarrow> emits P m) \<Longrightarrow> (\<And>y. x = Some y \<Longrightarrow> emits P (f y)) \<Longrightarrow> emits P (case x of None \<Rightarrow> m | Some y \<Rightarrow> f y)"
  by (cases x) auto

lemma emits_catch [emitting]:
  assumes "emits P m" "\<And>e n. h e = Some n \<Longrightarrow> emits P n"
  shows "emits P (io_catch m h)"
proof (rule emitsI)
  fix t
  obtain r t1 where r: "m t = (r, t1)" by (cases "m t")
  with assms(1) obtain es where es: "t1 = t @ es" "list_all P es" by (auto simp: emits_def dest: spec [of _ t])
  show "\<exists>es. snd (io_catch m h t) = t @ es \<and> list_all P es"
  proof (cases "case r of Inl e \<Rightarrow> h e | Inr x \<Rightarrow> None")
    case None
    with r es show ?thesis by (auto simp: io_catch_def split: sum.splits option.splits)
  next
    case (Some n)
    then obtain e where e: "r = Inl e" "h e = Some n" by (auto split: sum.splits)
    from assms(2) [OF e(2)] obtain fs where "snd (n t1) = t1 @ fs" "list_all P fs" by (auto simp: emits_def)
    with r e es show ?thesis by (intro exI [of _ "es @ fs"]) (simp add: io_catch_def)
  qed
qed

lemma io_bind_Inr:
  "io_bind m f t = (Inr y, t') \<longleftrightarrow> (\<exists>x t1. m t = (Inr x, t1) \<and> f x t1 = (Inr y, t'))"
  by (auto simp: io_bind_def split: prod.splits sum.splits)

text \<open>
  The contract of the operations that have one effect and then take the outcome from the outside: whatever the outcome
  is, the effect is the one that was asked for. The tools interpret it on their commands and changes of files.
\<close>

locale effect_runner =
  fixes perform :: "'e \<Rightarrow> ('e, 'a) io"
  assumes performs: "snd (perform e h) = h @ [e]"
begin

lemma emits_perform: "P e \<Longrightarrow> emits P (perform e)"
  by (simp add: emits_def performs)

lemma perform_trace: "perform e h = (r, h') \<Longrightarrow> h' = h @ [e]"
  by (metis performs snd_conv)

lemma perform_then:
  "io_bind (perform e) f h = (Inr y, h') \<Longrightarrow> \<exists>x. perform e h = (Inr x, h @ [e]) \<and> f x (h @ [e]) = (Inr y, h')"
  by (auto simp: io_bind_Inr dest: perform_trace)

end

section \<open>Paths\<close>

text \<open>Whether a path is absolute, and its parts.\<close>

type_synonym path = "bool \<times> string list"

definition path_of :: "string \<Rightarrow> path" where
  "path_of s = (starts_with ''/'' s, filter (\<lambda>c. c \<noteq> [] \<and> c \<noteq> ''.'') (split_char (CHR ''/'') s))"

definition path_str :: "path \<Rightarrow> string" where
  "path_str = (\<lambda>(absolute, parts).
     if absolute then ''/'' @ join ''/'' parts else if parts = [] then ''.'' else join ''/'' parts)"

text \<open>\<open>p / q\<close>, \<open>p.parent\<close> and \<open>p.name\<close>.\<close>

definition path_join :: "path \<Rightarrow> path \<Rightarrow> path" where
  "path_join p q = (if fst q then q else (fst p, snd p @ snd q))"

definition path_parent :: "path \<Rightarrow> path" where
  "path_parent p = (fst p, butlast (snd p))"

definition path_name :: "path \<Rightarrow> string" where
  "path_name p = (if snd p = [] then [] else last (snd p))"

text \<open>\<open>p.with_name(name)\<close>\<close>

definition with_name :: "path \<Rightarrow> string \<Rightarrow> path result" where
  "with_name p name = (if snd p = [] then raise ValueError else ret (fst p, butlast (snd p) @ [name]))"

text \<open>
  \<open>os.path.normpath\<close>: the parts that stay, newest first; two slashes at the start are kept, three are one.
\<close>

definition norm_step :: "bool \<Rightarrow> string list \<Rightarrow> string \<Rightarrow> string list" where
  "norm_step absolute comps part =
     (if part = [] \<or> part = ''.'' then comps
      else if part \<noteq> ''..'' \<or> (\<not> absolute \<and> comps = []) \<or> (comps \<noteq> [] \<and> hd comps = ''..'') then part # comps
      else tl comps)"

definition initial_slashes :: "string \<Rightarrow> nat" where
  "initial_slashes s =
     (if starts_with ''//'' s \<and> \<not> starts_with ''///'' s then 2 else if starts_with ''/'' s then 1 else 0)"

definition normpath :: "string \<Rightarrow> string" where
  "normpath s =
     (let n = initial_slashes s;
          comps = rev (foldl (norm_step (n > 0)) [] (split_char (CHR ''/'') s));
          p = replicate n (CHR ''/'') @ join ''/'' comps
      in if p = [] then ''.'' else p)"

end
