(* ===== verification/Vendor.thy ===== *)
theory Vendor
  imports Py_IO Py_Regex Yaml
begin

text \<open>
  The tool \<open>util/vendor.py\<close>, which copies sources from an upstream repository: description and lock files, the mapping
  of directories, the overrides of the command line, and the main program as a program with effects
  (commands of git, changes of files). What git and the file system answer is a record of functions of the effects so
  far; the HJSON parser gives the tree of a file; \<open>textwrap\<close> is a function that lays out a paragraph.
\<close>

section \<open>Fields\<close>

text \<open>\<open>get_field\<close> for a dictionary, a string or a list; a field that is null is missing.\<close>

definition get_field :: "yaml \<Rightarrow> string \<Rightarrow> (yaml \<Rightarrow> bool) \<Rightarrow> bool \<Rightarrow> yaml option result" where
  "get_field data name is_expected optional =
     rbind (y_get data name YNone) (\<lambda>v.
     if v = YNone then (if optional then ret None else raise JsonError)
     else if is_expected v then ret (Some v) else raise JsonError)"

definition field_with :: "yaml \<Rightarrow> string \<Rightarrow> (yaml \<Rightarrow> bool) \<Rightarrow> (yaml \<Rightarrow> 'a result) \<Rightarrow> 'a option result" where
  "field_with data name is_expected make = rbind (get_field data name is_expected True) (\<lambda>v.
     case v of None \<Rightarrow> ret None | Some y \<Rightarrow> rbind (make y) (\<lambda>x. ret (Some x)))"

definition required_with :: "yaml \<Rightarrow> string \<Rightarrow> (yaml \<Rightarrow> bool) \<Rightarrow> (yaml \<Rightarrow> 'a result) \<Rightarrow> 'a result" where
  "required_with data name is_expected make = rbind (get_field data name is_expected False) (\<lambda>v.
     case v of None \<Rightarrow> raise JsonError | Some y \<Rightarrow> make y)"

definition string_field :: "yaml \<Rightarrow> string \<Rightarrow> string result" where
  "string_field data name = required_with data name is_str as_str"

definition optional_string :: "yaml \<Rightarrow> string \<Rightarrow> string option result" where
  "optional_string data name = field_with data name is_str as_str"

record upstream =
  u_url :: string
  u_rev :: string
  u_only_subdir :: "string option"

definition make_upstream :: "yaml \<Rightarrow> upstream result" where
  "make_upstream data =
     rbind (string_field data ''url'') (\<lambda>url. rbind (string_field data ''rev'') (\<lambda>rev.
     rbind (optional_string data ''only_subdir'') (\<lambda>only_subdir.
     ret \<lparr>u_url = url, u_rev = rev, u_only_subdir = only_subdir\<rparr>)))"

definition upstream_dict :: "upstream \<Rightarrow> (string, yaml) dict" where
  "upstream_dict u = [(''url'', YStr (u_url u)), (''rev'', YStr (u_rev u))]
     @ (case u_only_subdir u of None \<Rightarrow> [] | Some d \<Rightarrow> [(''only_subdir'', YStr d)])"

record patch_repo =
  pr_url :: string
  pr_rev_base :: string
  pr_rev_patched :: string

definition make_patch_repo :: "yaml \<Rightarrow> patch_repo result" where
  "make_patch_repo data =
     rbind (string_field data ''url'') (\<lambda>url. rbind (string_field data ''rev_base'') (\<lambda>rev_base.
     rbind (string_field data ''rev_patched'') (\<lambda>rev_patched.
     ret \<lparr>pr_url = url, pr_rev_base = rev_base, pr_rev_patched = rev_patched\<rparr>)))"

record mapping1 =
  m1_from :: path
  m1_to :: path
  m1_patch_dir :: "path option"

definition safe_path :: "string \<Rightarrow> path result" where
  "safe_path s = (let n = normpath s in
     if starts_with ''/'' n \<or> starts_with ''..'' n then raise JsonError else ret (path_of n))"

definition make_mapping1 :: "yaml \<Rightarrow> mapping1 result" where
  "make_mapping1 data =
     rbind (string_field data ''from'') (\<lambda>s. rbind (safe_path s) (\<lambda>from_path.
     rbind (string_field data ''to'') (\<lambda>s. rbind (safe_path s) (\<lambda>to_path.
     rbind (optional_string data ''patch_dir'') (\<lambda>s.
     rbind (case s of None \<Rightarrow> ret None | Some s \<Rightarrow> rbind (safe_path s) (\<lambda>p. ret (Some p))) (\<lambda>patch_dir.
     ret \<lparr>m1_from = from_path, m1_to = to_path, m1_patch_dir = patch_dir\<rparr>))))))"

definition default_mapping :: "bool \<Rightarrow> mapping1" where
  "default_mapping have_patch_dir =
     \<lparr>m1_from = path_of ''.'', m1_to = path_of ''.'', m1_patch_dir = (if have_patch_dir then Some (path_of ''.'') else None)\<rparr>"

definition make_mapping :: "yaml \<Rightarrow> mapping1 list result" where
  "make_mapping data = (case data of
     YList xs \<Rightarrow> mapR (\<lambda>x. if is_map x then make_mapping1 x else raise JsonError) xs
   | _ \<Rightarrow> raise AssertionError)"

definition has_patch_dir :: "mapping1 list \<Rightarrow> bool" where
  "has_patch_dir items = list_ex (\<lambda>m. m1_patch_dir m \<noteq> None) items"

section \<open>Description and lock files\<close>

record desc =
  de_path :: path
  de_name :: string
  de_target_dir :: path
  de_upstream :: upstream
  de_patch_dir :: "path option"
  de_patch_repo :: "patch_repo option"
  de_exclude :: "string list"
  de_mapping :: "mapping1 list option"

definition desc_name_re :: re where
  "desc_name_re = seqs [many1 dot, lit ''.vendor.hjson'']"

text \<open>\<open>ref[k1][k2] = v\<close>, making the dictionaries that are missing; only dictionaries can be changed this way.\<close>

fun set_path :: "string list \<Rightarrow> string \<Rightarrow> yaml \<Rightarrow> yaml result" where
  "set_path [] v ref = ret ref"
| "set_path [k] v ref = (case ref of YMap d \<Rightarrow> ret (YMap (AList.update k (YStr v) d)) | _ \<Rightarrow> raise TypeError)"
| "set_path (k # ks) v ref = (case ref of
     YMap d \<Rightarrow> rbind (set_path ks v (dict_get_or d k (YMap []))) (\<lambda>sub. ret (YMap (AList.update k sub d)))
   | _ \<Rightarrow> raise TypeError)"

definition apply_overrides :: "(string \<times> string) list \<Rightarrow> yaml \<Rightarrow> yaml result" where
  "apply_overrides overrides data = foldR (\<lambda>data (key, v). set_path (split_char (CHR ''.'') key) v data) data overrides"

definition exclude_always :: "string list" where "exclude_always = [''.git'']"

definition exclude_list :: "yaml option \<Rightarrow> yaml list" where
  "exclude_list v = (case v of Some (YList xs) \<Rightarrow> xs | _ \<Rightarrow> []) @ map YStr exclude_always"

text \<open>The checks on patches and mapping.\<close>

definition consistent_desc :: "path option \<Rightarrow> patch_repo option \<Rightarrow> mapping1 list option \<Rightarrow> bool" where
  "consistent_desc patch_dir patch_repo mapping \<longleftrightarrow>
     \<not> (patch_repo \<noteq> None \<and> patch_dir = None) \<and> \<not> (patch_repo \<noteq> None \<and> mapping \<noteq> None)
     \<and> (case mapping of None \<Rightarrow> True | Some items \<Rightarrow> has_patch_dir items = (patch_dir \<noteq> None))"

definition make_desc :: "string \<Rightarrow> yaml result \<Rightarrow> (string \<times> string) list \<Rightarrow> desc result" where
  "make_desc file contents overrides =
     (if re_match desc_name_re file = None then raise ValueError
      else rbind contents (\<lambda>data. rbind (apply_overrides overrides data) (\<lambda>data.
        let path = path_of file; take_path = (\<lambda>y. rbind (as_str y) (\<lambda>p. ret (path_join (path_parent path) (path_of p)))) in
        rbind (string_field data ''name'') (\<lambda>name.
        rbind (required_with data ''target_dir'' is_str take_path) (\<lambda>target_dir.
        rbind (required_with data ''upstream'' is_map make_upstream) (\<lambda>upstream.
        rbind (field_with data ''patch_dir'' is_str take_path) (\<lambda>patch_dir.
        rbind (field_with data ''patch_repo'' is_map make_patch_repo) (\<lambda>patch_repo.
        rbind (get_field data ''exclude_from_upstream'' is_list True) (\<lambda>exclude.
        rbind (field_with data ''mapping'' is_list make_mapping) (\<lambda>mapping.
        if \<not> consistent_desc patch_dir patch_repo mapping then raise JsonError
        else if \<not> list_all is_str (exclude_list exclude) then raise JsonError
        else ret \<lparr>de_path = path, de_name = name, de_target_dir = target_dir, de_upstream = upstream,
          de_patch_dir = patch_dir, de_patch_repo = patch_repo, de_exclude = map y_str (exclude_list exclude),
          de_mapping = mapping\<rparr>))))))))))"

text \<open>\<open>s.rsplit('.', 2)[0]\<close>\<close>

definition cut_last_dot :: "string \<Rightarrow> string" where
  "cut_last_dot s = (let i = rfind_char (CHR ''.'') s in if i < 0 then s else take (nat i) s)"

definition lock_file_path :: "desc \<Rightarrow> path result" where
  "lock_file_path d =
     with_name (de_path d) (cut_last_dot (cut_last_dot (path_name (de_path d))) @ ''.lock.hjson'')"

definition make_lock :: "yaml \<Rightarrow> upstream result" where
  "make_lock data = required_with data ''upstream'' is_map make_upstream"

section \<open>Overrides of the command line\<close>

definition overridable_keys :: "string list" where
  "overridable_keys = [''patch_repo.url'', ''patch_repo.rev_base'', ''patch_repo.rev_patched'', ''upstream.url'',
     ''upstream.ref'']"

text \<open>\<open>s.split('=', 2)\<close> has at most three parts.\<close>

definition split_twice :: "char \<Rightarrow> string \<Rightarrow> string list" where
  "split_twice c s = (let ws = split_char c s in
     if length ws \<le> 3 then ws else take 2 ws @ [join [c] (drop 2 ws)])"

definition define_arg_type :: "string \<Rightarrow> (string \<times> string) result" where
  "define_arg_type arg = (case map strip (split_twice (CHR ''='') arg) of
     [key, v] \<Rightarrow> if key \<in> set overridable_keys then ret (key, v) else raise ArgumentTypeError
   | _ \<Rightarrow> raise ArgumentTypeError)"

section \<open>GitHub\<close>

definition url_part :: re where
  "url_part = many1 (Sat (\<lambda>c. is_lower c \<or> is_upper c \<or> is_digit c \<or> c = CHR ''-''))"

definition github_url_re :: re where
  "github_url_re = seqs [Alt (lit ''@github.com:'') (lit ''/github.com/''), Group 1 url_part, lit ''/'', Group 2 url_part,
     opt (lit ''.git''), Eol]"

definition url_group :: "nat \<Rightarrow> groups \<Rightarrow> string" where
  "url_group n g = (case match_group n g of None \<Rightarrow> [] | Some s \<Rightarrow> s)"

definition github_parse_url :: "string \<Rightarrow> (string \<times> string) option" where
  "github_parse_url url = map_option (\<lambda>(pre, m, g). (url_group 1 g, url_group 2 g)) (re_search github_url_re url)"

definition reference_re :: re where
  "reference_re = seqs [Group 1 (Alt Bol (Sat (\<lambda>c. \<not> is_word_char c))),
     Alt (lit ''#'') (seqs [Sat (\<lambda>c. c \<in> set ''gG''), Sat (\<lambda>c. c \<in> set ''hH''), lit ''-'']), Group 2 digits, Wordb]"

text \<open>
  The replacement is a template that begins with \<open>\1\<close> and the name of the user: a digit there is read as part of the
  number of the group, which is no group (GenericException), or with one more octal digit as a character code.
\<close>

definition template_start :: "string \<Rightarrow> (string \<Rightarrow> string) result" where
  "template_start userorg = (case userorg of
     c # d # rest \<Rightarrow>
       if is_octal c \<and> is_octal d then ret (\<lambda>g1. char_of (64 + 8 * (code c - 48) + (code d - 48)) # rest)
       else if is_digit c then raise (GenericException ''invalid group reference'')
       else ret (\<lambda>g1. g1 @ userorg)
   | [c] \<Rightarrow> if is_digit c then raise (GenericException ''invalid group reference'') else ret (\<lambda>g1. g1 @ userorg)
   | [] \<Rightarrow> ret (\<lambda>g1. g1))"

definition github_qualify_references :: "string list \<Rightarrow> string \<Rightarrow> string \<Rightarrow> string list result" where
  "github_qualify_references log userorg name = mapR (\<lambda>l. rbind (template_start userorg) (\<lambda>start.
     ret (re_sub reference_re (\<lambda>x g. start (url_group 1 g) @ ''/'' @ name @ ''#'' @ url_group 2 g) l))) log"

section \<open>Excluded files\<close>

text \<open>\<open>fnmatch.fnmatch\<close>; a set is its characters and ranges.\<close>

fun in_set :: "string \<Rightarrow> char \<Rightarrow> bool" where
  "in_set (a # CHR ''-'' # b # rest) c = ((code a \<le> code c \<and> code c \<le> code b) \<or> in_set rest c)"
| "in_set (a # rest) c = (a = c \<or> in_set rest c)"
| "in_set [] c = False"

text \<open>The set after its bracket and the rest of the pattern; a bracket at the start of a set is a member.\<close>

definition split_set :: "string \<Rightarrow> (string \<times> string) option" where
  "split_set p =
     (let (neg, q) = (if starts_with ''!'' p then (''!'', tl p) else ([], p));
          (lead, q) = (if starts_with '']'' q then ('']'', tl q) else ([], q));
          stuff = takeWhile (\<lambda>c. c \<noteq> CHR '']'') q
      in if length stuff = length q then None else Some (neg @ lead @ stuff, drop (Suc (length stuff)) q))"

definition set_matches :: "string \<Rightarrow> char \<Rightarrow> bool" where
  "set_matches stuff c = (case stuff of
     x # rest \<Rightarrow> if x = CHR ''!'' then \<not> in_set rest c else in_set stuff c
   | [] \<Rightarrow> False)"

lemma split_set_shorter: "split_set p = Some (stuff, rest) \<Longrightarrow> length rest < length p"
proof -
  have "length (takeWhile (\<lambda>c. c \<noteq> CHR '']'') xs) \<noteq> length xs \<Longrightarrow> xs \<noteq> []" for xs
    by auto
  then show "split_set p = Some (stuff, rest) \<Longrightarrow> length rest < length p"
    by (fastforce simp: split_set_def Let_def starts_with_iff split: if_splits prod.splits)
qed

function (sequential) fnmatch :: "string \<Rightarrow> string \<Rightarrow> bool" where
  "fnmatch [] s = (s = [])"
| "fnmatch (p # ps) s =
     (if p = CHR ''*'' then fnmatch ps s \<or> (case s of [] \<Rightarrow> False | c # cs \<Rightarrow> fnmatch (p # ps) cs)
      else case s of
        [] \<Rightarrow> False
      | c # cs \<Rightarrow>
          if p = CHR ''?'' then fnmatch ps cs
          else if p = CHR ''['' then
            (case split_set ps of
               None \<Rightarrow> c = p \<and> fnmatch ps cs
             | Some (stuff, rest) \<Rightarrow> set_matches stuff c \<and> fnmatch rest cs)
          else c = p \<and> fnmatch ps cs)"
  by pat_completeness auto
termination
  by (relation "measure (\<lambda>(p, s). length p + length s)") (auto dest: split_set_shorter)

text \<open>The names ignored in a directory, given relative to the base of the copy.\<close>

definition ignored_names :: "string list \<Rightarrow> string list \<Rightarrow> string list \<Rightarrow> string set" where
  "ignored_names patterns dir names =
     set (concat (map (\<lambda>pattern. filter (\<lambda>n. fnmatch pattern (join ''/'' (dir @ [n]))) names) patterns))"

section \<open>Commands and files\<close>

datatype veffect =
    VRun "string list" "path option" "string option"  \<comment> \<open>command, working directory, input\<close>
  | VMkdir path
  | VRmTree path
  | VCopyFile path path
  | VCopyTree path path "string list"
  | VUnlink path
  | VWriteLock path yaml

type_synonym 'a vio = "(veffect, 'a) io"

record world =
  w_read :: "string \<Rightarrow> yaml result"  \<comment> \<open>FileNotFoundError, or ValueError for bad HJSON\<close>
  w_run :: "veffect list \<Rightarrow> string result"  \<comment> \<open>the output of the last command\<close>
  w_done :: "veffect list \<Rightarrow> unit result"  \<comment> \<open>the outcome of the last change of files\<close>
  w_is_file :: "veffect list \<Rightarrow> path \<Rightarrow> bool"
  w_is_dir :: "veffect list \<Rightarrow> path \<Rightarrow> bool"
  w_patches :: "veffect list \<Rightarrow> path \<Rightarrow> path list"  \<comment> \<open>the files \<open>*.patch\<close>, sorted\<close>
  w_resolve :: "path \<Rightarrow> string"
  w_clone_dir :: path
  w_patch_clone_dir :: path
  w_fill :: "string \<Rightarrow> string \<Rightarrow> string \<Rightarrow> string"  \<comment> \<open>both indents, and the paragraph\<close>

definition run_cmd :: "world \<Rightarrow> string list \<Rightarrow> path option \<Rightarrow> string option \<Rightarrow> string vio" where
  "run_cmd w cmd cwd input = io_seq (io_do (VRun cmd cwd input)) (io_bind (io_ask (w_run w)) io_lift)"

text \<open>A change of files, which may fail: \<open>copytree\<close> refuses a directory that exists.\<close>

definition change_files :: "world \<Rightarrow> veffect \<Rightarrow> unit vio" where
  "change_files w e = io_seq (io_do e) (io_bind (io_ask (w_done w)) io_lift)"

interpretation change: effect_runner "change_files w" for w :: world
  by unfold_locales (simp add: change_files_def io_bind_def io_do_def io_ask_def io_lift_def)

definition run_quietly :: "world \<Rightarrow> string list \<Rightarrow> path option \<Rightarrow> unit vio" where
  "run_quietly w cmd cwd = io_bind (run_cmd w cmd cwd None) (\<lambda>_. io_ret ())"

definition quiet :: "bool \<Rightarrow> string list" where
  "quiet verbose = (if verbose then [] else [''-q''])"

definition git_is_clean_workdir :: "world \<Rightarrow> path \<Rightarrow> bool vio" where
  "git_is_clean_workdir w dir =
     io_bind (run_cmd w [''git'', ''status'', ''--untracked-files=no'', ''--porcelain''] (Some dir) None) (\<lambda>out.
     io_ret (strip out = []))"

definition clone_git_repo :: "world \<Rightarrow> bool \<Rightarrow> string \<Rightarrow> path \<Rightarrow> string \<Rightarrow> string vio" where
  "clone_git_repo w verbose url dir revision =
     io_seq (run_quietly w ([''git'', ''clone'', ''--no-single-branch''] @ quiet verbose @ [url, path_str dir]) None)
     (io_seq (run_quietly w ([''git'', ''-C'', path_str dir, ''checkout'', ''--force'', revision] @ quiet verbose) None)
     (io_bind (run_cmd w [''git'', ''-C'', path_str dir, ''rev-parse'', ''HEAD''] None None) (\<lambda>out. io_ret (strip out))))"

definition git_get_short_rev :: "world \<Rightarrow> path \<Rightarrow> string \<Rightarrow> string vio" where
  "git_get_short_rev w dir revision =
     io_bind (run_cmd w [''git'', ''-C'', path_str dir, ''rev-parse'', ''--short'', revision] None None) (\<lambda>out. io_ret (strip out))"

definition log_command :: "path \<Rightarrow> mapping1 list option \<Rightarrow> string \<Rightarrow> string \<Rightarrow> string list" where
  "log_command dir mapping old_rev new_rev =
     [''git'', ''-C'', path_str dir, ''log'', ''--pretty=format:%s (%aN)'', ''--no-merges'', old_rev @ ''..'' @ new_rev]
     @ (case mapping of None \<Rightarrow> [''.''] | Some items \<Rightarrow> map (\<lambda>m. path_str (m1_from m)) items)"

definition produce_shortlog :: "world \<Rightarrow> path \<Rightarrow> mapping1 list option \<Rightarrow> string \<Rightarrow> string \<Rightarrow> string list vio" where
  "produce_shortlog w dir mapping old_rev new_rev =
     io_catch (io_bind (run_cmd w (log_command dir mapping old_rev new_rev) (Some dir) None) (\<lambda>out. io_ret (splitlines out)))
       (\<lambda>e. if e = CalledProcessError then Some (io_ret []) else None)"

definition format_list_to_str :: "world \<Rightarrow> string list \<Rightarrow> string" where
  "format_list_to_str w ls = join [newline] (map (w_fill w ''* '' ''  '') ls)"

definition git_add_commit :: "world \<Rightarrow> path list \<Rightarrow> string \<Rightarrow> unit vio" where
  "git_add_commit w paths msg = (case paths of
     [] \<Rightarrow> io_raise AssertionError
   | p # _ \<Rightarrow>
       let base = path_str (path_parent p) in
       io_seq (run_quietly w ([''git'', ''-C'', base, ''add''] @ map (w_resolve w) paths) None)
       (io_catch (io_bind (run_cmd w [''git'', ''-C'', base, ''commit'', ''-s'', ''-F'', ''-''] None (Some msg)) (\<lambda>_. io_ret ()))
         (\<lambda>e. if e = CalledProcessError then Some (io_ret ()) else None)))"

definition apply_patch :: "world \<Rightarrow> bool \<Rightarrow> path \<Rightarrow> path \<Rightarrow> unit vio" where
  "apply_patch w verbose basedir patchfile =
     run_quietly w ([''git'', ''apply'', ''--directory'', path_str basedir, ''-p1'', path_str patchfile]
       @ (if verbose then [''--verbose''] else [])) None"

definition import_mapping1 ::
  "world \<Rightarrow> bool \<Rightarrow> path \<Rightarrow> path \<Rightarrow> string list \<Rightarrow> path option \<Rightarrow> mapping1 \<Rightarrow> unit vio" where
  "import_mapping1 w verbose upstream_path target_path exclude patch_dir m =
     (let from_path = path_join upstream_path (m1_from m); to_path = path_join target_path (m1_to m) in
      io_seq (change_files w (VMkdir (path_parent to_path)))
      (io_seq (io_bind (io_ask (\<lambda>t. w_is_file w t from_path)) (\<lambda>b.
         change_files w (if b then VCopyFile from_path to_path else VCopyTree from_path to_path exclude)))
      (case m1_patch_dir m of
         None \<Rightarrow> io_ret ()
       | Some d \<Rightarrow> (case patch_dir of
           None \<Rightarrow> io_raise TypeError
         | Some p \<Rightarrow> io_bind (io_ask (\<lambda>t. w_patches w t (path_join p d))) (io_for (apply_patch w verbose to_path))))))"

definition mapping_items :: "desc \<Rightarrow> mapping1 list" where
  "mapping_items d = (case de_mapping d of Some items \<Rightarrow> items | None \<Rightarrow> [default_mapping (de_patch_dir d \<noteq> None)])"

definition import_from_upstream :: "world \<Rightarrow> bool \<Rightarrow> desc \<Rightarrow> path \<Rightarrow> unit vio" where
  "import_from_upstream w verbose d upstream_path =
     io_seq (io_do (VRmTree (de_target_dir d)))
       (io_for (import_mapping1 w verbose upstream_path (de_target_dir d) (de_exclude d) (de_patch_dir d)) (mapping_items d))"

definition export_patches :: "world \<Rightarrow> bool \<Rightarrow> patch_repo \<Rightarrow> path \<Rightarrow> unit vio" where
  "export_patches w verbose r target =
     io_bind (clone_git_repo w verbose (pr_url r) (w_patch_clone_dir w) (pr_rev_patched r)) (\<lambda>_.
     run_quietly w ([''git'', ''format-patch'', ''--no-signature'', ''--no-stat'', ''-o'', w_resolve w target,
       ''origin/'' @ pr_rev_base r @ ''..origin/'' @ pr_rev_patched r] @ quiet verbose) (Some (w_patch_clone_dir w)))"

definition refresh_patches :: "world \<Rightarrow> bool \<Rightarrow> desc \<Rightarrow> unit vio" where
  "refresh_patches w verbose d = (case de_patch_repo d of
     None \<Rightarrow> io_raise (SystemExit 1)
   | Some r \<Rightarrow> (case de_patch_dir d of
       None \<Rightarrow> io_raise AttributeError
     | Some dir \<Rightarrow>
         io_seq (io_bind (io_ask (\<lambda>t. w_patches w t dir)) (io_for (\<lambda>p. change_files w (VUnlink p))))
           (export_patches w verbose r dir)))"

section \<open>The main program\<close>

record vendor_args =
  va_update :: bool
  va_refresh :: bool
  va_commit :: bool
  va_overrides :: "(string \<times> string) list"
  va_file :: string
  va_contents :: "yaml result"
  va_verbose :: bool

definition reported :: "'a result \<Rightarrow> 'a result" where
  "reported r = (case r of Inl e \<Rightarrow> raise (if e = JsonError \<or> e = ValueError then SystemExit 1 else e) | Inr x \<Rightarrow> ret x)"

definition load_lock :: "world \<Rightarrow> path \<Rightarrow> upstream option result" where
  "load_lock w p = (case rbind (w_read w (path_str p)) make_lock of
     Inl e \<Rightarrow> if e = FileNotFoundError then ret None else raise e
   | Inr u \<Rightarrow> ret (Some u))"

definition load_files :: "world \<Rightarrow> vendor_args \<Rightarrow> (desc \<times> path \<times> upstream option) result" where
  "load_files w a = reported (
     rbind (make_desc (va_file a) (va_contents a) (va_overrides a)) (\<lambda>d.
     rbind (lock_file_path d) (\<lambda>p. rbind (load_lock w p) (\<lambda>lock. ret (d, p, lock)))))"

definition check_clean :: "world \<Rightarrow> vendor_args \<Rightarrow> desc \<Rightarrow> unit vio" where
  "check_clean w a d = io_when (va_commit a) (io_bind (git_is_clean_workdir w (path_parent (de_path d))) (\<lambda>clean.
     if clean then io_ret () else io_raise (SystemExit 1)))"

definition clone_subdir :: "world \<Rightarrow> upstream \<Rightarrow> path vio" where
  "clone_subdir w u = (case u_only_subdir u of
     None \<Rightarrow> io_ret (w_clone_dir w)
   | Some s \<Rightarrow>
       let p = path_join (w_clone_dir w) (path_of s) in
       io_bind (io_ask (\<lambda>t. w_is_dir w t p)) (\<lambda>b. if b then io_ret p else io_raise (SystemExit 1)))"

text \<open>The log of the changes, for an update from the same URL; None when there is none.\<close>

definition summary ::
  "world \<Rightarrow> bool \<Rightarrow> upstream option \<Rightarrow> bool \<Rightarrow> desc \<Rightarrow> path \<Rightarrow> string \<Rightarrow> string list option vio" where
  "summary w update lock changed_url d dir new_rev = (case lock of
     None \<Rightarrow> io_ret None
   | Some l \<Rightarrow>
       if update \<and> \<not> changed_url then
         io_bind (produce_shortlog w dir (de_mapping d) (u_rev l) new_rev) (\<lambda>log.
         io_bind (io_lift (case github_parse_url (u_url (de_upstream d)) of
             None \<Rightarrow> ret log
           | Some (userorg, name) \<Rightarrow> github_qualify_references log userorg name)) (\<lambda>log. io_ret (Some log)))
       else io_ret None)"

definition lock_data :: "upstream \<Rightarrow> string \<Rightarrow> yaml" where
  "lock_data u new_rev = YMap [(''upstream'', YMap (AList.update ''rev'' (YStr new_rev) (upstream_dict u)))]"

definition commit_message :: "world \<Rightarrow> desc \<Rightarrow> string \<Rightarrow> string \<Rightarrow> string list option \<Rightarrow> string" where
  "commit_message w d sha new_rev shortlog =
     (let u = de_upstream d;
          intro = ''Update code from '' @ (case u_only_subdir u of None \<Rightarrow> [] | Some s \<Rightarrow> ''subdir '' @ s @ '' in '')
            @ ''upstream repository '' @ u_url u @ '' to revision '' @ new_rev;
          body = w_fill w [] [] intro @ (case shortlog of
              Some (l # ls) \<Rightarrow> [newline, newline] @ format_list_to_str w (l # ls)
            | _ \<Rightarrow> [])
      in ''Update '' @ de_name d @ '' to '' @ sha @ [newline, newline] @ body)"

definition commit_changes :: "world \<Rightarrow> vendor_args \<Rightarrow> desc \<Rightarrow> path \<Rightarrow> path \<Rightarrow> string \<Rightarrow> string list option \<Rightarrow> unit vio" where
  "commit_changes w a d lock_path dir new_rev shortlog =
     io_bind (git_get_short_rev w dir new_rev) (\<lambda>sha_short.
     let sha = (case github_parse_url (u_url (de_upstream d)) of
           None \<Rightarrow> sha_short
         | Some (userorg, name) \<Rightarrow> userorg @ ''/'' @ name @ ''@'' @ sha_short);
         patch_paths = (if va_refresh a then (case de_patch_dir d of None \<Rightarrow> [] | Some p \<Rightarrow> [p]) else [])
     in git_add_commit w ([de_target_dir d] @ patch_paths @ [lock_path]) (commit_message w d sha new_rev shortlog))"

text \<open>From the clone on; \<open>update\<close> and the upstream are settled.\<close>

definition import_clone ::
  "world \<Rightarrow> vendor_args \<Rightarrow> bool \<Rightarrow> bool \<Rightarrow> desc \<Rightarrow> path \<Rightarrow> upstream option \<Rightarrow> unit vio" where
  "import_clone w a update changed_url d lock_path lock =
     io_bind (clone_git_repo w (va_verbose a) (u_url (de_upstream d)) (w_clone_dir w) (u_rev (de_upstream d))) (\<lambda>new_rev.
     io_seq (io_when (\<not> update \<and> Some new_rev \<noteq> map_option u_rev lock) (io_raise (SystemExit 1)))
     (io_bind (clone_subdir w (de_upstream d)) (\<lambda>dir.
     io_seq (import_from_upstream w (va_verbose a) d dir)
     (io_bind (summary w update lock changed_url d dir new_rev) (\<lambda>shortlog.
     io_seq (io_when update (change_files w (VWriteLock lock_path (lock_data (de_upstream d) new_rev))))
       (io_when (va_commit a) (commit_changes w a d lock_path dir new_rev shortlog)))))))"

text \<open>The description with the upstream that is cloned: that of the lock file unless it is to be updated.\<close>

definition pinned :: "vendor_args \<Rightarrow> desc \<Rightarrow> upstream option \<Rightarrow> desc" where
  "pinned a d lock = (case lock of
     None \<Rightarrow> d
   | Some l \<Rightarrow> if va_update a then d else d\<lparr>de_upstream := l\<rparr>)"

definition vendor_main :: "world \<Rightarrow> vendor_args \<Rightarrow> unit vio" where
  "vendor_main w a =
     io_bind (io_lift (load_files w a)) (\<lambda>(d, lock_path, lock).
     io_seq (check_clean w a d)
     (let update = (va_update a \<or> lock = None);
          changed_url = (case lock of None \<Rightarrow> False | Some l \<Rightarrow> u_url (de_upstream d) \<noteq> u_url l);
          d = pinned a d lock
      in io_seq (io_when (va_refresh a) (refresh_patches w (va_verbose a) d))
           (import_clone w a update changed_url d lock_path lock)))"

end
