(* ===== verification/Vendor_Facts.thy ===== *)
theory Vendor_Facts
  imports Vendor
begin

text \<open>
  The vendor tool: what it may change and where it reads, the revision it imports when there is a lock file, and the
  lock file it writes.
\<close>

section \<open>Safe paths\<close>

text \<open>The parts after \<open>normpath\<close> of a relative path, newest first: names, then the steps upwards that are left.\<close>

definition normal_parts :: "string list \<Rightarrow> bool" where
  "normal_parts comps \<longleftrightarrow> (\<exists>ns k. comps = ns @ replicate k ''..''
     \<and> list_all (\<lambda>c. c \<noteq> [] \<and> c \<noteq> ''.'' \<and> c \<noteq> ''..'' \<and> CHR ''/'' \<notin> set c) ns)"

lemma normal_parts_step:
  assumes "normal_parts comps" "CHR ''/'' \<notin> set part"
  shows "normal_parts (norm_step False comps part)"
proof -
  from assms(1) obtain ns k where ns: "comps = ns @ replicate k ''..''"
      "list_all (\<lambda>c. c \<noteq> [] \<and> c \<noteq> ''.'' \<and> c \<noteq> ''..'' \<and> CHR ''/'' \<notin> set c) ns"
    unfolding normal_parts_def by blast
  consider "part = [] \<or> part = ''.''" | "part \<noteq> []" "part \<noteq> ''.''" "part \<noteq> ''..''"
    | "part = ''..''" "ns = []" | n ns' where "part = ''..''" "ns = n # ns'"
    by (cases ns) auto
  then show ?thesis
  proof cases
    case 2
    with ns assms(2) have "norm_step False comps part = (part # ns) @ replicate k ''..''"
        "list_all (\<lambda>c. c \<noteq> [] \<and> c \<noteq> ''.'' \<and> c \<noteq> ''..'' \<and> CHR ''/'' \<notin> set c) (part # ns)"
      by (simp_all add: norm_step_def)
    then show ?thesis unfolding normal_parts_def by blast
  next
    case 3
    with ns have "norm_step False comps part = [] @ replicate (Suc k) ''..''"
      by (cases k) (simp_all add: norm_step_def)
    then show ?thesis
      unfolding normal_parts_def by (intro exI [of _ "[]"] exI [of _ "Suc k"]) simp
  next
    case 4
    with ns have "norm_step False comps part = ns' @ replicate k ''..''"
        "list_all (\<lambda>c. c \<noteq> [] \<and> c \<noteq> ''.'' \<and> c \<noteq> ''..'' \<and> CHR ''/'' \<notin> set c) ns'"
      by (simp_all add: norm_step_def)
    then show ?thesis unfolding normal_parts_def by blast
  qed (use assms in \<open>simp add: norm_step_def\<close>)
qed

lemma normal_parts_foldl:
  "normal_parts comps \<Longrightarrow> (\<And>p. p \<in> set parts \<Longrightarrow> CHR ''/'' \<notin> set p)
    \<Longrightarrow> normal_parts (foldl (norm_step False) comps parts)"
  by (induction parts arbitrary: comps) (auto intro: normal_parts_step)

lemma join_starts: "starts_with p x \<Longrightarrow> starts_with p (join sep (x # xs))"
  by (cases xs) (auto simp: starts_with_iff join_Cons)

definition inner :: "path \<Rightarrow> bool" where
  "inner p \<longleftrightarrow> \<not> fst p \<and> ''..'' \<notin> set (snd p)"

lemma safe_path_inner:
  assumes "safe_path s = Inr p"
  shows "inner p"
proof -
  define parts where "parts = foldl (norm_step False) [] (split_char (CHR ''/'') s)"
  have nf: "\<not> starts_with ''/'' (normpath s)" "\<not> starts_with ''..'' (normpath s)" "p = path_of (normpath s)"
    using assms by (simp_all add: safe_path_def Let_def split: if_splits)
  have rel: "initial_slashes s = 0"
  proof (rule ccontr)
    assume "initial_slashes s \<noteq> 0"
    then have "starts_with ''/'' (normpath s)"
      by (cases "initial_slashes s") (simp_all add: normpath_def Let_def starts_with_iff)
    with nf show False by simp
  qed
  have "normal_parts []" by (simp add: normal_parts_def)
  then have "normal_parts parts"
    unfolding parts_def by (rule normal_parts_foldl) (auto dest: split_char_free)
  then obtain ns k where ns: "parts = ns @ replicate k ''..''"
      "list_all (\<lambda>c. c \<noteq> [] \<and> c \<noteq> ''.'' \<and> c \<noteq> ''..'' \<and> CHR ''/'' \<notin> set c) ns"
    unfolding normal_parts_def by blast
  have n: "normpath s = (let q = join ''/'' (replicate k ''..'' @ rev ns) in if q = [] then ''.'' else q)"
    using rel ns by (simp add: normpath_def Let_def parts_def [symmetric])
  show ?thesis
  proof (cases k)
    case (Suc k')
    have "starts_with ''..'' (join ''/'' (''..'' # replicate k' ''..'' @ rev ns))"
      by (rule join_starts) simp
    with n Suc nf show ?thesis by (simp add: Let_def split: if_splits)
  next
    case 0
    show ?thesis
    proof (cases "ns = []")
      case True
      with n 0 nf show ?thesis by (simp add: inner_def path_of_def)
    next
      case False
      have "split_char (CHR ''/'') (join ''/'' (rev ns)) = rev ns"
        using ns(2) False by (intro split_char_join) (auto simp: list_all_iff)
      with n 0 nf ns(2) show ?thesis
        by (auto simp: inner_def path_of_def Let_def list_all_iff split: if_splits)
    qed
  qed
qed

lemma inner_here [simp]: "inner (path_of ''.'')"
  by (simp add: inner_def path_of_def)

definition inner_mapping :: "mapping1 \<Rightarrow> bool" where
  "inner_mapping m \<longleftrightarrow> inner (m1_from m) \<and> inner (m1_to m)"

lemma make_mapping1_inner: "make_mapping1 y = Inr m \<Longrightarrow> inner_mapping m"
  by (auto simp: make_mapping1_def inner_mapping_def intro: safe_path_inner)

lemma make_mapping_inner: "make_mapping y = Inr ms \<Longrightarrow> list_all inner_mapping ms"
  by (cases y) (auto simp: make_mapping_def mapR_Inr_iff list_all2_conv_all_nth list_all_length make_mapping1_inner
      split: if_splits)

lemma field_with_Inr:
  "field_with y k is_t mk = Inr (Some x) \<Longrightarrow> \<exists>v. mk v = Inr x"
  by (auto simp: field_with_def split: option.splits)

lemma make_desc_inner:
  assumes "make_desc f y os = Inr d"
  shows "list_all inner_mapping (mapping_items d)"
proof (cases "de_mapping d")
  case None
  then show ?thesis by (simp add: mapping_items_def default_mapping_def inner_mapping_def)
next
  case (Some ms)
  from assms obtain data where "field_with data ''mapping'' is_list make_mapping = Inr (de_mapping d)"
    by (auto simp: make_desc_def Let_def split: if_splits)
  with Some have "list_all inner_mapping ms" by (auto dest!: field_with_Inr make_mapping_inner)
  with Some show ?thesis by (simp add: mapping_items_def)
qed

lemma load_files_desc:
  "load_files w a = Inr (d, p, lock)
    \<Longrightarrow> make_desc (va_file a) (va_contents a) (va_overrides a) = Inr d \<and> lock_file_path d = Inr p \<and> load_lock w p = Inr lock"
  by (auto simp: load_files_def reported_def split: sum.splits)

lemma pinned_simps [simp]:
  "de_target_dir (pinned a d lock) = de_target_dir d" "mapping_items (pinned a d lock) = mapping_items d"
  "de_path (pinned a d lock) = de_path d" "de_patch_dir (pinned a d lock) = de_patch_dir d"
  "de_mapping (pinned a d lock) = de_mapping d" "de_exclude (pinned a d lock) = de_exclude d"
  "de_name (pinned a d lock) = de_name d" "de_patch_repo (pinned a d lock) = de_patch_repo d"
  by (simp_all add: pinned_def mapping_items_def split: option.splits)

section \<open>What may be changed\<close>

text \<open>A path below a base, reached by names only.\<close>

definition below :: "path \<Rightarrow> path \<Rightarrow> bool" where
  "below base p \<longleftrightarrow> (\<exists>q. inner q \<and> p = path_join base q)"

definition source_dir :: "world \<Rightarrow> desc \<Rightarrow> path" where
  "source_dir w d = (case u_only_subdir (de_upstream d) of
     None \<Rightarrow> w_clone_dir w | Some s \<Rightarrow> path_join (w_clone_dir w) (path_of s))"

text \<open>
  The effects that are allowed: files are read below the source, written below the target directory, made in its
  parent; the target directory is what is removed; the lock file is written when it is to be updated.
\<close>

definition in_bounds :: "path \<Rightarrow> path \<Rightarrow> path \<Rightarrow> bool \<Rightarrow> (path \<Rightarrow> bool) \<Rightarrow> veffect \<Rightarrow> bool" where
  "in_bounds source target lock_path update patch e = (case e of
     VRun cmd cwd input \<Rightarrow> cmd \<noteq> [] \<and> hd cmd = ''git''
   | VMkdir p \<Rightarrow> p = path_parent target \<or> below target p
   | VRmTree p \<Rightarrow> p = target
   | VCopyFile p q \<Rightarrow> below source p \<and> below target q
   | VCopyTree p q exclude \<Rightarrow> below source p \<and> below target q \<and> ''.git'' \<in> set exclude
   | VUnlink p \<Rightarrow> patch p
   | VWriteLock p y \<Rightarrow> p = lock_path \<and> update)"

lemma make_desc_excludes: "make_desc f y os = Inr d \<Longrightarrow> ''.git'' \<in> set (de_exclude d)"
  by (auto simp: make_desc_def Let_def exclude_list_def exclude_always_def split: if_splits)

lemma parent_of_below: "inner q \<Longrightarrow> path_parent (path_join t q) = path_parent t \<or> below t (path_parent (path_join t q))"
  by (cases "snd q = []")
    (auto simp: below_def inner_def path_parent_def path_join_def butlast_append dest: in_set_butlastD
      intro!: exI [of _ "(False, butlast (snd q))"])

lemma emits_run: "P (VRun cmd cwd input) \<Longrightarrow> emits P (run_cmd w cmd cwd input)"
  by (simp add: run_cmd_def emitting emits_do)

lemma emits_run_quietly: "P (VRun cmd cwd None) \<Longrightarrow> emits P (run_quietly w cmd cwd)"
  by (simp add: run_quietly_def emitting emits_run)

lemmas emits_steps = emits_run emits_run_quietly change.emits_perform emits_do

text \<open>Programs that only run git.\<close>

definition runs_git :: "veffect \<Rightarrow> bool" where
  "runs_git e = (case e of VRun cmd cwd input \<Rightarrow> cmd \<noteq> [] \<and> hd cmd = ''git'' | _ \<Rightarrow> False)"

lemma emits_mono: "emits P m \<Longrightarrow> (\<And>e. P e \<Longrightarrow> Q e) \<Longrightarrow> emits Q m"
  unfolding emits_def by (meson list.pred_mono_strong)

lemma clone_runs_git: "emits runs_git (clone_git_repo w v url dir r)"
  by (auto simp: clone_git_repo_def runs_git_def intro!: emitting emits_steps)

lemma check_clean_runs_git: "emits runs_git (check_clean w a d)"
  by (auto simp: check_clean_def git_is_clean_workdir_def runs_git_def intro!: emitting emits_steps)

lemma clone_subdir_silent: "emits P (clone_subdir w u)"
  by (auto simp: clone_subdir_def Let_def intro!: emitting)

lemma summary_runs_git: "emits runs_git (summary w u l ch d dir r)"
  by (auto simp: summary_def produce_shortlog_def log_command_def runs_git_def intro!: emitting emits_steps
      split: if_splits option.splits)

lemma commit_runs_git: "emits runs_git (commit_changes w a d p dir r s)"
  by (auto simp: commit_changes_def git_get_short_rev_def git_add_commit_def runs_git_def Let_def
      intro!: emitting emits_steps split: if_splits option.splits list.splits)

lemma export_runs_git: "emits runs_git (export_patches w v r dir)"
  unfolding export_patches_def
  by (intro emitting clone_runs_git emits_steps) (simp add: runs_git_def)

lemmas only_git = clone_runs_git check_clean_runs_git summary_runs_git commit_runs_git export_runs_git

lemma git_in_bounds: "emits runs_git m \<Longrightarrow> emits (in_bounds s t p u pt) m"
  by (erule emits_mono) (simp add: runs_git_def in_bounds_def split: veffect.splits)

lemma belowI: "inner q \<Longrightarrow> below base (path_join base q)"
  unfolding below_def by blast

lemma import_in_bounds:
  assumes "list_all inner_mapping (mapping_items d)" "''.git'' \<in> set (de_exclude d)"
  shows "emits (in_bounds src (de_target_dir d) p u pt) (import_from_upstream w v d src)"
proof -
  have patch: "emits (in_bounds src (de_target_dir d) p u pt) (apply_patch w v base patch)" for base patch
    by (simp add: apply_patch_def emits_run_quietly in_bounds_def)
  have one: "emits (in_bounds src (de_target_dir d) p u pt)
      (import_mapping1 w v src (de_target_dir d) (de_exclude d) (de_patch_dir d) m)" if "inner_mapping m" for m
    unfolding import_mapping1_def Let_def
    using that assms(2) parent_of_below [of "m1_to m" "de_target_dir d"]
    by (intro emitting emits_steps patch) (simp_all add: in_bounds_def inner_mapping_def belowI)
  show ?thesis
    using assms(1) unfolding import_from_upstream_def
    by (intro emitting emits_do one) (auto simp: list_all_iff in_bounds_def)
qed

lemma emits_ask: "(\<And>h. emits P (g (f h))) \<Longrightarrow> emits P (io_bind (io_ask f) g)"
  by (simp add: emits_def io_bind_def io_ask_def)

definition listed_patch :: "world \<Rightarrow> desc \<Rightarrow> path \<Rightarrow> bool" where
  "listed_patch w d p \<longleftrightarrow> (\<exists>h dir. de_patch_dir d = Some dir \<and> p \<in> set (w_patches w h dir))"

lemma refresh_in_bounds: "emits (in_bounds s t p u (listed_patch w d)) (refresh_patches w v d)"
  unfolding refresh_patches_def
  by (intro emitting emits_ask change.emits_perform git_in_bounds [OF export_runs_git])
    (auto simp: in_bounds_def listed_patch_def)

lemma clone_subdir_source:
  "clone_subdir w (de_upstream d) t = (Inr dir, t') \<Longrightarrow> dir = source_dir w d \<and> t' = t"
  by (auto simp: clone_subdir_def source_dir_def Let_def io_ret_def io_bind_def io_ask_def io_raise_def
      split: option.splits if_splits)

text \<open>The rest of a program need only be looked at for the values that are returned.\<close>

lemma emits_bind_returned:
  assumes "emits P m" "\<And>x t t'. m t = (Inr x, t') \<Longrightarrow> emits P (f x)"
  shows "emits P (io_bind m f)"
proof (rule emitsI)
  fix t
  obtain r t1 where r: "m t = (r, t1)" by (cases "m t")
  with assms(1) obtain es where es: "t1 = t @ es" "list_all P es" by (auto simp: emits_def dest: spec [of _ t])
  show "\<exists>es. snd (io_bind m f t) = t @ es \<and> list_all P es"
  proof (cases r)
    case (Inr x)
    with assms(2) r have "emits P (f x)" by blast
    then obtain fs where "snd (f x t1) = t1 @ fs" "list_all P fs" by (auto simp: emits_def)
    with r es Inr show ?thesis by (intro exI [of _ "es @ fs"]) (simp add: io_bind_def)
  qed (use r es in \<open>auto simp: io_bind_def\<close>)
qed

lemma import_clone_in_bounds:
  assumes "list_all inner_mapping (mapping_items d)" "''.git'' \<in> set (de_exclude d)"
  shows "emits (in_bounds (source_dir w d) (de_target_dir d) p u pt) (import_clone w a u ch d p lock)"
  unfolding import_clone_def
  by (rule emits_bind, rule git_in_bounds, rule clone_runs_git, rule emits_bind, intro emitting,
      rule emits_bind_returned, rule clone_subdir_silent, drule clone_subdir_source,
      auto simp: in_bounds_def intro!: emitting change.emits_perform import_in_bounds assms
        git_in_bounds [OF summary_runs_git] git_in_bounds [OF commit_runs_git])

lemma listed_patch_pinned: "listed_patch w (pinned a d lock) = listed_patch w d"
  by (simp add: listed_patch_def fun_eq_iff)

text \<open>
  C28: whatever the description file, the lock file, the command line and the answers of git are, the tool changes
  nothing before both files are read without error, and then it only runs git, removes the target directory, reads
  below the source (the clone, or its sub-directory), writes below the target directory by names without \<open>..\<close>,
  leaves \<open>.git\<close> out of every directory it copies, removes patches listed in the patch directory, and writes the lock
  file only for an update.
\<close>

theorem vendor_in_bounds:
  "emits (\<lambda>e. case load_files w a of
       Inl err \<Rightarrow> False
     | Inr (d, p, lock) \<Rightarrow> in_bounds (source_dir w (pinned a d lock)) (de_target_dir d) p
         (va_update a \<or> lock = None) (listed_patch w d) e) (vendor_main w a)"
proof (cases "load_files w a")
  case (Inl err)
  then show ?thesis by (simp add: emits_def vendor_main_def io_lift_def io_bind_def)
next
  case (Inr loaded)
  obtain d p lock where loaded: "loaded = (d, p, lock)" by (cases loaded)
  have desc: "make_desc (va_file a) (va_contents a) (va_overrides a) = Inr d"
    using Inr loaded load_files_desc by blast
  have inner: "list_all inner_mapping (mapping_items (pinned a d lock))" "''.git'' \<in> set (de_exclude (pinned a d lock))"
    using make_desc_inner [OF desc] make_desc_excludes [OF desc] by simp_all
  have "emits (in_bounds (source_dir w (pinned a d lock)) (de_target_dir (pinned a d lock)) p (va_update a \<or> lock = None)
      (listed_patch w (pinned a d lock))) (vendor_main w a)"
    unfolding vendor_main_def Let_def Inr loaded
    by (rule emits_bind_returned, rule emits_pure)
      (auto simp: io_lift_def intro!: emitting git_in_bounds [OF check_clean_runs_git] refresh_in_bounds
        import_clone_in_bounds [OF inner, simplified])
  with Inr loaded show ?thesis by (simp add: listed_patch_pinned)
qed

section \<open>The revision that is imported\<close>

definition imports_files :: "veffect \<Rightarrow> bool" where
  "imports_files e = (case e of
     VMkdir p \<Rightarrow> True | VRmTree p \<Rightarrow> True | VCopyFile p q \<Rightarrow> True | VCopyTree p q x \<Rightarrow> True | VWriteLock p y \<Rightarrow> True
   | VRun cmd cwd input \<Rightarrow> False | VUnlink p \<Rightarrow> False)"

definition checkout :: "world \<Rightarrow> bool \<Rightarrow> upstream \<Rightarrow> veffect list" where
  "checkout w v u =
     [VRun ([''git'', ''clone'', ''--no-single-branch''] @ quiet v @ [u_url u, path_str (w_clone_dir w)]) None None,
      VRun ([''git'', ''-C'', path_str (w_clone_dir w), ''checkout'', ''--force'', u_rev u] @ quiet v) None None,
      VRun [''git'', ''-C'', path_str (w_clone_dir w), ''rev-parse'', ''HEAD''] None None]"

lemma clone_result:
  "clone_git_repo w v (u_url u) (w_clone_dir w) (u_rev u) t = (Inr r, t')
    \<Longrightarrow> t' = t @ checkout w v u \<and> (\<exists>out. w_run w t' = Inr out \<and> r = strip out)"
  by (auto simp: clone_git_repo_def run_quietly_def run_cmd_def io_bind_Inr io_do_def io_ask_def io_lift_def io_ret_def
      checkout_def)

lemma bind_after:
  assumes "emits P m" "io_bind m f t = (r, t')"
  obtains (stop) e es where "m t = (Inl e, t @ es)" "r = Inl e" "t' = t @ es" "list_all P es"
    | (run) x es where "m t = (Inr x, t @ es)" "list_all P es" "f x (t @ es) = (r, t')"
proof (cases "m t")
  case (Pair q t1)
  with assms(1) obtain es where es: "t1 = t @ es" "list_all P es" by (auto simp: emits_def dest: spec [of _ t])
  show thesis
  proof (cases q)
    case (Inl e)
    with assms(2) Pair es have "r = Inl e" "t' = t @ es" by (auto simp: io_bind_def)
    with Inl Pair es show thesis by (intro stop) simp_all
  next
    case (Inr x)
    with assms(2) Pair es run show thesis by (simp add: io_bind_def)
  qed
qed

lemma quiet_git: "emits runs_git m \<Longrightarrow> emits (\<lambda>e. \<not> imports_files e) m"
  by (erule emits_mono) (simp add: runs_git_def imports_files_def split: veffect.splits)

lemma refresh_quiet: "emits (\<lambda>e. \<not> imports_files e) (refresh_patches w v d)"
  unfolding refresh_patches_def
  by (intro emitting change.emits_perform quiet_git [OF export_runs_git]) (simp add: imports_files_def)

lemma not_list_ex: "list_all (\<lambda>e. \<not> P e) es \<longleftrightarrow> \<not> list_ex P es"
  by (induction es) simp_all

lemma import_any: "emits (\<lambda>_. True) (import_from_upstream w v d src)"
  unfolding import_from_upstream_def import_mapping1_def Let_def apply_patch_def
  by (intro emitting emits_steps) simp_all

text \<open>The clone is made, the revision is compared and only then are files imported.\<close>

lemma import_after_checkout:
  assumes "import_clone w a update ch d p lock t = (r, t')" "list_ex imports_files t'" "\<not> list_ex imports_files t"
  obtains out es where "t' = t @ checkout w (va_verbose a) (de_upstream d) @ es"
    "w_run w (t @ checkout w (va_verbose a) (de_upstream d)) = Inr out"
    "update \<or> Some (strip out) = map_option u_rev lock"
proof -
  let ?u = "de_upstream d"
  from assms(1) show thesis
    unfolding import_clone_def
  proof (rule bind_after [OF quiet_git [OF clone_runs_git]])
    fix e es
    assume "t' = t @ es" "list_all (\<lambda>e. \<not> imports_files e) es"
    with assms(2,3) show thesis by (simp add: not_list_ex)
  next
    fix x es
    assume *: "clone_git_repo w (va_verbose a) (u_url ?u) (w_clone_dir w) (u_rev ?u) t = (Inr x, t @ es)"
      "list_all (\<lambda>e. \<not> imports_files e) es"
    assume rest: "io_seq (io_when (\<not> update \<and> Some x \<noteq> map_option u_rev lock) (io_raise (SystemExit 1)))
     (io_bind (clone_subdir w ?u) (\<lambda>dir. io_seq (import_from_upstream w (va_verbose a) d dir)
     (io_bind (summary w update lock ch d dir x) (\<lambda>shortlog.
     io_seq (io_when update (change_files w (VWriteLock p (lock_data ?u x))))
       (io_when (va_commit a) (commit_changes w a d p dir x shortlog)))))) (t @ es) = (r, t')"
      (is "io_seq _ ?rest _ = _")
    from clone_result [OF *(1)] obtain out where
      out: "es = checkout w (va_verbose a) ?u" "w_run w (t @ es) = Inr out" "x = strip out" by auto
    show thesis
    proof (cases "\<not> update \<and> Some x \<noteq> map_option u_rev lock")
      case True
      with rest * assms(2,3) show thesis by (auto simp: io_when_def io_raise_def io_bind_def not_list_ex)
    next
      case False
      have "emits (\<lambda>_. True) ?rest"
        by (intro emitting emits_mono [OF summary_runs_git] emits_mono [OF commit_runs_git] change.emits_perform clone_subdir_silent
            import_any) simp_all
      with False rest obtain fs where "t' = t @ es @ fs"
        by (auto simp: io_when_def io_ret_def io_bind_def emits_def dest!: spec [of _ "t @ es"])
      with out False show thesis by (intro that [of fs out]) auto
    qed
  qed
qed

text \<open>
  C29: with a lock file and no update, files are imported only after a clone of the locked URL at the locked revision
  whose HEAD is that revision.
\<close>

theorem locked_revision:
  assumes "load_files w a = Inr (d, p, Some l)" "\<not> va_update a" "vendor_main w a [] = (r, t)" "list_ex imports_files t"
  shows "\<exists>before after out. t = before @ checkout w (va_verbose a) l @ after \<and> \<not> list_ex imports_files before
    \<and> w_run w (before @ checkout w (va_verbose a) l) = Inr out \<and> strip out = u_rev l"
proof -
  have pin: "de_upstream (pinned a d (Some l)) = l" using assms(2) by (simp add: pinned_def)
  from assms have main: "io_seq (check_clean w a d) (io_seq (io_when (va_refresh a) (refresh_patches w (va_verbose a) (pinned a d (Some l))))
      (import_clone w a False (u_url (de_upstream d) \<noteq> u_url l) (pinned a d (Some l)) p (Some l))) [] = (r, t)"
    by (simp add: vendor_main_def io_lift_def io_bind_def [of "\<lambda>t. (Inr _, t)"] Let_def)
  then obtain es where es: "list_all (\<lambda>e. \<not> imports_files e) es"
      "io_seq (io_when (va_refresh a) (refresh_patches w (va_verbose a) (pinned a d (Some l))))
        (import_clone w a False (u_url (de_upstream d) \<noteq> u_url l) (pinned a d (Some l)) p (Some l)) es = (r, t)"
    using assms(4) by (auto simp: not_list_ex elim: bind_after [OF quiet_git [OF check_clean_runs_git]])
  have "emits (\<lambda>e. \<not> imports_files e) (io_when (va_refresh a) (refresh_patches w (va_verbose a) (pinned a d (Some l))))"
    by (intro emitting refresh_quiet)
  from this es(2) obtain fs where "list_all (\<lambda>e. \<not> imports_files e) fs"
      "import_clone w a False (u_url (de_upstream d) \<noteq> u_url l) (pinned a d (Some l)) p (Some l) (es @ fs) = (r, t)"
    using assms(4) es(1) by (auto simp: not_list_ex elim: bind_after)
  with es(1) assms(4) obtain out gs where "t = (es @ fs) @ checkout w (va_verbose a) l @ gs"
      "w_run w ((es @ fs) @ checkout w (va_verbose a) l) = Inr out" "strip out = u_rev l" "\<not> list_ex imports_files (es @ fs)"
    by (auto simp: not_list_ex pin elim!: import_after_checkout)
  then show ?thesis by blast
qed

section \<open>The lock file\<close>

lemma lock_roundtrip: "make_lock (lock_data u revision) = Inr (u\<lparr>u_rev := revision\<rparr>)"
  by (cases u) (auto simp: make_lock_def lock_data_def required_with_def get_field_def field_with_def y_get_def
      make_upstream_def string_field_def optional_string_def upstream_dict_def as_str_def dict_get_or_def split: option.splits)

definition writes_lock :: "veffect \<Rightarrow> bool" where
  "writes_lock e = (case e of VWriteLock p y \<Rightarrow> True | _ \<Rightarrow> False)"

lemma git_writes_no_lock: "emits runs_git m \<Longrightarrow> emits (\<lambda>e. \<not> writes_lock e) m"
  by (erule emits_mono) (simp add: runs_git_def writes_lock_def split: veffect.splits)

lemma import_writes_no_lock: "emits (\<lambda>e. \<not> writes_lock e) (import_from_upstream w v d src)"
  unfolding import_from_upstream_def import_mapping1_def Let_def apply_patch_def
  by (intro emitting emits_steps) (simp_all add: writes_lock_def)

lemma refresh_writes_no_lock: "emits (\<lambda>e. \<not> writes_lock e) (refresh_patches w v d)"
  unfolding refresh_patches_def
  by (intro emitting change.emits_perform git_writes_no_lock [OF export_runs_git]) (simp add: writes_lock_def)

lemma update_clone:
  assumes "import_clone w a True ch d p lock t = (Inr (), t')"
  obtains out es fs where
    "t' = t @ checkout w (va_verbose a) (de_upstream d) @ es @ [VWriteLock p (lock_data (de_upstream d) (strip out))] @ fs"
    "w_run w (t @ checkout w (va_verbose a) (de_upstream d)) = Inr out"
    "list_all (\<lambda>e. \<not> writes_lock e) es" "list_all runs_git fs"
proof -
  let ?u = "de_upstream d"
  from assms obtain r t1 dir t2 u1 t3 sl t4 where run:
    "clone_git_repo w (va_verbose a) (u_url ?u) (w_clone_dir w) (u_rev ?u) t = (Inr r, t1)"
    "clone_subdir w ?u t1 = (Inr dir, t2)" "import_from_upstream w (va_verbose a) d dir t2 = (Inr u1, t3)"
    "summary w True lock ch d dir r t3 = (Inr sl, t4)"
    "io_when (va_commit a) (commit_changes w a d p dir r sl) (t4 @ [VWriteLock p (lock_data ?u r)]) = (Inr (), t')"
    by (auto simp: import_clone_def io_bind_Inr io_when_def [of True] io_when_def [of False] io_ret_def change_files_def
        io_do_def io_ask_def io_lift_def)
  from run(1) clone_result obtain out where
    out: "t1 = t @ checkout w (va_verbose a) ?u" "w_run w t1 = Inr out" "r = strip out" by blast
  from run(2) clone_subdir_source have "t2 = t1" by blast
  with emits_trace [OF import_writes_no_lock run(3)] emits_trace [OF git_writes_no_lock [OF summary_runs_git] run(4)]
  obtain es1 es2 where es: "t4 = t1 @ es1 @ es2" "list_all (\<lambda>e. \<not> writes_lock e) (es1 @ es2)" by auto
  from emits_trace [OF emits_when [OF commit_runs_git] run(5)] obtain fs where
    "t' = t4 @ [VWriteLock p (lock_data ?u r)] @ fs" "list_all runs_git fs" by auto
  with es out show thesis by (intro that [of "es1 @ es2" out fs]) simp_all
qed

text \<open>
  C30: an update that ends well writes the lock file once, with the HEAD of the clone of the upstream that is described,
  after the files are imported and before the commit; reading that lock file gives this upstream at this revision.
\<close>

theorem update_writes_lock:
  assumes "load_files w a = Inr (d, p, lock)" "va_update a \<or> lock = None" "vendor_main w a [] = (Inr (), t)"
  shows "\<exists>before imports after out.
    t = before @ checkout w (va_verbose a) (de_upstream d) @ imports
      @ [VWriteLock p (lock_data (de_upstream d) (strip out))] @ after
    \<and> w_run w (before @ checkout w (va_verbose a) (de_upstream d)) = Inr out
    \<and> list_all (\<lambda>e. \<not> writes_lock e) (before @ imports) \<and> list_all runs_git after
    \<and> make_lock (lock_data (de_upstream d) (strip out)) = Inr ((de_upstream d)\<lparr>u_rev := strip out\<rparr>)"
proof -
  have pin: "pinned a d lock = d" using assms(2) by (auto simp: pinned_def split: option.splits)
  from assms obtain u1 t1 u2 t2 ch where run: "check_clean w a d [] = (Inr u1, t1)"
      "io_when (va_refresh a) (refresh_patches w (va_verbose a) d) t1 = (Inr u2, t2)"
      "import_clone w a True ch d p lock t2 = (Inr (), t)"
    by (auto simp: vendor_main_def io_lift_def io_bind_Inr Let_def pin)
  from emits_trace [OF git_writes_no_lock [OF check_clean_runs_git] run(1)]
    emits_trace [OF emits_when [OF refresh_writes_no_lock] run(2)]
  have "list_all (\<lambda>e. \<not> writes_lock e) t2" by auto
  with update_clone [OF run(3)] show ?thesis
    by (metis append.assoc list_all_append lock_roundtrip)
qed

section \<open>Overrides\<close>

text \<open>The key \<open>upstream.ref\<close> can be overridden, but no description has that field; the revision cannot.\<close>

lemma ref_override_ignored:
  "make_upstream (YMap (AList.update ''ref'' (YStr v) fs)) = make_upstream (YMap fs)"
  by (simp add: make_upstream_def string_field_def optional_string_def required_with_def field_with_def get_field_def
      y_get_def dict_get_or_def update_conv)

lemma rev_override_refused:
  "define_arg_type ''upstream.ref=main'' = Inr (''upstream.ref'', ''main'')"
  "define_arg_type ''upstream.rev=main'' = Inl ArgumentTypeError"
  "define_arg_type ''patch_repo.url=h?a=b'' = Inl ArgumentTypeError"
  by code_simp+

section \<open>An example\<close>

definition demo_upstream :: upstream where
  "demo_upstream = \<lparr>u_url = ''https://github.com/a/b'', u_rev = ''main'', u_only_subdir = None\<rparr>"

definition demo_contents :: yaml where
  "demo_contents = YMap [(''name'', YStr ''b''), (''target_dir'', YStr ''ip''), (''upstream'', YMap (upstream_dict demo_upstream)),
     (''mapping'', YList [YMap [(''from'', YStr ''rtl/../hw''), (''to'', YStr ''src'')]])]"

definition demo_world :: "bool \<Rightarrow> world" where
  "demo_world locked = \<lparr>w_read = (\<lambda>p. if locked then ret (lock_data demo_upstream ''abc'') else raise FileNotFoundError),
     w_run = (\<lambda>h. ret (if length h = 1 then [] else ''abc'' @ [newline])), w_done = (\<lambda>h. ret ()), w_is_file = (\<lambda>h p. False), w_is_dir = (\<lambda>h p. False),
     w_patches = (\<lambda>h p. []), w_resolve = path_str, w_clone_dir = path_of ''/tmp/c'', w_patch_clone_dir = path_of ''/tmp/p'',
     w_fill = (\<lambda>a b s. a @ s)\<rparr>"

definition demo_args :: vendor_args where
  "demo_args = \<lparr>va_update = False, va_refresh = False, va_commit = True, va_overrides = [], va_file = ''v/b.vendor.hjson'',
     va_contents = ret demo_contents, va_verbose = False\<rparr>"

definition demo_desc :: desc where
  "demo_desc = \<lparr>de_path = (False, [''v'', ''b.vendor.hjson'']), de_name = ''b'', de_target_dir = (False, [''v'', ''ip'']),
     de_upstream = demo_upstream, de_patch_dir = None, de_patch_repo = None, de_exclude = [''.git''],
     de_mapping = Some [\<lparr>m1_from = (False, [''hw'']), m1_to = (False, [''src'']), m1_patch_dir = None\<rparr>]\<rparr>"

definition demo_lock :: "bool \<Rightarrow> upstream option" where
  "demo_lock locked = (if locked then Some (demo_upstream\<lparr>u_rev := ''abc''\<rparr>) else None)"

lemma demo_loads:
  "load_files (demo_world True) demo_args = Inr (demo_desc, (False, [''v'', ''b.lock.hjson'']), demo_lock True)"
  "load_files (demo_world False) demo_args = Inr (demo_desc, (False, [''v'', ''b.lock.hjson'']), demo_lock False)"
  by code_simp+

lemma demo_args_simps: "\<not> va_update demo_args"
  by (simp add: demo_args_def)

theorem locked_revision_witness:
  "\<exists>before after out. snd (vendor_main (demo_world True) demo_args [])
      = before @ checkout (demo_world True) False (demo_upstream\<lparr>u_rev := ''abc''\<rparr>) @ after
    \<and> \<not> list_ex imports_files before
    \<and> w_run (demo_world True) (before @ checkout (demo_world True) False (demo_upstream\<lparr>u_rev := ''abc''\<rparr>)) = Inr out
    \<and> strip out = ''abc''"
proof -
  have "list_ex imports_files (snd (vendor_main (demo_world True) demo_args []))" by code_simp
  from locked_revision [OF demo_loads(1) [unfolded demo_lock_def if_True] demo_args_simps prod.collapse [symmetric] this]
  show ?thesis by (simp add: demo_args_def)
qed

theorem update_writes_lock_witness:
  "\<exists>before imports after out. snd (vendor_main (demo_world False) demo_args [])
      = before @ checkout (demo_world False) False demo_upstream @ imports
        @ [VWriteLock (False, [''v'', ''b.lock.hjson'']) (lock_data demo_upstream (strip out))] @ after
    \<and> w_run (demo_world False) (before @ checkout (demo_world False) False demo_upstream) = Inr out
    \<and> list_all (\<lambda>e. \<not> writes_lock e) (before @ imports) \<and> list_all runs_git after
    \<and> make_lock (lock_data demo_upstream (strip out)) = Inr (demo_upstream\<lparr>u_rev := strip out\<rparr>)"
proof -
  have "fst (vendor_main (demo_world False) demo_args []) = Inr ()" by code_simp
  then have "vendor_main (demo_world False) demo_args [] = (Inr (), snd (vendor_main (demo_world False) demo_args []))"
    by (metis prod.collapse)
  from update_writes_lock [OF demo_loads(2) _ this] show ?thesis
    by (simp add: demo_lock_def demo_args_def demo_desc_def)
qed

end
