(* ===== verification/Sim_Base.thy ===== *)
theory Sim_Base
  imports Py_IO Py_Regex Yaml
begin

text \<open>
  What the simulation driver \<open>verif/sim/cva6.py\<close> works with: the effects it has, what the outside answers (the
  library of riscv-dv, the operating system, the tools) as a record of functions of the effects so far, and
  \<open>re.sub\<close> of a literal pattern, whose replacement is a template.
\<close>

section \<open>Effects\<close>

datatype sim_effect =
    Run string "int option" bool bool  \<comment> \<open>\<open>run_cmd\<close>: timeout, return code checked, only logged\<close>
  | RunWords "string list" bool  \<comment> \<open>\<open>run_cmd_output\<close>: only logged\<close>
  | RunParallel "string list" "int option" bool bool
  | Subprocess string  \<comment> \<open>\<open>subprocess.run\<close> and \<open>os.system\<close> through the shell\<close>
  | Convert string string string  \<comment> \<open>kind of log, log, trace\<close>
  | Compare string string string string string  \<comment> \<open>both traces, both names, report\<close>
  | WriteYaml string yaml
  | AppendYaml string yaml
  | DrawSeed
  | MakeOutput
  | LogSeed string
  | WriteText string string

type_synonym 'a sim = "(sim_effect, 'a) io"

record sim_world =
  s_env :: "bool \<Rightarrow> string \<Rightarrow> string result"  \<comment> \<open>\<open>get_env_var\<close>; with a debug log an unknown name is its own value\<close>
  s_tandem :: bool  \<comment> \<open>\<open>SPIKE_TANDEM\<close> is in the environment\<close>
  s_yaml :: "string \<Rightarrow> yaml result"  \<comment> \<open>\<open>read_yaml\<close>\<close>
  s_out :: "sim_effect list \<Rightarrow> string result"  \<comment> \<open>what the last effect gave\<close>
  s_shell :: "sim_effect list \<Rightarrow> int \<times> string \<times> string"  \<comment> \<open>return code, output and errors of the last command\<close>
  s_report :: "sim_effect list \<Rightarrow> string \<Rightarrow> yaml result"  \<comment> \<open>a YAML file that a tool may have written\<close>
  s_is_file :: "sim_effect list \<Rightarrow> string \<Rightarrow> bool"
  s_random :: "sim_effect list \<Rightarrow> int"
  s_abspath :: "string \<Rightarrow> string"
  s_expanduser :: "string \<Rightarrow> string"
  s_cwd :: string  \<comment> \<open>the directory of the script\<close>
  s_depth :: nat  \<comment> \<open>calls left before the recursion limit\<close>
  s_success :: int  \<comment> \<open>\<open>RET_SUCCESS\<close>, \<open>RET_FAIL\<close> and \<open>RET_FATAL\<close>\<close>
  s_fail :: int
  s_fatal :: int

definition effect :: "sim_world \<Rightarrow> sim_effect \<Rightarrow> string sim" where
  "effect w e = io_seq (io_do e) (io_bind (io_ask (s_out w)) io_lift)"

interpretation tool: effect_runner "effect w" for w :: sim_world
  by unfold_locales (simp add: effect_def io_bind_def io_do_def io_ask_def io_lift_def)

definition run_cmd :: "sim_world \<Rightarrow> bool \<Rightarrow> string \<Rightarrow> string sim" where
  "run_cmd w debug cmd = effect w (Run cmd None True debug)"

definition run_timed :: "sim_world \<Rightarrow> bool \<Rightarrow> string \<Rightarrow> int \<Rightarrow> bool \<Rightarrow> string sim" where
  "run_timed w debug cmd timeout check = effect w (Run cmd (Some timeout) check debug)"

definition run_cmd_output :: "sim_world \<Rightarrow> bool \<Rightarrow> string list \<Rightarrow> string sim" where
  "run_cmd_output w debug ws = effect w (RunWords ws debug)"

definition done_with :: "'a sim \<Rightarrow> unit sim" where
  "done_with m = io_bind m (\<lambda>_. io_ret ())"

definition io_list :: "('a \<Rightarrow> 'b sim) \<Rightarrow> 'a list \<Rightarrow> 'b list sim" where
  "io_list f = io_fold (\<lambda>ys x. io_bind (f x) (\<lambda>y. io_ret (ys @ [y]))) []"

lemma emits_run_cmd: "P (Run cmd None True debug) \<Longrightarrow> emits P (run_cmd w debug cmd)"
  by (simp add: run_cmd_def tool.emits_perform)

lemma emits_run_timed: "P (Run cmd (Some t) check debug) \<Longrightarrow> emits P (run_timed w debug cmd t check)"
  by (simp add: run_timed_def tool.emits_perform)

lemma emits_run_words: "P (RunWords ws debug) \<Longrightarrow> emits P (run_cmd_output w debug ws)"
  by (simp add: run_cmd_output_def tool.emits_perform)

lemma emits_done [emitting]: "emits P m \<Longrightarrow> emits P (done_with m)"
  by (simp add: done_with_def emitting)

lemma emits_list [emitting]: "(\<And>x. emits P (f x)) \<Longrightarrow> emits P (io_list f xs)"
  by (simp add: io_list_def emitting)

lemmas emits_sim = tool.emits_perform emits_run_cmd emits_run_timed emits_run_words emits_do

section \<open>Substitution\<close>

definition bslash :: char where "bslash = CHR 0x5C"
definition quot :: char where "quot = CHR 0x27"

definition re_error :: py_error where "re_error = GenericException ''re.error''"

definition octal :: "string \<Rightarrow> nat" where
  "octal s = foldl (\<lambda>v c. 8 * v + (code c - 48)) 0 s"

definition is_letter :: "char \<Rightarrow> bool" where
  "is_letter c \<longleftrightarrow> is_lower c \<or> is_upper c"

definition escape_letter :: "char \<Rightarrow> char option" where
  "escape_letter c = map_of [(CHR ''a'', char_of (7::nat)), (CHR ''b'', char_of (8::nat)), (CHR ''f'', char_of (12::nat)),
     (CHR ''n'', newline), (CHR ''r'', char_of (13::nat)), (CHR ''t'', tab), (CHR ''v'', char_of (11::nat))] c"

text \<open>What \<open>\g<name>\<close> stands for in a template of a pattern without groups: the match itself.\<close>

definition group_reference :: "string \<Rightarrow> string \<Rightarrow> string result" where
  "group_reference m name =
     (if name \<noteq> [] \<and> list_all is_word_char name \<and> \<not> is_digit (hd name) then raise IndexError
      else if py_int 10 name = ret 0 then ret m else raise re_error)"

definition prepend_to :: "string \<Rightarrow> string result \<Rightarrow> string result" where
  "prepend_to x r = rbind r (\<lambda>y. ret (x @ y))"

text \<open>The text a template stands for, where \<open>m\<close> is the match.\<close>

function (sequential) template :: "string \<Rightarrow> string \<Rightarrow> string result" where
  "template m [] = ret []"
| "template m (c # cs) =
     (if c \<noteq> bslash then prepend_to [c] (template m cs)
      else case cs of
        [] \<Rightarrow> raise re_error
      | d # ds \<Rightarrow>
          if d = CHR ''g'' then
            (let name = takeWhile (\<lambda>x. x \<noteq> CHR ''>'') (tl ds); rest = drop (length name + 2) ds in
             if \<not> starts_with ''<'' ds \<or> length name + 2 > length ds then raise re_error
             else rbind (group_reference m name) (\<lambda>x. prepend_to x (template m rest)))
          else if d = CHR ''0'' then
            (let os = take 2 (takeWhile is_octal ds) in
             prepend_to [char_of (octal os mod 256)] (template m (drop (length os) ds)))
          else if is_digit d then
            (let os = take 3 (takeWhile is_octal cs) in
             if length os = 3 \<and> octal os < 256 then prepend_to [char_of (octal os)] (template m (drop 2 ds))
             else raise re_error)
          else if d = bslash then prepend_to [bslash] (template m ds)
          else if is_letter d then
            (case escape_letter d of None \<Rightarrow> raise re_error | Some x \<Rightarrow> prepend_to [x] (template m ds))
          else prepend_to [bslash, d] (template m ds))"
  by pat_completeness auto
termination
  by (relation "measure (\<lambda>(m, s). length s)") auto

declare template.simps [simp del]

lemma template_plain: "bslash \<notin> set r \<Longrightarrow> template m r = Inr r"
  by (induction r) (auto simp: template.simps prepend_to_def)

text \<open>\<open>re.sub\<close> for a pattern without special characters.\<close>

definition sub_lit :: "string \<Rightarrow> string \<Rightarrow> string \<Rightarrow> string result" where
  "sub_lit p r s = rbind (template p r) (\<lambda>t. ret (replace_str p t s))"

lemma sub_lit_plain: "bslash \<notin> set r \<Longrightarrow> sub_lit p r s = Inr (replace_str p r s)"
  by (simp add: sub_lit_def template_plain)

text \<open>One after the other.\<close>

definition sub_all :: "(string \<times> string) list \<Rightarrow> string \<Rightarrow> string result" where
  "sub_all prs s = foldR (\<lambda>s (p, r). sub_lit p r s) s prs"

section \<open>Options\<close>

text \<open>The options of the command line; \<open>debug\<close> is whether the commands are only logged.\<close>

record sim_args =
  a_target :: string
  a_output :: "string option"
  a_testlist :: string
  a_test :: string
  a_iterations :: int
  a_simulator :: string
  a_iss :: string
  a_verbose :: bool
  a_co :: bool
  a_cov :: bool
  a_so :: bool
  a_cmp_opts :: string
  a_sim_opts :: string
  a_gcc_opts :: string
  a_issrun_opts :: string
  a_isscomp_opts :: string
  a_isspostrun_opts :: string
  a_steps :: string
  a_lsf_cmd :: string
  a_isa :: string
  a_priv :: string
  a_mabi :: string
  a_gen_timeout :: int
  a_end_signature_addr :: string
  a_iss_opts :: string
  a_iss_timeout :: int
  a_iss_yaml :: string
  a_simulator_yaml :: string
  a_csr_yaml :: string
  a_custom_target :: string
  a_core_setting_dir :: string
  a_user_extension_dir :: string
  a_asm_tests :: string
  a_c_tests :: string
  a_elf_tests :: string
  a_log_suffix :: string
  a_exp :: bool
  a_batch_size :: int
  a_stop_on_first_error :: bool
  a_noclean :: bool
  a_verilog_style_check :: bool
  a_debug :: bool
  a_hwconfig_opts :: string
  a_linker :: string
  a_axi_active :: string
  a_gen_sv_seed :: int
  a_sv_seed :: string
  a_isa_extension :: string
  a_spike_params :: string
  a_start_seed :: "int option"
  a_seed :: "int option"
  a_seed_yaml :: "string option"

text \<open>The defaults; the seed of the simulation is drawn at random.\<close>

definition default_args :: "string \<Rightarrow> sim_args" where
  "default_args random = \<lparr>a_target = ''rv32imc'', a_output = None, a_testlist = [], a_test = ''all'', a_iterations = 0,
     a_simulator = ''vcs'', a_iss = ''spike'', a_verbose = False, a_co = False, a_cov = False, a_so = False,
     a_cmp_opts = [], a_sim_opts = [], a_gcc_opts = [], a_issrun_opts = ''+debug_disable=1'', a_isscomp_opts = [],
     a_isspostrun_opts = ''0x0000000080000000'', a_steps = ''all'', a_lsf_cmd = [], a_isa = [], a_priv = ''msu'',
     a_mabi = [], a_gen_timeout = 360, a_end_signature_addr = ''0'', a_iss_opts = [], a_iss_timeout = 500,
     a_iss_yaml = [], a_simulator_yaml = [], a_csr_yaml = [], a_custom_target = [], a_core_setting_dir = [],
     a_user_extension_dir = [], a_asm_tests = [], a_c_tests = [], a_elf_tests = [], a_log_suffix = [], a_exp = False,
     a_batch_size = 0, a_stop_on_first_error = False, a_noclean = True,
     a_verilog_style_check = False, a_debug = False, a_hwconfig_opts = [], a_linker = [],
     a_axi_active = [], a_gen_sv_seed = 0, a_sv_seed = random, a_isa_extension = [], a_spike_params = [],
     a_start_seed = None, a_seed = None, a_seed_yaml = None\<rparr>"

section \<open>Values\<close>

text \<open>\<open>y[k]\<close> as a string that is concatenated, and as a number of iterations.\<close>

definition str_at :: "yaml \<Rightarrow> string \<Rightarrow> string result" where
  "str_at y k = rbind (y_index y k) as_str"

definition int_at :: "yaml \<Rightarrow> string \<Rightarrow> int result" where
  "int_at y k = rbind (y_index y k) as_int"

text \<open>\<open>'%s' % y[k]\<close>\<close>

definition shown_at :: "yaml \<Rightarrow> string \<Rightarrow> string result" where
  "shown_at y k = rbind (y_index y k) (\<lambda>v. ret (y_str v))"

text \<open>\<open>k in y and y[k] == 1\<close>\<close>

definition flag_set :: "yaml \<Rightarrow> string \<Rightarrow> bool result" where
  "flag_set y k = rbind (y_in k y) (\<lambda>b. if b then rbind (y_index y k) (\<lambda>v. ret (y_eq v (YInt 1))) else ret False)"

text \<open>The text added for a key that may be missing.\<close>

definition extra :: "yaml \<Rightarrow> string \<Rightarrow> string result" where
  "extra y k = rbind (y_in k y) (\<lambda>b. if b then str_at y k else ret [])"

end
