(* ===== verification/Sim_Gen.thy ===== *)
theory Sim_Gen
  imports Sim_Base Py_Float
begin

text \<open>
  The simulation driver up to the generated tests: seeds, the commands of the instruction generator for an RTL
  simulator, its compilation and its runs in batches.
\<close>

section \<open>Seeds\<close>

record seed_gen =
  sg_fixed :: "int option"
  sg_start :: "int option"
  sg_rerun :: yaml

definition new_seed_gen :: "sim_world \<Rightarrow> int option \<Rightarrow> int option \<Rightarrow> string option \<Rightarrow> seed_gen result" where
  "new_seed_gen w start fixed file =
     rbind (assertR (fixed = None \<or> start = None)) (\<lambda>_.
     rbind (case file of None \<Rightarrow> ret (YMap []) | Some f \<Rightarrow> s_yaml w f) (\<lambda>rerun.
     ret \<lparr>sg_fixed = fixed, sg_start = start, sg_rerun = rerun\<rparr>))"

definition seed_get :: "sim_world \<Rightarrow> seed_gen \<Rightarrow> string \<Rightarrow> int \<Rightarrow> yaml sim" where
  "seed_get w g test_id test_iter =
     io_bind (io_lift (y_in test_id (sg_rerun g))) (\<lambda>rerun.
     if rerun then io_lift (y_index (sg_rerun g) test_id)
     else case sg_fixed g of
       Some s \<Rightarrow> if test_iter = 0 then io_ret (YInt s) else io_raise AssertionError
     | None \<Rightarrow> (case sg_start g of
         Some s \<Rightarrow> io_ret (YInt (s + test_iter))
       | None \<Rightarrow> io_seq (io_do DrawSeed) (io_ask (\<lambda>h. YInt (s_random w h)))))"

section \<open>The commands of the generator\<close>

definition tag :: "string \<Rightarrow> string" where
  "tag name = ''<'' @ name @ ''>''"

text \<open>The options of coverage, without them nothing.\<close>

definition cov_text :: "bool \<Rightarrow> yaml \<Rightarrow> string result" where
  "cov_text cov spec = rbind (y_in ''cov_opts'' spec) (\<lambda>b.
     if b \<and> cov then rbind (rbind (y_index spec ''cov_opts'') str_method) (\<lambda>s. ret (rstrip s)) else ret [])"

definition compile_text :: "bool \<Rightarrow> bool \<Rightarrow> yaml \<Rightarrow> yaml \<Rightarrow> string result" where
  "compile_text cov exp spec cmd =
     rbind (cov_text cov spec) (\<lambda>opts. rbind (as_str cmd) (\<lambda>cmd. rbind (sub_lit (tag ''cov_opts'') opts cmd) (\<lambda>cmd.
     ret (cmd @ (if exp then '' +define+EXPERIMENTAL '' else [])))))"

text \<open>The names of the environment hold no special character of a pattern.\<close>

definition sub_env :: "sim_world \<Rightarrow> bool \<Rightarrow> string \<Rightarrow> string \<Rightarrow> string result" where
  "sub_env w debug name cmd = rbind (s_env w debug name) (\<lambda>v. sub_lit (tag name) v cmd)"

definition entry_commands :: "sim_world \<Rightarrow> bool \<Rightarrow> bool \<Rightarrow> bool \<Rightarrow> yaml \<Rightarrow> (string list \<times> string) result" where
  "entry_commands w cov exp debug entry =
     rbind (y_index entry ''compile'') (\<lambda>spec. rbind (y_index spec ''cmd'') (\<lambda>cmds.
     rbind (case cmds of YList xs \<Rightarrow> mapR (compile_text cov exp spec) xs | _ \<Rightarrow> raise TypeError) (\<lambda>compile_cmd.
     rbind (y_index entry ''sim'') (\<lambda>sim. rbind (y_index sim ''cmd'') (\<lambda>cmd. rbind (cov_text cov sim) (\<lambda>opts.
     rbind (as_str cmd) (\<lambda>cmd. rbind (sub_lit (tag ''cov_opts'') opts cmd) (\<lambda>sim_cmd.
     rbind (y_in ''env_var'' entry) (\<lambda>b.
     rbind (if b then rbind (rbind (y_index entry ''env_var'') str_method) (\<lambda>s. ret (split_char (CHR '','') s)) else ret [])
       (\<lambda>names.
     foldR (\<lambda>(compile_cmd, sim_cmd) name.
         rbind (mapR (sub_env w debug name) compile_cmd) (\<lambda>compile_cmd.
         rbind (sub_env w debug name sim_cmd) (\<lambda>sim_cmd. ret (compile_cmd, sim_cmd)))) (compile_cmd, sim_cmd) names))))))))))"

text \<open>The entry of a tool: the first whose key has that value.\<close>

fun find_entry :: "string \<Rightarrow> string \<Rightarrow> yaml list \<Rightarrow> yaml option result" where
  "find_entry k v [] = ret None"
| "find_entry k v (e # es) = rbind (y_index e k) (\<lambda>x. if y_eq x (YStr v) then ret (Some e) else find_entry k v es)"

definition get_generator_cmd :: "sim_world \<Rightarrow> sim_args \<Rightarrow> (string list \<times> string) result" where
  "get_generator_cmd w a =
     rbind (s_yaml w (a_simulator_yaml a)) (\<lambda>data. rbind (y_iter data) (\<lambda>entries.
     rbind (find_entry ''tool'' (a_simulator a) entries) (\<lambda>e. case e of
       None \<Rightarrow> raise (SystemExit (s_fail w))
     | Some entry \<Rightarrow> entry_commands w (a_cov a) (a_exp a) (a_debug a) entry)))"

section \<open>Compilation of the generator\<close>

definition only_csr_test :: "yaml list \<Rightarrow> bool result" where
  "only_csr_test tests = (case tests of
     [t] \<Rightarrow> rbind (y_index t ''test'') (\<lambda>n. ret (y_eq n (YStr ''riscv_csr_test'')))
   | _ \<Rightarrow> ret False)"

definition compile_cmd_of :: "sim_world \<Rightarrow> sim_args \<Rightarrow> string \<Rightarrow> string \<Rightarrow> string result" where
  "compile_cmd_of w a output_dir cmd = sub_all
     [(tag ''out'', s_abspath w output_dir), (tag ''setting'', a_core_setting_dir a),
      (tag ''user_extension'', if a_user_extension_dir a = [] then ''<cwd>/dv/user_extension'' else a_user_extension_dir a),
      (tag ''cwd'', s_cwd w), (tag ''cmp_opts'', a_cmp_opts a)] cmd"

definition do_compile :: "sim_world \<Rightarrow> sim_args \<Rightarrow> string list \<Rightarrow> yaml list \<Rightarrow> string \<Rightarrow> unit sim" where
  "do_compile w a compile_cmd tests output_dir =
     io_bind (io_lift (only_csr_test tests)) (\<lambda>skip.
     io_when (\<not> skip) (io_for (\<lambda>cmd. io_bind (io_lift (compile_cmd_of w a output_dir cmd)) (\<lambda>cmd.
       if a_lsf_cmd a \<noteq> [] then done_with (effect w (RunParallel [a_lsf_cmd a @ '' '' @ cmd] None True (a_debug a)))
       else done_with (run_cmd w (a_debug a) cmd))) compile_cmd))"

section \<open>Runs of the generator\<close>

definition digits_re :: re where
  "digits_re = Group 1 digits"

definition csr_test_cmd :: "sim_world \<Rightarrow> sim_args \<Rightarrow> int \<Rightarrow> string \<Rightarrow> string result" where
  "csr_test_cmd w a iterations output_dir =
     rbind (of_option AttributeError (found_groups digits_re (a_isa a))) (\<lambda>g.
     ret (''python3 '' @ s_cwd w @ ''/scripts/gen_csr_test.py --csr_file '' @ a_csr_yaml a
       @ '' --xlen '' @ (case match_group 1 g of None \<Rightarrow> [] | Some x \<Rightarrow> x) @ '' --iterations '' @ py_str iterations
       @ '' --out '' @ output_dir @ ''/asm_tests --end_signature_addr '' @ a_end_signature_addr a))"

text \<open>The number of batches is computed with floating point numbers. The last batch takes what is left.\<close>

definition batch_count :: "int \<Rightarrow> int \<Rightarrow> int result" where
  "batch_count iterations batch_size =
     (if batch_size > 0 then rbind (int_div (iterations + batch_size - 1) batch_size) int_of_float else ret 1)"

definition batch_tests :: "int \<Rightarrow> int \<Rightarrow> int \<Rightarrow> int \<Rightarrow> int" where
  "batch_tests iterations batch_size batch_cnt i =
     (if i < batch_cnt - 1 then batch_size else iterations - i * batch_size)"

definition batch_cmd ::
  "sim_args \<Rightarrow> string \<Rightarrow> yaml \<Rightarrow> string \<Rightarrow> string \<Rightarrow> int \<Rightarrow> int \<Rightarrow> yaml \<Rightarrow> string result" where
  "batch_cmd a sim_cmd test output_dir test_id i test_cnt seed =
     rbind (shown_at test ''gen_test'') (\<lambda>gen_test. rbind (shown_at test ''test'') (\<lambda>name.
     rbind (sub_all [(tag ''seed'', y_str seed), (tag ''test_id'', test_id)]
       (a_lsf_cmd a @ '' '' @ rstrip sim_cmd @ '' +UVM_TESTNAME='' @ gen_test @ ''  +num_of_tests='' @ py_str test_cnt
        @ ''  +start_idx='' @ py_str (i * a_batch_size a) @ ''  +asm_file_name='' @ output_dir @ ''/asm_tests/'' @ name
        @ ''  -l '' @ output_dir @ ''/sim_'' @ name @ ''_'' @ py_str i @ ''_'' @ a_log_suffix a @ ''.log ''
        @ (if a_verbose a then ''+UVM_VERBOSITY=UVM_HIGH '' else []))) (\<lambda>cmd.
     rbind (extra test ''gen_opts'') (\<lambda>opts.
     ret (cmd @ opts @ (if contains ''c'' (a_isa a) then [] else ''+disable_compressed_instr=1 ''))))))"

text \<open>The commands for a batch queue and the seeds used so far.\<close>

type_synonym sim_state = "string list \<times> (string, yaml) dict"

definition queue_or_run :: "sim_world \<Rightarrow> sim_args \<Rightarrow> bool \<Rightarrow> string \<Rightarrow> sim_state \<Rightarrow> sim_state sim" where
  "queue_or_run w a check cmd = (\<lambda>(cmds, seeds).
     if a_lsf_cmd a \<noteq> [] then io_ret (cmds @ [cmd], seeds)
     else io_bind (run_timed w (a_debug a) cmd (a_gen_timeout a) check) (\<lambda>_. io_ret (cmds, seeds)))"

definition run_batch ::
  "sim_world \<Rightarrow> sim_args \<Rightarrow> bool \<Rightarrow> seed_gen \<Rightarrow> string \<Rightarrow> yaml \<Rightarrow> string \<Rightarrow> int \<Rightarrow> int \<Rightarrow> sim_state \<Rightarrow> int \<Rightarrow> sim_state sim" where
  "run_batch w a check g sim_cmd test output_dir iterations batch_cnt = (\<lambda>(cmds, seeds) i.
     io_bind (io_lift (shown_at test ''test'')) (\<lambda>name.
     let test_id = name @ ''_'' @ py_str i in
     io_bind (seed_get w g test_id (i * batch_cnt)) (\<lambda>seed.
     io_bind (io_lift (batch_cmd a sim_cmd test output_dir test_id i (batch_tests iterations (a_batch_size a) batch_cnt i) seed))
       (\<lambda>cmd. queue_or_run w a check cmd (cmds, AList.update test_id (YStr (y_str seed)) seeds)))))"

definition run_generated ::
  "sim_world \<Rightarrow> sim_args \<Rightarrow> bool \<Rightarrow> seed_gen \<Rightarrow> string \<Rightarrow> string \<Rightarrow> sim_state \<Rightarrow> yaml \<Rightarrow> sim_state sim" where
  "run_generated w a check g sim_cmd output_dir st test =
     io_bind (io_lift (int_at test ''iterations'')) (\<lambda>iterations.
     io_bind (io_lift (y_index test ''test'')) (\<lambda>name.
     if iterations \<le> 0 then io_ret st
     else if y_eq name (YStr ''riscv_csr_test'') then
       io_bind (io_lift (csr_test_cmd w a iterations output_dir)) (\<lambda>cmd. queue_or_run w a True cmd st)
     else io_bind (io_lift (batch_count iterations (a_batch_size a))) (\<lambda>batch_cnt.
       io_fold (run_batch w a check g sim_cmd test output_dir iterations batch_cnt) st [0..batch_cnt - 1])))"

definition do_simulate :: "sim_world \<Rightarrow> sim_args \<Rightarrow> bool \<Rightarrow> seed_gen \<Rightarrow> string \<Rightarrow> yaml list \<Rightarrow> string \<Rightarrow> unit sim" where
  "do_simulate w a check g sim_cmd tests output_dir =
     io_bind (io_lift (sub_all [(tag ''out'', s_abspath w output_dir), (tag ''cwd'', s_cwd w),
       (tag ''sim_opts'', a_sim_opts a)] sim_cmd)) (\<lambda>sim_cmd.
     io_bind (io_fold (run_generated w a check g sim_cmd output_dir) ([], []) tests) (\<lambda>(cmds, seeds).
     io_seq (io_when (seeds \<noteq> []) (io_seq (io_do (WriteYaml (s_abspath w output_dir @ ''/seed.yaml'') (YMap seeds)))
       (io_do (AppendYaml ''seedlist.yaml'' (YMap seeds)))))
     (io_when (a_lsf_cmd a \<noteq> []) (done_with (effect w (RunParallel cmds (Some (a_gen_timeout a)) check (a_debug a)))))))"

definition gen :: "sim_world \<Rightarrow> sim_args \<Rightarrow> yaml list \<Rightarrow> string \<Rightarrow> unit sim" where
  "gen w a tests output_dir =
     (let check = (a_simulator a \<noteq> ''ius'') in
      if (a_co a \<and> a_so a) \<or> (\<not> a_co a \<and> tests = []) then io_ret ()
      else io_bind (io_lift (get_generator_cmd w a)) (\<lambda>(compile_cmd, sim_cmd).
        io_seq (io_when (\<not> a_so a) (do_compile w a compile_cmd tests output_dir))
        (io_when (\<not> a_co a)
          (io_bind (io_lift (new_seed_gen w (a_start_seed a) (a_seed a) (a_seed_yaml a))) (\<lambda>g.
           do_simulate w a check g sim_cmd tests output_dir)))))"

end
