(* ===== verification/Sim_Iss.thy ===== *)
theory Sim_Iss
  imports Sim_Gen
begin

text \<open>
  The simulation driver from the tests on: compilation of the generated programs, the commands of the instruction set
  simulators, directed tests, simulation, reports and the comparison of the traces.
\<close>

record sim_globals =
  g_isscomp_opts :: string
  g_issrun_opts :: string
  g_isspostrun_opts :: string
  g_test_iteration :: int
  g_log_format :: "int option"
  g_isa_extension_list :: "string list"

section \<open>Commands of the simulators\<close>

definition isa_re :: re where
  "isa_re = seqs [lit ''rv'', Group 1 (lazy1 (Sat is_digit)),
     Group 2 (seqs [lowers, many (seqs [lit ''_'', Sat (\<lambda>c. c \<in> set ''szx''), many1 (Sat is_word_char)])]), Eol]"

definition isa_group :: "nat \<Rightarrow> string \<Rightarrow> string option" where
  "isa_group n isa = (case found_groups isa_re isa of None \<Rightarrow> None | Some g \<Rightarrow> match_group n g)"

definition sub_entry_env :: "sim_world \<Rightarrow> bool \<Rightarrow> yaml \<Rightarrow> string \<Rightarrow> string \<Rightarrow> string result" where
  "sub_entry_env w debug entry cmd k =
     rbind (str_at entry k) (\<lambda>name. rbind (s_env w debug name) (\<lambda>v. sub_lit (tag k) v cmd))"

definition iss_command :: "sim_world \<Rightarrow> sim_globals \<Rightarrow> sim_args \<Rightarrow> string \<Rightarrow> yaml \<Rightarrow> string result" where
  "iss_command w g a iss entry =
     rbind (rbind (y_index entry ''cmd'') str_method) (\<lambda>cmd.
     rbind (foldR (sub_entry_env w (a_debug a) entry) (rstrip cmd) [''path_var'', ''tool_path'', ''tb_path'']) (\<lambda>cmd.
     rbind (sub_all [(tag ''isscomp_opts'', g_isscomp_opts g), (tag ''issrun_opts'', g_issrun_opts g),
       (tag ''isspostrun_opts'', g_isspostrun_opts g), (tag ''spike_params'', a_spike_params a)] cmd) (\<lambda>cmd.
     rbind (case isa_group 1 (a_isa a) of None \<Rightarrow> ret cmd | Some xlen \<Rightarrow> sub_lit (tag ''xlen'') xlen cmd) (\<lambda>cmd.
     if iss = ''ovpsim'' then sub_lit (tag ''cfg_path'') (a_core_setting_dir a) cmd
     else if iss = ''whisper'' then
       (case isa_group 2 (a_isa a) of
          None \<Rightarrow> ret cmd
        | Some v \<Rightarrow> sub_lit (tag ''variant'') (replace_str ''g'' ''imafd'' v) cmd)
     else sub_all [(tag ''variant'', a_isa a), (tag ''priv'', a_priv a), (tag ''target'', a_target a)] cmd))))"

definition parse_iss_yaml :: "sim_world \<Rightarrow> sim_globals \<Rightarrow> sim_args \<Rightarrow> string \<Rightarrow> string result" where
  "parse_iss_yaml w g a iss =
     rbind (s_yaml w (a_iss_yaml a)) (\<lambda>data. rbind (y_iter data) (\<lambda>entries. rbind (find_entry ''iss'' iss entries) (\<lambda>e.
     case e of None \<Rightarrow> raise (SystemExit (s_fail w)) | Some entry \<Rightarrow> iss_command w g a iss entry)))"

definition get_iss_cmd :: "string \<Rightarrow> string \<Rightarrow> string \<Rightarrow> string \<Rightarrow> string result" where
  "get_iss_cmd base_cmd elf target log =
     rbind (sub_all [(tag ''elf'', elf), (tag ''target'', target), (tag ''log'', log)] base_cmd) (\<lambda>cmd.
     ret (cmd @ '' &> '' @ log @ ''.iss''))"

section \<open>Compilation of the generated programs\<close>

definition elf2bin :: "sim_world \<Rightarrow> sim_args \<Rightarrow> string \<Rightarrow> string \<Rightarrow> unit sim" where
  "elf2bin w a elf binary =
     io_bind (io_lift (s_env w (a_debug a) ''RISCV_OBJCOPY'')) (\<lambda>objcopy.
     done_with (run_cmd_output w (a_debug a) (split_ws (objcopy @ '' -O binary '' @ elf @ '' '' @ binary))))"

definition generated_prefix :: "string \<Rightarrow> string \<Rightarrow> int \<Rightarrow> string" where
  "generated_prefix output_dir name i = output_dir @ ''/asm_tests/'' @ name @ ''_'' @ py_str i"

text \<open>The ISA for a test: without compressed instructions the letter goes and the extensions are those of the list.\<close>

definition base_isa_re :: re where
  "base_isa_re = many1 (Sat (\<lambda>c. is_lower c \<or> is_digit c \<or> is_upper c))"

definition test_march :: "sim_globals \<Rightarrow> string \<Rightarrow> yaml \<Rightarrow> string result" where
  "test_march g isa test =
     rbind (of_option AttributeError (re_match base_isa_re isa)) (\<lambda>(base, _).
     rbind (extra test ''gen_opts'') (\<lambda>opts.
     ret (if contains ''disable_compressed_instr=1'' opts then
            remove_char (CHR ''c'') base
              @ (if g_isa_extension_list g = [''none''] then []
                 else concat (map (\<lambda>e. ''_'' @ e) (g_isa_extension_list g)))
          else isa)))"

definition gcc_command :: "sim_world \<Rightarrow> sim_args \<Rightarrow> string \<Rightarrow> string \<Rightarrow> string \<Rightarrow> yaml \<Rightarrow> string \<Rightarrow> string result" where
  "gcc_command w a opts asm elf test march =
     rbind (s_env w (a_debug a) ''RISCV_CC'') (\<lambda>cc. rbind (extra test ''gcc_opts'') (\<lambda>gcc_opts.
     let cmd = cc @ '' '' @ asm @ replicate 14 (CHR '' '') @ ''-I'' @ s_cwd w @ ''/../env/corev-dv/user_extension''
           @ replicate 14 (CHR '' '') @ ''-T'' @ a_linker a @ '' '' @ opts @ '' -o '' @ elf @ '' '' @ gcc_opts;
         cmd = (if contains ''march'' cmd then cmd else cmd @ '' -march='' @ march)
     in ret (if contains ''mabi'' cmd then cmd else cmd @ '' -mabi='' @ a_mabi a)))"

definition compile_one ::
  "sim_world \<Rightarrow> sim_globals \<Rightarrow> sim_args \<Rightarrow> string \<Rightarrow> yaml \<Rightarrow> string \<Rightarrow> int \<Rightarrow> unit sim" where
  "compile_one w g a output_dir test opts i =
     io_bind (io_lift (flag_set test ''no_gcc'')) (\<lambda>skip. if skip then io_ret () else
     io_bind (io_lift (shown_at test ''test'')) (\<lambda>name.
     let prefix = generated_prefix output_dir name i; asm = prefix @ ''.S''; elf = prefix @ ''.o'' in
     io_bind (io_ask (\<lambda>h. s_is_file w h asm)) (\<lambda>there.
     if \<not> there \<and> \<not> a_debug a then io_raise (SystemExit (s_fail w))
     else io_bind (io_lift (test_march g (a_isa a) test)) (\<lambda>march.
       io_bind (io_lift (gcc_command w a opts asm elf test march)) (\<lambda>cmd.
       io_seq (done_with (run_cmd_output w (a_debug a) (split_ws cmd))) (elf2bin w a elf (prefix @ ''.bin'')))))))"

definition gcc_compile :: "sim_world \<Rightarrow> sim_globals \<Rightarrow> sim_args \<Rightarrow> yaml list \<Rightarrow> string \<Rightarrow> unit sim" where
  "gcc_compile w g a tests output_dir =
     io_for (\<lambda>test. io_bind (io_lift (int_at test ''iterations'')) (\<lambda>n.
       io_for (compile_one w g a output_dir test (a_gcc_opts a)) [0..n - 1])) tests"

section \<open>Reports\<close>

definition analyze_tandem_report :: "yaml \<Rightarrow> unit result" where
  "analyze_tandem_report data =
     (case rbind (y_index data ''mismatches_count'') (\<lambda>mismatches. rbind (y_index data ''instr_count'') (\<lambda>instrs.
           rbind (y_index data ''exit_code'') (\<lambda>_. rbind (as_int instrs) (\<lambda>i. rbind (as_int mismatches) (\<lambda>m.
           rbind (y_index data ''exit_cause'') (\<lambda>_. ret ())))))) of
        Inl e \<Rightarrow> if e = KeyError then ret () else raise e
      | Inr u \<Rightarrow> ret u)"

definition report_with :: "string \<Rightarrow> string \<Rightarrow> yaml \<Rightarrow> string \<Rightarrow> string \<Rightarrow> int option \<Rightarrow> yaml \<Rightarrow> yaml result" where
  "report_with target isa test testlist iss iteration report = (case report of
     YMap d \<Rightarrow> ret (YMap (dict_update_all d
       ([(''target'', YStr target), (''isa'', YStr isa), (''test'', test), (''testlist'', YStr testlist),
         (''simulator'', YStr iss)] @ (case iteration of None \<Rightarrow> [] | Some i \<Rightarrow> [(''iteration'', YInt i)]))))
   | _ \<Rightarrow> raise TypeError)"

definition generate_yaml_report ::
  "sim_world \<Rightarrow> string \<Rightarrow> string \<Rightarrow> string \<Rightarrow> yaml \<Rightarrow> string \<Rightarrow> string \<Rightarrow> bool \<Rightarrow> int option \<Rightarrow> unit sim" where
  "generate_yaml_report w path target isa test testlist iss initial iteration =
     io_bind (if initial then io_ret (YMap [(''exit_cause'', YStr ''UNKNOWN'')])
       else io_bind (io_ask (\<lambda>h. s_report w h path)) io_lift) (\<lambda>report.
     io_bind (io_lift (report_with target isa test testlist iss iteration report)) (\<lambda>report.
     io_do (WriteYaml path report)))"

definition tandem_postprocess ::
  "sim_world \<Rightarrow> string \<Rightarrow> string \<Rightarrow> string \<Rightarrow> yaml \<Rightarrow> string \<Rightarrow> string \<Rightarrow> string \<Rightarrow> int option \<Rightarrow> unit sim" where
  "tandem_postprocess w path target isa test log testlist iss iteration =
     io_bind (io_bind (io_ask (\<lambda>h. s_report w h path)) io_lift) (\<lambda>data.
     io_bind (io_lift (analyze_tandem_report data)) (\<lambda>_.
     io_seq (done_with (effect w (Convert ''verilator'' log (log @ ''.csv''))))
       (generate_yaml_report w path target isa test testlist iss False iteration)))"

text \<open>One run of a simulator, with the report before and after it in tandem mode.\<close>

definition simulate ::
  "sim_world \<Rightarrow> sim_args \<Rightarrow> string \<Rightarrow> string \<Rightarrow> int \<Rightarrow> bool \<Rightarrow> string \<Rightarrow> string \<Rightarrow> yaml \<Rightarrow> string \<Rightarrow> int option \<Rightarrow> unit sim" where
  "simulate w a iss cmd timeout check path log test testlist iteration =
     (let tandem = (iss \<noteq> ''spike'' \<and> s_tandem w) in
      io_seq (io_when tandem (generate_yaml_report w path (a_target a) (a_isa a) test testlist iss True iteration))
      (io_seq (done_with (run_timed w (a_debug a) cmd timeout check))
      (io_when tandem (tandem_postprocess w path (a_target a) (a_isa a) test log testlist iss iteration))))"

section \<open>Comparison\<close>

definition log_kind :: "string \<Rightarrow> string option" where
  "log_kind iss =
     (if iss = ''spike'' then Some ''spike''
      else if list_ex (\<lambda>n. contains n iss) [''veri'', ''vsim'', ''vcs'', ''questa''] then Some ''verilator''
      else if iss \<in> set [''ovpsim'', ''sail'', ''whisper''] then Some iss
      else None)"

text \<open>The message for an unknown simulator is formatted without a placeholder.\<close>

definition convert_log :: "sim_world \<Rightarrow> string \<times> string \<Rightarrow> string sim" where
  "convert_log w = (\<lambda>(iss, log). let csv = replace_str ''.log'' ''.csv'' log in
     case log_kind iss of
       None \<Rightarrow> io_raise TypeError
     | Some kind \<Rightarrow> io_bind (effect w (Convert kind log csv)) (\<lambda>_. io_ret csv))"

definition compare_iss_log :: "sim_world \<Rightarrow> string list \<Rightarrow> string list \<Rightarrow> string \<Rightarrow> unit sim" where
  "compare_iss_log w iss_list log_list report = (case (iss_list, log_list) of
     ([iss1, iss2], [log1, log2]) \<Rightarrow>
       io_bind (convert_log w (iss1, log1)) (\<lambda>csv1. io_bind (convert_log w (iss2, log2)) (\<lambda>csv2.
       done_with (effect w (Compare csv1 csv2 iss1 iss2 report))))
   | _ \<Rightarrow> io_ret ())"

definition save_regr_report :: "sim_world \<Rightarrow> string \<Rightarrow> unit sim" where
  "save_regr_report w report =
     (let counted = (\<lambda>word. ''grep '' @ [quot, bslash] @ ''['' @ word @ [bslash] @ '']'' @ [quot] @ '' '' @ report @ '' | wc -l'') in
      io_bind (run_cmd w False (counted ''PASSED'')) (\<lambda>passed. io_bind (run_cmd w False (counted ''FAILED'')) (\<lambda>failed.
      io_seq (done_with (run_cmd w False (''echo '' @ strip passed @ '' PASSED, '' @ strip failed @ '' FAILED >> '' @ report)))
      (io_when (strip failed \<noteq> ''0'')
        (io_bind (run_cmd w False (''sed -e '' @ [quot] @ ''s,.*_sim/,,'' @ [quot] @ '' '' @ report @ '' | grep '' @ [quot, bslash]
            @ ''(csv'' @ [bslash] @ ''|matched'' @ [bslash] @ '')'' @ [quot] @ '' | uniq | sed -e '' @ [quot] @ ''N;s/''
            @ [bslash, bslash] @ ''n/ /g'' @ [quot] @ '' | grep '' @ [quot, bslash] @ ''[FAILED'' @ [bslash] @ '']'' @ [quot]))
          (\<lambda>details. done_with (run_cmd w False (''echo '' @ strip details @ '' >> '' @ report))))))))"

definition report_path :: "string \<Rightarrow> string" where
  "report_path output_dir = rstrip (output_dir @ ''/iss_regr.log'')"

definition compare_one :: "sim_world \<Rightarrow> sim_args \<Rightarrow> string list \<Rightarrow> string \<Rightarrow> yaml \<Rightarrow> int \<Rightarrow> unit sim" where
  "compare_one w a iss_list output_dir test i =
     io_bind (io_lift (shown_at test ''test'')) (\<lambda>name.
     io_seq (done_with (run_cmd w False (''echo '' @ [quot] @ ''Test binary: '' @ generated_prefix output_dir name i @ ''.o''
       @ [quot] @ '' >> '' @ report_path output_dir)))
     (compare_iss_log w iss_list
       (map (\<lambda>iss. output_dir @ ''/'' @ iss @ ''_sim/'' @ name @ ''_'' @ py_str i @ ''.'' @ a_target a @ ''.log'') iss_list)
       (report_path output_dir)))"

definition iss_cmp :: "sim_world \<Rightarrow> sim_args \<Rightarrow> yaml list \<Rightarrow> string \<Rightarrow> unit sim" where
  "iss_cmp w a tests output_dir =
     (let iss_list = split_char (CHR '','') (a_iss a) in
      if a_debug a \<or> length iss_list \<noteq> 2 then io_ret ()
      else io_seq (io_for (\<lambda>test. io_bind (io_lift (int_at test ''iterations'')) (\<lambda>n.
          io_for (compare_one w a iss_list output_dir test) [0..n - 1])) tests)
        (save_regr_report w (report_path output_dir)))"

section \<open>Generated tests\<close>

definition sim_one ::
  "sim_world \<Rightarrow> sim_args \<Rightarrow> string \<Rightarrow> string \<Rightarrow> string \<Rightarrow> string \<Rightarrow> yaml \<Rightarrow> int \<Rightarrow> unit sim" where
  "sim_one w a output_dir iss log_dir base_cmd test i =
     io_bind (io_lift (shown_at test ''test'')) (\<lambda>name.
     let log = log_dir @ ''/'' @ name @ ''_'' @ py_str i @ ''.'' @ a_target a @ ''.log'' in
     io_bind (io_lift (get_iss_cmd base_cmd (generated_prefix output_dir name i @ ''.o'') (a_target a) log)) (\<lambda>cmd.
     io_bind (io_lift (y_in ''iss_opts'' test)) (\<lambda>b. io_bind (io_lift (extra test ''iss_opts'')) (\<lambda>opts.
     io_bind (io_lift (y_index test ''test'')) (\<lambda>raw.
     simulate w a iss (cmd @ (if b then '' '' @ opts else [])) (a_iss_timeout a) (iss \<noteq> ''ovpsim'') (log @ ''.yaml'') log raw
       ''generated tests'' (Some i))))))"

definition sim_tests :: "sim_world \<Rightarrow> sim_args \<Rightarrow> string \<Rightarrow> string \<Rightarrow> string \<Rightarrow> string \<Rightarrow> yaml list \<Rightarrow> unit sim" where
  "sim_tests w a output_dir iss log_dir base_cmd = io_for (\<lambda>test.
     io_bind (io_lift (flag_set test ''no_iss'')) (\<lambda>skip. if skip then io_ret () else
     io_bind (io_lift (int_at test ''iterations'')) (\<lambda>n.
     io_for (sim_one w a output_dir iss log_dir base_cmd test) [0..n - 1])))"

definition iss_sim :: "sim_world \<Rightarrow> sim_globals \<Rightarrow> sim_args \<Rightarrow> yaml list \<Rightarrow> string \<Rightarrow> unit sim" where
  "iss_sim w g a tests output_dir = io_for (\<lambda>iss.
     let log_dir = output_dir @ ''/'' @ iss @ ''_sim'' in
     io_bind (io_lift (parse_iss_yaml w g a iss)) (\<lambda>base_cmd.
     io_seq (done_with (run_cmd_output w False [''mkdir'', ''-p'', log_dir]))
       (sim_tests w a output_dir iss log_dir base_cmd tests))) (split_char (CHR '','') (a_iss a))"

section \<open>Directed tests\<close>

text \<open>The name of a test list: the characters of \<open>testlist_\<close> are stripped from the name of the file.\<close>

definition testlist_name :: "string \<Rightarrow> string" where
  "testlist_name testlist =
     hd (split_char (CHR ''.'') (strip_chars ''testlist_'' (last (split_char (CHR ''/'') testlist))))"

definition test_kind :: "string \<Rightarrow> string result" where
  "test_kind test =
     (if ends_with ''.c'' test then ret ''c'' else if ends_with ''.S'' test then ret ''S''
      else if ends_with ''.o'' test then ret ''o'' else raise (SystemExit 1))"

definition test_name :: "string \<Rightarrow> string \<Rightarrow> string" where
  "test_name kind path =
     re_sub (seqs [lit ''.'', lit kind, Eol]) (\<lambda>x g. []) (re_sub (seqs [Bol, many dot, lit ''/'']) (\<lambda>x g. []) path)"

definition directed_compile :: "sim_world \<Rightarrow> sim_args \<Rightarrow> string list \<Rightarrow> string \<Rightarrow> string \<Rightarrow> string \<Rightarrow> string result" where
  "directed_compile w a iss_list gcc_opts test_path elf =
     rbind (s_env w (a_debug a) ''RISCV_CC'') (\<lambda>cc.
     ret (cc @ '' '' @ test_path
       @ (if ''veri-testharness-pk'' \<in> set iss_list then '' '' @ gcc_opts
          else replicate 15 (CHR '' '') @ ''-I'' @ s_cwd w @ ''/dv/user_extension'' @ replicate 17 (CHR '' '')
            @ ''-T'' @ a_linker a @ '' '' @ gcc_opts)
       @ '' -o '' @ elf @ '' '' @ '' -march='' @ a_isa a @ '' -mabi='' @ a_mabi a))"

definition directed_log :: "sim_globals \<Rightarrow> string \<Rightarrow> string \<Rightarrow> string \<Rightarrow> string \<Rightarrow> string" where
  "directed_log g output_dir iss name target =
     output_dir @ ''/'' @ iss @ ''_sim/'' @ name @ (if g_log_format g = Some 1 then ''_'' @ py_str (g_test_iteration g) else [])
       @ ''.'' @ target @ ''.log''"

definition directed_sim ::
  "sim_world \<Rightarrow> sim_globals \<Rightarrow> sim_args \<Rightarrow> string \<Rightarrow> string \<Rightarrow> string \<Rightarrow> string \<Rightarrow> int \<Rightarrow> string \<Rightarrow> unit sim" where
  "directed_sim w g a output_dir elf log_name testlist iss_timeout iss =
     (let log = directed_log g output_dir iss log_name (a_target a);
          path = output_dir @ ''/'' @ iss @ ''_sim/'' @ log_name @ ''.'' @ a_target a @ ''.log.yaml'' in
      io_seq (done_with (run_cmd w False (''mkdir -p '' @ output_dir @ ''/'' @ iss @ ''_sim'')))
      (io_bind (io_lift (rbind (parse_iss_yaml w g a iss) (\<lambda>base_cmd. get_iss_cmd base_cmd elf (a_target a) log))) (\<lambda>cmd.
      simulate w a iss cmd (iss_timeout div (if contains ''spike'' iss then 10 else 1)) True path log (YStr log_name) testlist
        None)))"

definition run_test ::
  "sim_world \<Rightarrow> sim_globals \<Rightarrow> sim_args \<Rightarrow> string \<Rightarrow> string \<Rightarrow> string \<Rightarrow> string option \<Rightarrow> string \<Rightarrow> unit sim" where
  "run_test w g a output_dir test gcc_opts name testlist =
     io_bind (io_lift (test_kind test)) (\<lambda>kind.
     let test_path = s_expanduser w test; short = test_name kind test_path;
         elf = (if kind = ''o'' then test_path else output_dir @ ''/directed_tests/'' @ short @ ''.o'');
         iss_list = split_char (CHR '','') (a_iss a);
         log_name = (case name of Some n \<Rightarrow> if n = [] then short else n | None \<Rightarrow> short) in
     io_seq (done_with (run_cmd w False (''mkdir -p '' @ output_dir @ ''/directed_tests'')))
     (io_seq (io_when (kind \<noteq> ''o'') (io_bind (io_lift (directed_compile w a iss_list gcc_opts test_path elf)) (\<lambda>cmd.
        done_with (run_cmd w (a_debug a) cmd))))
     (io_seq (io_for (directed_sim w g a output_dir elf log_name (testlist_name testlist) (a_iss_timeout a)) iss_list)
     (io_when (length iss_list = 2) (compare_iss_log w iss_list
        (map (\<lambda>iss. directed_log g output_dir iss log_name (a_target a)) iss_list) (report_path output_dir))))))"

end
