(* ===== verification/Sim_Main.thy ===== *)
theory Sim_Main
  imports Sim_Iss User_Config Config_Update
begin

text \<open>
  The simulation driver as a whole: the checks of the options, the configuration of a target, the versions of the
  tools, the test lists and the main program.
\<close>

section \<open>Options\<close>

definition read_seed :: "string \<Rightarrow> int result" where
  "read_seed arg = (case py_int 10 arg of
     Inl e \<Rightarrow> raise ArgumentTypeError
   | Inr s \<Rightarrow> if s < 0 then raise ArgumentTypeError else ret s)"

text \<open>The checks after the options are parsed.\<close>

definition check_seeds :: "sim_world \<Rightarrow> sim_args \<Rightarrow> sim_args result" where
  "check_seeds w a =
     (if a_seed a \<noteq> None \<and> a_start_seed a \<noteq> None then raise (SystemExit (s_fail w))
      else if a_seed a \<noteq> None then
        if a_iterations a = 0 then ret (a\<lparr>a_iterations := 1\<rparr>)
        else if a_iterations a > 1 then raise (SystemExit (s_fail w)) else ret a
      else ret a)"

definition get_full_spike_param_args :: "string \<Rightarrow> string" where
  "get_full_spike_param_args params = join '' '' (map (\<lambda>s. ''--param='' @ s) (split_char (CHR '','') params))"

section \<open>Targets\<close>

text \<open>Names, ABI, ISA and, for some, the privilege modes.\<close>

definition targets :: "(string list \<times> string \<times> string \<times> string option) list" where
  "targets =
    [([''cv64a6_imafdch_sv39'', ''cv64a6_imafdch_sv39_wb''], ''lp64d'', ''rv64gch_zba_zbb_zbs_zbc'', None),
     ([''cv64a6_imafdc_sv39_wb''], ''lp64d'', ''rv64gc_zba_zbb_zbs_zbc'', None),
     ([''cv64a6_imafdc_sv39'', ''cv64a6_imafdc_sv39_hpdcache'', ''cv64a6_imafdc_sv39_hpdcache_wb''], ''lp64d'',
      ''rv64gc_zba_zbb_zbs_zbc_zbkb_zbkx_zkne_zknd_zknh'', None),
     ([''cv32a60x''], ''ilp32'', ''rv32imc_zba_zbb_zbs_zbc'', Some ''m''),
     ([''cv32a65x''], ''ilp32'', ''rv32imc_zba_zbb_zbs_zbc'', Some ''m''),
     ([''cv64a6_mmu''], ''lp64'', ''rv64imac_zba_zbb_zbs_zbc'', None),
     ([''cv32a6_imac_sv0''], ''ilp32'', ''rv32imac'', None),
     ([''cv32a6_imac_sv32''], ''ilp32'', ''rv32imac_zbkb_zbkx_zkne_zknd_zknh'', None),
     ([''cv32a6_imafc_sv32''], ''ilp32f'', ''rv32imafc'', None),
     ([''rv32imc''], ''ilp32'', ''rv32imc'', None),
     ([''rv32imac''], ''ilp32'', ''rv32imac'', None),
     ([''rv32ima''], ''ilp32'', ''rv32ima'', None),
     ([''rv32gc''], ''ilp32f'', ''rv32gc'', None),
     ([''multi_harts''], ''ilp32f'', ''rv32gc'', None),
     ([''rv32imcb''], ''ilp32'', ''rv32imcb'', None),
     ([''rv32i''], ''ilp32'', ''rv32i'', None),
     ([''rv64imc''], ''lp64'', ''rv64imc'', None),
     ([''rv64gc''], ''lp64d'', ''rv64gc'', None),
     ([''rv64imac''], ''lp64'', ''rv64imac'', None),
     ([''rv64gcv''], ''lp64d'', ''rv64gcv'', None),
     ([''ml''], ''lp64'', ''rv64imc'', None)]"

definition set_target :: "string \<Rightarrow> sim_args \<Rightarrow> sim_args result" where
  "set_target base a = (case find (\<lambda>(names, _). base \<in> set names) targets of
     None \<Rightarrow> raise (SystemExit 1)
   | Some (_, mabi, isa, priv) \<Rightarrow>
       ret (a\<lparr>a_mabi := mabi, a_isa := isa, a_priv := (case priv of None \<Rightarrow> a_priv a | Some p \<Rightarrow> p)\<rparr>))"

text \<open>A configuration derived from a base: its name, the package written and its values.\<close>

definition hwconfig_setup ::
  "(string \<Rightarrow> string option) \<Rightarrow> string \<Rightarrow> (string \<times> string \<times> (string, sv_value) dict result) result option" where
  "hwconfig_setup files opts =
     obind (Some (parse_derive_args (split_ws opts))) (\<lambda>(base, changes).
     obind (Some (of_option FileNotFoundError (files (''../../core/include/'' @ base @ ''_config_pkg.sv'')))) (\<lambda>content.
     obind (derive_config content changes) (\<lambda>new.
     map_option (\<lambda>cfg. ret (base, new, cfg)) (get_config new True))))"

datatype hw_opts = HwText string | HwConfig "(string, sv_value) dict"

definition derive_target ::
  "(string \<times> string \<times> (string, sv_value) dict result) result \<Rightarrow> (string \<times> hw_opts) sim" where
  "derive_target derived =
     io_bind (io_lift derived) (\<lambda>(base, new, cfg).
     io_seq (io_do (WriteText ''../../core/include/hwconfig_config_pkg.sv'' new))
     (io_bind (io_lift cfg) (\<lambda>cfg.
     io_seq (io_for (\<lambda>cmd. io_do (Subprocess cmd))
       [''mkdir -p ../../config/gen_from_riscv_config/hwconfig/spike'',
        ''mkdir -p ../../config/gen_from_riscv_config/hwconfig/linker'',
        ''cp ../../config/gen_from_riscv_config/'' @ base @ ''/spike/spike.yaml ../../config/gen_from_riscv_config/hwconfig/spike/'',
        ''cp ../../config/gen_from_riscv_config/'' @ base @ ''/linker/*.ld ../../config/gen_from_riscv_config/hwconfig/linker/''])
       (io_ret (base, HwConfig cfg)))))"

definition or_default :: "string \<Rightarrow> string \<Rightarrow> string" where
  "or_default s d = (if s = [] then d else s)"

definition default_files :: "sim_world \<Rightarrow> sim_args \<Rightarrow> sim_args" where
  "default_files w a = a\<lparr>a_csr_yaml := or_default (a_csr_yaml a) (s_cwd w @ ''/yaml/csr_template.yaml''),
     a_iss_yaml := or_default (a_iss_yaml a) (s_cwd w @ ''/yaml/iss.yaml''),
     a_simulator_yaml := or_default (a_simulator_yaml a) (s_cwd w @ ''/cva6-simulator.yaml'')\<rparr>"

definition default_linker :: "sim_world \<Rightarrow> sim_args \<Rightarrow> sim_args sim" where
  "default_linker w a =
     (if a_linker a \<noteq> [] then io_ret a
      else let dir = s_cwd w @ ''/../../config/gen_from_riscv_config/'';
               own = dir @ a_target a @ ''/linker/link.ld'' in
        io_bind (io_ask (\<lambda>h. s_is_file w h own)) (\<lambda>b.
        io_ret (a\<lparr>a_linker := (if b then own else dir @ ''linker/link.ld'')\<rparr>)))"

definition default_directories :: "sim_args \<Rightarrow> sim_args" where
  "default_directories a =
     (if a_core_setting_dir a \<noteq> [] then a\<lparr>a_custom_target := or_default (a_custom_target a) (a_core_setting_dir a)\<rparr>
      else a\<lparr>a_core_setting_dir := a_custom_target a\<rparr>)"

text \<open>A step is named on the first line.\<close>

definition names_step :: "string \<Rightarrow> string \<Rightarrow> bool" where
  "names_step step steps = contains step (takeWhile (\<lambda>c. c \<noteq> newline) steps)"

definition choose_target ::
  "sim_world \<Rightarrow> (string \<times> string \<times> (string, sv_value) dict result) result \<Rightarrow> sim_args \<Rightarrow> (sim_args \<times> hw_opts) sim" where
  "choose_target w derived a =
     (if a_custom_target a = [] then
        io_bind (if a_target a = ''hwconfig'' then derive_target derived
          else io_ret (a_target a, HwText (a_hwconfig_opts a))) (\<lambda>(base, hw).
        io_bind (io_lift (set_target base a)) (\<lambda>a.
        io_ret (a\<lparr>a_testlist := or_default (a_testlist a) (s_cwd w @ ''/target/'' @ a_target a @ ''/testlist.yaml''),
          a_core_setting_dir := s_cwd w @ ''/dv/target/'' @ a_isa a\<rparr>, hw)))
      else if (names_step ''gcc_compile'' (a_steps a) \<or> names_step ''iss_sim'' (a_steps a)) \<and> (a_mabi a = [] \<or> a_isa a = [])
      then io_raise (SystemExit 1)
      else io_ret (a\<lparr>a_testlist := or_default (a_testlist a) (a_custom_target a @ ''/testlist.yaml'')\<rparr>,
        HwText (a_hwconfig_opts a)))"

definition extension_list :: "sim_args \<Rightarrow> string list" where
  "extension_list a = split_char (CHR '','') (a_isa_extension a)
     @ (if contains ''g'' (a_isa a) then [] else [''zicsr'', ''zifencei''])"

definition load_config ::
  "sim_world \<Rightarrow> (string \<times> string \<times> (string, sv_value) dict result) result \<Rightarrow> sim_args
    \<Rightarrow> (sim_args \<times> hw_opts \<times> string list) sim" where
  "load_config w derived a =
     io_bind (default_linker w (default_files w a)) (\<lambda>a.
     io_bind (choose_target w derived (default_directories a)) (\<lambda>(a, hw).
     io_ret (a\<lparr>a_spike_params := (if a_spike_params a = [] then [] else get_full_spike_param_args (a_spike_params a))\<rparr>,
       hw, extension_list a)))"

section \<open>Versions of the tools\<close>

definition word_at_pos :: "nat \<Rightarrow> string \<Rightarrow> string result" where
  "word_at_pos n s = (let ws = split_char (CHR '' '') s in if n < length ws then ret (ws ! n) else raise IndexError)"

definition check_cc_version :: "sim_world \<Rightarrow> unit sim" where
  "check_cc_version w =
     io_bind (io_lift (s_env w False ''RISCV_CC'')) (\<lambda>cc.
     io_bind (run_cmd w False (cc @ '' --version'')) (\<lambda>out.
     io_bind (io_lift (rbind (word_at_pos 2 (hd (split_char newline out))) (\<lambda>v. py_int 10 (takeWhile is_digit v)))) (\<lambda>major.
     io_when (major < 11) (io_raise (SystemExit (s_fail w))))))"

definition subprocess :: "sim_world \<Rightarrow> string \<Rightarrow> (int \<times> string \<times> string) sim" where
  "subprocess w cmd = io_seq (io_do (Subprocess cmd)) (io_ask (s_shell w))"

definition check_spike_version :: "sim_world \<Rightarrow> unit sim" where
  "check_spike_version w =
     io_bind (subprocess w ''git log -1 --pretty=tformat:%h'') (\<lambda>(_, hash, _).
     io_bind (io_lift (s_env w False ''SPIKE_PATH'')) (\<lambda>_.
     io_bind (subprocess w ''$SPIKE_PATH/spike -v'') (\<lambda>(code, _, errors).
     io_seq (io_when (code \<noteq> 0)
       (io_seq (io_do (Subprocess ''ldd $SPIKE_PATH/spike'')) (io_seq (io_do (Subprocess ''ls -l $SPIKE_PATH/../lib''))
         (io_raise (SystemExit (s_fail w))))))
     (io_when (strip errors \<noteq> ''1.1.1-dev '' @ strip hash) (io_raise (SystemExit (s_fail w)))))))"

definition check_verilator_version :: "sim_world \<Rightarrow> unit sim" where
  "check_verilator_version w =
     io_bind (run_cmd w False ''verilator --version'') (\<lambda>out.
     io_bind (io_lift (word_at_pos 1 out)) (\<lambda>v. io_when (v \<noteq> ''5.008'') (io_raise (SystemExit (s_fail w)))))"

definition check_tools_version :: "sim_world \<Rightarrow> unit sim" where
  "check_tools_version w = io_seq (check_cc_version w) (io_seq (check_spike_version w) (check_verilator_version w))"

section \<open>Test lists\<close>

definition list_entries :: "yaml \<Rightarrow> yaml list result" where
  "list_entries data = rbind (y_in ''testlist'' data) (\<lambda>b.
     if \<not> b then y_iter data
     else rbind (y_index data ''testlist'') (\<lambda>v. case v of YList xs \<Rightarrow> ret xs | _ \<Rightarrow> y_iter data))"

text \<open>A test of the list, with the number of iterations that was asked for; a test without iterations is left out.\<close>

definition match_test :: "string \<Rightarrow> int \<Rightarrow> yaml \<Rightarrow> yaml list result" where
  "match_test test iterations entry =
     rbind (y_index entry ''test'') (\<lambda>name.
     if list_ex (\<lambda>n. y_eq name (YStr n)) (split_char (CHR '','') test) \<or> test = ''all'' then
       rbind (int_at entry ''iterations'') (\<lambda>n.
       case entry of
         YMap d \<Rightarrow>
           let d' = (if iterations > 0 \<and> n > 0 then AList.update ''iterations'' (YInt iterations) d else d);
               n' = (if iterations > 0 \<and> n > 0 then iterations else n)
           in ret (if n' > 0 then [YMap d'] else [])
       | _ \<Rightarrow> raise TypeError)
     else ret [])"

text \<open>The recursion through imports ends at Python's recursion limit at the latest.\<close>

fun process_regression_list :: "sim_world \<Rightarrow> nat \<Rightarrow> string \<Rightarrow> string \<Rightarrow> int \<Rightarrow> yaml list result" where
  "process_regression_list w 0 testlist test iterations = raise RecursionError"
| "process_regression_list w (Suc depth) testlist test iterations =
     rbind (rbind (s_yaml w testlist) list_entries) (\<lambda>entries.
     foldR (\<lambda>matched entry. rbind (y_in ''import'' entry) (\<lambda>b.
       rbind (if b then rbind (str_at entry ''import'') (\<lambda>i. rbind (sub_lit (tag ''riscv_dv_root'') (s_cwd w) i) (\<lambda>sub_list.
                process_regression_list w depth sub_list test iterations))
              else match_test test iterations entry) (\<lambda>more. ret (matched @ more)))) [] entries)"

text \<open>The values a test needs: an integer in another base is its value.\<close>

fun sv_eq :: "sv_value \<Rightarrow> yaml \<Rightarrow> bool"
  and sv_eqs :: "sv_value list \<Rightarrow> yaml list \<Rightarrow> bool" where
  "sv_eq (SvStr s) y = y_eq (YStr s) y"
| "sv_eq (SvBool b) y = y_eq (YBool b) y"
| "sv_eq (SvInt i) y = y_eq (YInt i) y"
| "sv_eq (SvBased i b) y = y_eq (YInt i) y"
| "sv_eq (SvList vs) y = (case y of YList ys \<Rightarrow> sv_eqs vs ys | _ \<Rightarrow> False)"
| "sv_eqs [] [] = True"
| "sv_eqs (v # vs) (y # ys) = (sv_eq v y \<and> sv_eqs vs ys)"
| "sv_eqs _ _ = False"

definition hw_value :: "hw_opts \<Rightarrow> string \<Rightarrow> sv_value result" where
  "hw_value hw k = (case hw of HwText s \<Rightarrow> raise TypeError | HwConfig d \<Rightarrow> dict_get d k)"

fun all_met :: "hw_opts \<Rightarrow> (string \<times> yaml) list \<Rightarrow> bool result" where
  "all_met hw [] = ret True"
| "all_met hw ((k, v) # needs) = rbind (hw_value hw k) (\<lambda>x. if sv_eq x v then all_met hw needs else ret False)"

definition needs_met :: "hw_opts \<Rightarrow> yaml \<Rightarrow> bool result" where
  "needs_met hw entry = rbind (y_in ''needs'' entry) (\<lambda>b.
     rbind (if b then y_index entry ''needs'' else ret (YList [])) (\<lambda>needs.
     if \<not> truthy needs then ret True
     else rbind (case needs of YMap d \<Rightarrow> raise KeyError | _ \<Rightarrow> y_iter needs) (\<lambda>xs.
       rbind (foldR y_update [] xs) (all_met hw))))"

definition runnable_tests :: "hw_opts \<Rightarrow> yaml list \<Rightarrow> yaml list result" where
  "runnable_tests hw tests = foldR (\<lambda>kept t. rbind (needs_met hw t) (\<lambda>b. ret (if b then kept @ [t] else kept))) [] tests"

record test_lists =
  tl_generated :: "yaml list"
  tl_asm :: "yaml list"
  tl_c :: "yaml list"

definition set_field :: "string \<Rightarrow> string \<Rightarrow> yaml \<Rightarrow> yaml result" where
  "set_field k v y = (case y of YMap d \<Rightarrow> ret (YMap (AList.update k (YStr v) d)) | _ \<Rightarrow> raise TypeError)"

text \<open>\<open>t[k]\<close> with the variable of the environment that \<open>path_var\<close> names\<close>

definition with_path :: "sim_world \<Rightarrow> string \<Rightarrow> yaml \<Rightarrow> yaml result" where
  "with_path w k t =
     rbind (str_at t ''path_var'') (\<lambda>name. rbind (s_env w False name) (\<lambda>p. rbind (str_at t k) (\<lambda>v.
     rbind (sub_lit (tag ''path_var'') p v) (\<lambda>v. set_field k v t))))"

text \<open>Directed tests leave the list; a test without path or compiler options stays as it is (a KeyError is caught).\<close>

definition sort_test :: "sim_world \<Rightarrow> test_lists \<Rightarrow> yaml \<Rightarrow> test_lists result" where
  "sort_test w ls t = (case with_path w ''gcc_opts'' t of
     Inl e \<Rightarrow> if e = KeyError then ret (ls\<lparr>tl_generated := tl_generated ls @ [t]\<rparr>) else raise e
   | Inr t \<Rightarrow>
       rbind (y_in ''asm_tests'' t) (\<lambda>asm. rbind (y_in ''c_tests'' t) (\<lambda>c. rbind (y_in ''gen_test'' t) (\<lambda>gt.
       if (asm \<and> (gt \<or> c)) \<or> (c \<and> gt) then raise (SystemExit (s_fatal w))
       else if asm then rbind (with_path w ''asm_tests'' t) (\<lambda>t. ret (ls\<lparr>tl_asm := tl_asm ls @ [t]\<rparr>))
       else if c then rbind (with_path w ''c_tests'' t) (\<lambda>t. ret (ls\<lparr>tl_c := tl_c ls @ [t]\<rparr>))
       else ret (ls\<lparr>tl_generated := tl_generated ls @ [t]\<rparr>)))))"

definition sort_tests :: "sim_world \<Rightarrow> yaml list \<Rightarrow> test_lists result" where
  "sort_tests w tests = foldR (sort_test w) \<lparr>tl_generated = [], tl_asm = [], tl_c = []\<rparr> tests"

definition c_path_re :: re where
  "c_path_re = seqs [Group 1 (many dot), lit ''/'', Group 2 (many dot), dot, lit ''c'', Eol]"

definition c_group :: "nat \<Rightarrow> groups \<Rightarrow> string" where
  "c_group n g = (case match_group n g of None \<Rightarrow> [] | Some s \<Rightarrow> s)"

definition copy_c_test :: "sim_world \<Rightarrow> yaml \<Rightarrow> unit sim" where
  "copy_c_test w t =
     io_bind (io_lift (rbind (str_at t ''c_tests'') (\<lambda>path. rbind (str_at t ''test'') (\<lambda>name.
       ret (re_sub c_path_re (\<lambda>x g. ''cp '' @ c_group 1 g @ ''/'' @ c_group 2 g @ ''.c '' @ c_group 1 g @ ''/'') path
         @ name @ ''.c''))))) (\<lambda>cmd. done_with (run_cmd w False cmd))"

definition collect_tests :: "sim_world \<Rightarrow> hw_opts \<Rightarrow> sim_args \<Rightarrow> test_lists result" where
  "collect_tests w hw a =
     rbind (process_regression_list w (s_depth w) (a_testlist a) (a_test a) (a_iterations a)) (\<lambda>tests.
     rbind (runnable_tests hw tests) (\<lambda>tests. rbind (sort_tests w tests) (\<lambda>ls.
     if tl_generated ls = [] \<and> tl_asm ls = [] \<and> tl_c ls = [] then raise (SystemExit 1) else ret ls)))"

section \<open>The main program\<close>

definition directed_arg :: "sim_world \<Rightarrow> sim_globals \<Rightarrow> sim_args \<Rightarrow> string \<Rightarrow> string \<Rightarrow> unit sim" where
  "directed_arg w g a output_dir path =
     (let full = s_expanduser w path in
      io_bind (io_ask (\<lambda>h. s_is_file w h full)) (\<lambda>b.
      if b \<or> a_debug a then run_test w g a output_dir full (a_gcc_opts a) None ''custom''
      else io_raise (SystemExit (s_fail w))))"

definition directed_entry :: "sim_world \<Rightarrow> sim_globals \<Rightarrow> sim_args \<Rightarrow> string \<Rightarrow> yaml \<Rightarrow> unit sim" where
  "directed_entry w g a output_dir t =
     io_bind (io_lift (extra t ''gcc_opts'')) (\<lambda>opts. io_bind (io_lift (str_at t ''asm_tests'')) (\<lambda>path.
     let full = s_expanduser w path in
     io_when (full \<noteq> []) (io_bind (io_ask (\<lambda>h. s_is_file w h full)) (\<lambda>b.
       if b then io_bind (io_lift (shown_at t ''test'')) (\<lambda>name.
         run_test w g a output_dir full (a_gcc_opts a @ opts) (Some name) (a_testlist a))
       else io_when (\<not> a_debug a) (io_raise (SystemExit (s_fail w)))))))"

definition argument_tests :: "sim_args \<Rightarrow> string list" where
  "argument_tests a =
     (if a_c_tests a \<noteq> [] then split_char (CHR '','') (a_c_tests a)
      else if a_elf_tests a \<noteq> [] then split_char (CHR '','') (a_elf_tests a)
      else if a_asm_tests a \<noteq> [] then split_char (CHR '','') (a_asm_tests a) else [])"

text \<open>The assembly tests of the list are run; those in C are copied, and never run.\<close>

definition run_steps :: "sim_world \<Rightarrow> sim_globals \<Rightarrow> sim_args \<Rightarrow> string \<Rightarrow> test_lists \<Rightarrow> unit sim" where
  "run_steps w g a output_dir ls =
     (let step = (\<lambda>s. a_steps a = ''all'' \<or> names_step s (a_steps a)); tests = tl_generated ls in
      io_seq (io_when (step ''gen'') (io_seq (io_for (directed_entry w g a output_dir) (tl_asm ls)) (gen w a tests output_dir)))
      (io_when (\<not> a_co a)
        (io_seq (io_when (step ''gcc_compile'') (gcc_compile w g a tests output_dir))
        (io_seq (io_when (step ''iss_sim'') (iss_sim w g a tests output_dir))
        (io_when (step ''iss_cmp'') (iss_cmp w a tests output_dir))))))"

definition run_iteration ::
  "sim_world \<Rightarrow> hw_opts \<Rightarrow> sim_globals \<Rightarrow> sim_args \<Rightarrow> string \<Rightarrow> int \<Rightarrow> unit sim" where
  "run_iteration w hw g a output_dir i =
     (let g = g\<lparr>g_test_iteration := i\<rparr>; directed = argument_tests a in
      io_seq (io_for (directed_arg w g a output_dir) directed)
      (io_seq (done_with (run_cmd_output w False [''mkdir'', ''-p'', output_dir @ ''/asm_tests'']))
      (io_bind (if directed = [] \<and> \<not> a_co a then
           io_bind (io_lift (collect_tests w hw a)) (\<lambda>ls. io_seq (io_for (copy_c_test w) (tl_c ls)) (io_ret ls))
         else io_ret \<lparr>tl_generated = [], tl_asm = [], tl_c = []\<rparr>)
       (run_steps w g a output_dir))))"

definition axi_option :: "sim_args \<Rightarrow> string" where
  "axi_option a =
     (if a_axi_active a = ''yes'' then '' +uvm_set_config_int=*uvm_test_top,force_axi_mode,1''
      else if a_axi_active a = ''no'' then '' +uvm_set_config_int=uvm_test_top,force_axi_mode,0'' else [])"

text \<open>The options of the seed, the number of rounds and the format of the logs.\<close>

definition seed_option :: "sim_args \<Rightarrow> string \<times> int \<times> int option" where
  "seed_option a =
     (if a_gen_sv_seed a > 0 then ('' +ntb_random_seed_automatic'', a_gen_sv_seed a, Some 1)
      else if a_gen_sv_seed a = 0 then ('' +ntb_random_seed='' @ a_sv_seed a, 1, Some 0)
      else ([], a_gen_sv_seed a, None))"

definition quoted :: "string \<Rightarrow> string" where
  "quoted s = [CHR 0x22] @ s @ [CHR 0x22]"

text \<open>Spike comes first.\<close>

definition spike_first :: "string \<Rightarrow> string" where
  "spike_first iss = (let xs = split_char (CHR '','') iss in
     if ''spike'' \<in> set xs then join '','' (''spike'' # remove1 ''spike'' xs) else iss)"

definition full_isa :: "string list \<Rightarrow> string \<Rightarrow> string" where
  "full_isa exts isa = isa @ concat (map (\<lambda>e. if e = [] then [] else ''_'' @ e) exts)"

definition sim_main ::
  "sim_world \<Rightarrow> (string \<times> string \<times> (string, sv_value) dict result) result \<Rightarrow> sim_args \<Rightarrow> unit sim" where
  "sim_main w derived a =
     io_bind (io_lift (check_seeds w a)) (\<lambda>a. io_bind (load_config w derived a) (\<lambda>(a, hw, exts).
     let (seed_opt, rounds, format) = seed_option a;
         g = \<lparr>g_isscomp_opts = quoted (a_isscomp_opts a), g_issrun_opts = quoted (a_issrun_opts a @ axi_option a @ seed_opt),
           g_isspostrun_opts = quoted (a_isspostrun_opts a), g_test_iteration = 0, g_log_format = format,
           g_isa_extension_list = exts\<rparr>;
         a = a\<lparr>a_iss := spike_first (a_iss a), a_isa := full_isa exts (a_isa a)\<rparr> in
     io_seq (io_do (LogSeed (a_sv_seed a)))
     (io_seq (check_tools_version w)
     (io_bind (effect w MakeOutput) (\<lambda>output_dir.
     io_seq (io_when (a_verilog_style_check a) (done_with (run_cmd w False ''verilog_style/run.sh'')))
     (io_seq (io_for (run_iteration w hw g a output_dir) [0..rounds - 1])
     (io_raise (SystemExit (s_success w)))))))))"

end
