(* ===== verification/Sim_Facts.thy ===== *)
theory Sim_Facts
  imports Sim_Main Py_Float_Facts
begin

text \<open>
  The simulation driver: the batches of a generated test, the tests a list selects and the seeds they get, the runs of
  the simulators, and the targets that are predefined.
\<close>

section \<open>Programs that end well\<close>

lemma for_trace:
  assumes "\<And>x h h'. x \<in> set xs \<Longrightarrow> f x h = (Inr (), h') \<Longrightarrow> \<exists>es. h' = h @ es \<and> Q x es" "io_for f xs h = (Inr (), h')"
  shows "\<exists>ess. h' = h @ concat ess \<and> list_all2 Q xs ess"
  using assms
proof (induction xs arbitrary: h)
  case Nil
  then show ?case by (simp add: io_ret_def)
next
  case (Cons x xs)
  from Cons.prems(2) obtain h1 where *: "f x h = (Inr (), h1)" "io_for f xs h1 = (Inr (), h')"
    by (auto simp: io_bind_Inr)
  from Cons.prems(1) [OF _ *(1)] obtain es where "h1 = h @ es" "Q x es" by auto
  moreover from Cons.IH [OF _ *(2)] Cons.prems(1) obtain ess where "h' = h1 @ concat ess" "list_all2 Q xs ess"
    by (metis list.set_intros(2))
  ultimately show ?case by (intro exI [of _ "es # ess"]) simp
qed

section \<open>Batches\<close>

text \<open>The number of batches meant: the quotient rounded up. The code reaches it while the numerator has 53 bits.\<close>

definition batches :: "int \<Rightarrow> int \<Rightarrow> int" where
  "batches n b = (if b > 0 then (n + b - 1) div b else 1)"

lemma batch_count_exact: "0 < n \<Longrightarrow> n + b \<le> 2 ^ 53 \<Longrightarrow> batch_count n b = Inr (batches n b)"
  by (simp add: batch_count_def batches_def int_div_floor)

text \<open>With more, the quotient can round up to a batch too many, which is empty.\<close>

lemma batch_too_many:
  "batch_count (2 ^ 54 - 2) 2 = Inr (batches (2 ^ 54 - 2) 2 + 1)"
  "batch_tests (2 ^ 54 - 2) 2 (batches (2 ^ 54 - 2) 2 + 1) (batches (2 ^ 54 - 2) 2) = 0"
  by code_simp+

lemma batches_pos: "0 < n \<Longrightarrow> 0 \<le> b \<Longrightarrow> 0 < batches n b"
  by (auto simp: batches_def pos_imp_zdiv_pos_iff)

lemma batches_bounds:
  assumes "0 < n" "0 < b"
  shows "(batches n b - 1) * b < n" "n \<le> batches n b * b"
proof -
  define q where "q = (n + b - 1) div b"
  define r where "r = (n + b - 1) mod b"
  have "n + b - 1 = q * b + r" "0 \<le> r" "r < b"
    using assms by (simp_all add: q_def r_def)
  then show "(batches n b - 1) * b < n" "n \<le> batches n b * b"
    using assms by (simp_all add: batches_def q_def [symmetric] left_diff_distrib)
qed

lemma last_batch_start: "0 < n \<Longrightarrow> 0 \<le> b \<Longrightarrow> (batches n b - 1) * b < n"
  by (cases "b = 0") (simp_all add: batches_bounds)

lemma batches_cover:
  assumes "0 < n" "0 \<le> b" "0 \<le> k" "k \<le> batches n b"
  shows "concat (map (\<lambda>i. [i * b..i * b + batch_tests n b (batches n b) i - 1]) [0..k - 1])
    = [0..(if k = batches n b then n else k * b) - 1]"
  using assms(3,4)
proof (induction k rule: int_ge_induct)
  case base
  then show ?case using batches_pos [OF assms(1,2)] by simp
next
  case (step k)
  have upto: "[0..k + 1 - 1] = [0..k - 1] @ [k]" using step.hyps by (simp add: upto_rec2)
  have join: "[0..k * b - 1] @ [k * b..m - 1] = [0..m - 1]" if "k * b \<le> m" for m
    using that step.hyps assms(2) upto_split1 [of 0 "k * b" "m - 1"] by (cases "k * b = m") simp_all
  from step have IH: "concat (map (\<lambda>i. [i * b..i * b + batch_tests n b (batches n b) i - 1]) [0..k - 1]) = [0..k * b - 1]"
    by simp
  show ?case
  proof (cases "k + 1 = batches n b")
    case True
    then have "k * b < n" using last_batch_start [OF assms(1,2)] by (simp flip: True)
    then show ?thesis unfolding upto using True IH by (simp add: batch_tests_def join)
  next
    case False
    with step.prems have "k < batches n b - 1" by simp
    then show ?thesis
      unfolding upto using False IH join [of "k * b + b"] assms(2) by (simp add: batch_tests_def algebra_simps)
  qed
qed

lemma batch_sizes:
  assumes "0 < n" "0 \<le> b" "0 \<le> i" "i < batches n b"
  shows "0 < batch_tests n b (batches n b) i" "0 < b \<Longrightarrow> batch_tests n b (batches n b) i \<le> b"
proof -
  have "b \<noteq> 0" if "i < batches n b - 1" using that assms(3) by (auto simp: batches_def)
  moreover have "i = batches n b - 1" if "\<not> i < batches n b - 1" using that assms(4) by simp
  ultimately show "0 < batch_tests n b (batches n b) i"
    using last_batch_start [OF assms(1,2)] assms(2) by (auto simp: batch_tests_def)
  assume "0 < b"
  with batches_bounds [OF assms(1) this] have "n \<le> batches n b * b" by simp
  moreover have "batches n b = i + 1" if "\<not> i < batches n b - 1" using that assms(4) by simp
  ultimately show "batch_tests n b (batches n b) i \<le> b"
    by (auto simp: batch_tests_def algebra_simps)
qed

definition is_run :: "sim_effect \<Rightarrow> bool" where
  "is_run e = (case e of Run cmd timeout check debug \<Rightarrow> True | _ \<Rightarrow> False)"

text \<open>Commands that are run one after the other, or added to those for the batch queue.\<close>

definition issued :: "sim_args \<Rightarrow> bool \<Rightarrow> string list \<Rightarrow> sim_state \<Rightarrow> sim_state \<Rightarrow> sim_effect list \<Rightarrow> bool" where
  "issued a check cmds st st' es \<longleftrightarrow>
     (if a_lsf_cmd a = [] then fst st' = fst st
        \<and> filter is_run es = map (\<lambda>c. Run c (Some (a_gen_timeout a)) check (a_debug a)) cmds
      else fst st' = fst st @ cmds \<and> filter is_run es = [])"

lemma issued_Nil: "issued a check [] st st []"
  by (simp add: issued_def)

lemma issued_append:
  "issued a check cs s s1 es \<Longrightarrow> issued a check ds s1 s2 fs \<Longrightarrow> issued a check (cs @ ds) s s2 (es @ fs)"
  by (auto simp: issued_def split: if_splits)

lemma queue_issues:
  "queue_or_run w a check cmd st h = (Inr st', h') \<Longrightarrow> \<exists>es. h' = h @ es \<and> issued a check [cmd] st st' es"
  by (cases st) (auto simp: queue_or_run_def run_timed_def io_ret_def issued_def is_run_def
      split: if_splits dest!: tool.perform_then)

lemma seed_get_silent:
  "seed_get w g i k h = (Inr s, h') \<Longrightarrow> \<exists>es. h' = h @ es \<and> filter is_run es = []"
  by (auto simp: seed_get_def io_bind_Inr io_lift_def io_ret_def io_do_def io_ask_def io_raise_def is_run_def
      split: if_splits option.splits)

lemma batch_issues:
  assumes "run_batch w a check g sim_cmd test out n cnt st i h = (Inr st', h')"
  shows "\<exists>es cmd. h' = h @ es \<and> issued a check [cmd] st st' es
    \<and> (\<exists>name seed. shown_at test ''test'' = Inr name
      \<and> batch_cmd a sim_cmd test out (name @ ''_'' @ py_str i) i (batch_tests n (a_batch_size a) cnt i) seed = Inr cmd)"
proof -
  obtain cmds seeds where st: "st = (cmds, seeds)" by (cases st)
  from assms obtain name seed h1 cmd where *: "shown_at test ''test'' = Inr name"
      "seed_get w g (name @ ''_'' @ py_str i) (i * cnt) h = (Inr seed, h1)"
      "batch_cmd a sim_cmd test out (name @ ''_'' @ py_str i) i (batch_tests n (a_batch_size a) cnt i) seed = Inr cmd"
      "queue_or_run w a check cmd (cmds, AList.update (name @ ''_'' @ py_str i) (YStr (y_str seed)) seeds) h1 = (Inr st', h')"
    by (auto simp: run_batch_def st io_bind_Inr io_lift_def Let_def)
  from seed_get_silent [OF *(2)] obtain es where es: "h1 = h @ es" "filter is_run es = []" by blast
  from queue_issues [OF *(4)] obtain fs where
    "h' = h1 @ fs" "issued a check [cmd] (cmds, AList.update (name @ ''_'' @ py_str i) (YStr (y_str seed)) seeds) st' fs" by blast
  with es * st show ?thesis
    by (intro exI [of _ "es @ fs"] exI [of _ cmd]) (auto simp: issued_def)
qed

lemma fold_issues:
  assumes "\<And>x s h s' h'. f s x h = (Inr s', h') \<Longrightarrow> \<exists>es cmd. h' = h @ es \<and> issued a check [cmd] s s' es \<and> B x cmd"
    "io_fold f s xs h = (Inr s', h')"
  shows "\<exists>cmds es. h' = h @ es \<and> issued a check cmds s s' es \<and> list_all2 B xs cmds"
  using assms(2)
proof (induction xs arbitrary: s h)
  case Nil
  then show ?case by (auto simp: io_ret_def intro!: exI [of _ "[]"] issued_Nil)
next
  case (Cons x xs)
  from Cons.prems obtain s1 h1 where *: "f s x h = (Inr s1, h1)" "io_fold f s1 xs h1 = (Inr s', h')"
    by (auto simp: io_bind_Inr)
  from assms(1) [OF *(1)] obtain es c where es: "h1 = h @ es" "issued a check [c] s s1 es" "B x c" by blast
  from Cons.IH [OF *(2)] obtain cmds fs where "h' = h1 @ fs" "issued a check cmds s1 s' fs" "list_all2 B xs cmds" by blast
  with es show ?case
    using issued_append [OF es(2)] by (intro exI [of _ "c # cmds"] exI [of _ "es @ fs"]) auto
qed

text \<open>
  C31: as long as iterations and batch size are below \<open>2 ^ 53\<close>, the limit of the division of floating point numbers in the
  code, the generator is run once for every batch of a test, or its command queued: the batches are the intervals of
  the iterations from the start index on, in order, none is empty or larger than the batch size, and together they
  are all iterations, each once.
\<close>

theorem generated_in_batches:
  assumes "run_generated w a check g sim_cmd out st test h = (Inr st', h')"
    "int_at test ''iterations'' = Inr n" "0 < n" "0 \<le> a_batch_size a" "n + a_batch_size a \<le> 2 ^ 53"
    "str_at test ''test'' = Inr name" "name \<noteq> ''riscv_csr_test''"
  shows "\<exists>cnt cmds es. batch_count n (a_batch_size a) = Inr cnt \<and> h' = h @ es \<and> issued a check cmds st st' es
    \<and> list_all2 (\<lambda>i cmd. \<exists>seed. batch_cmd a sim_cmd test out (name @ ''_'' @ py_str i) i
         (batch_tests n (a_batch_size a) cnt i) seed = Inr cmd)
       [0..cnt - 1] cmds
    \<and> concat (map (\<lambda>i. [i * a_batch_size a..i * a_batch_size a + batch_tests n (a_batch_size a) cnt i - 1]) [0..cnt - 1]) = [0..n - 1]
    \<and> list_all (\<lambda>i. 0 < batch_tests n (a_batch_size a) cnt i
         \<and> (a_batch_size a = 0 \<or> batch_tests n (a_batch_size a) cnt i \<le> a_batch_size a))
       [0..cnt - 1]"
proof -
  let ?cnt = "batches n (a_batch_size a)"
  note cnt = batch_count_exact [OF assms(3,5)]
  from assms(6) obtain v where "y_index test ''test'' = Inr v" "as_str v = Inr name" by (auto simp: str_at_def)
  then have name: "y_index test ''test'' = Inr (YStr name)" "shown_at test ''test'' = Inr name"
    by (cases v; simp add: as_str_def shown_at_def)+
  have one: "\<exists>es cmd. h' = h @ es \<and> issued a check [cmd] s s' es \<and> (\<exists>seed. batch_cmd a sim_cmd test out
      (name @ ''_'' @ py_str i) i (batch_tests n (a_batch_size a) ?cnt i) seed = Inr cmd)"
    if "run_batch w a check g sim_cmd test out n ?cnt s i h = (Inr s', h')" for i s h s' h'
    using batch_issues [OF that] name(2) by (metis sum.inject(2))
  from assms(1-3,7) name cnt have "io_fold (run_batch w a check g sim_cmd test out n ?cnt) st [0..?cnt - 1] h = (Inr st', h')"
    by (auto simp: run_generated_def io_bind_Inr io_lift_def Let_def)
  from fold_issues [OF _ this, where B = "\<lambda>i cmd. \<exists>seed. batch_cmd a sim_cmd test out (name @ ''_'' @ py_str i) i
         (batch_tests n (a_batch_size a) ?cnt i) seed = Inr cmd"] one
  obtain cmds es where "h' = h @ es" "issued a check cmds st st' es"
      "list_all2 (\<lambda>i cmd. \<exists>seed. batch_cmd a sim_cmd test out (name @ ''_'' @ py_str i) i
         (batch_tests n (a_batch_size a) ?cnt i) seed = Inr cmd) [0..?cnt - 1] cmds" by blast
  moreover have "list_all (\<lambda>i. 0 < batch_tests n (a_batch_size a) ?cnt i
      \<and> (a_batch_size a = 0 \<or> batch_tests n (a_batch_size a) ?cnt i \<le> a_batch_size a)) [0..?cnt - 1]"
    using batch_sizes [OF assms(3,4)] assms(4) by (auto simp: list_all_iff)
  ultimately show ?thesis
    using cnt batches_cover [OF assms(3,4), of ?cnt] batches_pos [OF assms(3,4)] by auto
qed

section \<open>Test lists and seeds\<close>

text \<open>A test that was asked for, with the iterations that were asked for.\<close>

definition wanted :: "string \<Rightarrow> int \<Rightarrow> yaml \<Rightarrow> bool" where
  "wanted test iterations t \<longleftrightarrow> (case (y_index t ''test'', int_at t ''iterations'') of
     (Inr name, Inr n) \<Rightarrow> (list_ex (\<lambda>x. y_eq name (YStr x)) (split_char (CHR '','') test) \<or> test = ''all'')
       \<and> 0 < n \<and> (iterations \<le> 0 \<or> n = iterations)
   | _ \<Rightarrow> False)"

lemma index_update: "dict_get (AList.update k v d) k' = (if k' = k then Inr v else dict_get d k')"
  by (simp add: dict_get_def update_conv)

lemma match_test_wanted: "match_test test iterations entry = Inr ts \<Longrightarrow> list_all (wanted test iterations) ts"
  by (cases entry) (auto simp: match_test_def wanted_def int_at_def index_update Let_def as_int_def split: if_splits)

lemma regression_list_wanted:
  "process_regression_list w depth testlist test iterations = Inr ts \<Longrightarrow> list_all (wanted test iterations) ts"
proof (induction depth arbitrary: testlist ts)
  case (Suc depth)
  have "list_all (wanted test iterations) ts'"
    if "foldR (\<lambda>matched entry. rbind (y_in ''import'' entry) (\<lambda>b.
       rbind (if b then rbind (str_at entry ''import'') (\<lambda>i. rbind (sub_lit (tag ''riscv_dv_root'') (s_cwd w) i) (\<lambda>sub_list.
                process_regression_list w depth sub_list test iterations))
              else match_test test iterations entry) (\<lambda>more. ret (matched @ more)))) acc es = Inr ts'"
      "list_all (wanted test iterations) acc" for acc es ts'
    using that
  proof (induction es arbitrary: acc)
    case (Cons e es)
    from Cons.prems obtain b more where "y_in ''import'' e = Inr b" and
      more: "(if b then rbind (str_at e ''import'') (\<lambda>i. rbind (sub_lit (tag ''riscv_dv_root'') (s_cwd w) i) (\<lambda>sub_list.
                process_regression_list w depth sub_list test iterations))
              else match_test test iterations e) = Inr more"
      and rest: "foldR (\<lambda>matched entry. rbind (y_in ''import'' entry) (\<lambda>b.
       rbind (if b then rbind (str_at entry ''import'') (\<lambda>i. rbind (sub_lit (tag ''riscv_dv_root'') (s_cwd w) i) (\<lambda>sub_list.
                process_regression_list w depth sub_list test iterations))
              else match_test test iterations entry) (\<lambda>more. ret (matched @ more)))) (acc @ more) es = Inr ts'"
      by auto
    from more have "list_all (wanted test iterations) more"
      by (auto intro: Suc.IH match_test_wanted split: if_splits)
    with Cons.IH [OF rest] Cons.prems(2) show ?case by simp
  qed simp
  with Suc.prems show ?case by auto
qed simp

lemma runnable_tests_wanted: "runnable_tests hw ts = Inr us \<Longrightarrow> list_all P ts \<Longrightarrow> list_all P us"
proof -
  have "foldR (\<lambda>kept t. rbind (needs_met hw t) (\<lambda>b. ret (if b then kept @ [t] else kept))) acc ts = Inr us
    \<Longrightarrow> list_all P ts \<Longrightarrow> list_all P acc \<Longrightarrow> list_all P us" for acc
    by (induction ts arbitrary: acc) (auto split: if_splits)
  then show "runnable_tests hw ts = Inr us \<Longrightarrow> list_all P ts \<Longrightarrow> list_all P us"
    by (force simp: runnable_tests_def)
qed

lemma wanted_set_field: "set_field k v t = Inr t' \<Longrightarrow> k \<noteq> ''test'' \<Longrightarrow> k \<noteq> ''iterations'' \<Longrightarrow> wanted a i t' = wanted a i t"
proof -
  assume "set_field k v t = Inr t'" "k \<noteq> ''test''" "k \<noteq> ''iterations''"
  then have "y_index t' ''test'' = y_index t ''test''" "y_index t' ''iterations'' = y_index t ''iterations''"
    by (cases t; auto simp: set_field_def index_update)+
  then show ?thesis by (simp add: wanted_def int_at_def)
qed

lemma wanted_with_path: "with_path w ''gcc_opts'' t = Inr t' \<Longrightarrow> wanted a i t' = wanted a i t"
  by (auto simp: with_path_def dest: wanted_set_field)

lemma sort_test_wanted:
  "sort_test w ls t = Inr ls' \<Longrightarrow> wanted a i t \<Longrightarrow> list_all (wanted a i) (tl_generated ls)
    \<Longrightarrow> list_all (wanted a i) (tl_generated ls')"
  by (auto simp: sort_test_def wanted_with_path split: sum.split_asm if_splits)

lemma sort_tests_wanted: "sort_tests w ts = Inr ls \<Longrightarrow> list_all (wanted a i) ts \<Longrightarrow> list_all (wanted a i) (tl_generated ls)"
proof -
  have "foldR (sort_test w) ls0 ts = Inr ls \<Longrightarrow> list_all (wanted a i) ts \<Longrightarrow> list_all (wanted a i) (tl_generated ls0)
    \<Longrightarrow> list_all (wanted a i) (tl_generated ls)" for ls0
    by (induction ts arbitrary: ls0) (auto dest: sort_test_wanted)
  then show "sort_tests w ts = Inr ls \<Longrightarrow> list_all (wanted a i) ts \<Longrightarrow> list_all (wanted a i) (tl_generated ls)"
    by (force simp: sort_tests_def)
qed

lemma collect_tests_wanted:
  "collect_tests w hw a = Inr ls \<Longrightarrow> list_all (wanted (a_test a) (a_iterations a)) (tl_generated ls)"
  by (auto simp: collect_tests_def split: if_splits
      intro: sort_tests_wanted [OF _ runnable_tests_wanted [OF _ regression_list_wanted]])

text \<open>What the configuration leaves alone.\<close>

definition same_run :: "sim_args \<Rightarrow> sim_args \<Rightarrow> bool" where
  "same_run a b \<longleftrightarrow> a_seed b = a_seed a \<and> a_start_seed b = a_start_seed a \<and> a_iterations b = a_iterations a
     \<and> a_batch_size b = a_batch_size a \<and> a_seed_yaml b = a_seed_yaml a"

lemma set_target_same: "set_target base a = Inr b \<Longrightarrow> same_run a b"
  by (auto simp: set_target_def same_run_def split: option.splits)

lemma choose_target_same: "choose_target w derived a h = (Inr (b, hw), h') \<Longrightarrow> same_run a b"
  by (auto simp: choose_target_def io_bind_Inr io_ret_def io_raise_def io_lift_def same_run_def
      dest!: set_target_same split: if_splits)

lemma default_linker_same: "default_linker w a h = (Inr b, h') \<Longrightarrow> same_run a b"
  by (auto simp: default_linker_def io_bind_Inr io_ret_def io_ask_def same_run_def Let_def split: if_splits)

lemma defaults_same: "same_run a (default_files w a)" "same_run a (default_directories a)"
  by (simp_all add: default_files_def default_directories_def same_run_def)

lemma same_run_trans: "same_run a b \<Longrightarrow> same_run b c \<Longrightarrow> same_run a c"
  by (simp add: same_run_def)

lemma load_config_same:
  assumes "load_config w derived a h = (Inr (b, hw, exts), h')"
  shows "same_run a b"
proof -
  from assms obtain a1 h1 a2 hw' h2 where *: "default_linker w (default_files w a) h = (Inr a1, h1)"
      "choose_target w derived (default_directories a1) h1 = (Inr (a2, hw'), h2)" "same_run a2 b"
    by (force simp: load_config_def io_bind_Inr io_ret_def same_run_def)
  show ?thesis
    by (meson * default_linker_same choose_target_same defaults_same same_run_trans)
qed

text \<open>
  C32: with \<open>--seed\<close> (and no negative iterations) every generated test of the list has one iteration, whatever the list
  says, so that there is one batch, its index is 0, the assertion in the seed generator holds, and the seed is the one
  that was given.
\<close>

theorem fixed_seed_is_used:
  assumes "check_seeds w a0 = Inr a" "a_seed a0 = Some s" "0 \<le> a_iterations a0"
    "load_config w derived a h = (Inr (b, hw, exts), h')" "collect_tests w hw b = Inr ls"
    "new_seed_gen w (a_start_seed b) (a_seed b) None = Inr g"
  shows "list_all (\<lambda>t. int_at t ''iterations'' = Inr 1) (tl_generated ls)
    \<and> (\<exists>cnt. batch_count 1 (a_batch_size b) = Inr cnt \<and> [0..cnt - 1] = [0]
         \<and> seed_get w g test_id (0 * cnt) hist = (Inr (YInt s), hist))"
proof -
  have a: "a_iterations a = 1" "a_seed a = Some s"
    using assms(1-3) by (auto simp: check_seeds_def split: if_splits)
  with load_config_same [OF assms(4)] have b: "a_iterations b = 1" "a_seed b = Some s" by (simp_all add: same_run_def)
  have "list_all (wanted (a_test b) 1) (tl_generated ls)" using collect_tests_wanted [OF assms(5)] b by simp
  then have "list_all (\<lambda>t. int_at t ''iterations'' = Inr 1) (tl_generated ls)"
    by (rule list.pred_mono_strong) (auto simp: wanted_def split: sum.splits)
  with assms(6) b show ?thesis
    by (auto simp: batch_count_def int_div_self new_seed_gen_def seed_get_def y_in_def has_key_def io_bind_def io_lift_def io_ret_def)
qed

section \<open>Targets\<close>

text \<open>
  The ABI has the width of the ISA, and passes in floating point registers only what the ISA has; the CSR and fence
  instructions, which the toolchain wants to be named, are there.
\<close>

definition abi_fits :: "string \<Rightarrow> string \<Rightarrow> bool" where
  "abi_fits mabi isa \<longleftrightarrow>
     (let base = takeWhile (\<lambda>c. c \<noteq> CHR ''_'') (drop 4 isa); has = (\<lambda>cs. list_ex (\<lambda>c. c \<in> set base) cs) in
      ((starts_with ''rv32'' isa \<and> (mabi = ''ilp32'' \<or> (mabi = ''ilp32f'' \<and> has ''fg'')))
       \<or> (starts_with ''rv64'' isa \<and> (mabi = ''lp64'' \<or> (mabi = ''lp64d'' \<and> has ''dg''))))
      \<and> (has ''g'' \<or> ends_with ''_zicsr_zifencei'' isa))"

definition plain_extensions :: "string \<Rightarrow> string list" where
  "plain_extensions isa = [] # (if contains ''g'' isa then [] else [''zicsr'', ''zifencei''])"

lemma targets_fit: "list_all (\<lambda>(names, mabi, isa, priv). abi_fits mabi (full_isa (plain_extensions isa) isa)) targets"
  by code_simp

lemma set_target_fits: "set_target base a = Inr b \<Longrightarrow> abi_fits (a_mabi b) (full_isa (plain_extensions (a_isa b)) (a_isa b))"
  using targets_fit
  by (fastforce simp: set_target_def list_all_iff find_Some_iff dest: nth_mem split: option.splits)

text \<open>
  For every predefined target that is accepted, with no further extensions asked for, the ABI and the ISA that
  the tests are compiled for fit each other.
\<close>

lemma predefined_targets_fit:
  assumes "load_config w derived a h = (Inr (b, hw, exts), h')" "a_custom_target a = []" "a_core_setting_dir a = []"
    "a_isa_extension a = []"
  shows "abi_fits (a_mabi b) (full_isa exts (a_isa b))"
proof -
  from assms(1) obtain a1 h1 a2 h2 where *: "default_linker w (default_files w a) h = (Inr a1, h1)"
      "choose_target w derived (default_directories a1) h1 = (Inr (a2, hw), h2)"
      "a_mabi b = a_mabi a2" "a_isa b = a_isa a2" "exts = extension_list a2"
    by (force simp: load_config_def io_bind_Inr io_ret_def)
  have a1: "a_custom_target (default_directories a1) = []" "a_isa_extension (default_directories a1) = []"
    using *(1) assms(2-4)
    by (auto simp: default_linker_def default_files_def default_directories_def io_bind_Inr io_ret_def io_ask_def Let_def
        split: if_splits)
  with *(2) obtain base a3 where **: "set_target base (default_directories a1) = Inr a3" "a_mabi a2 = a_mabi a3"
      "a_isa a2 = a_isa a3" "a_isa_extension a2 = a_isa_extension a3"
    by (auto simp: choose_target_def io_bind_Inr io_lift_def io_ret_def)
  have "a_isa_extension a3 = []" using **(1) a1(2) by (auto simp: set_target_def split: option.splits)
  with * ** have "exts = plain_extensions (a_isa a3)" by (simp add: extension_list_def plain_extensions_def)
  with set_target_fits [OF **(1)] * ** show ?thesis by simp
qed

section \<open>Simulation\<close>

text \<open>What is to be simulated, in order, and the command for it.\<close>

definition test_rounds :: "yaml \<Rightarrow> int list" where
  "test_rounds t = (case (flag_set t ''no_iss'', int_at t ''iterations'') of
     (Inr False, Inr n) \<Rightarrow> [0..n - 1] | _ \<Rightarrow> [])"

definition iss_jobs :: "sim_args \<Rightarrow> yaml list \<Rightarrow> (string \<times> yaml \<times> int) list" where
  "iss_jobs a tests = concat (map (\<lambda>iss. concat (map (\<lambda>t. map (\<lambda>i. (iss, t, i)) (test_rounds t)) tests))
     (split_char (CHR '','') (a_iss a)))"

definition job_command :: "sim_world \<Rightarrow> sim_globals \<Rightarrow> sim_args \<Rightarrow> string \<Rightarrow> string \<times> yaml \<times> int \<Rightarrow> string result" where
  "job_command w g a output_dir = (\<lambda>(iss, t, i).
     rbind (parse_iss_yaml w g a iss) (\<lambda>base. rbind (shown_at t ''test'') (\<lambda>name.
     rbind (get_iss_cmd base (output_dir @ ''/asm_tests/'' @ name @ ''_'' @ py_str i @ ''.o'') (a_target a)
       (output_dir @ ''/'' @ iss @ ''_sim/'' @ name @ ''_'' @ py_str i @ ''.'' @ a_target a @ ''.log'')) (\<lambda>cmd.
     rbind (y_in ''iss_opts'' t) (\<lambda>b. rbind (extra t ''iss_opts'') (\<lambda>opts. ret (cmd @ (if b then '' '' @ opts else []))))))))"

definition runs_job :: "sim_world \<Rightarrow> sim_globals \<Rightarrow> sim_args \<Rightarrow> string \<Rightarrow> string \<times> yaml \<times> int \<Rightarrow> sim_effect \<Rightarrow> bool" where
  "runs_job w g a output_dir job e \<longleftrightarrow> (\<exists>cmd. job_command w g a output_dir job = Inr cmd
     \<and> e = Run cmd (Some (a_iss_timeout a)) (fst job \<noteq> ''ovpsim'') (a_debug a))"

lemma filter_none: "list_all (\<lambda>e. \<not> is_run e) es \<Longrightarrow> filter is_run es = []"
  by (induction es) auto

lemma report_silent: "emits (\<lambda>e. \<not> is_run e) (generate_yaml_report w path target isa t tln iss b i)"
  unfolding generate_yaml_report_def by (intro emitting emits_do) (simp add: is_run_def)

lemma tandem_silent: "emits (\<lambda>e. \<not> is_run e) (tandem_postprocess w path target isa t l tln iss i)"
  unfolding tandem_postprocess_def by (intro emitting tool.emits_perform report_silent) (simp add: is_run_def)

lemma timed_trace:
  "done_with (run_timed w debug cmd timeout check) h = (Inr (), h') \<Longrightarrow> h' = h @ [Run cmd (Some timeout) check debug]"
  by (auto simp: done_with_def run_timed_def io_ret_def dest!: tool.perform_then)

lemma simulate_trace:
  assumes "simulate w a iss cmd timeout check path l t tln i h = (Inr (), h')"
  shows "\<exists>es. h' = h @ es \<and> filter is_run es = [Run cmd (Some timeout) check (a_debug a)]"
proof -
  from assms obtain h1 h2 where *: "io_when (iss \<noteq> ''spike'' \<and> s_tandem w)
        (generate_yaml_report w path (a_target a) (a_isa a) t tln iss True i) h = (Inr (), h1)"
      "done_with (run_timed w (a_debug a) cmd timeout check) h1 = (Inr (), h2)"
      "io_when (iss \<noteq> ''spike'' \<and> s_tandem w)
        (tandem_postprocess w path (a_target a) (a_isa a) t l tln iss i) h2 = (Inr (), h')"
    by (auto simp: simulate_def io_bind_Inr Let_def)
  from emits_trace [OF emits_when [OF report_silent] *(1)] timed_trace [OF *(2)]
    emits_trace [OF emits_when [OF tandem_silent] *(3)] filter_none
  show ?thesis by (auto simp: is_run_def)
qed

lemma sim_one_trace:
  assumes "sim_one w a out iss (out @ ''/'' @ iss @ ''_sim'') base t i h = (Inr (), h')" "parse_iss_yaml w g a iss = Inr base"
  shows "\<exists>es. h' = h @ es \<and> (\<exists>e. filter is_run es = [e] \<and> runs_job w g a out (iss, t, i) e)"
  using assms
  by (auto simp: sim_one_def io_bind_Inr io_lift_def Let_def runs_job_def job_command_def generated_prefix_def
      dest!: simulate_trace)

lemma concat_runs:
  "list_all2 (\<lambda>x es. list_all2 R (jobs x) (filter is_run es)) xs ess
    \<Longrightarrow> list_all2 R (concat (map jobs xs)) (filter is_run (concat ess))"
  by (induction rule: list_all2_induct) (auto intro: list_all2_appendI)

lemma sim_tests_trace:
  assumes "sim_tests w a out iss (out @ ''/'' @ iss @ ''_sim'') base tests h = (Inr (), h')"
    "parse_iss_yaml w g a iss = Inr base"
  shows "\<exists>es. h' = h @ es
    \<and> list_all2 (runs_job w g a out) (concat (map (\<lambda>t. map (\<lambda>i. (iss, t, i)) (test_rounds t)) tests)) (filter is_run es)"
proof -
  let ?round = "sim_one w a out iss (out @ ''/'' @ iss @ ''_sim'') base"
  have rounds: "\<exists>es. h' = h @ es \<and> list_all2 (runs_job w g a out) (map (\<lambda>i. (iss, t, i)) js) (filter is_run es)"
    if run: "io_for (?round t) js h = (Inr (), h')" for t js h h'
  proof -
    from for_trace [OF _ run, where Q = "\<lambda>i es. \<exists>e. filter is_run es = [e] \<and> runs_job w g a out (iss, t, i) e"]
    obtain ess where "h' = h @ concat ess"
        "list_all2 (\<lambda>i es. \<exists>e. filter is_run es = [e] \<and> runs_job w g a out (iss, t, i) e) js ess"
      using sim_one_trace assms(2) by blast
    then show ?thesis
      using concat_runs [where jobs = "\<lambda>i. [(iss, t, i)]" and R = "runs_job w g a out" and xs = js and ess = ess]
      by (auto simp: list_all2_Cons1 concat_map_singleton elim!: list_all2_mono)
  qed
  let ?body = "\<lambda>t. io_bind (io_lift (flag_set t ''no_iss'')) (\<lambda>skip. if skip then io_ret () else
     io_bind (io_lift (int_at t ''iterations'')) (\<lambda>n. io_for (?round t) [0..n - 1]))"
  have one: "\<exists>es. h' = h @ es \<and> list_all2 (runs_job w g a out) (map (\<lambda>i. (iss, t, i)) (test_rounds t)) (filter is_run es)"
    if body: "?body t h = (Inr (), h')" for t h h'
  proof -
    from body consider "flag_set t ''no_iss'' = Inr True" "h' = h"
      | n where "flag_set t ''no_iss'' = Inr False" "int_at t ''iterations'' = Inr n" "io_for (?round t) [0..n - 1] h = (Inr (), h')"
      by (auto simp: io_bind_Inr io_lift_def io_ret_def split: if_splits)
    then show ?thesis
    proof cases
      case (2 n)
      then have "test_rounds t = [0..n - 1]" by (simp add: test_rounds_def)
      with rounds [OF 2(3)] show ?thesis by (simp only:)
    qed (simp add: test_rounds_def)
  qed
  have "\<exists>ess. h' = h @ concat ess \<and> list_all2 (\<lambda>t es. list_all2 (runs_job w g a out)
      (map (\<lambda>i. (iss, t, i)) (test_rounds t)) (filter is_run es)) tests ess"
    by (rule for_trace [OF _ assms(1) [unfolded sim_tests_def]]) (rule one)
  then obtain ess where ess: "h' = h @ concat ess" "list_all2 (\<lambda>t es. list_all2 (runs_job w g a out)
      (map (\<lambda>i. (iss, t, i)) (test_rounds t)) (filter is_run es)) tests ess"
    by (elim exE conjE) (rule that)
  from ess(1) concat_runs [OF ess(2)] show ?thesis by (intro exI conjI)
qed

text \<open>
  C33: a simulation step that ends well runs, in order and once each, every simulator on every round of every test that
  is not excluded, with the command made of the simulator's template, the program, the log and the options of the
  test; whatever else it does (directories, reports, traces) is no run.
\<close>

theorem every_job_simulated:
  assumes "iss_sim w g a tests out h = (Inr (), h')"
  shows "\<exists>es. h' = h @ es \<and> list_all2 (runs_job w g a out) (iss_jobs a tests) (filter is_run es)"
proof -
  let ?jobs = "\<lambda>iss. concat (map (\<lambda>t. map (\<lambda>i. (iss, t, i)) (test_rounds t)) tests)"
  let ?body = "\<lambda>iss. let log_dir = out @ ''/'' @ iss @ ''_sim'' in io_bind (io_lift (parse_iss_yaml w g a iss)) (\<lambda>base_cmd.
     io_seq (done_with (run_cmd_output w False [''mkdir'', ''-p'', log_dir])) (sim_tests w a out iss log_dir base_cmd tests))"
  have one: "\<exists>es. h' = h @ es \<and> list_all2 (runs_job w g a out) (?jobs iss) (filter is_run es)"
    if body: "?body iss h = (Inr (), h')" for iss h h'
  proof -
    from body obtain base h1 where *: "parse_iss_yaml w g a iss = Inr base"
        "done_with (run_cmd_output w False [''mkdir'', ''-p'', out @ ''/'' @ iss @ ''_sim'']) h = (Inr (), h1)"
        "sim_tests w a out iss (out @ ''/'' @ iss @ ''_sim'') base tests h1 = (Inr (), h')"
      by (auto simp: io_bind_Inr io_lift_def Let_def)
    have "emits (\<lambda>e. \<not> is_run e) (done_with (run_cmd_output w False [''mkdir'', ''-p'', out @ ''/'' @ iss @ ''_sim'']))"
      by (intro emitting emits_run_words) (simp add: is_run_def)
    from emits_trace [OF this *(2)] sim_tests_trace [OF *(3,1)] filter_none show ?thesis by auto
  qed
  have "\<exists>ess. h' = h @ concat ess \<and> list_all2 (\<lambda>iss es. list_all2 (runs_job w g a out) (?jobs iss) (filter is_run es))
      (split_char (CHR '','') (a_iss a)) ess"
    by (rule for_trace [OF _ assms [unfolded iss_sim_def]]) (rule one)
  then obtain ess where ess: "h' = h @ concat ess" "list_all2 (\<lambda>iss es. list_all2 (runs_job w g a out) (?jobs iss)
      (filter is_run es)) (split_char (CHR '','') (a_iss a)) ess"
    by (elim exE conjE) (rule that)
  from ess(1) concat_runs [OF ess(2)] show ?thesis unfolding iss_jobs_def by (intro exI conjI)
qed

section \<open>Further facts\<close>

text \<open>A simulator whose logs cannot be read ends the comparison with a TypeError of the message, not with its exit.\<close>

lemma unknown_simulator:
  "log_kind iss1 = None \<Longrightarrow> compare_iss_log w [iss1, iss2] [log1, log2] report h = (Inl TypeError, h)"
  by (simp add: compare_iss_log_def convert_log_def io_bind_def io_raise_def Let_def)

text \<open>The name of the list of the ISA tests loses its first letters.\<close>

lemma testlist_name_mangled:
  "testlist_name ''../tests/testlist_isacov.yaml'' = ''acov''" "testlist_name ''testlist_interrupt.yaml'' = ''nterrupt''"
  "testlist_name ''testlist_custom.yaml'' = ''custom''"
  by code_simp+

text \<open>The C tests of a list have no influence on the steps: they are never run.\<close>

lemma c_tests_never_run: "run_steps w g a out (ls\<lparr>tl_c := cs\<rparr>) = run_steps w g a out ls"
  by (simp add: run_steps_def)

text \<open>A list that imports itself ends in a RecursionError, whatever the limit is.\<close>

lemma import_cycle:
  assumes "s_yaml w f = Inr (YList [YMap [(''import'', YStr f)]])" "sub_lit (tag ''riscv_dv_root'') (s_cwd w) f = Inr f"
  shows "process_regression_list w depth f test iterations = Inl RecursionError"
  using assms
  by (induction depth) (simp_all add: list_entries_def y_in_def y_iter_def y_eq.simps str_at_def as_str_def has_key_def dict_get_def)

text \<open>With no extension asked for, the ISA of a program without compressed instructions has an empty one.\<close>

lemma empty_extension:
  assumes "g_isa_extension_list g = extension_list a" "a_isa_extension a = []" "a_isa a = ''rv32imc''"
  shows "test_march g ''rv32imc'' (YMap [(''gen_opts'', YStr ''+disable_compressed_instr=1'')]) = Inr ''rv32im__zicsr_zifencei''"
proof -
  have "re_match base_isa_re ''rv32imc'' = Some (''rv32imc'', [])" "contains ''disable_compressed_instr=1'' ''+disable_compressed_instr=1''"
      "\<not> contains ''g'' ''rv32imc''" "remove_char (CHR ''c'') ''rv32imc'' = ''rv32im''"
      "extra (YMap [(''gen_opts'', YStr ''+disable_compressed_instr=1'')]) ''gen_opts'' = Inr ''+disable_compressed_instr=1''"
    by code_simp+
  with assms show ?thesis by (simp add: test_march_def extension_list_def)
qed

section \<open>An example\<close>

definition round_test :: yaml where
  "round_test = YMap [(''test'', YStr ''t''), (''gen_test'', YStr ''g''), (''iterations'', YInt 5)]"

definition sample_args :: sim_args where
  "sample_args = (default_args ''1'')\<lparr>a_isa := ''rv32i'', a_mabi := ''ilp32'', a_batch_size := 2, a_testlist := ''t.yaml'',
     a_iss_yaml := ''i.yaml'', a_seed := Some 7, a_linker := ''l.ld''\<rparr>"

definition sample_iss :: yaml where
  "sample_iss = YList [YMap [(''iss'', YStr ''spike''), (''path_var'', YStr ''P''), (''tool_path'', YStr ''T''),
     (''tb_path'', YStr ''B''), (''cmd'', YStr ''s <elf>'')]]"

definition sample_world :: sim_world where
  "sample_world = \<lparr>s_env = (\<lambda>d n. ret n), s_tandem = False, s_yaml = (\<lambda>f. if f = ''i.yaml'' then ret sample_iss else ret (YList [round_test])),
     s_out = (\<lambda>h. ret []), s_shell = (\<lambda>h. (0, [], [])), s_report = (\<lambda>h p. ret YNone), s_is_file = (\<lambda>h p. True),
     s_random = (\<lambda>h. 1), s_abspath = (\<lambda>p. p), s_expanduser = (\<lambda>p. p), s_cwd = ''/s'', s_depth = 9, s_success = 0, s_fail = 1, s_fatal = 255\<rparr>"

definition sample_gen :: seed_gen where
  "sample_gen = \<lparr>sg_fixed = None, sg_start = Some 100, sg_rerun = YMap []\<rparr>"

definition sample_globals :: sim_globals where
  "sample_globals = \<lparr>g_isscomp_opts = [], g_issrun_opts = [], g_isspostrun_opts = [], g_test_iteration = 0,
     g_log_format = Some 0, g_isa_extension_list = [[]]\<rparr>"

definition is_done :: "'a result \<times> sim_effect list \<Rightarrow> bool" where
  "is_done p = (case fst p of Inl e \<Rightarrow> False | Inr x \<Rightarrow> True)"

lemma is_doneD: "is_done p \<Longrightarrow> \<exists>x h. p = (Inr x, h)"
  by (cases p) (auto simp: is_done_def split: sum.splits)

theorem generated_in_batches_witness:
  "\<exists>st' h' cmds. run_generated sample_world sample_args True sample_gen ''run'' ''o'' ([], []) round_test [] = (Inr st', h')
    \<and> issued sample_args True cmds ([], []) st' h' \<and> length cmds = 3"
proof -
  have "is_done (run_generated sample_world sample_args True sample_gen ''run'' ''o'' ([], []) round_test [])" by code_simp
  then obtain st' h' where run: "run_generated sample_world sample_args True sample_gen ''run'' ''o'' ([], []) round_test [] = (Inr st', h')"
    by (auto dest: is_doneD)
  have "int_at round_test ''iterations'' = Inr 5" "str_at round_test ''test'' = Inr ''t''" "batch_count 5 (a_batch_size sample_args) = Inr 3"
      "5 + a_batch_size sample_args \<le> 2 ^ 53" "0 \<le> a_batch_size sample_args" by code_simp+
  with generated_in_batches [OF run, of 5 "''t''"] obtain cmds es where
    "h' = [] @ es" "issued sample_args True cmds ([], []) st' es" "length cmds = length [0..3 - (1::int)]"
    by (auto dest: list_all2_lengthD)
  with run show ?thesis by auto
qed

definition seeded_args :: sim_args where
  "seeded_args = sample_args\<lparr>a_iterations := 1\<rparr>"

lemma both_Inr: "(case (x, y) of (Inr a, Inr b) \<Rightarrow> P a b | _ \<Rightarrow> False) \<longleftrightarrow> (\<exists>a b. x = Inr a \<and> y = Inr b \<and> P a b)"
  by (cases x; cases y) auto

theorem fixed_seed_is_used_witness:
  "case load_config sample_world (Inl KeyError) seeded_args [] of
     (Inl e, h') \<Rightarrow> False
   | (Inr (b, hw, exts), h') \<Rightarrow> (case (collect_tests sample_world hw b, new_seed_gen sample_world (a_start_seed b) (a_seed b) None) of
       (Inr ls, Inr g) \<Rightarrow> tl_generated ls \<noteq> [] \<and> list_all (\<lambda>t. int_at t ''iterations'' = Inr 1) (tl_generated ls)
         \<and> seed_get sample_world g ''t_0'' 0 [] = (Inr (YInt 7), [])
     | _ \<Rightarrow> False)"
proof -
  have args: "check_seeds sample_world sample_args = Inr seeded_args" "a_seed sample_args = Some 7" "0 \<le> a_iterations sample_args"
    by (simp_all add: check_seeds_def seeded_args_def sample_args_def default_args_def)
  have "case load_config sample_world (Inl KeyError) seeded_args [] of
     (Inl e, h') \<Rightarrow> False
   | (Inr (b, hw, exts), h') \<Rightarrow> (case (collect_tests sample_world hw b, new_seed_gen sample_world (a_start_seed b) (a_seed b) None) of
       (Inr ls, Inr g) \<Rightarrow> tl_generated ls \<noteq> [] | _ \<Rightarrow> False)" by code_simp
  then obtain b hw exts h' ls g where loaded: "load_config sample_world (Inl KeyError) seeded_args [] = (Inr (b, hw, exts), h')"
      "collect_tests sample_world hw b = Inr ls" "new_seed_gen sample_world (a_start_seed b) (a_seed b) None = Inr g"
      "tl_generated ls \<noteq> []"
    unfolding both_Inr by (auto split: prod.split_asm sum.split_asm)
  from fixed_seed_is_used [OF args loaded(1-3), of "''t_0''" "[]"] have
    "list_all (\<lambda>t. int_at t ''iterations'' = Inr 1) (tl_generated ls)" "seed_get sample_world g ''t_0'' 0 [] = (Inr (YInt 7), [])"
    by auto
  with loaded show ?thesis unfolding both_Inr by simp
qed

lemma predefined_targets_fit_witness:
  "case load_config sample_world (Inl KeyError) (sample_args\<lparr>a_target := ''cv64a6_imafdc_sv39''\<rparr>) [] of
     (Inl e, h') \<Rightarrow> False | (Inr (b, hw, exts), h') \<Rightarrow> abi_fits (a_mabi b) (full_isa exts (a_isa b))"
proof -
  have "is_done (load_config sample_world (Inl KeyError) (sample_args\<lparr>a_target := ''cv64a6_imafdc_sv39''\<rparr>) [])" by code_simp
  moreover have "a_custom_target (sample_args\<lparr>a_target := t\<rparr>) = []" "a_core_setting_dir (sample_args\<lparr>a_target := t\<rparr>) = []"
      "a_isa_extension (sample_args\<lparr>a_target := t\<rparr>) = []" for t by (simp_all add: sample_args_def default_args_def)
  ultimately show ?thesis
    using predefined_targets_fit [of sample_world "Inl KeyError" "sample_args\<lparr>a_target := ''cv64a6_imafdc_sv39''\<rparr>" "[]"]
    by (auto dest!: is_doneD)
qed

theorem every_job_simulated_witness:
  "case iss_sim sample_world sample_globals sample_args [round_test] ''o'' [] of
     (r, es) \<Rightarrow> r = Inr () \<and> list_all2 (runs_job sample_world sample_globals sample_args ''o'')
       (iss_jobs sample_args [round_test]) (filter is_run es) \<and> length (filter is_run es) = 5"
proof -
  have "is_done (iss_sim sample_world sample_globals sample_args [round_test] ''o'' [])" by code_simp
  then obtain h' where run: "iss_sim sample_world sample_globals sample_args [round_test] ''o'' [] = (Inr (), h')"
    by (auto dest: is_doneD)
  have "length (iss_jobs sample_args [round_test]) = 5" by code_simp
  with every_job_simulated [OF run] run show ?thesis by (auto dest: list_all2_lengthD)
qed

end
