(* ===== verification/Tools.thy ===== *)
theory Tools
  imports Py_Regex Py_Dict Py_Float_Facts Boot_Rom
begin

text \<open>
  Small tools: the gate counts of a synthesis report (\<open>pd/synth/scripts/gate_analysis.py\<close>), the samples of a logic
  analyser (\<open>util/parse_ila_trace.py\<close>), the coloured comparison of decoded traces
  (\<open>corev_apu/instr_tracing/Decapsuler/diff_color.py\<close>), the other
  two scripts of \<open>instr_tracing\<close>, and the check that Linux boots on the FPGA
  (\<open>corev_apu/fpga/scripts/linux_boot.py\<close>). The rows of a CSV file are given; what is printed is the result.
\<close>

section \<open>Gate counts\<close>

text \<open>Which cells of the hierarchy are counted.\<close>

definition counted_cell :: "string \<Rightarrow> bool" where
  "counted_cell ipname =
     (let n = count_char (CHR ''/'') ipname in
      n = 0
      \<or> (n = 1 \<and> contains ''ex_stage_i'' ipname)
      \<or> (n = 1 \<and> contains ''i_cache_subsystem'' ipname \<and> \<not> contains ''stream'' ipname)
      \<or> (n = 1 \<and> contains ''issue_stage_i'' ipname)
      \<or> (n = 2 \<and> contains ''ex_stage_i'' ipname)
      \<or> contains ''i_issue_read_operands'' ipname)"

definition cell_area :: "string list \<Rightarrow> string option" where
  "cell_area ws = find (\<lambda>w. w \<noteq> []) (tl ws)"

record gates =
  gt_flag :: bool
  gt_printed :: "string list"
  gt_block :: "(string, int) dict"

text \<open>The number printed is rounded, the one kept is cut off.\<close>

definition count_cell :: "int \<Rightarrow> string \<Rightarrow> string \<Rightarrow> gates \<Rightarrow> gates result" where
  "count_cell gatesize ipname area s =
     rbind (py_int 10 (hd (split_char (CHR ''.'') area))) (\<lambda>a. rbind (int_div a gatesize) (\<lambda>q.
     rbind (int_of_float q) (\<lambda>n.
     ret (s\<lparr>gt_printed := gt_printed s @ [ljust 50 ipname @ '' '' @ format_fixed 0 q @ '' kg''],
            gt_block := AList.update ipname n (gt_block s)\<rparr>))))"

definition gate_line :: "int \<Rightarrow> gates \<Rightarrow> string \<Rightarrow> gates result" where
  "gate_line gatesize s l =
     (let s = s\<lparr>gt_flag := gt_flag s \<or> contains ''Hierarchical cell'' l\<rparr>; ws = split_char (CHR '' '') l; ipname = hd ws in
      if \<not> gt_flag s \<or> \<not> counted_cell ipname then ret s
      else case cell_area ws of
        None \<Rightarrow> ret s
      | Some area \<Rightarrow>
          if contains ''.'' area \<and> \<not> contains ''Total'' ipname then count_cell gatesize ipname area s else ret s)"

definition process_elf :: "string \<Rightarrow> int \<Rightarrow> string \<Rightarrow> (string list \<times> (string, int) dict) result" where
  "process_elf name gatesize content =
     rbind (foldR (gate_line gatesize) \<lparr>gt_flag = False, gt_printed = [name], gt_block = []\<rparr> (read_lines content)) (\<lambda>s.
     ret (gt_printed s, gt_block s))"

section \<open>Logic analyser\<close>

definition cell :: "string list \<Rightarrow> nat \<Rightarrow> string result" where
  "cell row i = (if i < length row then ret (row ! i) else raise IndexError)"

definition ila_row :: "string list \<Rightarrow> string list \<Rightarrow> string list result" where
  "ila_row out row =
     rbind (cell row 5) (\<lambda>valid0. rbind (if valid0 = ''1'' then rbind (cell row 3) (\<lambda>x. ret (out @ [x])) else ret out) (\<lambda>out.
     rbind (cell row 6) (\<lambda>valid1. if valid1 = ''1'' then rbind (cell row 4) (\<lambda>x. ret (out @ [x])) else ret out)))"

definition ila_trace :: "string list list \<Rightarrow> string list result" where
  "ila_trace rows = foldR ila_row [] rows"

section \<open>Coloured comparison\<close>

definition esc :: char where "esc = CHR 0x1B"

definition coloured :: "string \<Rightarrow> string \<Rightarrow> string" where
  "coloured number s = [esc] @ ''['' @ number @ ''m'' @ s @ [esc] @ ''[0m''"

definition gray :: "string \<Rightarrow> string" where "gray = coloured ''90''"
definition red :: "string \<Rightarrow> string" where "red = coloured ''91''"
definition green :: "string \<Rightarrow> string" where "green = coloured ''92''"
definition white :: "string \<Rightarrow> string" where "white = coloured ''97''"

definition colour_re :: re where
  "colour_re = seqs [Sat (\<lambda>c. c = esc), lit ''['', many (Sat (\<lambda>c. is_digit c \<or> c = CHR '';'')), lit ''m'']"

definition strip_colours :: "string \<Rightarrow> string" where
  "strip_colours s = re_sub colour_re (\<lambda>x g. []) s"

definition read_csv_to_matrix :: "string list list \<Rightarrow> (string list \<times> string list list) result" where
  "read_csv_to_matrix rows = (case rows of [] \<Rightarrow> raise IndexError | header # data \<Rightarrow> ret (header, data))"

definition format_value :: "string option \<Rightarrow> string \<Rightarrow> string" where
  "format_value val_gen val_ref = (case val_gen of
     None \<Rightarrow> red ''NDF'' @ white '' -> '' @ green val_ref
   | Some v \<Rightarrow> if v = val_ref then gray v else red v @ white '' -> '' @ green val_ref)"

definition at_cell :: "string list list \<Rightarrow> nat \<Rightarrow> nat \<Rightarrow> string option" where
  "at_cell m r c = (if r < length m \<and> c < length (m ! r) then Some (m ! r ! c) else None)"

definition compare_matrices :: "string list \<Rightarrow> string list list \<Rightarrow> string list list \<Rightarrow> string list list" where
  "compare_matrices header gen_data ref_data =
     map (\<lambda>r. map (\<lambda>c. format_value (at_cell gen_data r c) (case at_cell ref_data r c of None \<Rightarrow> [] | Some v \<Rightarrow> v))
       [0..<length header]) [0..<max (length gen_data) (length ref_data)]"

text \<open>\<open>s.center(w)\<close>: the odd blank is on the left for an odd width.\<close>

definition center :: "nat \<Rightarrow> string \<Rightarrow> string" where
  "center w s =
     (let pad = w - length s; left = pad div 2 + (if odd pad \<and> odd w then 1 else 0)
      in replicate left (CHR '' '') @ s @ replicate (pad - left) (CHR '' ''))"

text \<open>The width of a column; \<open>max\<close> of no rows is a ValueError.\<close>

definition column_width :: "string list \<Rightarrow> string list list \<Rightarrow> nat \<Rightarrow> nat result" where
  "column_width header matrix i =
     (if matrix = [] then raise ValueError
      else ret (max (Max (set (map (\<lambda>row. length (strip_colours (row ! i))) matrix))) (length (header ! i)) + 2))"

definition pad_cell :: "nat \<Rightarrow> string \<Rightarrow> string" where
  "pad_cell w content =
     (let pad = w - length (strip_colours content) in
      replicate (pad div 2) (CHR '' '') @ content @ replicate (pad - pad div 2) (CHR '' '') @ ''  '')"

definition print_block :: "string list \<Rightarrow> string list list \<Rightarrow> nat list \<Rightarrow> string list result" where
  "print_block header matrix block =
     rbind (mapR (column_width header matrix) block) (\<lambda>widths.
     ret ([concat (map (\<lambda>(i, w). center w (header ! i) @ ''  '') (zip block widths))]
       @ map (\<lambda>row. concat (map (\<lambda>(i, w). pad_cell w (row ! i)) (zip block widths))) matrix @ [[newline]]))"

fun blocks :: "nat \<Rightarrow> nat \<Rightarrow> nat \<Rightarrow> nat list list" where
  "blocks 0 start n = []"
| "blocks (Suc fuel) start n =
     (if start \<ge> n then [] else [start..<min (start + 14) n] # blocks fuel (start + 14) n)"

definition print_column_by_column :: "string list \<Rightarrow> string list list \<Rightarrow> string list result" where
  "print_column_by_column header matrix =
     rbind (mapR (print_block header matrix) (blocks (length header) 0 (length header))) (\<lambda>bs. ret (concat bs))"

definition diff_color_main :: "string list list \<Rightarrow> string list list \<Rightarrow> string list result" where
  "diff_color_main gen_rows ref_rows =
     rbind (read_csv_to_matrix gen_rows) (\<lambda>(_, gen_data). rbind (read_csv_to_matrix ref_rows) (\<lambda>(header, ref_data).
     print_column_by_column header (compare_matrices header gen_data ref_data)))"

section \<open>A readable table\<close>

text \<open>\<open>affiche_csv.py\<close>; the reading and the layout of a table are those of pandas, which is an argument.\<close>

definition basename :: "string \<Rightarrow> string" where
  "basename path = last (split_char (CHR ''/'') path)"

definition affiche_csv ::
  "(string \<Rightarrow> string option) \<Rightarrow> (string \<Rightarrow> string result) \<Rightarrow> string \<Rightarrow> (string \<times> string) result" where
  "affiche_csv files pandas csv_path = (case files csv_path of
     None \<Rightarrow> raise (SystemExit 1)
   | Some text \<Rightarrow> rbind (pandas text) (\<lambda>table. ret (splitext_root (basename csv_path) @ ''_output.txt'', table)))"

section \<open>Throughput\<close>

text \<open>\<open>script.py\<close>: a line holds two fields, or is passed over like one whose fields are no numbers.\<close>

definition packet_of :: "string \<Rightarrow> (int \<times> pyfloat) result" where
  "packet_of line = (case split_char (CHR '':'') line of
     [pkt_str, tp_str] \<Rightarrow> rbind (py_int 10 (strip pkt_str)) (\<lambda>pkt. rbind (py_float (strip tp_str)) (\<lambda>tp. ret (pkt, tp)))
   | _ \<Rightarrow> raise ValueError)"

definition log_line :: "(int \<times> pyfloat) list \<Rightarrow> string \<Rightarrow> (int \<times> pyfloat) list result" where
  "log_line pkts line =
     (let line = strip line in
      if line = [] \<or> CHR '':'' \<notin> set line \<or> starts_with ''NR_PKT'' line then ret pkts
      else case packet_of line of
        Inl e \<Rightarrow> (if e = ValueError then ret pkts else raise e)
      | Inr p \<Rightarrow> ret (pkts @ [p]))"

definition parse_log :: "string \<Rightarrow> (int \<times> pyfloat) list result" where
  "parse_log text = foldR log_line [] (read_lines text)"

text \<open>The points that are printed and plotted; the arguments come with the name of the script.\<close>

definition receiver_main :: "(string \<Rightarrow> string option) \<Rightarrow> string list \<Rightarrow> (int \<times> pyfloat) list result" where
  "receiver_main files argv = (case argv of
     [_, log_file] \<Rightarrow>
       rbind (of_option FileNotFoundError (files log_file)) (\<lambda>text. rbind (parse_log text) (\<lambda>pkts.
       if pkts = [] then raise (SystemExit 1) else ret pkts))
   | _ \<Rightarrow> raise (SystemExit 1))"

section \<open>Linux boot\<close>

text \<open>
  The loop reads a character and the rest of the line, both empty after a timeout. The state is the report, what was sent
  and the exit code once there is one.
\<close>

record boot =
  bo_report :: string
  bo_sent :: string
  bo_exit :: "int option"

definition boot_init :: boot where
  "boot_init = \<lparr>bo_report = [], bo_sent = [], bo_exit = None\<rparr>"

definition boot_step :: "boot \<Rightarrow> string \<times> string \<Rightarrow> boot" where
  "boot_step s = (\<lambda>(first, line).
     if bo_exit s \<noteq> None then s
     else
       let content = first @ line; s = s\<lparr>bo_report := bo_report s @ content\<rparr> in
       if first \<noteq> ''#'' \<and> content = [] then s\<lparr>bo_exit := Some 1\<rparr>
       else
         let s = (if first = ''#'' \<and> line = '' '' then s\<lparr>bo_sent := bo_sent s @ ''uname -a'' @ [newline]\<rparr> else s) in
         if contains ''Linux buildroot'' content \<and> contains ''riscv'' content then s\<lparr>bo_exit := Some 0\<rparr> else s)"

definition linux_boot :: "(string \<times> string) list \<Rightarrow> boot" where
  "linux_boot reads = foldl boot_step boot_init reads"

section \<open>Facts\<close>

text \<open>Up to \<open>2 ^ 53\<close> the gates kept are the integer quotient of the area.\<close>

lemma counted_gates:
  assumes "py_int 10 (hd (split_char (CHR ''.'') area)) = Inr a" "0 \<le> a" "a < 2 ^ 53" "0 < gatesize"
  shows "\<exists>q. count_cell gatesize ipname area s = Inr (s\<lparr>
      gt_printed := gt_printed s @ [ljust 50 ipname @ '' '' @ format_fixed 0 q @ '' kg''],
      gt_block := AList.update ipname (a div gatesize) (gt_block s)\<rparr>)"
  using int_div_floor [OF assms(2-4)] assms(1) by (auto simp: count_cell_def)

text \<open>A log is always read to its end: a line that is no pair of numbers is passed over.\<close>

lemma packet_errors: "packet_of line = Inl e \<Longrightarrow> e = ValueError"
  by (auto simp: packet_of_def py_int_def py_float_def rbind_eq_Inl Let_def split: list.splits prod.splits if_splits)

lemma parse_log_ends: "\<exists>pkts. parse_log s = Inr pkts"
proof -
  have "\<exists>pkts. foldR log_line acc ls = Inr pkts" for acc ls
  proof (induction ls arbitrary: acc)
    case (Cons l ls)
    have "\<exists>acc'. log_line acc l = Inr acc'"
      using packet_errors [of "strip l"] by (auto simp: log_line_def Let_def split: sum.splits)
    with Cons.IH show ?case by fastforce
  qed simp
  then show ?thesis by (simp add: parse_log_def)
qed


text \<open>The check succeeds exactly when a line names the system before the first timeout.\<close>

definition names_system :: "string \<times> string \<Rightarrow> bool" where
  "names_system r \<longleftrightarrow> contains ''Linux buildroot'' (fst r @ snd r) \<and> contains ''riscv'' (fst r @ snd r)"

lemma boot_settled: "bo_exit s \<noteq> None \<Longrightarrow> foldl boot_step s reads = s"
  by (induction reads) (auto simp: boot_step_def)

lemma boot_exit:
  "bo_exit s = None \<Longrightarrow> bo_exit (foldl boot_step s reads) =
     (case dropWhile (\<lambda>r. r \<noteq> ([], []) \<and> \<not> names_system r) reads of [] \<Rightarrow> None | r # _ \<Rightarrow> Some (if r = ([], []) then 1 else 0))"
proof (induction reads arbitrary: s)
  case (Cons r reads)
  obtain first line where r: "r = (first, line)" by (cases r)
  have e: "bo_exit (boot_step s r) = (if r = ([], []) then Some 1 else if names_system r then Some 0 else None)"
    using Cons.prems by (auto simp: boot_step_def r names_system_def Let_def)
  show ?case
  proof (cases "bo_exit (boot_step s r) = None")
    case True
    with Cons.IH [OF True] e show ?thesis by (auto split: if_splits)
  next
    case False
    with boot_settled [OF False] e show ?thesis by (auto split: if_splits)
  qed
qed simp

lemma linux_boot_exit:
  "bo_exit (linux_boot reads) =
     (case dropWhile (\<lambda>r. r \<noteq> ([], []) \<and> \<not> names_system r) reads of [] \<Rightarrow> None | r # _ \<Rightarrow> Some (if r = ([], []) then 1 else 0))"
  by (simp add: linux_boot_def boot_exit boot_init_def)

text \<open>The columns of the blocks are all columns, once each.\<close>

lemma blocks_cover: "n \<le> start + fuel \<Longrightarrow> concat (blocks fuel start n) = [start..<n]"
proof (induction fuel arbitrary: start)
  case (Suc fuel)
  show ?case
  proof (cases "n \<le> start")
    case False
    then show ?thesis
      using Suc.IH [of "start + 14"] Suc.prems upt_add_eq_append [of start "start + 14" "n - (start + 14)"]
      by (cases "start + 14 \<le> n") (simp_all add: min_def)
  qed simp
qed simp

lemma compare_matrices_shape:
  "length (compare_matrices header gen_data ref_data) = max (length gen_data) (length ref_data)"
  "row \<in> set (compare_matrices header gen_data ref_data) \<Longrightarrow> length row = length header"
  by (auto simp: compare_matrices_def)

text \<open>A cell is gray exactly when the generated value is there and equals the expected one.\<close>

lemma gray_iff: "esc \<notin> set v \<Longrightarrow> format_value val_gen val_ref = gray v \<longleftrightarrow> val_gen = Some v \<and> val_ref = v"
  by (auto simp: format_value_def gray_def red_def coloured_def split: option.splits)

text \<open>Two files with nothing but headers end in a ValueError.\<close>

lemma no_rows: "header \<noteq> [] \<Longrightarrow> diff_color_main [h] [header] = Inl ValueError"
  by (cases header)
    (simp_all add: diff_color_main_def read_csv_to_matrix_def compare_matrices_def print_column_by_column_def print_block_def
      column_width_def upt_conv_Cons min_def)

end
