(* ===== verification/Profile_Main.thy ===== *)
theory Profile_Main
  imports Profile_Facts Py_Float "HOL-Library.Multiset"
begin

text \<open>
  The script of the profiler, the end of \<open>perf-model/profile.py\<close>: the trace it prints with the calls and returns between
  its lines, the cycles and the instructions per cycle, and what it hands to \<open>flameprof\<close> for the two drawings.
\<close>

section \<open>Instructions per cycle\<close>

definition float_zero :: pyfloat where
  "float_zero = Fin False 0 least_exponent"

definition ipc :: "stat \<Rightarrow> pyfloat result" where
  "ipc s = (if s_tt s > 0 then int_div (s_icount s) (s_tt s) else ret float_zero)"

text \<open>\<open>p > q\<close> on pairs of a float and a name, and the sort from the largest to the smallest.\<close>

definition pair_greater :: "pyfloat \<times> string \<Rightarrow> pyfloat \<times> string \<Rightarrow> bool" where
  "pair_greater = (\<lambda>(x, a) (y, b). float_less y x \<or> \<not> float_less x y \<and> str_greater a b)"

fun insert_falling :: "pyfloat \<times> string \<Rightarrow> (pyfloat \<times> string) list \<Rightarrow> (pyfloat \<times> string) list" where
  "insert_falling p [] = [p]"
| "insert_falling p (q # qs) = (if pair_greater q p then q # insert_falling p qs else p # q # qs)"

definition ipcs_of :: "pstats \<Rightarrow> (pyfloat \<times> string) list result" where
  "ipcs_of stats = rbind (mapR (\<lambda>(func, stat). rbind (ipc stat) (\<lambda>x. ret (x, func))) stats) (\<lambda>ipcs.
     ret (foldr insert_falling ipcs []))"

definition ipc_line :: "pyfloat \<times> string \<Rightarrow> string" where
  "ipc_line = (\<lambda>(x, func). format_fixed 2 x @ '' IPC for '' @ func)"

section \<open>The trace\<close>

text \<open>
  The instruction of an event is recognised by its identity, here by its place: the number of instructions up to
  it is the sum of those the events count. The last event has no event after it to compare with.
\<close>

definition event_places :: "pevent list \<Rightarrow> int list" where
  "event_places events = map (\<lambda>k. sum_list (map ev_icount (take (Suc k) events))) [0..<length events]"

definition arrow_line :: "pevent list \<Rightarrow> nat \<Rightarrow> string" where
  "arrow_line events k = ''>>> '' @ (case format_stack_change (ev_stack (events ! k)) (ev_stack (events ! Suc k)) of
     None \<Rightarrow> ''None'' | Some t \<Rightarrow> t)"

definition trace_step :: "pevent list \<Rightarrow> string list \<times> nat \<Rightarrow> int \<times> rvfi_instr \<Rightarrow> string list \<times> nat" where
  "trace_step events = (\<lambda>(out, i_event) (i, instr).
     if i_event + 1 < length events \<and> event_places events ! i_event = i
     then (out @ [arrow_line events i_event, ri_line instr], i_event + 1)
     else (out @ [ri_line instr], i_event))"

definition printed_trace :: "pevent list \<Rightarrow> rvfi_instr list \<Rightarrow> string list" where
  "printed_trace events instructions = fst (foldl (trace_step events) ([], 0) (number 0 instructions))"

section \<open>The script\<close>

record profile_output =
  po_printed :: "string list"
  po_drawings :: "(string \<times> ((string \<times> int \<times> string) \<times>
     (int \<times> int \<times> int \<times> int \<times> ((string \<times> int \<times> string) \<times> (int \<times> int \<times> int \<times> int)) list)) list) list"

definition script_arguments :: "string list \<Rightarrow> (string \<times> string \<times> string) result" where
  "script_arguments argv = (case argv of
     [_, elf_file, trace_file, path_svg] \<Rightarrow>
       rbind (assertR (ends_with ''.svg'' path_svg)) (\<lambda>_. ret (elf_file, trace_file, path_svg))
   | _ \<Rightarrow> raise AssertionError)"

definition profile_script :: "asm_func list \<Rightarrow> rvfi_instr list \<Rightarrow> string \<Rightarrow> profile_output result" where
  "profile_script functions instructions path_svg =
     (let events = run_all functions instructions in
      rbind (build_stats events False) (\<lambda>stats.
      let duration = sum_list (map ev_duration events); icount = sum_list (map ev_icount events) in
      rbind (int_div icount duration) (\<lambda>total_ipc.
      rbind (ipcs_of stats) (\<lambda>ipcs.
      rbind (build_stats events True) (\<lambda>inst_stats.
      ret \<lparr>po_printed = printed_trace events instructions
             @ [''duration: '' @ py_str duration, ''icount: '' @ py_str icount, ''IPC: '' @ py_repr total_ipc]
             @ map ipc_line ipcs @ map (\<lambda>(f, s). f @ '': '' @ py_str (s_ct s)) inst_stats,
           po_drawings = [(path_svg, render_input stats),
             (take (length path_svg - 4) path_svg @ ''_with_ins.svg'', render_input inst_stats)]\<rparr>)))))"

definition profile_main :: "(string \<Rightarrow> string option) \<Rightarrow> string list \<Rightarrow> profile_output result" where
  "profile_main files argv =
     rbind (script_arguments argv) (\<lambda>(elf_file, trace_file, path_svg).
     rbind (of_option FileNotFoundError (files elf_file)) (\<lambda>elf. rbind (load_elf elf) (\<lambda>functions.
     rbind (of_option FileNotFoundError (files trace_file)) (\<lambda>text. rbind (load_trace text) (\<lambda>instructions.
     profile_script functions instructions path_svg)))))"

section \<open>Facts\<close>

text \<open>Every function with statistics is listed once.\<close>

lemma mset_insert_falling: "mset (insert_falling p qs) = add_mset p (mset qs)"
  by (induction qs) auto

lemma ipcs_complete: "ipcs_of stats = Inr ipcs \<Longrightarrow> mset (map snd ipcs) = mset (map fst stats)"
proof -
  have sorted: "mset (foldr insert_falling xs []) = mset xs" for xs
    by (induction xs) (simp_all add: mset_insert_falling)
  have "mapR (\<lambda>(func, stat). rbind (ipc stat) (\<lambda>x. ret (x, func))) d = Inr ys \<Longrightarrow> map snd ys = map fst d" for d ys
    by (induction d arbitrary: ys) auto
  moreover assume "ipcs_of stats = Inr ipcs"
  ultimately obtain xs where "map snd xs = map fst stats" "ipcs = foldr insert_falling xs []" by (auto simp: ipcs_of_def)
  with sorted [of xs] show ?thesis by (metis mset_map)
qed

text \<open>The places of the events grow, so that an arrow is printed for every event but the last, before the line of its instruction.\<close>

lemma event_places_snoc: "event_places (es @ [e]) = event_places es @ [sum_list (map ev_icount (es @ [e]))]"
  by (simp add: event_places_def)

lemma places_grow:
  "run_sums is (after_run fns is) \<and> sorted_wrt (<) (event_places (rs_events (after_run fns is)))
    \<and> (\<forall>p \<in> set (event_places (rs_events (after_run fns is))). 0 \<le> p \<and> p < int (length is))"
proof (induction rule: after_run_induct)
  case Nil
  then show ?case by (simp add: run_sums_def run_init_def event_places_def)
next
  case (quiet "is" i s)
  with executed_weight [of s i] show ?case by (fastforce simp: run_sums_def)
next
  case (event "is" i s cs)
  then show ?case by (auto simp: run_sums_def event_of_def event_places_snoc sorted_wrt_append)
qed

lemma none_reached:
  assumes "sorted_wrt (<) (p # ps)" "(n::int) \<le> p"
  shows "filter (\<lambda>q. q < n) ps = []" "filter (\<lambda>q. q < n + 1) ps = []" "filter (\<lambda>k. ps ! k = n) [0..<length ps] = []"
proof -
  have "\<forall>q \<in> set ps. n < q" using assms by auto
  then show "filter (\<lambda>q. q < n) ps = []" "filter (\<lambda>q. q < n + 1) ps = []" "filter (\<lambda>k. ps ! k = n) [0..<length ps] = []"
    by (auto simp: filter_empty_conv)
qed

lemma place_reached:
  "sorted_wrt (<) ps \<Longrightarrow> filter (\<lambda>k. ps ! k = (n::int)) [0..<length ps]
      = (let j = length (filter (\<lambda>p. p < n) ps) in if j < length ps \<and> ps ! j = n then [j] else [])"
proof (induction ps)
  case (Cons p ps)
  have "filter (\<lambda>k. (p # ps) ! k = n) [0..<length (p # ps)]
      = (if p = n then [0] else []) @ map Suc (filter (\<lambda>k. ps ! k = n) [0..<length ps])"
    by (simp add: upt_conv_Cons map_Suc_upt [symmetric] filter_map o_def del: upt_Suc)
  with Cons none_reached [OF Cons.prems] show ?case by (cases "p < n") (simp_all add: Let_def)
qed simp

lemma place_passed:
  "sorted_wrt (<) ps \<Longrightarrow> length (filter (\<lambda>p. p < (n::int) + 1) ps)
      = (let j = length (filter (\<lambda>p. p < n) ps) in if j < length ps \<and> ps ! j = n then j + 1 else j)"
proof (induction ps)
  case (Cons p ps)
  with none_reached [OF Cons.prems] show ?case by (cases "p < n") (auto simp: Let_def)
qed simp

lemma printed_lines:
  assumes "sorted_wrt (<) (event_places es)" "\<forall>p \<in> set (event_places es). 0 \<le> p"
  shows "foldl (trace_step es) ([], 0) (number 0 is) =
    (concat (map (\<lambda>(i, instr). map (arrow_line es) (filter (\<lambda>k. event_places es ! k = i) [0..<length es - 1]) @ [ri_line instr])
       (number 0 is)), length (filter (\<lambda>p. p < int (length is)) (butlast (event_places es))))"
proof (induction "is" rule: rev_induct)
  case Nil
  have "filter (\<lambda>p. p < 0) (butlast (event_places es)) = []"
    using assms(2) by (auto simp: filter_empty_conv dest!: in_set_butlastD)
  then show ?case by simp
next
  case (snoc i "is")
  define ps where "ps = butlast (event_places es)"
  define j where "j = length (filter (\<lambda>p. p < int (length is)) ps)"
  have len: "length ps = length es - 1" by (simp add: ps_def event_places_def)
  have grow: "sorted_wrt (<) ps"
    using assms(1) by (cases "event_places es" rule: rev_cases) (simp_all add: ps_def sorted_wrt_append)
  have same: "ps ! k = event_places es ! k" if "k < length es - 1" for k using that len by (simp add: ps_def nth_butlast)
  have keep: "filter (\<lambda>k. event_places es ! k = m) [0..<length es - 1] = filter (\<lambda>k. ps ! k = m) [0..<length ps]" for m
    unfolding len by (intro filter_cong) (auto simp: same)
  have step: "j + 1 < length es \<and> event_places es ! j = int (length is) \<longleftrightarrow> j < length ps \<and> ps ! j = int (length is)"
    using same [of j] len by auto
  show ?case
    unfolding number_snoc foldl_append snoc.IH keep ps_def [symmetric]
    using place_reached [OF grow, of "int (length is)"] place_passed [OF grow, of "int (length is)"] step
    by (simp add: trace_step_def j_def [symmetric] Let_def add.commute)
qed

text \<open>Between the stacks of consecutive events there is a call or a return, which is what the arrow names.\<close>

lemma profile_printed:
  assumes "run_all fns is = es"
  shows "printed_trace es is = concat (map (\<lambda>(i, instr).
      map (arrow_line es) (filter (\<lambda>k. event_places es ! k = i) [0..<length es - 1]) @ [ri_line instr]) (number 0 is))"
  using places_grow [of "is" fns] printed_lines [of es "is"] assms
  by (simp add: printed_trace_def run_all_after)

lemma arrow_names:
  assumes "Suc k < length (run_all fns is)"
  shows "(\<exists>f. ev_stack (run_all fns is ! Suc k) = ev_stack (run_all fns is ! k) @ [f]
      \<and> arrow_line (run_all fns is) k = ''>>> CALL '' @ f @ '' (in '' @ py_list_str (ev_stack (run_all fns is ! k)) @ '')'')
    \<or> (ev_stack (run_all fns is ! k) \<noteq> [] \<and> ev_stack (run_all fns is ! Suc k) = butlast (ev_stack (run_all fns is ! k))
      \<and> arrow_line (run_all fns is) k = ''>>> RET FROM '' @ last (ev_stack (run_all fns is ! k)) @ '' (in ''
        @ py_list_str (ev_stack (run_all fns is ! Suc k)) @ '')'')"
proof -
  have "stack_step (ev_stack (run_all fns is ! k)) (ev_stack (run_all fns is ! Suc k))"
    using event_stacks(1) [of fns "is"] assms by (simp add: successively_conv_nth)
  then show ?thesis
    by (cases "ev_stack (run_all fns is ! k)" rule: rev_cases)
      (auto simp: stack_step_def arrow_line_def format_stack_change_def)
qed

end
