(* ===== verification/Score_Reports.thy ===== *)
theory Score_Reports
  imports Job_Reports Yaml
begin

text \<open>
  The reports of coverage and of synthesis, \<open>.gitlab-ci/scripts/report_coverage.py\<close> and \<open>report_synth.py\<close>, which
  compute with floating point numbers. Logs are texts, the expected numbers of gates come as loaded YAML.
\<close>

section \<open>Coverage\<close>

text \<open>\<open>\b\<close>, the name and \<open>\b\<close>; the scores are read from the last line that has the name, and a variable without a value is an error.\<close>

definition component_re :: "string \<Rightarrow> re" where
  "component_re component = seqs [Wordb, lit component, Wordb]"

definition score_re :: re where
  "score_re = seqs [Sat (\<lambda>c. \<not> is_space c), many1 (Sat (\<lambda>c. \<not> is_space c))]"

definition line_of :: "string \<Rightarrow> string \<Rightarrow> string option" where
  "line_of log component =
     foldl (\<lambda>line l. if re_search (component_re component) l \<noteq> None then Some l else line) None (splitlines log)"

definition scores_of :: "string \<Rightarrow> string \<Rightarrow> string list result" where
  "scores_of log component = rbind (of_option UnboundLocalError (line_of log component)) (\<lambda>line.
     ret (map (capture 0) (re_findall score_re line)))"

definition get_cc_scores :: "string \<Rightarrow> string \<Rightarrow> pyfloat list result" where
  "get_cc_scores cc_log component = rbind (scores_of cc_log component) (\<lambda>scores. mapR py_float (take 4 scores))"

definition first_of :: "'a list \<Rightarrow> 'a result" where
  "first_of xs = (case xs of [] \<Rightarrow> raise IndexError | x # _ \<Rightarrow> ret x)"

definition get_fc_scores :: "string \<Rightarrow> string \<Rightarrow> pyfloat list result" where
  "get_fc_scores fc_log component =
     rbind (scores_of fc_log component) (\<lambda>scores. rbind (first_of scores) (\<lambda>s. rbind (py_float s) (\<lambda>f. ret [f])))"

definition cc_components :: "string list" where
  "cc_components = [''i_cva6'', ''commit_stage_i'', ''controller_i'', ''csr_regfile_i'', ''ex_stage_i'', ''i_frontend'',
     ''id_stage_i'', ''issue_stage_i'']"

definition fc_components :: "string list" where
  "fc_components = [''ISA'', ''CSR access'', ''TRAPs'']"

text \<open>A row per component below the head of the table.\<close>

definition score_table ::
  "string \<Rightarrow> string list \<Rightarrow> (string \<Rightarrow> pyfloat list result) \<Rightarrow> string list \<Rightarrow> score table_metric result" where
  "score_table title head scores components =
     foldR (\<lambda>m component. rbind (scores component) (\<lambda>fs.
       ret (table_add_value (ScStr component # map ScFloat fs) m)))
       (table_add_value (map ScStr head) (table_metric title)) components"

definition report_coverage :: "environ \<Rightarrow> clock \<Rightarrow> string \<Rightarrow> string \<Rightarrow> score job result" where
  "report_coverage env clock cc_log fc_log =
     rbind (score_table ''Coverage results'' [''COMPONENT'', ''SCORE'', ''LINE'', ''COND'', ''TOGGLE'']
       (get_cc_scores cc_log) cc_components) (\<lambda>cc_score_metric.
     rbind (score_table ''Functional results'' [''FEATURE'', ''SCORE''] (get_fc_scores fc_log) fc_components) (\<lambda>fc_score_metric.
     rbind (get_cc_scores cc_log ''i_cva6'') (\<lambda>scores. rbind (first_of scores) (\<lambda>score.
     rbind (int_of_float score) (\<lambda>coverage_score.
     rbind (add_metric [TableM cc_score_metric] (new_report (Some (py_str coverage_score @ ''%'')))) (\<lambda>r.
     rbind (add_metric [TableM fc_score_metric] r) (finish env clock False)))))))"

section \<open>Synthesis\<close>

definition ignored_warning :: "string list" where
  "ignored_warning = [''RM-Error'', ''TFCHK-014'', ''TFCHK-012'', ''TFCHK-049'', ''MV-021'', ''MV-028'', ''TLUP-004'', ''TLUP-005'',
     ''TIM-164'', ''PWR-890'', ''PWR-80'', ''OPT-1413'']"

text \<open>The errors and the warnings of the log; the names of the foundry and of the technology are looked up line by line.\<close>

definition synth_line :: "environ \<Rightarrow> string list \<times> string list \<Rightarrow> string \<Rightarrow> (string list \<times> string list) result" where
  "synth_line env = (\<lambda>(error_log, warning_log) line.
     if list_ex (\<lambda>el. contains el line) ignored_warning then ret (error_log, warning_log)
     else rbind (env_get env ''FOUNDRY_PATH'') (\<lambda>foundry.
       if contains foundry line then ret (error_log, warning_log)
       else rbind (env_get env ''TECH_NAME'') (\<lambda>tech.
         if contains tech line then ret (error_log, warning_log)
         else ret (error_log @ (if contains ''Error: '' line then [line] else []),
                   warning_log @ (if contains ''Warning: '' line then [line] else [])))))"

definition synth_log :: "environ \<Rightarrow> string \<Rightarrow> string log_metric result" where
  "synth_log env log =
     rbind (foldR (synth_line env) ([], []) (splitlines log)) (\<lambda>(error_log, warning_log).
     ret ((log_metric ''Synthesis full log'')\<lparr>lm_values := error_log @ warning_log\<rparr>))"

definition blanks :: re where "blanks = many (lit '' '')"

definition decimal_re :: re where
  "decimal_re = seqs [many (Sat is_digit), lit ''.'', many (Sat is_digit)]"

definition area_re :: re where
  "area_re = seqs [LineStart,
     Group 1 (Alt (lit ''Combinational area'') (Alt (lit ''Buf/Inv area'') (Alt (lit ''Noncombinational area'')
       (lit ''Macro/Black Box area'')))),
     lit '':'', blanks, Group 2 decimal_re, LineEnd]"

definition subcell_re :: re where
  "subcell_re = seqs [lit ''/'', many (Sat is_word_char)]"

definition hier_re :: re where
  "hier_re = seqs ([LineStart, Group 1 (seqs [many (Sat is_word_char), opt (Seq subcell_re (opt subcell_re))])]
     @ concat (map (\<lambda>n. [blanks, Group n decimal_re]) [2..<7]) @ [blanks, Group 7 (many (Sat is_word_char)), LineEnd])"

definition path_re :: re where
  "path_re = seqs [Bol, lit ''pd/synth/cva6_'', Group 1 (many1 (Sat (\<lambda>c. c \<noteq> CHR ''/'')))]"

text \<open>\<open>int(kgates * 1000)\<close>, and the share of the area of a kind of cells.\<close>

definition kgates_of :: "pyfloat \<Rightarrow> int \<Rightarrow> pyfloat result" where
  "kgates_of area kgate_ratio = float_div_int area kgate_ratio"

definition gates_of :: "pyfloat \<Rightarrow> int result" where
  "gates_of kgates = rbind (float_mul_int kgates 1000) int_of_float"

definition share_of :: "pyfloat \<Rightarrow> string \<Rightarrow> int result" where
  "share_of total_area area =
     (if is_zero total_area then ret 0
      else rbind (py_float area) (\<lambda>a. rbind (float_div a total_area) (\<lambda>q. rbind (float_mul_int q 100) int_of_float)))"

definition share_row :: "pyfloat \<Rightarrow> string table_metric \<Rightarrow> groups \<Rightarrow> string table_metric result" where
  "share_row total_area m g = rbind (share_of total_area (capture 2 g)) (\<lambda>rel_area.
     ret (table_add_value [capture 1 g, py_str rel_area @ '' %''] m))"

text \<open>The target is part of the path of the report; the number of gates may differ from the expected one by less than 500.\<close>

definition check_gates :: "string \<Rightarrow> yaml \<Rightarrow> int \<Rightarrow> string table_metric \<Rightarrow> string table_metric result" where
  "check_gates log_path expected gates m = (case re_match path_re log_path of
     None \<Rightarrow> raise (GenericException (''unexpected file name: '' @ log_path))
   | Some (x, g) \<Rightarrow>
       let target = capture 1 g in
       rbind (y_in target expected) (\<lambda>known.
       if \<not> known then raise (GenericException (''unexpected target: '' @ target))
       else rbind (y_index expected target) (\<lambda>e. rbind (y_index e ''gates'') (\<lambda>v. rbind (as_int v) (\<lambda>v.
         let diff = gates - v in ret (if \<bar>diff\<bar> \<ge> 500 then metric_fail m else m))))))"

definition hier_row :: "int \<Rightarrow> string table_metric \<Rightarrow> groups \<Rightarrow> string table_metric result" where
  "hier_row kgate_ratio m g =
     rbind (py_float (capture 2 g)) (\<lambda>area. rbind (float_div_int area kgate_ratio) (\<lambda>kgates.
     rbind (py_float (capture 3 g)) (\<lambda>share. rbind (int_of_float share) (\<lambda>percent.
     ret (table_add_value [capture 1 g, format_fixed 3 kgates @ '' kGates'', py_str percent @ '' %''] m)))))"

definition report_synth :: "environ \<Rightarrow> clock \<Rightarrow> yaml \<Rightarrow> string \<Rightarrow> string \<Rightarrow> string \<Rightarrow> string job result" where
  "report_synth env clock expected log_path log synthesis_log =
     rbind (env_get env ''NAND2_AREA'') (\<lambda>nand2. rbind (py_int 10 nand2) (\<lambda>kgate_ratio.
     rbind (synth_log env synthesis_log) (\<lambda>log_metric.
     let global_val = re_findall area_re log; hier = re_findall hier_re log in
     rbind (first_of hier) (\<lambda>top. rbind (py_float (capture 2 top)) (\<lambda>total_area.
     rbind (kgates_of total_area kgate_ratio) (\<lambda>kgates. rbind (gates_of kgates) (\<lambda>gates.
     rbind (foldR (share_row total_area) (table_add_value [''Total area'', py_str gates @ '' Gates''] (table_metric ''Global results''))
       global_val) (\<lambda>result_metric.
     rbind (check_gates log_path expected gates result_metric) (\<lambda>result_metric.
     rbind (foldR (hier_row kgate_ratio) (table_metric ''Hierarchies details'') hier) (\<lambda>hier_metric.
     rbind (int_of_float kgates) (\<lambda>k.
     rbind (add_metric [TableM result_metric, TableM hier_metric, LogM log_metric] (new_report (Some (py_str k @ '' kGates''))))
       (finish env clock False))))))))))))"

end
