(* ===== verification/Score_Facts.thy ===== *)
theory Score_Facts
  imports Score_Reports Report_Facts Py_Float_Facts
begin

text \<open>
  The verdict of the synthesis report follows the exact number of gates, whatever the three roundings of the computation;
  the label of the coverage report is read from the line of the core.
\<close>

declare base_of.simps [simp del]

section \<open>The number of gates\<close>

lemma finite_cases: "int_of_float f = Inr i \<Longrightarrow> is_finite f"
  by (cases f) auto

lemma mul_finite:
  assumes "is_finite (float_mul f g)" "nonneg_double g" "0 < value_of g"
  shows "is_finite f"
proof -
  obtain m e where "g = Fin False m e" "0 \<le> m" by (rule nonneg_doubleE [OF assms(2)])
  with assms(1,3) show ?thesis by (cases f) (auto split: if_splits)
qed

lemma quot_finite: "is_finite (float_quot f g) \<Longrightarrow> nonneg_double g \<Longrightarrow> is_finite f"
  by (erule nonneg_doubleE, cases f) auto

text \<open>Three roundings of a quotient times 1000.\<close>

lemma error_chain:
  assumes "0 \<le> A" "1 \<le> R" "off_by A' A" "off_by K (A' / R)" "off_by G (K * 1000)" "1000 * (A / R) \<le> 2 ^ 40"
  shows "\<bar>G - 1000 * (A / R)\<bar> < 1"
proof -
  define u where "u = unit_roundoff"
  define X where "X = A / R"
  define t where "t = (X + 1) * u"
  have u: "u = 1 / 2 ^ 53" by (simp add: u_def unit_roundoff_def power_int_def inverse_eq_divide power_divide)
  have X: "0 \<le> X" "1000 * X \<le> 2 ^ 40" using assms by (simp_all add: X_def)
  have t: "0 \<le> t" "t * u \<le> t / 3000"
  proof -
    show "0 \<le> t" using X by (simp add: t_def u)
    then have "t * u \<le> t * (1 / 3000)" by (rule mult_left_mono [rotated]) (simp add: u)
    then show "t * u \<le> t / 3000" by simp
  qed
  have small: "4001 * t < 1" using X by (simp add: t_def u)
  have "\<bar>A' / R - X\<bar> = \<bar>A' - A\<bar> / R" using assms(2) by (simp add: X_def flip: diff_divide_distrib)
  also have "\<dots> \<le> (A + 1) * u / R" using assms(2,3) by (intro divide_right_mono) (simp_all add: off_by_def u_def)
  also have "\<dots> = (A / R + 1 / R) * u" by (simp add: add_divide_distrib algebra_simps)
  also have "\<dots> \<le> t" unfolding t_def X_def using assms(2) by (intro mult_right_mono) (simp_all add: u)
  finally have quot: "\<bar>A' / R - X\<bar> \<le> t" .
  have "\<bar>K - A' / R\<bar> \<le> (A' / R + 1) * u" using assms(4) by (simp add: off_by_def u_def)
  also have "\<dots> \<le> (X + 1 + t) * u" using quot by (intro mult_right_mono) (simp_all add: u)
  also have "\<dots> = t + t * u" by (simp add: t_def distrib_right)
  finally have K: "\<bar>K - X\<bar> \<le> 3 * t" using quot t by linarith
  have "\<bar>G - K * 1000\<bar> \<le> (K * 1000 + 1) * u" using assms(5) by (simp add: off_by_def u_def)
  also have "\<dots> \<le> (1000 * (X + 1) + 3000 * t) * u" using K by (intro mult_right_mono) (simp_all add: u)
  also have "\<dots> = 1000 * t + 3000 * (t * u)" by (simp add: t_def algebra_simps)
  finally show ?thesis using K t small unfolding X_def by linarith
qed

text \<open>One gate of difference is due to the truncation, the roundings add less than another one.\<close>

lemma gates_close:
  assumes area: "py_float t = Inr whole" "exact_value t = Some (n, d)"
    and run: "kgates_of whole ratio = Inr kgates" "gates_of kgates = Inr gates"
    and size: "0 < ratio" "ratio < 2 ^ 53" "1000 * n \<le> 2 ^ 40 * (d * ratio)"
  shows "\<bar>real_of_int gates - 1000 * (real_of_int n / real_of_int d / real_of_int ratio)\<bar> < 2"
proof -
  note exact = py_float_exact [OF area(2)]
  have whole: "whole = nearest False n d" using area(1) exact(1) by simp
  obtain r where r: "float_of_int ratio = Inr r" "nonneg_double r" "value_of r = real_of_int ratio"
    by (rule float_of_int_exact [OF size(1,2)])
  obtain k where k: "float_of_int 1000 = Inr k" "nonneg_double k" "value_of k = 1000"
    by (rule float_of_int_exact [of 1000]) auto
  from run(1) r(1) have kgates: "kgates = float_quot whole r"
    by (auto simp: kgates_of_def float_div_int_def float_div_def split: if_splits)
  from run(2) k(1) have gates: "int_of_float (float_mul kgates k) = Inr gates"
    by (auto simp: gates_of_def float_mul_int_def)
  have fin: "is_finite (float_mul kgates k)" by (rule finite_cases [OF gates])
  have fin2: "is_finite kgates" by (rule mul_finite [OF fin k(2)]) (simp add: k)
  have fin3: "is_finite whole" using quot_finite [OF _ r(2), of whole] fin2 by (simp add: kgates)
  define A where "A = real_of_int n / real_of_int d"
  define R where "R = real_of_int ratio"
  define A' where "A' = value_of whole"
  define K where "K = value_of kgates"
  define G where "G = value_of (float_mul kgates k)"
  have bounds: "0 \<le> A" "1 \<le> R" "1000 * (A / R) \<le> 2 ^ 40"
  proof -
    have "real_of_int (1000 * n) \<le> real_of_int (2 ^ 40 * (d * ratio))" using size(3) by (simp only: of_int_le_iff)
    then show "1000 * (A / R) \<le> 2 ^ 40" using exact(3) size(1) by (simp add: A_def R_def field_simps)
  qed (use exact size(1) in \<open>simp_all add: A_def R_def\<close>)
  have whole_ok: "nonneg_double whole" "off_by A' A"
    using nearest_nonneg [OF exact(2,3)] nearest_off_by [OF exact(2,3)] fin3 by (simp_all add: whole A_def A'_def)
  have "0 < value_of r" using r(3) size(1) by simp
  from quot_off_by [OF whole_ok(1) r(2) this] fin2 have K: "nonneg_double kgates" "off_by K (A' / R)"
    by (simp_all add: kgates K_def A'_def R_def r(3))
  from mul_off_by [OF K(1) k(2) fin] have G: "nonneg_double (float_mul kgates k)" "off_by G (K * 1000)"
    by (simp_all add: G_def K_def k(3))
  have "gates = \<lfloor>G\<rfloor>" using gates int_of_nonneg [OF G(1)] by (simp add: G_def)
  moreover have "\<bar>G - 1000 * (A / R)\<bar> < 1"
    by (rule error_chain [OF bounds(1,2) whole_ok(2) K(2) G(2) bounds(3)])
  ultimately show ?thesis unfolding A_def R_def by linarith
qed

section \<open>The verdict of the synthesis\<close>

lemma share_rows:
  "foldR (share_row total_area) m gs = Inr m' \<Longrightarrow> m_failed m' = m_failed m \<and> m_sort_index m' = m_sort_index m"
  by (induction gs arbitrary: m) (fastforce simp: share_row_def)+

lemma hier_rows:
  "foldR (hier_row ratio) m gs = Inr m' \<Longrightarrow> m_failed m' = m_failed m \<and> m_sort_index m' = m_sort_index m"
  by (induction gs arbitrary: m) (fastforce simp: hier_row_def)+

lemma synth_log_fresh: "synth_log env rpt = Inr m \<Longrightarrow> \<not> m_failed m \<and> m_sort_index m = None"
  by (auto simp: synth_log_def log_metric_def)

lemma check_gates_Inr:
  assumes "check_gates log_path expected gates m = Inr m'"
    "re_match path_re log_path = Some (x, g)" "y_index expected (capture 1 g) = Inr e" "y_index e ''gates'' = Inr (YInt v)"
  shows "m_failed m' = (m_failed m \<or> 500 \<le> \<bar>gates - v\<bar>)" "m_sort_index m' = m_sort_index m"
  using assms by (auto simp: check_gates_def Let_def as_int_def split: if_splits)

lemma check_gates_sort: "check_gates log_path expected gates m = Inr m' \<Longrightarrow> m_sort_index m' = m_sort_index m"
  by (auto simp: check_gates_def Let_def split: option.splits if_splits)

lemma base_of_log [simp]:
  "m_failed (base_of (LogM m)) = m_failed m" "m_sort_index (base_of (LogM m)) = m_sort_index m"
  by (simp_all add: base_of.simps metric.truncate_def)

lemma added_metrics:
  assumes "add_metric ms r = Inr r'" "numbered r" "list_all (\<lambda>m. m_sort_index (base_of m) = None) ms"
  shows "numbered r'" "rp_label r' = rp_label r" "rp_failed r' = (rp_failed r \<or> list_ex (\<lambda>m. m_failed (base_of m)) ms)"
  using add_fresh_metrics [OF assms(2,3)] assms(1) by auto

lemma fresh_report: "numbered (new_report l)" "\<not> rp_failed (new_report l)" "rp_label (new_report l) = l"
  by (simp_all add: numbered_def new_report_def)

lemma synth_steps:
  assumes "report_synth env clock expected log_path rpt synthesis_log = Inr job"
    "env ''NAND2_AREA'' = Some nand2" "py_int 10 nand2 = Inr ratio" "re_findall hier_re rpt = core # cells"
  obtains area kgates gates m m' where "py_float (capture 2 core) = Inr area" "kgates_of area ratio = Inr kgates"
    "gates_of kgates = Inr gates" "\<not> m_failed m" "check_gates log_path expected gates m = Inr m'"
    "rp_failed (jb_report job) = m_failed m'"
proof -
  from assms obtain lm area kgates gates m m' hm k r where s: "synth_log env synthesis_log = Inr lm"
      "py_float (capture 2 core) = Inr area" "kgates_of area ratio = Inr kgates" "gates_of kgates = Inr gates"
      "foldR (share_row area) (table_add_value [''Total area'', py_str gates @ '' Gates''] (table_metric ''Global results''))
         (re_findall area_re rpt) = Inr m"
      "check_gates log_path expected gates m = Inr m'"
      "foldR (hier_row ratio) (table_metric ''Hierarchies details'') (core # cells) = Inr hm"
      "add_metric [TableM m', TableM hm, LogM lm] (new_report (Some (py_str k @ '' kGates''))) = Inr r"
      "finish env clock False r = Inr job"
    by (auto simp: report_synth_def env_get_def first_of_def Let_def simp del: foldR.simps)
  note m = share_rows [OF s(5), simplified]
  note hm = hier_rows [OF s(7), simplified]
  note lm = synth_log_fresh [OF s(1)]
  have m': "m_sort_index m' = None" using check_gates_sort [OF s(6)] m by simp
  have "rp_failed r = m_failed m'"
    using added_metrics(3) [OF s(8) fresh_report(1)] m hm lm m' by (simp add: fresh_report)
  moreover have "jb_report job = r" using s(9) by (auto simp: finish_def)
  ultimately show ?thesis using s(2,3,4,6) m by (intro that) auto
qed

text \<open>
  C35: the synthesis job judges the exact number of gates: if it (1000 times the area, as it is written in the report,
  over the area of a NAND gate) is at least 501 away from the number expected of the target in the path, the report
  fails, if it is at most 498 away, it passes, although the script computes with floating point numbers and cuts
  off the fraction. This holds up to \<open>2 ^ 40\<close> gates.
\<close>

theorem synth_verdict:
  assumes "report_synth env clock expected log_path rpt synthesis_log = Inr job"
    "re_findall hier_re rpt = core # cells" "exact_value (capture 2 core) = Some (n, d)"
    "env ''NAND2_AREA'' = Some nand2" "py_int 10 nand2 = Inr ratio" "0 < ratio" "ratio < 2 ^ 53"
    "1000 * n \<le> 2 ^ 40 * (d * ratio)"
    "re_match path_re log_path = Some (x, g)" "y_index expected (capture 1 g) = Inr e" "y_index e ''gates'' = Inr (YInt v)"
  shows "(501 * (d * ratio) \<le> \<bar>1000 * n - v * (d * ratio)\<bar> \<longrightarrow> rp_failed (jb_report job))
    \<and> (\<bar>1000 * n - v * (d * ratio)\<bar> \<le> 498 * (d * ratio) \<longrightarrow> \<not> rp_failed (jb_report job))"
proof (intro conjI impI)
  obtain area kgates gates m m' where s: "py_float (capture 2 core) = Inr area" "kgates_of area ratio = Inr kgates"
    "gates_of kgates = Inr gates" "\<not> m_failed m" "check_gates log_path expected gates m = Inr m'"
    "rp_failed (jb_report job) = m_failed m'"
    by (rule synth_steps [OF assms(1,4,5,2)])
  define D where "D = real_of_int (d * ratio)"
  have D: "0 < D" using py_float_exact(3) [OF assms(3)] assms(6) by (simp add: D_def)
  define G where "G = real_of_int (1000 * n) / D"
  have close: "\<bar>real_of_int gates - G\<bar> < 2"
    using gates_close [OF s(1) assms(3) s(2,3) assms(6-8)] by (simp add: G_def D_def)
  have dist: "real_of_int \<bar>1000 * n - v * (d * ratio)\<bar> = \<bar>G - real_of_int v\<bar> * D"
  proof -
    have "G * D = real_of_int (1000 * n)" using D by (simp add: G_def)
    then have "real_of_int (1000 * n - v * (d * ratio)) = (G - real_of_int v) * D" by (simp add: D_def left_diff_distrib)
    then show ?thesis using D by (simp add: abs_mult del: of_int_diff of_int_mult)
  qed
  have failed: "rp_failed (jb_report job) \<longleftrightarrow> 500 \<le> \<bar>gates - v\<bar>"
    using check_gates_Inr(1) [OF s(5) assms(9-11)] s(4,6) by simp
  show "rp_failed (jb_report job)" if "501 * (d * ratio) \<le> \<bar>1000 * n - v * (d * ratio)\<bar>"
  proof -
    from that have "real_of_int (501 * (d * ratio)) \<le> real_of_int \<bar>1000 * n - v * (d * ratio)\<bar>" by (simp only: of_int_le_iff)
    then have "501 * D \<le> \<bar>G - real_of_int v\<bar> * D" unfolding dist by (simp add: D_def)
    then have "501 \<le> \<bar>G - real_of_int v\<bar>" using D by simp
    with close have "499 < \<bar>real_of_int gates - real_of_int v\<bar>" by linarith
    then show ?thesis unfolding failed by linarith
  qed
  show "\<not> rp_failed (jb_report job)" if "\<bar>1000 * n - v * (d * ratio)\<bar> \<le> 498 * (d * ratio)"
  proof -
    from that have "real_of_int \<bar>1000 * n - v * (d * ratio)\<bar> \<le> real_of_int (498 * (d * ratio))" by (simp only: of_int_le_iff)
    then have "\<bar>G - real_of_int v\<bar> * D \<le> 498 * D" unfolding dist by (simp add: D_def)
    then have "\<bar>G - real_of_int v\<bar> \<le> 498" using D by simp
    with close have "\<bar>real_of_int gates - real_of_int v\<bar> < 500" by linarith
    then show ?thesis unfolding failed by linarith
  qed
qed

definition synth_env :: environ where
  "synth_env = map_of [(''NAND2_AREA'', ''1000'')]"

definition synth_clock :: clock where
  "synth_clock = \<lparr>ck_timestamp = (\<lambda>t. Inr 0), ck_now = 1, ck_digits = ''1''\<rparr>"

definition gates_file :: yaml where
  "gates_file = YMap [(''x'', YMap [(''gates'', YInt 700)])]"

definition area_report :: string where
  "area_report = ''cva6 700.4 100.0 5.0 4.0 0.0 x'' @ [newline]"

text \<open>The expected number of gates, and 501 gates more than the expected number.\<close>

theorem synth_verdict_witness:
  "\<exists>job job'. report_synth synth_env synth_clock gates_file ''pd/synth/cva6_x/r'' area_report [] = Inr job
    \<and> \<not> rp_failed (jb_report job)
    \<and> report_synth synth_env synth_clock (YMap [(''x'', YMap [(''gates'', YInt 199)])]) ''pd/synth/cva6_x/r'' area_report [] = Inr job'
    \<and> rp_failed (jb_report job')"
proof -
  have env: "synth_env ''NAND2_AREA'' = Some ''1000''" "py_int 10 ''1000'' = Inr 1000" by code_simp+
  have cells: "case re_findall hier_re area_report of core # cells \<Rightarrow> cells = [] \<and> exact_value (capture 2 core) = Some (7004, 10) | _ \<Rightarrow> False"
    by code_simp
  then obtain core where core: "re_findall hier_re area_report = core # []" "exact_value (capture 2 core) = Some (7004, 10)"
    by (auto split: list.splits)
  have path: "case re_match path_re ''pd/synth/cva6_x/r'' of Some (y, g) \<Rightarrow> capture 1 g = ''x'' | None \<Rightarrow> False" by code_simp
  then obtain y g where path: "re_match path_re ''pd/synth/cva6_x/r'' = Some (y, g)" "capture 1 g = ''x''"
    by (auto split: option.splits)
  have "case report_synth synth_env synth_clock gates_file ''pd/synth/cva6_x/r'' area_report [] of Inr job \<Rightarrow> True | _ \<Rightarrow> False"
    by code_simp
  then obtain job where job: "report_synth synth_env synth_clock gates_file ''pd/synth/cva6_x/r'' area_report [] = Inr job"
    by (auto split: sum.splits)
  have "case report_synth synth_env synth_clock (YMap [(''x'', YMap [(''gates'', YInt 199)])]) ''pd/synth/cva6_x/r'' area_report [] of
      Inr job \<Rightarrow> True | _ \<Rightarrow> False" by code_simp
  then obtain job' where job': "report_synth synth_env synth_clock (YMap [(''x'', YMap [(''gates'', YInt 199)])])
      ''pd/synth/cva6_x/r'' area_report [] = Inr job'"
    by (auto split: sum.splits)
  have "\<not> rp_failed (jb_report job)"
    using synth_verdict [OF job core env _ _ _ path(1), where e = "YMap [(''gates'', YInt 700)]" and v = 700] path(2)
    by (simp add: gates_file_def y_index_def dict_get_def)
  moreover have "rp_failed (jb_report job')"
    using synth_verdict [OF job' core env _ _ _ path(1), where e = "YMap [(''gates'', YInt 199)]" and v = 199] path(2)
    by (simp add: y_index_def dict_get_def)
  ultimately show ?thesis using job job' by blast
qed

section \<open>Coverage\<close>

lemma score_fold:
  "foldR (\<lambda>m component. rbind (scores component) (\<lambda>fs. ret (table_add_value (ScStr component # map ScFloat fs) m))) m cs = Inr m'
   \<Longrightarrow> \<exists>rows. mapR scores cs = Inr rows \<and> m_failed m' = m_failed m \<and> m_sort_index m' = m_sort_index m
     \<and> tm_values m' = tm_values m @ map2 (\<lambda>c fs. ScStr c # map ScFloat fs) cs rows"
proof (induction cs arbitrary: m)
  case (Cons c cs)
  from Cons.prems obtain fs where fs: "scores c = Inr fs" and rest: "foldR (\<lambda>m component. rbind (scores component) (\<lambda>fs.
      ret (table_add_value (ScStr component # map ScFloat fs) m))) (table_add_value (ScStr c # map ScFloat fs) m) cs = Inr m'" by auto
  from Cons.IH [OF rest] fs show ?case by (auto simp: table_add_value_def)
qed simp

text \<open>The coverage report has a row for every component and passes whatever the scores are; its label is the score of the core.\<close>

lemma coverage_reported:
  assumes "report_coverage env clock cc_log fc_log = Inr job"
  shows "\<exists>cc fc f fs i. mapR (get_cc_scores cc_log) cc_components = Inr cc \<and> mapR (get_fc_scores fc_log) fc_components = Inr fc
    \<and> get_cc_scores cc_log ''i_cva6'' = Inr (f # fs) \<and> int_of_float f = Inr i
    \<and> rp_label (jb_report job) = Some (py_str i @ ''%'') \<and> \<not> rp_failed (jb_report job)"
proof -
  from assms obtain cm fm scores f i r r' where s:
      "score_table ''Coverage results'' [''COMPONENT'', ''SCORE'', ''LINE'', ''COND'', ''TOGGLE''] (get_cc_scores cc_log) cc_components = Inr cm"
      "score_table ''Functional results'' [''FEATURE'', ''SCORE''] (get_fc_scores fc_log) fc_components = Inr fm"
      "get_cc_scores cc_log ''i_cva6'' = Inr scores" "first_of scores = Inr f" "int_of_float f = Inr i"
      "add_metric [TableM cm] (new_report (Some (py_str i @ ''%''))) = Inr r" "add_metric [TableM fm] r = Inr r'"
      "finish env clock False r' = Inr job"
    by (auto simp: report_coverage_def)
  from score_fold [OF s(1) [unfolded score_table_def]] obtain cc
    where cc: "mapR (get_cc_scores cc_log) cc_components = Inr cc" "\<not> m_failed cm" "m_sort_index cm = None" by auto
  from score_fold [OF s(2) [unfolded score_table_def]] obtain fc
    where fc: "mapR (get_fc_scores fc_log) fc_components = Inr fc" "\<not> m_failed fm" "m_sort_index fm = None" by auto
  have r: "numbered r" "\<not> rp_failed r" "rp_label r = Some (py_str i @ ''%'')"
    using added_metrics [OF s(6) fresh_report(1)] cc by (simp_all add: fresh_report)
  have r': "\<not> rp_failed r'" "rp_label r' = Some (py_str i @ ''%'')"
    using added_metrics [OF s(7) r(1)] fc r by simp_all
  obtain fs where "scores = f # fs" using s(4) by (cases scores) (auto simp: first_of_def)
  moreover have "jb_report job = r'" using s(8) by (auto simp: finish_def)
  ultimately show ?thesis using cc(1) fc(1) s(3,5) r' by auto
qed

end
