(* ===== verification/Spec2Isabelle.thy ===== *)
theory Spec2Isabelle
  imports Trace_Facts Profile_Facts Config_Facts Csr_Facts Isa_Doc_Facts Factorizer_Facts User_Config_Facts
    Boot_Facts Convert_Facts Spec_Builder_Facts Report_Facts Flist_Facts Vendor_Facts Sim_Facts Tools Profile_Main
    Score_Facts
begin

text \<open>
  A development for the Python tools of CVA6 (Ariane), a RISC-V core: the programs around the SystemVerilog
  of the core, under \<open>perf-model\<close>, \<open>config/gen_from_riscv_config\<close>, \<open>util\<close>, \<open>corev_apu/bootrom\<close>, \<open>verif/sim\<close>,
  \<open>docs/scripts\<close> and \<open>.gitlab-ci/scripts\<close>. They share no state and meet in files: the simulation driver runs the
  simulators, which write logs, the converters and the performance model read them, the report scripts judge them, the
  profiler reads the trace of a simulation with its cycles, the configuration generators turn the output of
  riscv-config into documents and a Spike configuration. Every file of the operating system is its text.

  The language. \<open>Prelude\<close>: exceptions are values, a statement that may raise gives \<open>Inl\<close> the exception or
  \<open>Inr\<close> its value (\<open>rbind\<close>, \<open>foldR\<close> and \<open>mapR\<close> are sequence, loop and comprehension), a loop that may
  not end gives \<open>None\<close> (\<open>obind\<close>, \<open>ofold\<close>); the locales \<open>loop_invariant\<close> and its
  kin hold the rules for loops. \<open>Py_Str\<close>: strings and the reading and printing of integers, with their round
  trips. \<open>Py_Dict\<close>: dictionaries as association lists in insertion order. \<open>Py_Regex\<close>: a backtracking matcher,
  with rules (\<open>eats\<close>, \<open>rejects\<close>) that predict a first match without running it. \<open>Yaml\<close>: the
  values of a loaded YAML file with the accessors of Python. \<open>Py_Float\<close>: the floating point numbers of Python, doubles as
  mantissa and exponent, every operation rounded once, with reading and printing; \<open>Py_Float_Facts\<close>: no double is
  closer than the one chosen, the error of a rounding, and that \<open>int(a / b)\<close> is exact below \<open>2 ^ 53\<close>. \<open>Py_IO\<close>: scripts that run commands and change files
  are programs that map the effects so far to a result and all effects, with what the outside answers as functions of
  the effects so far; \<open>emits\<close> says which effects a program may have, and the locale \<open>effect_runner\<close> is the contract of
  the operations with one effect, interpreted for the vendor tool and for the simulation driver. Python's integers are \<open>int\<close>; the bytes of a
  boot image are \<open>8 word\<close>.

  The performance model, \<open>perf-model/isa.py\<close>, \<open>model.py\<close> and \<open>cycle_diff.py\<close>. \<open>Isa\<close> is the decoder (registers, the
  sixteen formats, the queries of \<open>Instr\<close>), \<open>Isa_Facts\<close> its laws: the displacements it reads back, the bounds of
  the registers, and the hazard queries, which answer exactly whether two instructions can be exchanged over a file
  of registers. \<open>Instruction\<close>, \<open>Iq\<close> (the byte counter of the
  instruction queue), \<open>Predictors\<close> (return address stack and branch history table) and \<open>Fus\<close> (functional
  units) are the parts of the class \<open>Model\<close>: the queue with its contract as the locale \<open>fetch_queue\<close>, the
  predictors against what they should say, without their state: the stack against the matching of calls and returns,
  the table against the majority of the outcomes of a slot. \<open>Perf_Model\<close> is the class itself: the record \<open>model\<close> holds the fields the code keeps, with the
  instructions as identities and the events in one log. \<open>Perf_Order\<close> shows that a cycle refines an in-order
  pipeline, \<open>Perf_Events\<close> that the events of an instruction are the log read per instruction, with one
  issue, one done and one commit at the right distance, \<open>Perf_Progress\<close> that every run ends, by a measure
  of the work left. \<open>Perf_Claims\<close> collects the properties of cycles and of runs. \<open>Perf_Trace\<close> is the text side
  (traces read, annotated and compared), \<open>Trace_Facts\<close> its round trips and the success of \<open>main\<close>.

  The profiler, \<open>perf-model/profile.py\<close>. \<open>Profile\<close>: functions of an object dump, the call stack, the
  events of \<open>run_all\<close> and the statistics of \<open>build_stats\<close>. \<open>Profile_Facts\<close>: the events cut the run into
  consecutive pieces, and the statistics give each cycle to one entry. \<open>Profile_Main\<close>: the script, with the trace it
  prints, where each call and return but the last stands before the line of its instruction.

  The configuration generators, \<open>config/gen_from_riscv_config/scripts\<close>. \<open>Config_Update\<close>: the updaters of \<open>libs\<close>
  (\<open>csr_updater.py\<close>, \<open>isa_updater.py\<close>, \<open>spike_updater.py\<close>). \<open>Csr_Factorizer\<close>: \<open>csr_factorizer.py\<close>. \<open>Csr_Doc\<close>,
  \<open>Csr_Blocks\<close> and \<open>Isa_Doc\<close>: \<open>utils.py\<close>, that is the parsers of registers and instructions, the writers in three
  markup languages, the Spike generator, and the choice made by \<open>riscv_config_gen.py\<close>. A
  document is the list of the calls made on the third-party writers RstCloth, MdUtils and Mako.
  \<open>Config_Facts\<close>: the updaters keep the keys and are idempotent, which extensions are documented and by which entry, when the Spike
  updater fails. \<open>Factorizer_Facts\<close>: what becomes of families of numbered registers, one after the other, and that the
  others stay. \<open>Csr_Facts\<close>: the reset values of the fields add up to that of the register, and a document
  is complete and sorted; also that the Markdown document fails. \<open>Isa_Doc_Facts\<close>: the tables of instructions
  are rectangular, so that no writer reads past the end of a column, and the AsciiDoc writer fails exactly on a cell that is no
  text; also how the PMP regions are counted.

  The configuration editor, \<open>util/user_config.py\<close>. \<open>User_Config\<close>: the statements of a package, the casts, numbers
  and arrays, and the changes; the loop that follows references is a \<open>partial_function\<close>. \<open>User_Config_Facts\<close>: it
  ends exactly when no cycle is reachable; one change edits the value of one statement.

  The boot ROM, \<open>corev_apu/bootrom/gen_rom.py\<close> and its copy. \<open>Boot_Rom\<close>: padding, both arrays, the templates
  of Python's string library. \<open>Boot_Facts\<close>: read by a C compiler and by a SystemVerilog tool, both files hold
  the image.

  The log converters, \<open>verif/sim/cva6_spike_log_to_trace_csv.py\<close> and \<open>verilator_log_to_trace_csv.py\<close>. \<open>Trace_Convert\<close>:
  patterns, operands, and the reader as a state machine over lines; what lies in riscv-dv (the
  fresh entry, pseudo instructions, register names) is a record of parameters, \<open>externals\<close>. \<open>Convert_Facts\<close>: the
  reader is a segmentation of the visible lines, proved once in the locale \<open>dialect_laws\<close> for both.

  The simulation driver, \<open>verif/sim/cva6.py\<close>. \<open>Sim_Base\<close>: its effects, the world it runs in (riscv-dv's
  library, environment, tools), its options and \<open>re.sub\<close> with a template; \<open>Sim_Gen\<close>: seeds and the instruction generator in
  batches; \<open>Sim_Iss\<close>: compilation, the commands of the simulators, reports and the comparison of traces; \<open>Sim_Main\<close>:
  targets, versions, test lists and the main program, which uses \<open>User_Config\<close> for a derived target (its outcome is an
  argument, since the editor may not end). \<open>Sim_Facts\<close>: the batches partition the iterations, every simulator runs every
  round of every test, a fixed seed is used and never fails its assertion, ABI and ISA of every target fit; also that C tests
  of a list are never run and that the name of a list may lose letters.

  The vendor tool, \<open>util/vendor.py\<close>. \<open>Vendor\<close>: description and lock files, overrides, the import as a program with
  effects. \<open>Vendor_Facts\<close>: what it may change and where it reads, the revision it imports under a lock, and the lock an
  update writes. The flattener, \<open>util/flist_flattener.py\<close>. \<open>Flist\<close>: a \<open>partial_function\<close>, since includes may be
  cyclic; \<open>Flist_Facts\<close>: when it writes a text, when it ends in an error, and when it never returns.

  The specification builder, \<open>docs/scripts\<close>. \<open>Spec_Builder\<close>: parameters of the package, port tables, the list of ports
  that are tied, and the writers; \<open>Spec_Builder_Facts\<close>: every port is in the table or in a comment, and
  which part of the list a package decides: the ports of five parameters.

  The reports of continuous integration, \<open>.gitlab-ci/scripts\<close>. \<open>Report\<close>: metrics and the report tree of
  \<open>report_builder.py\<close>; \<open>Job_Reports\<close> and \<open>Score_Reports\<close>: the reports of the jobs; \<open>Pipeline\<close>: the merge of the job reports, the
  commit of the result and the messages to GitHub, with HTTP and the loader of YAML as parameters. \<open>Report_Facts\<close>: what
  a passing report of simulations says, that a pipeline passes exactly when every job does, and that no title of a
  commit escapes its quotes; also that the lint report compares numbers as text. \<open>Score_Facts\<close>: the verdict of the synthesis
  is that of exact arithmetic, three roundings notwithstanding.

  Small tools. \<open>Tools\<close>: the gate counts of \<open>pd/synth/scripts\<close>, the samples of \<open>util/parse_ila_trace.py\<close>, the coloured
  comparison, the two other scripts of the instruction tracer and the boot check under \<open>corev_apu\<close>, with the exit code of
  the boot check and the shape of the comparison.

  Bounds. \<open>re_findall\<close> runs on fuel, one more than the length of the text, and each round consumes a
  character. Characters are Latin-1, and the classes of patterns are those of ASCII. Keys of YAML files are strings,
  without anchors, and the names of registers hold no character special to patterns. Digits in
  the texts of numbers are those of ASCII; lengths of images are below \<open>2 ^ 53\<close>. Exceptions stand for their class: an output file written in part before one is not described.

  The recursion through imported test lists has Python's recursion limit as its fuel, after which Python raises
  RecursionError, as the model does. Arguments of programs: the answers of git, of the tools and of the file system, the HJSON
  and YAML loaders, \<open>textwrap\<close>, the clock, the environment and random numbers; temporary directories have a name
  and are not removed.

  Not modelled: the parsing of command lines by argparse (the options of the simulation driver and of the vendor tool are
  records), messages of progress and logs, the drawing of flame graphs (flameprof), of
  throughputs (matplotlib) and of the model (commented out in the code), as pure input and output; the documentation settings;
  third-party code under \<open>vendor\<close>; the hardware itself.
\<close>

end
